(* ===== verification/Prelude.thy ===== *)
theory Prelude
  imports Main "HOL-Library.AList"
begin

text \<open>
  Shared vocabulary of the mirenai development: the dictionaries of the source as
  insertion-ordered association lists, the sums over them that the counting buffers
  and the repositories share, Python's chunking of a list, and the collections of
  rewrite rules the component theories extend.
\<close>

named_theorems py_simps \<open>rewrite rules for the Python operations of the source\<close>
named_theorems buffer_simps \<open>definitions and rules of the in-memory buffers\<close>
named_theorems sql_simps \<open>rules for the statements of the repositories\<close>

section \<open>Types shared by the components\<close>

text \<open>
  A point of wall-clock time (a naive \<open>datetime\<close>) is an integer number of
  microseconds; a reading of the monotonic clock an integer number of nanoseconds.
\<close>

type_synonym datetime = int
type_synonym monotime = int
type_synonym ('k, 'v) dict = "('k \<times> 'v) list"

abbreviation usec_per_hour :: int where
  "usec_per_hour \<equiv> 3600000000"

abbreviation nsec_per_sec :: int where
  "nsec_per_sec \<equiv> 1000000000"

text \<open>
  \<open>moment.replace(minute=0, second=0, microsecond=0)\<close>, which every hourly component
  of the source defines again under the same name.
\<close>

definition floor_hour :: "datetime \<Rightarrow> datetime" where
  "floor_hour moment = moment - moment mod usec_per_hour"

lemma floor_hour_le [simp]: "floor_hour t \<le> t"
  by (simp add: floor_hour_def)

lemma floor_hour_gt: "t - usec_per_hour < floor_hour t"
proof -
  have "t mod usec_per_hour < usec_per_hour" by (rule pos_mod_bound) simp
  then show ?thesis by (simp add: floor_hour_def)
qed

lemma floor_hour_dvd [simp]: "usec_per_hour dvd floor_hour t"
  by (simp add: floor_hour_def)

lemma floor_hour_idem [simp]: "floor_hour (floor_hour t) = floor_hour t"
  by (simp add: floor_hour_def mod_diff_eq)

lemma floor_hour_mono: "s \<le> t \<Longrightarrow> floor_hour s \<le> floor_hour t"
proof -
  assume "s \<le> t"
  then have "s div usec_per_hour \<le> t div usec_per_hour" by (simp add: zdiv_mono1)
  then show ?thesis by (simp add: floor_hour_def minus_mod_eq_mult_div)
qed

section \<open>Dictionaries\<close>

text \<open>
  A Python dictionary keeps its insertion order: assigning an existing key changes the
  value in place, assigning a new key appends it (\<open>AList.update\<close>); \<open>del\<close> is
  \<open>AList.delete\<close>; a lookup is \<open>map_of\<close>.
\<close>

definition dict_get :: "('k, 'v) dict \<Rightarrow> 'k \<Rightarrow> 'v \<Rightarrow> 'v" where
  "dict_get d k v = (case map_of d k of None \<Rightarrow> v | Some w \<Rightarrow> w)"

abbreviation dict_set :: "'k \<Rightarrow> 'v \<Rightarrow> ('k, 'v) dict \<Rightarrow> ('k, 'v) dict" where
  "dict_set \<equiv> AList.update"

abbreviation dict_keys :: "('k, 'v) dict \<Rightarrow> 'k list" where
  "dict_keys d \<equiv> map fst d"

definition dict_wf :: "('k, 'v) dict \<Rightarrow> bool" where
  "dict_wf d \<longleftrightarrow> distinct (map fst d)"

lemma dict_wf_Nil [simp]: "dict_wf []"
  by (simp add: dict_wf_def)

lemma dict_wf_set [simp, intro]: "dict_wf d \<Longrightarrow> dict_wf (dict_set k v d)"
  by (simp add: dict_wf_def distinct_update)

lemma dict_wf_delete [simp, intro]: "dict_wf d \<Longrightarrow> dict_wf (AList.delete k d)"
  by (simp add: dict_wf_def distinct_delete)

lemma map_of_dict_set [simp]: "map_of (dict_set k v d) = (map_of d)(k \<mapsto> v)"
  by (simp add: update_conv')

lemma map_of_dict_delete [simp]: "map_of (AList.delete k d) = (map_of d)(k := None)"
  by (simp add: delete_conv')

lemma dict_get_set [simp]:
  "dict_get (dict_set k v d) k' w = (if k' = k then v else dict_get d k' w)"
  by (simp add: dict_get_def)

lemma length_dict_set:
  "length (dict_set k v d) = (if k \<in> set (map fst d) then length d else Suc (length d))"
  by (induction d) auto

lemma fst_dict_set: "fst ` set (dict_set k v d) = insert k (fst ` set d)"
  by (induction d) auto

lemma dict_set_notin: "k \<notin> set (map fst d) \<Longrightarrow> dict_set k v d = d @ [(k, v)]"
  by (induction d) auto

lemma map_of_None_keys: "map_of d k = None \<longleftrightarrow> k \<notin> fst ` set d"
  by (simp add: map_of_eq_None_iff)

lemma length_dict_delete_le: "length (AList.delete k d) \<le> length d"
  by (simp add: length_delete_le)

lemma length_dict_delete:
  assumes "dict_wf d" "k \<in> fst ` set d"
  shows "Suc (length (AList.delete k d)) = length d"
  using assms
proof (induction d)
  case Nil
  then show ?case by simp
next
  case (Cons p d)
  show ?case
  proof (cases "fst p = k")
    case True
    with Cons.prems have "k \<notin> fst ` set d" by (auto simp: dict_wf_def)
    then have "AList.delete k d = d" by simp
    with True show ?thesis by (cases p) simp
  next
    case False
    with Cons show ?thesis by (cases p) (auto simp: dict_wf_def)
  qed
qed

section \<open>Sums over dictionaries and rows\<close>

text \<open>The total that a list of rows carries for one key.\<close>

definition sum_by :: "('r \<Rightarrow> 'k) \<Rightarrow> ('r \<Rightarrow> int) \<Rightarrow> 'k \<Rightarrow> 'r list \<Rightarrow> int" where
  "sum_by key val k rows = sum_list (map val (filter (\<lambda>r. key r = k) rows))"

lemma sum_by_Nil [simp]: "sum_by key val k [] = 0"
  by (simp add: sum_by_def)

lemma sum_by_Cons [simp]:
  "sum_by key val k (r # rows) = (if key r = k then val r else 0) + sum_by key val k rows"
  by (simp add: sum_by_def)

lemma sum_by_append [simp]:
  "sum_by key val k (xs @ ys) = sum_by key val k xs + sum_by key val k ys"
  by (simp add: sum_by_def)

lemma sum_by_map: "sum_by key val k (map f xs) = sum_by (key \<circ> f) (val \<circ> f) k xs"
  by (induction xs) auto

lemma sum_by_notin: "k \<notin> key ` set rows \<Longrightarrow> sum_by key val k rows = 0"
  by (induction rows) auto

lemma sum_by_nonneg: "(\<And>r. r \<in> set rows \<Longrightarrow> 0 \<le> val r) \<Longrightarrow> 0 \<le> sum_by key val k rows"
  by (induction rows) auto

text \<open>Over the items of a well-formed dictionary the total is the stored value.\<close>

lemma sum_by_dict:
  "dict_wf d \<Longrightarrow> sum_by fst (\<lambda>p. f (snd p)) k d = (case map_of d k of None \<Rightarrow> 0 | Some v \<Rightarrow> f v)"
proof (induction d)
  case Nil
  then show ?case by simp
next
  case (Cons p d)
  then have wf: "dict_wf d" and fresh: "fst p \<notin> fst ` set d" by (auto simp: dict_wf_def)
  show ?case
  proof (cases "fst p = k")
    case True
    with fresh have "sum_by fst (\<lambda>p. f (snd p)) k d = 0" by (simp add: sum_by_notin)
    with True show ?thesis by (cases p) simp
  next
    case False
    with Cons.IH [OF wf] show ?thesis by (cases p) simp
  qed
qed

section \<open>Chunks of a list\<close>

text \<open>
  \<open>for start in range(0, len(xs), n): chunk = xs[start : start + n]\<close>. The source only
  uses positive constants for \<open>n\<close>; \<open>range\<close> raises for a zero step.
\<close>

function chunks :: "nat \<Rightarrow> 'a list \<Rightarrow> 'a list list" where
  "chunks n xs = (if n = 0 \<or> xs = [] then [] else take n xs # chunks n (drop n xs))"
  by pat_completeness auto
termination
  by (relation "measure (\<lambda>(n, xs). length xs)") auto

declare chunks.simps [simp del]

lemma chunks_Nil [simp]: "chunks n [] = []"
  by (simp add: chunks.simps)

lemma concat_chunks: "0 < n \<Longrightarrow> concat (chunks n xs) = xs"
proof (induction n xs rule: chunks.induct)
  case (1 n xs)
  show ?case
  proof (cases "xs = []")
    case True
    then show ?thesis by simp
  next
    case False
    with 1 have "concat (chunks n (drop n xs)) = drop n xs" by simp
    with False 1 show ?thesis by (subst chunks.simps) simp
  qed
qed

lemma chunk_length: "c \<in> set (chunks n xs) \<Longrightarrow> length c \<le> n"
proof (induction n xs rule: chunks.induct)
  case (1 n xs)
  show ?case
  proof (cases "n = 0 \<or> xs = []")
    case True
    with 1 show ?thesis by (simp add: chunks.simps)
  next
    case False
    with 1 show ?thesis by (subst (asm) chunks.simps) auto
  qed
qed

section \<open>Pages\<close>

text \<open>
  \<open>LIMIT n OFFSET m\<close> as SQLite evaluates it: a negative limit is no limit, a negative
  offset is zero.
\<close>

definition sql_page :: "int option \<Rightarrow> int \<Rightarrow> 'a list \<Rightarrow> 'a list" where
  "sql_page limit offset rows =
     (case limit of
        None \<Rightarrow> rows
      | Some n \<Rightarrow> (let rest = drop (nat offset) rows in if n < 0 then rest else take (nat n) rest))"

lemma sql_page_None [simp]: "sql_page None off rows = rows"
  by (simp add: sql_page_def)

lemma set_sql_page: "set (sql_page l off rows) \<subseteq> set rows"
  by (auto simp: sql_page_def Let_def split: option.splits if_splits
      dest: in_set_takeD in_set_dropD)

lemma length_sql_page: "length (sql_page (Some n) off rows) \<le> (if n < 0 then length rows else nat n)"
  by (simp add: sql_page_def Let_def)

text \<open>Folding a step over a list keeps an invariant that every step keeps.\<close>

lemma fold_invariant_set:
  "P s \<Longrightarrow> (\<And>x s. x \<in> set xs \<Longrightarrow> P s \<Longrightarrow> P (f x s)) \<Longrightarrow> P (fold f xs s)"
  by (induction xs arbitrary: s) auto

section \<open>The first maximum of a scan\<close>

text \<open>
  A loop that remembers the best element so far and replaces it only by a strictly better
  one; elements without a key are skipped. Python's \<open>max(xs, key=f)\<close> is the scan in which
  every element has a key.
\<close>

fun scan_max :: "('a \<Rightarrow> 'k :: linorder option) \<Rightarrow> 'a list \<Rightarrow> 'a option \<Rightarrow> 'k option \<Rightarrow> 'a option" where
  "scan_max key [] best best_key = best"
| "scan_max key (x # xs) best best_key =
     (case key x of
        None \<Rightarrow> scan_max key xs best best_key
      | Some k \<Rightarrow> if (case best_key of None \<Rightarrow> True | Some j \<Rightarrow> j < k)
                  then scan_max key xs (Some x) (Some k) else scan_max key xs best best_key)"

definition first_max :: "('a \<Rightarrow> 'k :: linorder option) \<Rightarrow> 'a list \<Rightarrow> 'a \<Rightarrow> bool" where
  "first_max key xs r \<longleftrightarrow>
     (\<exists>before after k. xs = before @ r # after \<and> key r = Some k
        \<and> (\<forall>q \<in> set before. \<forall>j. key q = Some j \<longrightarrow> j < k)
        \<and> (\<forall>q \<in> set after. \<forall>j. key q = Some j \<longrightarrow> j \<le> k))"

lemma first_max_Cons:
  "first_max key xs r \<Longrightarrow> \<forall>j k. key x = Some j \<longrightarrow> key r = Some k \<longrightarrow> j < k \<Longrightarrow> first_max key (x # xs) r"
  unfolding first_max_def by (metis append_Cons set_ConsD)

lemma first_max_hd:
  "key x = Some k \<Longrightarrow> \<forall>q \<in> set xs. \<forall>j. key q = Some j \<longrightarrow> j \<le> k \<Longrightarrow> first_max key (x # xs) x"
  unfolding first_max_def by (metis append_Nil empty_iff list.set(1))

lemma scan_max_Some:
  "(scan_max key xs (Some b) (Some k) = Some b \<and> (\<forall>q \<in> set xs. \<forall>j. key q = Some j \<longrightarrow> j \<le> k))
   \<or> (\<exists>r j. scan_max key xs (Some b) (Some k) = Some r \<and> first_max key xs r \<and> key r = Some j \<and> k < j)"
proof (induction xs arbitrary: b k)
  case Nil
  then show ?case by simp
next
  case (Cons x xs)
  show ?case
  proof (cases "\<exists>j. key x = Some j \<and> k < j")
    case True
    then obtain j where j: "key x = Some j" "k < j" by blast
    from Cons.IH [of x j] show ?thesis
    proof (elim disjE conjE exE)
      assume "scan_max key xs (Some x) (Some j) = Some x" "\<forall>q \<in> set xs. \<forall>i. key q = Some i \<longrightarrow> i \<le> j"
      with j show ?thesis by (auto intro: first_max_hd)
    next
      fix r i
      assume r: "scan_max key xs (Some x) (Some j) = Some r" "first_max key xs r" "key r = Some i" "j < i"
      with j have "first_max key (x # xs) r" "k < i" by (auto intro: first_max_Cons)
      with r j show ?thesis by auto
    qed
  next
    case False
    then have x: "\<forall>j. key x = Some j \<longrightarrow> j \<le> k" by (auto simp: not_less)
    then have step: "scan_max key (x # xs) (Some b) (Some k) = scan_max key xs (Some b) (Some k)"
      by (auto split: option.split)
    from Cons.IH [of b k] show ?thesis
    proof (elim disjE conjE exE)
      fix r i
      assume r: "scan_max key xs (Some b) (Some k) = Some r" "first_max key xs r" "key r = Some i" "k < i"
      have "\<forall>j l. key x = Some j \<longrightarrow> key r = Some l \<longrightarrow> j < l"
        using x r(3,4) by (auto dest: le_less_trans)
      with r(2) have "first_max key (x # xs) r" by (rule first_max_Cons)
      with r show ?thesis unfolding step by blast
    next
      assume "scan_max key xs (Some b) (Some k) = Some b" "\<forall>q \<in> set xs. \<forall>j. key q = Some j \<longrightarrow> j \<le> k"
      with x show ?thesis unfolding step by simp
    qed
  qed
qed

lemma scan_max_None:
  "(scan_max key xs None None = None \<and> (\<forall>q \<in> set xs. key q = None))
   \<or> (\<exists>r. scan_max key xs None None = Some r \<and> first_max key xs r)"
proof (induction xs)
  case Nil
  then show ?case by simp
next
  case (Cons x xs)
  show ?case
  proof (cases "key x")
    case None
    then have "first_max key xs r \<Longrightarrow> first_max key (x # xs) r" for r by (auto intro: first_max_Cons)
    with Cons.IH None show ?thesis by auto
  next
    case (Some k)
    from scan_max_Some [of key xs x k] show ?thesis
    proof (elim disjE conjE exE)
      assume "scan_max key xs (Some x) (Some k) = Some x" "\<forall>q \<in> set xs. \<forall>j. key q = Some j \<longrightarrow> j \<le> k"
      with Some show ?thesis by (auto intro: first_max_hd)
    next
      fix r i
      assume r: "scan_max key xs (Some x) (Some k) = Some r" "first_max key xs r" "key r = Some i" "k < i"
      with Some have "first_max key (x # xs) r" by (auto intro!: first_max_Cons)
      with r Some show ?thesis by auto
    qed
  qed
qed

lemma scan_max_best:
  "key b = Some k \<Longrightarrow> scan_max key (xs @ ys) (Some b) (Some k) =
     (case scan_max key xs (Some b) (Some k) of None \<Rightarrow> scan_max key ys None None | Some r \<Rightarrow> scan_max key ys (Some r) (key r))"
  by (induction xs arbitrary: b k) (simp_all split: option.split)

lemma scan_max_append:
  "scan_max key (xs @ ys) None None =
     (case scan_max key xs None None of None \<Rightarrow> scan_max key ys None None | Some r \<Rightarrow> scan_max key ys (Some r) (key r))"
proof (induction xs)
  case (Cons x xs)
  then show ?case by (cases "key x") (simp_all add: scan_max_best)
qed simp

lemma scan_max_skip: "\<forall>q \<in> set ys. key q = None \<Longrightarrow> scan_max key (ys @ zs) b bk = scan_max key zs b bk"
  by (induction ys arbitrary: b bk) simp_all

text \<open>A part of the list in which one element counts.\<close>

lemma scan_max_one:
  assumes "\<forall>q \<in> set us \<union> set vs. key q = None" "key x = Some k"
  shows "scan_max key (us @ x # vs) b bk = (if case bk of None \<Rightarrow> True | Some j \<Rightarrow> j < k then Some x else b)"
  using assms scan_max_skip [of us key "x # vs" b bk] scan_max_skip [of vs key "[]"] by simp

lemma first_max_unique: "first_max key xs r \<Longrightarrow> first_max key xs s \<Longrightarrow> r = s"
proof (induction xs)
  case Nil
  then show ?case by (simp add: first_max_def)
next
  case (Cons x xs)
  have tail: "first_max key xs t \<and> (\<exists>k. key t = Some k \<and> (\<forall>j. key x = Some j \<longrightarrow> j < k))
      \<or> t = x \<and> (\<exists>k. key x = Some k \<and> (\<forall>q \<in> set xs. \<forall>j. key q = Some j \<longrightarrow> j \<le> k))"
    if t: "first_max key (x # xs) t" for t
  proof -
    from t obtain before after k where b: "x # xs = before @ t # after" "key t = Some k"
        "\<forall>q \<in> set before. \<forall>j. key q = Some j \<longrightarrow> j < k" "\<forall>q \<in> set after. \<forall>j. key q = Some j \<longrightarrow> j \<le> k"
      by (auto simp: first_max_def)
    show ?thesis
    proof (cases before)
      case Nil
      with b show ?thesis by auto
    next
      case (Cons y ys)
      with b have "first_max key xs t" by (auto simp: first_max_def)
      with b Cons show ?thesis by auto
    qed
  qed
  have member: "t \<in> set xs" if "first_max key xs t" for t
    using that by (auto simp: first_max_def)
  from tail [OF Cons.prems(1)] tail [OF Cons.prems(2)] Cons.IH member show ?case
    by (metis leD)
qed

lemma first_max_member: "first_max key xs r \<Longrightarrow> r \<in> set xs"
  by (auto simp: first_max_def)

lemma first_max_key: "first_max key xs r \<Longrightarrow> r \<in> set xs \<and> key r \<noteq> None"
  by (auto simp: first_max_def)

lemma first_max_filter:
  "first_max key xs r \<Longrightarrow> \<exists>k rest. key r = Some k \<and> (\<forall>q \<in> set xs. \<forall>j. key q = Some j \<longrightarrow> j \<le> k)
     \<and> filter (\<lambda>q. key q = Some k) xs = r # rest"
proof -
  assume "first_max key xs r"
  then obtain before after k where xs: "xs = before @ r # after" "key r = Some k"
      "\<forall>q \<in> set before. \<forall>j. key q = Some j \<longrightarrow> j < k" "\<forall>q \<in> set after. \<forall>j. key q = Some j \<longrightarrow> j \<le> k"
    unfolding first_max_def by blast
  from xs(3) have "filter (\<lambda>q. key q = Some k) before = []" by (auto simp: filter_empty_conv)
  with xs show ?thesis by (auto intro: less_imp_le)
qed

lemma scan_max_iff: "scan_max key xs None None = Some r \<longleftrightarrow> first_max key xs r"
  using scan_max_None [of key xs] by (metis first_max_key first_max_unique option.distinct(1) option.sel)

lemma scan_max_None_iff: "scan_max key xs None None = None \<longleftrightarrow> (\<forall>q \<in> set xs. key q = None)"
  using scan_max_None [of key xs] by (metis first_max_key option.distinct(1))

text \<open>Where no two elements share a key, the winner does not depend on the order.\<close>

lemma first_max_perm:
  assumes "first_max key xs r" "set ys = set xs"
    "\<forall>x \<in> set xs. \<forall>y \<in> set xs. key x = key y \<longrightarrow> key x \<noteq> None \<longrightarrow> x = y"
  shows "first_max key ys r"
proof -
  from assms(1) obtain k where k: "key r = Some k" and top: "\<forall>q \<in> set xs. \<forall>j. key q = Some j \<longrightarrow> j \<le> k"
    by (fastforce simp: first_max_def less_imp_le)
  obtain s where s: "first_max key ys s"
    using scan_max_None [of key ys] k first_max_member [OF assms(1)] assms(2) by auto
  then obtain l where l: "key s = Some l" and stop: "\<forall>q \<in> set ys. \<forall>j. key q = Some j \<longrightarrow> j \<le> l"
    by (fastforce simp: first_max_def less_imp_le)
  have "s \<in> set xs" "r \<in> set ys" using first_max_member [OF s] first_max_member [OF assms(1)] assms(2) by auto
  with top stop k l have "k = l" by (meson antisym)
  with assms(3) \<open>s \<in> set xs\<close> first_max_member [OF assms(1)] k l have "r = s" by auto
  with s show ?thesis by simp
qed

lemma sorted_le_last: "sorted xs \<Longrightarrow> x \<in> set xs \<Longrightarrow> x \<le> last xs"
  by (induction xs) auto

lemma sorted_map_le_last: "sorted (map f xs) \<Longrightarrow> x \<in> set xs \<Longrightarrow> f x \<le> f (last xs)"
  using sorted_le_last [of "map f xs" "f x"] by (cases "xs = []") (auto simp: last_map)

section \<open>Dictionaries of counters\<close>

definition counts_ok :: "('k, int) dict \<Rightarrow> bool" where
  "counts_ok d \<longleftrightarrow> dict_wf d \<and> (\<forall>p \<in> set d. 0 < snd p)"

lemma counts_ok_Nil [simp]: "counts_ok []"
  by (simp add: counts_ok_def)

lemma counts_ok_wf [dest]: "counts_ok d \<Longrightarrow> dict_wf d"
  by (simp add: counts_ok_def)

lemma set_dict_set: "p \<in> set (dict_set k v d) \<Longrightarrow> p = (k, v) \<or> p \<in> set d"
  by (induction d) (auto split: if_splits)

lemma counts_ok_get: "counts_ok d \<Longrightarrow> 0 \<le> dict_get d k 0"
  by (auto simp: counts_ok_def dict_get_def split: option.split dest!: map_of_SomeD)

lemma counts_ok_set: "counts_ok d \<Longrightarrow> 0 < v \<Longrightarrow> counts_ok (dict_set k v d)"
  by (auto simp: counts_ok_def dest!: set_dict_set)

lemma counts_ok_incr: "counts_ok d \<Longrightarrow> counts_ok (dict_set k (dict_get d k 0 + 1) d)"
  using counts_ok_get [of d k] by (intro counts_ok_set) auto

lemma sum_by_counts: "dict_wf d \<Longrightarrow> sum_by fst snd k d = dict_get d k 0"
  using sum_by_dict [of d "\<lambda>v. v" k] by (simp add: dict_get_def)

lemma dict_value: "map_of d k = Some v \<Longrightarrow> \<forall>p \<in> set d. P (snd p) \<Longrightarrow> P v"
  by (metis map_of_SomeD snd_conv)

lemma sum_by_rows:
  "(\<And>k v. row_key (f (k, v)) = k) \<Longrightarrow> sum_by row_key row_hits k (map f d) = sum_by fst (\<lambda>p. row_hits (f p)) k d"
proof -
  assume "\<And>k v. row_key (f (k, v)) = k"
  then have "row_key \<circ> f = fst" by auto
  then show ?thesis by (simp add: sum_by_map comp_def)
qed

lemma sum_by_drop_le: "(\<And>r. r \<in> set xs \<Longrightarrow> 0 \<le> val r) \<Longrightarrow> sum_by key val k (drop n xs) \<le> sum_by key val k xs"
proof -
  assume nonneg: "\<And>r. r \<in> set xs \<Longrightarrow> 0 \<le> val r"
  have "0 \<le> sum_by key val k (take n xs)" by (rule sum_by_nonneg) (meson in_set_takeD nonneg)
  moreover have "sum_by key val k xs = sum_by key val k (take n xs) + sum_by key val k (drop n xs)"
    by (simp flip: sum_by_append)
  ultimately show ?thesis by simp
qed

section \<open>First occurrences\<close>

text \<open>
  A loop over \<open>xs\<close> that appends an element unless its key is already in the set \<open>seen\<close>, and
  its result: the first element of every key, in order.
\<close>

fun first_by :: "('a \<Rightarrow> 'k) \<Rightarrow> 'a list \<Rightarrow> 'a list" where
  "first_by key [] = []"
| "first_by key (x # xs) = x # filter (\<lambda>y. key y \<noteq> key x) (first_by key xs)"

lemma first_by_keys [simp]: "key ` set (first_by key xs) = key ` set xs"
proof (induction xs)
  case (Cons x xs)
  have "key ` {y \<in> A. key y \<noteq> key x} = key ` A - {key x}" for A by auto
  with Cons show ?case by simp
qed simp

lemma first_by_subset: "set (first_by key xs) \<subseteq> set xs"
  by (induction xs) auto

lemma first_by_distinct [simp]: "distinct (map key (first_by key xs))"
  by (induction xs) (auto simp: distinct_map inj_on_def)

lemma first_by_id: "distinct (map key xs) \<Longrightarrow> first_by key xs = xs"
  by (induction xs) (auto intro!: filter_True, metis imageI)

lemma first_by_snoc:
  "first_by key (xs @ [x]) = first_by key xs @ (if key x \<in> key ` set xs then [] else [x])"
  by (induction xs) auto

text \<open>One step of the loop, and what it keeps.\<close>

definition add_unseen :: "('a \<Rightarrow> 'k) \<Rightarrow> 'a \<Rightarrow> 'a list \<times> 'k set \<Rightarrow> 'a list \<times> 'k set" where
  "add_unseen key x acc =
     (if key x \<in> snd acc then acc else (fst acc @ [x], insert (key x) (snd acc)))"

lemma fold_add_unseen:
  "fold (add_unseen key) xs (ys, seen) =
     (ys @ filter (\<lambda>x. key x \<notin> seen) (first_by key xs), seen \<union> key ` set xs)"
proof (induction xs arbitrary: ys seen)
  case Nil
  then show ?case by simp
next
  case (Cons x xs)
  have a: "filter (\<lambda>y. key y \<notin> seen) (filter (\<lambda>y. key y \<noteq> key x) zs)
      = filter (\<lambda>y. key y \<notin> insert (key x) seen) zs"
    and b: "key x \<in> seen \<Longrightarrow> filter (\<lambda>y. key y \<notin> seen) (filter (\<lambda>y. key y \<noteq> key x) zs)
      = filter (\<lambda>y. key y \<notin> seen) zs" for zs
    by (induction zs) auto
  show ?case
  proof (cases "key x \<in> seen")
    case True
    then have "insert (key x) (seen \<union> key ` set xs) = seen \<union> key ` set xs" by blast
    with Cons.IH True b show ?thesis by (simp add: add_unseen_def del: filter_filter)
  next
    case False
    with Cons.IH a show ?thesis by (simp add: add_unseen_def del: filter_filter)
  qed
qed

section \<open>Lists of options\<close>

text \<open>All elements present, or one missing: the exception of the first one.\<close>

fun all_some :: "'a option list \<Rightarrow> 'a list option" where
  "all_some [] = Some []"
| "all_some (None # xs) = None"
| "all_some (Some x # xs) = map_option ((#) x) (all_some xs)"

lemma all_some_Some: "all_some xs = Some ys \<longleftrightarrow> xs = map Some ys"
  by (induction xs arbitrary: ys rule: all_some.induct) auto

lemma all_some_map_Some [simp]: "all_some (map Some ys) = Some ys"
  by (simp add: all_some_Some)

section \<open>Trying again\<close>

text \<open>\<open>while True: try: return attempt() except Exception: sleep(...)\<close>: attempt \<open>n\<close> finds what is there then. The loop
  returns exactly when some attempt succeeds, with the result of the first that does.\<close>

partial_function (option) retry :: "(nat \<Rightarrow> 'a option) \<Rightarrow> nat \<Rightarrow> 'a option" where
  "retry attempt n = (case attempt n of Some x \<Rightarrow> Some x | None \<Rightarrow> retry attempt (Suc n))"

lemma retry_Some:
  assumes "retry attempt n = Some x"
  shows "\<exists>k. n \<le> k \<and> attempt k = Some x \<and> (\<forall>j. n \<le> j \<and> j < k \<longrightarrow> attempt j = None)"
proof (rule retry.raw_induct [where P = "\<lambda>attempt n x. \<exists>k. n \<le> k \<and> attempt k = Some x \<and> (\<forall>j. n \<le> j \<and> j < k \<longrightarrow> attempt j = None)",
      OF _ assms], goal_cases)
  case (1 again attempt n x)
  show ?case
  proof (cases "attempt n")
    case (Some y)
    with 1(2) show ?thesis by (intro exI [of _ n]) auto
  next
    case None
    with 1(2) have "again attempt (Suc n) = Some x" by simp
    from 1(1) [OF this] obtain k where k: "Suc n \<le> k" "attempt k = Some x" "\<forall>j. Suc n \<le> j \<and> j < k \<longrightarrow> attempt j = None"
      by (elim exE conjE)
    have "attempt j = None" if "n \<le> j" "j < k" for j
      using k(3) None that by (cases "j = n") (simp_all add: Suc_le_eq)
    with k(1,2) show ?thesis by (intro exI [of _ k]) (simp add: Suc_le_eq)
  qed
qed

lemma retry_first: "attempt (n + k) = Some x \<Longrightarrow> (\<And>j. j < k \<Longrightarrow> attempt (n + j) = None) \<Longrightarrow> retry attempt n = Some x"
proof (induction k arbitrary: n)
  case 0
  then show ?case by (subst retry.simps) simp
next
  case (Suc k)
  have "attempt n = None" using Suc.prems(2) [of 0] by simp
  moreover have "retry attempt (Suc n) = Some x"
    using Suc.prems(1) Suc.prems(2) [of "Suc _"] by (intro Suc.IH) simp_all
  ultimately show ?case by (subst retry.simps) simp
qed

lemma retry_least: "retry attempt 0 = (if \<exists>k. attempt k \<noteq> None then attempt (LEAST k. attempt k \<noteq> None) else None)"
proof (cases "\<exists>k. attempt k \<noteq> None")
  case True
  let ?k = "LEAST k. attempt k \<noteq> None"
  from True have "attempt ?k \<noteq> None" by (rule LeastI_ex)
  then obtain x where x: "attempt ?k = Some x" by blast
  have none: "attempt (0 + j) = None" if "j < ?k" for j using not_less_Least [OF that] by simp
  from x have "attempt (0 + ?k) = Some x" unfolding add_0 .
  then have "retry attempt 0 = Some x" using none by (rule retry_first)
  with True x show ?thesis by (simp only: if_True)
next
  case False
  then show ?thesis using retry_Some [of attempt 0] by (cases "retry attempt 0") auto
qed

end
