(* ===== verification/PyText.thy ===== *)
theory PyText
  imports Prelude
begin

text \<open>
  The operations of Python's \<open>str\<close> that the source uses, on strings whose code points are
  below 256 (HOL's \<open>char\<close>): the whitespace, line-break and case tables are CPython's on
  that range. Also decimal and hexadecimal numerals, \<open>int(text)\<close> with its optional
  sign, surrounding blanks and underscores, and the single-character replacement that the
  repositories escape \<open>LIKE\<close> patterns with.
\<close>

section \<open>Characters\<close>

abbreviation dot :: char where "dot \<equiv> CHR ''.''"
abbreviation colon :: char where "colon \<equiv> CHR '':''"

definition code :: "char \<Rightarrow> nat" where
  "code c = of_char c"

text \<open>\<open>str.isspace\<close>, the separators of \<open>str.split()\<close> and the characters \<open>str.strip()\<close> removes.\<close>

definition is_space :: "char \<Rightarrow> bool" where
  "is_space c = (let n = code c in
     (9 \<le> n \<and> n \<le> 13) \<or> (28 \<le> n \<and> n \<le> 32) \<or> n = 133 \<or> n = 160)"

text \<open>The boundaries of \<open>str.splitlines\<close>.\<close>

definition is_linebreak :: "char \<Rightarrow> bool" where
  "is_linebreak c = (let n = code c in
     (10 \<le> n \<and> n \<le> 13) \<or> (28 \<le> n \<and> n \<le> 30) \<or> n = 133)"

text \<open>The blanks \<open>int()\<close> skips around a number: not the separators 28 to 31.\<close>

definition is_int_space :: "char \<Rightarrow> bool" where
  "is_int_space c = (let n = code c in
     (9 \<le> n \<and> n \<le> 13) \<or> n = 32 \<or> n = 133 \<or> n = 160)"

definition lower_char :: "char \<Rightarrow> char" where
  "lower_char c = (let n = code c in
     if (65 \<le> n \<and> n \<le> 90) \<or> (192 \<le> n \<and> n \<le> 222 \<and> n \<noteq> 215) then char_of (n + 32) else c)"

definition is_digit :: "char \<Rightarrow> bool" where
  "is_digit c = (let n = code c in 48 \<le> n \<and> n \<le> 57)"

definition is_hex_digit :: "char \<Rightarrow> bool" where
  "is_hex_digit c = (let n = code c in
     (48 \<le> n \<and> n \<le> 57) \<or> (65 \<le> n \<and> n \<le> 70) \<or> (97 \<le> n \<and> n \<le> 102))"

lemma code_lt [simp]: "code c < 256"
  by (simp add: code_def)

lemma code_char_of [simp]: "n < 256 \<Longrightarrow> code (char_of n) = n"
  by (simp add: code_def)

lemma code_inj: "code c = code d \<longleftrightarrow> c = d"
  by (simp add: code_def)

lemma code_lower_char:
  "code (lower_char c) = (if (65 \<le> code c \<and> code c \<le> 90) \<or> (192 \<le> code c \<and> code c \<le> 222 \<and> code c \<noteq> 215)
     then code c + 32 else code c)"
  by (auto simp: lower_char_def Let_def)

lemma lower_char_idem [simp]: "lower_char (lower_char c) = lower_char c"
  by (auto simp: code_inj [symmetric] code_lower_char)

lemma linebreak_space: "is_linebreak c \<Longrightarrow> is_space c"
  by (auto simp: is_linebreak_def is_space_def Let_def)

lemma is_digit_space: "is_digit c \<Longrightarrow> \<not> is_space c"
  by (auto simp: is_digit_def is_space_def Let_def)

section \<open>Trimming, case, prefixes\<close>

definition rstrip_if :: "(char \<Rightarrow> bool) \<Rightarrow> string \<Rightarrow> string" where
  "rstrip_if P s = rev (dropWhile P (rev s))"

definition py_rstrip_char :: "char \<Rightarrow> string \<Rightarrow> string" where
  "py_rstrip_char c s = rstrip_if (\<lambda>d. d = c) s"

definition py_strip :: "string \<Rightarrow> string" where
  "py_strip s = rstrip_if is_space (dropWhile is_space s)"

definition py_lower :: "string \<Rightarrow> string" where
  "py_lower s = map lower_char s"

definition starts_with :: "string \<Rightarrow> string \<Rightarrow> bool" where
  "starts_with p s = (take (length p) s = p)"

definition ends_with :: "string \<Rightarrow> string \<Rightarrow> bool" where
  "ends_with p s = (length p \<le> length s \<and> drop (length s - length p) s = p)"

lemma rstrip_if_Nil [simp]: "rstrip_if P [] = []"
  by (simp add: rstrip_if_def)

lemma rstrip_if_snoc: "rstrip_if P (s @ [c]) = (if P c then rstrip_if P s else s @ [c])"
  by (simp add: rstrip_if_def)

lemma rstrip_if_split: "\<exists>t. s = rstrip_if P s @ t \<and> (\<forall>c \<in> set t. P c)"
proof (induction s rule: rev_induct)
  case Nil
  then show ?case by simp
next
  case (snoc c s)
  then obtain t where t: "s = rstrip_if P s @ t" "\<forall>d \<in> set t. P d" by blast
  show ?case
  proof (cases "P c")
    case True
    with t have "s @ [c] = rstrip_if P (s @ [c]) @ (t @ [c])"
      by (metis append_assoc rstrip_if_snoc)
    with t(2) True show ?thesis by (metis Un_iff empty_iff empty_set list.simps(15) set_append singletonD)
  next
    case False
    then show ?thesis by (simp add: rstrip_if_snoc)
  qed
qed

lemma set_rstrip_if: "set (rstrip_if P s) \<subseteq> set s"
  using rstrip_if_split [of s P] by (metis Un_upper1 set_append)

lemma length_rstrip_if: "length (rstrip_if P s) \<le> length s"
  using length_dropWhile_le [of P "rev s"] by (simp add: rstrip_if_def)

lemma rstrip_if_last: "rstrip_if P s \<noteq> [] \<Longrightarrow> \<not> P (last (rstrip_if P s))"
  by (induction s rule: rev_induct) (auto simp: rstrip_if_snoc split: if_splits)

lemma rstrip_if_id: "s = [] \<or> \<not> P (last s) \<Longrightarrow> rstrip_if P s = s"
  by (induction s rule: rev_induct) (auto simp: rstrip_if_snoc)

lemma rstrip_if_idem [simp]: "rstrip_if P (rstrip_if P s) = rstrip_if P s"
  by (metis rstrip_if_id rstrip_if_last)

lemma rstrip_if_map: "(\<And>c. P (f c) \<longleftrightarrow> P c) \<Longrightarrow> rstrip_if P (map f s) = map f (rstrip_if P s)"
  by (induction s rule: rev_induct) (auto simp: rstrip_if_snoc)

lemma rstrip_if_hd: "rstrip_if P s \<noteq> [] \<Longrightarrow> hd (rstrip_if P s) = hd s"
  using rstrip_if_split [of s P] by (metis hd_append2)

lemma py_lower_idem [simp]: "py_lower (py_lower s) = py_lower s"
  by (simp add: py_lower_def)

lemma py_lower_append [simp]: "py_lower (s @ t) = py_lower s @ py_lower t"
  by (simp add: py_lower_def)

lemma length_py_lower [simp]: "length (py_lower s) = length s"
  by (simp add: py_lower_def)

lemma py_lower_Nil [simp]: "py_lower s = [] \<longleftrightarrow> s = []"
  by (simp add: py_lower_def)

lemma set_py_strip: "set (py_strip s) \<subseteq> set s"
  unfolding py_strip_def by (metis set_dropWhileD set_rstrip_if subsetD subsetI)

lemma py_strip_last: "py_strip s \<noteq> [] \<Longrightarrow> \<not> is_space (last (py_strip s))"
  unfolding py_strip_def by (rule rstrip_if_last)

lemma py_strip_hd: "py_strip s \<noteq> [] \<Longrightarrow> \<not> is_space (hd (py_strip s))"
  unfolding py_strip_def by (metis hd_dropWhile rstrip_if_Nil rstrip_if_hd)

lemma py_strip_id: "s = [] \<or> (\<not> is_space (hd s) \<and> \<not> is_space (last s)) \<Longrightarrow> py_strip s = s"
  unfolding py_strip_def by (cases s) (auto intro: rstrip_if_id)

lemma py_strip_idem [simp]: "py_strip (py_strip s) = py_strip s"
  by (metis py_strip_hd py_strip_id py_strip_last)

lemma starts_with_append: "starts_with p s \<longleftrightarrow> (\<exists>t. s = p @ t)"
  by (auto simp: starts_with_def) (metis append_take_drop_id)

lemma ends_with_append: "ends_with p s \<longleftrightarrow> (\<exists>t. s = t @ p)"
  by (auto simp: ends_with_def) (metis append_take_drop_id)

section \<open>Splitting and joining\<close>

text \<open>\<open>s.split(c)\<close> for a one-character separator: never the empty list.\<close>

fun py_split :: "char \<Rightarrow> string \<Rightarrow> string list" where
  "py_split c [] = [[]]"
| "py_split c (x # xs) =
     (if x = c then [] # py_split c xs
      else (case py_split c xs of [] \<Rightarrow> [[x]] | p # ps \<Rightarrow> (x # p) # ps))"

fun py_join :: "string \<Rightarrow> string list \<Rightarrow> string" where
  "py_join sep [] = []"
| "py_join sep [p] = p"
| "py_join sep (p # q # ps) = p @ sep @ py_join sep (q # ps)"

lemma py_split_not_Nil [simp]: "py_split c s \<noteq> []"
  by (induction s) (auto split: list.splits)

lemma py_join_Cons: "ps \<noteq> [] \<Longrightarrow> py_join sep (p # ps) = p @ sep @ py_join sep ps"
  by (cases ps) auto

lemma py_join_split [simp]: "py_join [c] (py_split c s) = s"
proof (induction s)
  case Nil
  then show ?case by simp
next
  case (Cons x xs)
  obtain p ps where ps: "py_split c xs = p # ps"
    by (cases "py_split c xs") auto
  with Cons show ?case by (cases ps) auto
qed

lemma py_split_notin: "p \<in> set (py_split c s) \<Longrightarrow> c \<notin> set p"
  by (induction s arbitrary: p) (auto split: list.splits if_splits)

lemma py_split_chars: "p \<in> set (py_split c s) \<Longrightarrow> set p \<subseteq> set s"
proof (induction s arbitrary: p)
  case Nil
  then show ?case by simp
next
  case (Cons x xs)
  obtain q qs where "py_split c xs = q # qs" by (cases "py_split c xs") auto
  with Cons show ?case by (force split: if_splits)
qed

lemma py_split_single: "c \<notin> set s \<Longrightarrow> py_split c s = [s]"
  by (induction s) auto

lemma py_split_append: "c \<notin> set p \<Longrightarrow> py_split c (p @ c # s) = p # py_split c s"
  by (induction p) auto

lemma py_split_at: "py_split c (p @ c # s) = py_split c p @ py_split c s"
proof (induction p)
  case Nil
  then show ?case by simp
next
  case (Cons x p)
  obtain q qs where "py_split c p = q # qs" by (cases "py_split c p") auto
  with Cons show ?case by simp
qed

lemma py_join_append:
  "ps \<noteq> [] \<Longrightarrow> qs \<noteq> [] \<Longrightarrow> py_join sep (ps @ qs) = py_join sep ps @ sep @ py_join sep qs"
proof (induction ps)
  case (Cons p ps)
  then show ?case by (cases "ps = []") (simp_all add: py_join_Cons)
qed simp

lemma py_split_join:
  "ps \<noteq> [] \<Longrightarrow> (\<And>p. p \<in> set ps \<Longrightarrow> c \<notin> set p) \<Longrightarrow> py_split c (py_join [c] ps) = ps"
proof (induction "[c]" ps rule: py_join.induct)
  case (3 p q ps)
  then have "py_split c (py_join [c] (q # ps)) = q # ps" by auto
  with 3 show ?case by (simp add: py_split_append)
qed (simp_all add: py_split_single)

lemma length_py_split_1: "length (py_split c s) = Suc 0 \<longleftrightarrow> c \<notin> set s"
proof (induction s)
  case Nil
  then show ?case by simp
next
  case (Cons x xs)
  obtain q qs where "py_split c xs = q # qs" by (cases "py_split c xs") auto
  with Cons show ?case by auto
qed

lemma py_join_chars:
  "x \<in> set (py_join sep ps) \<Longrightarrow> x \<in> set sep \<or> (\<exists>p \<in> set ps. x \<in> set p)"
  by (induction sep ps rule: py_join.induct) auto

lemma py_join_inject:
  "ps \<noteq> [] \<Longrightarrow> qs \<noteq> [] \<Longrightarrow> (\<And>p. p \<in> set ps \<Longrightarrow> c \<notin> set p) \<Longrightarrow> (\<And>p. p \<in> set qs \<Longrightarrow> c \<notin> set p) \<Longrightarrow>
   py_join [c] ps = py_join [c] qs \<Longrightarrow> ps = qs"
  by (metis py_split_join)

text \<open>\<open>s.split()\<close>: the maximal runs of non-blank characters.\<close>

function py_split_ws :: "string \<Rightarrow> string list" where
  "py_split_ws s =
     (let t = dropWhile is_space s
      in if t = [] then []
         else takeWhile (\<lambda>c. \<not> is_space c) t # py_split_ws (dropWhile (\<lambda>c. \<not> is_space c) t))"
  by pat_completeness auto
termination
proof (relation "measure length")
  show "wf (measure (length :: string \<Rightarrow> nat))" by simp
  fix s t :: string
  assume t: "t = dropWhile is_space s" and ne: "t \<noteq> []"
  then have hd: "\<not> is_space (hd t)" by (metis hd_dropWhile)
  then have "length (dropWhile (\<lambda>c. \<not> is_space c) t) < length t"
    using ne by (cases t) (auto simp: le_imp_less_Suc length_dropWhile_le)
  also have "length t \<le> length s" using t by (simp add: length_dropWhile_le)
  finally show "(dropWhile (\<lambda>c. \<not> is_space c) t, s) \<in> measure length" by simp
qed

declare py_split_ws.simps [simp del]

lemma py_split_ws_word:
  "w \<in> set (py_split_ws s) \<Longrightarrow> w \<noteq> [] \<and> (\<forall>c \<in> set w. \<not> is_space c) \<and> set w \<subseteq> set s"
proof (induction s rule: py_split_ws.induct)
  case (1 s)
  let ?t = "dropWhile is_space s"
  show ?case
  proof (cases "?t = []")
    case True
    with "1.prems" show ?thesis by (simp add: py_split_ws.simps [of s])
  next
    case False
    then have hd: "\<not> is_space (hd ?t)" by (metis hd_dropWhile)
    then have "py_split_ws s = takeWhile (\<lambda>c. \<not> is_space c) ?t #
        py_split_ws (dropWhile (\<lambda>c. \<not> is_space c) ?t)"
      using False by (simp only: py_split_ws.simps [of s] Let_def if_False)
    with "1.prems" consider
      (head) "w = takeWhile (\<lambda>c. \<not> is_space c) ?t"
      | (tail) "w \<in> set (py_split_ws (dropWhile (\<lambda>c. \<not> is_space c) ?t))"
      by auto
    then show ?thesis
    proof cases
      case head
      with hd False show ?thesis
        by (auto dest: set_takeWhileD set_dropWhileD simp: takeWhile_eq_Nil_iff)
    next
      case tail
      with "1.IH" [OF refl False] show ?thesis by (auto dest: set_dropWhileD)
    qed
  qed
qed

lemma py_split_ws_Nil: "py_split_ws s = [] \<longleftrightarrow> (\<forall>c \<in> set s. is_space c)"
  by (subst py_split_ws.simps) (auto simp: Let_def dropWhile_eq_Nil_conv)

lemma py_split_ws_single:
  "s \<noteq> [] \<Longrightarrow> (\<forall>c \<in> set s. \<not> is_space c) \<Longrightarrow> py_split_ws s = [s]"
  by (subst py_split_ws.simps, cases s)
     (auto simp: Let_def takeWhile_eq_all_conv [THEN iffD2] dropWhile_eq_Nil_conv [THEN iffD2]
        py_split_ws.simps [of "[]"])

lemma py_split_ws_two:
  assumes "v \<noteq> []" "\<forall>c \<in> set v. \<not> is_space c" "w \<noteq> []" "\<forall>c \<in> set w. \<not> is_space c" "is_space b"
  shows "py_split_ws (v @ b # w) = [v, w]"
proof -
  have d: "dropWhile is_space (v @ b # w) = v @ b # w" using assms(1,2) by (cases v) auto
  have t: "takeWhile (\<lambda>c. \<not> is_space c) (v @ b # w) = v"
    "dropWhile (\<lambda>c. \<not> is_space c) (v @ b # w) = b # w"
    using assms(2,5) by (simp_all add: takeWhile_append dropWhile_append)
  have "py_split_ws (b # w) = py_split_ws w"
    using assms(5) by (subst (1 2) py_split_ws.simps) simp
  then have "py_split_ws (b # w) = [w]" using assms(3,4) by (simp add: py_split_ws_single)
  with d t show ?thesis by (subst py_split_ws.simps) (simp add: Let_def)
qed

text \<open>\<open>s.splitlines()\<close>: a carriage return followed by a line feed is one boundary.\<close>

fun py_splitlines :: "string \<Rightarrow> string list" where
  "py_splitlines [] = []"
| "py_splitlines (x # xs) =
     (if is_linebreak x then
        [] # py_splitlines (if code x = 13 \<and> xs \<noteq> [] \<and> code (hd xs) = 10 then tl xs else xs)
      else (case py_splitlines xs of
              [] \<Rightarrow> [[x]]
            | l # ls \<Rightarrow> (x # l) # ls))"

lemma py_splitlines_line: "l \<in> set (py_splitlines s) \<Longrightarrow> c \<in> set l \<Longrightarrow> \<not> is_linebreak c \<and> c \<in> set s"
proof (induction s arbitrary: l c rule: py_splitlines.induct)
  case 1
  then show ?case by simp
next
  case (2 x xs)
  show ?case
  proof (cases "is_linebreak x")
    case True
    let ?rest = "if code x = 13 \<and> xs \<noteq> [] \<and> code (hd xs) = 10 then tl xs else xs"
    from 2(3,4) True have "l \<in> set (py_splitlines ?rest)" by auto
    with 2(1) [OF True] 2(4) have "\<not> is_linebreak c \<and> c \<in> set ?rest" by blast
    then show ?thesis by (auto split: if_splits dest: list.set_sel(2))
  next
    case False
    with 2 show ?thesis by (fastforce split: list.splits)
  qed
qed

lemma py_splitlines_single:
  "s \<noteq> [] \<Longrightarrow> (\<forall>c \<in> set s. \<not> is_linebreak c) \<Longrightarrow> py_splitlines s = [s]"
proof (induction s)
  case Nil
  then show ?case by simp
next
  case (Cons x xs)
  then show ?case by (cases xs) auto
qed

abbreviation newline :: char where "newline \<equiv> CHR 0x0A"

lemma newline_break [simp]: "is_linebreak newline"
  by (simp add: is_linebreak_def code_def)

lemma py_splitlines_cons:
  "(\<forall>c \<in> set l. \<not> is_linebreak c) \<Longrightarrow> py_splitlines (l @ newline # rest) = l # py_splitlines rest"
  by (induction l) (simp_all add: code_def)

text \<open>\<open>s.find(c)\<close>, absent as no index; \<open>s.split(c, 1)[0]\<close> is what precedes the separator.\<close>

definition py_find :: "char \<Rightarrow> string \<Rightarrow> nat option" where
  "py_find c s = (if c \<in> set s then Some (length (takeWhile (\<lambda>d. d \<noteq> c) s)) else None)"

definition py_before :: "char \<Rightarrow> string \<Rightarrow> string" where
  "py_before c s = takeWhile (\<lambda>d. d \<noteq> c) s"

lemma py_find_take: "take (length (takeWhile P s)) s = takeWhile P s"
  by (metis takeWhile_eq_take)

section \<open>Numerals\<close>

definition digit_char :: "nat \<Rightarrow> char" where
  "digit_char d = (if d < 10 then char_of (48 + d) else char_of (87 + d))"

lemma digit_char_table:
  "digit_char 0 = CHR ''0''"
  "digit_char 1 = CHR ''1''"
  "digit_char (Suc 0) = CHR ''1''"
  "digit_char 2 = CHR ''2''"
  "digit_char 3 = CHR ''3''"
  "digit_char 4 = CHR ''4''"
  "digit_char 5 = CHR ''5''"
  "digit_char 6 = CHR ''6''"
  "digit_char 7 = CHR ''7''"
  "digit_char 8 = CHR ''8''"
  "digit_char 9 = CHR ''9''"
  "digit_char 10 = CHR ''a''"
  "digit_char 11 = CHR ''b''"
  "digit_char 12 = CHR ''c''"
  "digit_char 13 = CHR ''d''"
  "digit_char 14 = CHR ''e''"
  "digit_char 15 = CHR ''f''"
  by code_simp+

definition digit_val :: "char \<Rightarrow> nat" where
  "digit_val c = (let n = code c in
     if 97 \<le> n then n - 87 else if 65 \<le> n then n - 55 else n - 48)"

text \<open>\<open>str(n)\<close> for base 10 and \<open>'%x' % n\<close> for base 16.\<close>

function base_str :: "nat \<Rightarrow> nat \<Rightarrow> string" where
  "base_str b n =
     (if n < b \<or> b < 2 then [digit_char n] else base_str b (n div b) @ [digit_char (n mod b)])"
  by pat_completeness auto
termination
  by (relation "measure snd") auto

declare base_str.simps [simp del]

definition base_val :: "nat \<Rightarrow> string \<Rightarrow> nat" where
  "base_val b s = foldl (\<lambda>a c. a * b + digit_val c) 0 s"

abbreviation nat_str :: "nat \<Rightarrow> string" where
  "nat_str \<equiv> base_str 10"

definition int_str :: "int \<Rightarrow> string" where
  "int_str i = (if i < 0 then CHR ''-'' # nat_str (nat (- i)) else nat_str (nat i))"

lemma digit_val_char [simp]: "d < 16 \<Longrightarrow> digit_val (digit_char d) = d"
  by (simp add: digit_val_def digit_char_def Let_def)

lemma base_val_snoc [simp]: "base_val b (s @ [c]) = base_val b s * b + digit_val c"
  by (simp add: base_val_def)

lemma base_val_str: "2 \<le> b \<Longrightarrow> b \<le> 16 \<Longrightarrow> base_val b (base_str b n) = n"
proof (induction b n rule: base_str.induct)
  case (1 b n)
  show ?case
  proof (cases "n < b")
    case True
    with 1 show ?thesis by (subst base_str.simps) (simp add: base_val_def)
  next
    case False
    have m: "n mod b < 16" using 1(2,3) by (meson less_le_trans mod_less_divisor zero_less_numeral)
    from False 1 have "base_val b (base_str b (n div b)) = n div b" by simp
    with False 1 m show ?thesis by (subst base_str.simps) simp
  qed
qed

lemma base_str_digits:
  "2 \<le> b \<Longrightarrow> c \<in> set (base_str b n) \<Longrightarrow> \<exists>d < b. c = digit_char d"
proof (induction b n rule: base_str.induct)
  case (1 b n)
  show ?case
  proof (cases "n < b")
    case True
    with 1 show ?thesis by (auto simp: base_str.simps [of b n])
  next
    case False
    with 1 have "c \<in> set (base_str b (n div b)) \<or> c = digit_char (n mod b)"
      by (auto simp: base_str.simps [of b n])
    then show ?thesis
    proof
      assume "c \<in> set (base_str b (n div b))"
      with False 1 show ?thesis by simp
    next
      assume "c = digit_char (n mod b)"
      moreover have "n mod b < b" using 1 by simp
      ultimately show ?thesis by blast
    qed
  qed
qed

lemma base_str_not_Nil [simp]: "base_str b n \<noteq> []"
  by (subst base_str.simps) simp

lemma nat_str_digits: "c \<in> set (nat_str n) \<Longrightarrow> is_digit c"
  by (auto dest!: base_str_digits [rotated] simp: is_digit_def digit_char_def Let_def)

lemma code_digit_char: "d < 16 \<Longrightarrow> code (digit_char d) = (if d < 10 then 48 + d else 87 + d)"
  by (simp add: digit_char_def)

lemma hex_str_digits: "c \<in> set (base_str 16 n) \<Longrightarrow> is_hex_digit c"
  by (auto dest!: base_str_digits [rotated] simp: is_hex_digit_def code_digit_char Let_def
      split: if_splits)

lemma length_base_str: "2 \<le> b \<Longrightarrow> n < b ^ k \<Longrightarrow> 0 < k \<Longrightarrow> length (base_str b n) \<le> k"
proof (induction b n arbitrary: k rule: base_str.induct)
  case (1 b n)
  show ?case
  proof (cases "n < b")
    case True
    with 1 show ?thesis by (subst base_str.simps) simp
  next
    case False
    with 1(3,4) have "k \<noteq> 1" by auto
    with 1(4) obtain j where k: "k = Suc j" "0 < j" by (cases k) auto
    with 1(2,3) have "n div b < b ^ j" by (simp add: less_mult_imp_div_less mult.commute)
    with False 1 k have "length (base_str b (n div b)) \<le> j" by simp
    with False k 1(2) show ?thesis by (subst base_str.simps) simp
  qed
qed

text \<open>A numeral of more than one digit has no leading zero.\<close>

lemma base_str_hd: "2 \<le> b \<Longrightarrow> b \<le> 16 \<Longrightarrow> 0 < n \<Longrightarrow> hd (base_str b n) \<noteq> CHR ''0''"
proof (induction b n rule: base_str.induct)
  case (1 b n)
  have nz: "digit_char d \<noteq> CHR ''0''" if "0 < d" "d < 16" for d
  proof
    assume "digit_char d = CHR ''0''"
    then have "digit_val (digit_char d) = digit_val (CHR ''0'')" by simp
    also have "\<dots> = 0" by (simp add: digit_val_def code_def)
    finally show False using that by simp
  qed
  show ?case
  proof (cases "n < b")
    case True
    with 1 nz show ?thesis by (subst base_str.simps) simp
  next
    case False
    with 1 have "0 < n div b" by (simp add: div_greater_zero_iff)
    with False 1 have "hd (base_str b (n div b)) \<noteq> CHR ''0''" by simp
    with False 1 show ?thesis by (subst base_str.simps) simp
  qed
qed

text \<open>
  \<open>int(text)\<close>: blanks around the number, an optional sign, decimal digits with single
  underscores between them, at most 4300 digits (the interpreter's default limit). \<open>None\<close>
  is the \<open>ValueError\<close>.
\<close>

fun int_digits :: "string \<Rightarrow> string option" where
  "int_digits [] = None"
| "int_digits [c] = (if is_digit c then Some [c] else None)"
| "int_digits (c # d # cs) =
     (if \<not> is_digit c then None
      else if d = CHR ''_'' then map_option ((#) c) (int_digits cs)
      else map_option ((#) c) (int_digits (d # cs)))"

definition max_str_digits :: nat where
  "max_str_digits = 4300"

definition py_int :: "string \<Rightarrow> int option" where
  "py_int raw =
     (let t = rstrip_if is_int_space (dropWhile is_int_space raw);
          neg = (t \<noteq> [] \<and> hd t = CHR ''-'');
          body = (if t \<noteq> [] \<and> (hd t = CHR ''-'' \<or> hd t = CHR ''+'') then tl t else t)
      in case int_digits body of
           None \<Rightarrow> None
         | Some ds \<Rightarrow>
             if max_str_digits < length ds then None
             else Some (if neg then - int (base_val 10 ds) else int (base_val 10 ds)))"

lemma int_digits_all: "s \<noteq> [] \<Longrightarrow> (\<forall>c \<in> set s. is_digit c) \<Longrightarrow> int_digits s = Some s"
proof (induction s rule: int_digits.induct)
  case (3 c d cs)
  then have "d \<noteq> CHR ''_''" by (auto simp: is_digit_def code_def)
  with 3 show ?case by simp
qed simp_all

lemma py_int_str: "length (nat_str (nat \<bar>i\<bar>)) \<le> max_str_digits \<Longrightarrow> py_int (int_str i) = Some i"
proof -
  assume len: "length (nat_str (nat \<bar>i\<bar>)) \<le> max_str_digits"
  define n where "n = nat \<bar>i\<bar>"
  have digits: "\<forall>c \<in> set (nat_str n). is_digit c" by (auto dest: nat_str_digits)
  have nospace: "\<not> is_int_space c" if "is_digit c" for c
    using that by (auto simp: is_digit_def is_int_space_def Let_def)
  have sign: "\<not> is_int_space (CHR ''-'')" "\<not> is_digit (CHR ''-'')" "\<not> is_digit (CHR ''+'')"
    by (simp_all add: is_int_space_def is_digit_def code_def)
  have hd: "is_digit (hd (nat_str n))" and last: "is_digit (last (nat_str n))"
    using digits by (simp_all add: hd_in_set last_in_set)
  have val: "base_val 10 (nat_str n) = n" by (rule base_val_str) simp_all
  have drop: "dropWhile is_int_space s = s" if "s \<noteq> []" "\<not> is_int_space (hd s)" for s
    using that by (cases s) auto
  show ?thesis
  proof (cases "i < 0")
    case True
    then have "int_str i = CHR ''-'' # nat_str n" by (simp add: int_str_def n_def)
    moreover have "rstrip_if is_int_space (CHR ''-'' # nat_str n) = CHR ''-'' # nat_str n"
      by (rule rstrip_if_id) (simp add: nospace last)
    ultimately show ?thesis using True len sign digits val
      by (simp add: py_int_def drop int_digits_all Let_def n_def)
  next
    case False
    then have "int_str i = nat_str n" by (simp add: int_str_def n_def)
    moreover have "rstrip_if is_int_space (nat_str n) = nat_str n"
      by (rule rstrip_if_id) (simp add: nospace last)
    moreover have "hd (nat_str n) \<noteq> CHR ''-''" "hd (nat_str n) \<noteq> CHR ''+''"
      using hd sign by auto
    ultimately show ?thesis using False len digits val
      by (simp add: py_int_def drop nospace hd int_digits_all Let_def n_def)
  qed
qed

section \<open>Escaping\<close>

text \<open>\<open>s.replace(c, r)\<close> for a one-character pattern.\<close>

definition py_replace1 :: "char \<Rightarrow> string \<Rightarrow> string \<Rightarrow> string" where
  "py_replace1 c r s = concat (map (\<lambda>d. if d = c then r else [d]) s)"

end
