(* ===== verification/DnsMessage.thy ===== *)
theory DnsMessage
  imports Complex_Main PyText
begin

text \<open>
  DNS messages as the source reads and builds them, and the third-party library \<open>dnslib\<close>
  as a record of functions: every definition that calls the library takes it as an
  argument. A call that may raise returns an option. What the resolver relies on is
  the hypothesis \<open>dnslib_ok\<close>, which states the documented behaviour of the calls; a
  concrete library that satisfies it closes the theory. \<open>'d\<close> is record data, \<open>'b\<close> packed
  bytes. The record types and response codes are the assigned numbers of RFC 1035 and
  RFC 3596.
\<close>

section \<open>Messages\<close>

record dns_question =
  qn_name :: string
  qn_type :: int
  qn_class :: int

record 'd dns_rr =
  rr_name :: string
  rr_type :: int
  rr_ttl :: int
  rr_data :: 'd

record 'd dns_msg =
  msg_id :: int
  msg_rcode :: int
  msg_tc :: bool
  msg_q :: dns_question
  msg_rr :: "'d dns_rr list"
  msg_auth :: "'d dns_rr list"
  msg_ar :: "'d dns_rr list"

definition QTYPE_A :: int where "QTYPE_A = 1"
definition QTYPE_CNAME :: int where "QTYPE_CNAME = 5"
definition QTYPE_SOA :: int where "QTYPE_SOA = 6"
definition QTYPE_PTR :: int where "QTYPE_PTR = 12"
definition QTYPE_AAAA :: int where "QTYPE_AAAA = 28"

definition RCODE_NOERROR :: int where "RCODE_NOERROR = 0"
definition RCODE_SERVFAIL :: int where "RCODE_SERVFAIL = 2"
definition RCODE_NXDOMAIN :: int where "RCODE_NXDOMAIN = 3"

lemmas qtype_defs = QTYPE_A_def QTYPE_CNAME_def QTYPE_SOA_def QTYPE_PTR_def QTYPE_AAAA_def
lemmas rcode_defs = RCODE_NOERROR_def RCODE_SERVFAIL_def RCODE_NXDOMAIN_def

definition add_answer :: "'d dns_rr \<Rightarrow> 'd dns_msg \<Rightarrow> 'd dns_msg" where
  "add_answer r m = m\<lparr>msg_rr := msg_rr m @ [r]\<rparr>"

section \<open>The library\<close>

record ('d, 'b) dnslib =
  dl_reply :: "'d dns_msg \<Rightarrow> 'd dns_msg"
  dl_parse :: "'b \<Rightarrow> 'd dns_msg option"
  dl_pack :: "'d dns_msg \<Rightarrow> 'b option"
  dl_qtype :: "int \<Rightarrow> string option"
  dl_rcode :: "int \<Rightarrow> string option"
  dl_class :: "int \<Rightarrow> string option"
  dl_A :: "string \<Rightarrow> 'd option"
  dl_AAAA :: "string \<Rightarrow> 'd option"
  dl_CNAME :: "string \<Rightarrow> 'd option"
  dl_PTR :: "string \<Rightarrow> 'd option"
  dl_RR :: "string \<Rightarrow> int \<Rightarrow> int \<Rightarrow> 'd \<Rightarrow> 'd dns_rr option"
  dl_set_ttl :: "int \<Rightarrow> 'd dns_rr \<Rightarrow> 'd dns_rr option"
  dl_text :: "'d \<Rightarrow> string"
  dl_soa_minimum :: "'d \<Rightarrow> int option"
  dl_question :: "string \<Rightarrow> string \<Rightarrow> 'd dns_msg"

text \<open>The documented behaviour: a reply repeats identifier and question and starts without records. Its response
  code is left open: the library copies the header bits of the request, which any client may set. Packing a message and parsing the bytes gives the message; a record holds what it
  was built from, and a TTL must fit 32 bits.\<close>

definition reply_ok :: "('d, 'b) dnslib \<Rightarrow> bool" where
  "reply_ok D \<longleftrightarrow> (\<forall>m. msg_id (dl_reply D m) = msg_id m \<and> msg_q (dl_reply D m) = msg_q m
     \<and> msg_rr (dl_reply D m) = [] \<and> msg_auth (dl_reply D m) = [] \<and> msg_ar (dl_reply D m) = [])"

definition pack_ok :: "('d, 'b) dnslib \<Rightarrow> bool" where
  "pack_ok D \<longleftrightarrow> (\<forall>m b. dl_pack D m = Some b \<longrightarrow> dl_parse D b = Some m)"

definition ttl_fits :: "int \<Rightarrow> bool" where
  "ttl_fits ttl \<longleftrightarrow> 0 \<le> ttl \<and> ttl < 2 ^ 32"

definition record_ok :: "('d, 'b) dnslib \<Rightarrow> bool" where
  "record_ok D \<longleftrightarrow>
     (\<forall>name type ttl data. dl_RR D name type ttl data =
        (if ttl_fits ttl then Some \<lparr>rr_name = name, rr_type = type, rr_ttl = ttl, rr_data = data\<rparr> else None))
   \<and> (\<forall>ttl r. dl_set_ttl D ttl r = (if ttl_fits ttl then Some (r\<lparr>rr_ttl := ttl\<rparr>) else None))"

definition dnslib_ok :: "('d, 'b) dnslib \<Rightarrow> bool" where
  "dnslib_ok D \<longleftrightarrow> reply_ok D \<and> pack_ok D \<and> record_ok D"

lemma dnslib_okD: "dnslib_ok D \<Longrightarrow> reply_ok D" "dnslib_ok D \<Longrightarrow> pack_ok D" "dnslib_ok D \<Longrightarrow> record_ok D"
  by (simp_all add: dnslib_ok_def)

lemma reply_fields:
  assumes "reply_ok D"
  shows "msg_id (dl_reply D m) = msg_id m" "msg_q (dl_reply D m) = msg_q m"
    "msg_rr (dl_reply D m) = []"
    "msg_auth (dl_reply D m) = []" "msg_ar (dl_reply D m) = []"
  using assms by (simp_all add: reply_ok_def)

text \<open>A concrete library: bytes are the message itself, record data its text, and the constructors
  accept every text but the empty one.\<close>

definition toy_dnslib :: "(string, string dns_msg) dnslib" where
  "toy_dnslib =
     \<lparr>dl_reply = (\<lambda>m. \<lparr>msg_id = msg_id m, msg_rcode = msg_rcode m, msg_tc = False, msg_q = msg_q m,
        msg_rr = [], msg_auth = [], msg_ar = []\<rparr>),
      dl_parse = Some, dl_pack = Some,
      dl_qtype = map_of [(1, ''A''), (5, ''CNAME''), (6, ''SOA''), (12, ''PTR''), (28, ''AAAA'')],
      dl_rcode = map_of [(0, ''NOERROR''), (2, ''SERVFAIL''), (3, ''NXDOMAIN'')],
      dl_class = map_of [(1, ''IN'')],
      dl_A = (\<lambda>s. if s = [] then None else Some s), dl_AAAA = (\<lambda>s. if s = [] then None else Some s),
      dl_CNAME = Some, dl_PTR = Some,
      dl_RR = (\<lambda>name type ttl data. if ttl_fits ttl
        then Some \<lparr>rr_name = name, rr_type = type, rr_ttl = ttl, rr_data = data\<rparr> else None),
      dl_set_ttl = (\<lambda>ttl r. if ttl_fits ttl then Some (r\<lparr>rr_ttl := ttl\<rparr>) else None),
      dl_text = (\<lambda>d. d), dl_soa_minimum = py_int,
      dl_question = (\<lambda>name type. \<lparr>msg_id = 0, msg_rcode = 0, msg_tc = False,
        msg_q = \<lparr>qn_name = name, qn_type = 1, qn_class = 1\<rparr>, msg_rr = [], msg_auth = [], msg_ar = []\<rparr>)\<rparr>"

lemma toy_dnslib_ok: "dnslib_ok toy_dnslib"
  by (simp add: dnslib_ok_def reply_ok_def pack_ok_def record_ok_def toy_dnslib_def)

end
