(* ===== verification/Policy.thy ===== *)
theory Policy
  imports PyText "HOL-Library.Product_Lexorder" "HOL-Library.Multiset"
begin

text \<open>
  Policy matching: \<open>domain/policy.py\<close>. A rule carries a client pattern, a domain
  pattern and an action; \<open>select_policy\<close> scans the rules for the most specific match.
  The lemmas show that the scan returns the first rule of maximal specificity, that the
  wildcard patterns respect label boundaries and that the choice does not depend on
  the order of the rules.
\<close>

section \<open>Rules\<close>

definition WILDCARD :: string where
  "WILDCARD = ''*''"

definition ACTION_FORWARD :: string where "ACTION_FORWARD = ''forward''"
definition ACTION_OVERRIDE :: string where "ACTION_OVERRIDE = ''override''"
definition ACTION_DENY :: string where "ACTION_DENY = ''deny''"
definition ACTION_BLOCKLIST :: string where "ACTION_BLOCKLIST = ''blocklist''"

definition VALID_ACTIONS :: "string set" where
  "VALID_ACTIONS = {ACTION_FORWARD, ACTION_OVERRIDE, ACTION_DENY, ACTION_BLOCKLIST}"

record PolicyRule =
  rule_client :: string
  rule_domain :: string
  rule_action :: string
  override_response :: "string option"
  override_ttl :: int

lemmas action_defs = ACTION_FORWARD_def ACTION_OVERRIDE_def ACTION_DENY_def ACTION_BLOCKLIST_def

section \<open>Matching\<close>

definition normalize_domain :: "string \<Rightarrow> string" where
  "normalize_domain name = py_lower (py_rstrip_char dot name)"

definition domain_specificity :: "string \<Rightarrow> string \<Rightarrow> nat option" where
  "domain_specificity rule_dom qname =
     (let pattern = py_lower (py_rstrip_char dot rule_dom) in
      if pattern = WILDCARD then Some 0
      else if starts_with ''*.'' pattern then
        (let suffix = drop 2 pattern in
         if qname = suffix \<or> ends_with (dot # suffix) qname then Some (1000 + length suffix)
         else None)
      else if pattern = qname then Some 1000000
      else None)"

definition client_matches :: "string \<Rightarrow> string \<Rightarrow> bool" where
  "client_matches rule_cl client_ip = (rule_cl = WILDCARD \<or> rule_cl = client_ip)"

text \<open>One pass over the rules: \<open>best\<close> and \<open>best_key\<close> are the variables of the loop.\<close>

fun select_loop :: "PolicyRule list \<Rightarrow> string \<Rightarrow> string \<Rightarrow> PolicyRule option
    \<Rightarrow> (nat \<times> nat) option \<Rightarrow> PolicyRule option" where
  "select_loop [] client_ip normalized best best_key = best"
| "select_loop (rule # rules) client_ip normalized best best_key =
     (if \<not> client_matches (rule_client rule) client_ip
      then select_loop rules client_ip normalized best best_key
      else case domain_specificity (rule_domain rule) normalized of
        None \<Rightarrow> select_loop rules client_ip normalized best best_key
      | Some specificity \<Rightarrow>
          let client_specificity = (if rule_client rule \<noteq> WILDCARD then 1 else 0);
              key = (specificity, client_specificity)
          in if (case best_key of None \<Rightarrow> True | Some k \<Rightarrow> k < key)
             then select_loop rules client_ip normalized (Some rule) (Some key)
             else select_loop rules client_ip normalized best best_key)"

definition select_policy :: "PolicyRule list \<Rightarrow> string \<Rightarrow> string \<Rightarrow> PolicyRule option" where
  "select_policy rules client_ip qname = select_loop rules client_ip (normalize_domain qname) None None"

section \<open>Specification\<close>

text \<open>The precedence key of a rule for a client and a normalised name.\<close>

definition rule_key :: "string \<Rightarrow> string \<Rightarrow> PolicyRule \<Rightarrow> (nat \<times> nat) option" where
  "rule_key client_ip normalized rule =
     (if client_matches (rule_client rule) client_ip
      then map_option (\<lambda>s. (s, if rule_client rule \<noteq> WILDCARD then 1 else 0))
             (domain_specificity (rule_domain rule) normalized)
      else None)"

abbreviation wins :: "PolicyRule list \<Rightarrow> string \<Rightarrow> string \<Rightarrow> PolicyRule \<Rightarrow> bool" where
  "wins rules client_ip normalized r \<equiv> first_max (rule_key client_ip normalized) rules r"

section \<open>Lemmas\<close>

lemma select_loop_Cons:
  "select_loop (r # rs) c n b bk =
     (case rule_key c n r of
        None \<Rightarrow> select_loop rs c n b bk
      | Some k \<Rightarrow> if (case bk of None \<Rightarrow> True | Some j \<Rightarrow> j < k)
                  then select_loop rs c n (Some r) (Some k) else select_loop rs c n b bk)"
  by (simp add: rule_key_def Let_def split: option.splits)

lemma select_loop_scan: "select_loop rs c n b bk = scan_max (rule_key c n) rs b bk"
  by (induction rs arbitrary: b bk) (simp_all add: select_loop_Cons del: select_loop.simps(2) split: option.split)

lemma select_policy_wins:
  "select_policy rs c q = Some r \<longleftrightarrow> wins rs c (normalize_domain q) r"
  by (simp add: select_policy_def select_loop_scan scan_max_iff)

lemma select_policy_None:
  "select_policy rs c q = None \<longleftrightarrow> (\<forall>r \<in> set rs. rule_key c (normalize_domain q) r = None)"
  by (simp add: select_policy_def select_loop_scan scan_max_None_iff)

text \<open>The reference reading: the head of the matching rules of maximal key, in table order.\<close>

definition strongest :: "PolicyRule list \<Rightarrow> string \<Rightarrow> string \<Rightarrow> PolicyRule list" where
  "strongest rules client_ip normalized =
     (let keys = List.map_filter (rule_key client_ip normalized) rules
      in filter (\<lambda>r. rule_key client_ip normalized r = Some (Max (set keys))) rules)"

lemma strongest_wins:
  assumes "wins rs c n r"
  shows "\<exists>rest. strongest rs c n = r # rest"
proof -
  from first_max_filter [OF assms] obtain k rest where k: "rule_key c n r = Some k"
      "\<forall>q \<in> set rs. \<forall>j. rule_key c n q = Some j \<longrightarrow> j \<le> k"
      "filter (\<lambda>q. rule_key c n q = Some k) rs = r # rest" by blast
  have "set (List.map_filter (rule_key c n) rs) = {j. \<exists>q \<in> set rs. rule_key c n q = Some j}"
    by (force simp: List.map_filter_def image_iff)
  then have "Max (set (List.map_filter (rule_key c n) rs)) = k"
    using k(1,2) first_max_key [OF assms] by (intro Max_eqI) blast+
  with k(3) show ?thesis by (simp add: strongest_def)
qed

lemma strongest_Nil:
  assumes "\<forall>r \<in> set rs. rule_key c n r = None"
  shows "strongest rs c n = []"
  using assms by (auto simp: strongest_def filter_empty_conv)

text \<open>A normalised name neither changes under normalisation nor ends in a dot.\<close>

lemma lower_dot [simp]: "lower_char c = dot \<longleftrightarrow> c = dot"
  by (auto simp: code_inj [symmetric] code_lower_char) (auto simp: code_def split: if_splits)

lemma normalize_idem [simp]: "normalize_domain (normalize_domain s) = normalize_domain s"
  by (simp add: normalize_domain_def py_rstrip_char_def py_lower_def rstrip_if_map)

lemma normalize_last: "normalize_domain s \<noteq> [] \<Longrightarrow> last (normalize_domain s) \<noteq> dot"
  using rstrip_if_last [of "\<lambda>d. d = dot" s]
  by (auto simp: normalize_domain_def py_rstrip_char_def py_lower_def last_map)

lemma normalize_idI: "py_lower s = s \<Longrightarrow> s = [] \<or> last s \<noteq> dot \<Longrightarrow> normalize_domain s = s"
  by (auto simp: normalize_domain_def py_rstrip_char_def rstrip_if_id)

lemma domain_specificity_norm: "domain_specificity d n =
   (let pattern = normalize_domain d in
    if pattern = WILDCARD then Some 0
    else if starts_with ''*.'' pattern then
      (if n = drop 2 pattern \<or> ends_with (dot # drop 2 pattern) n then Some (1000 + length (drop 2 pattern)) else None)
    else if pattern = n then Some 1000000 else None)"
  by (simp add: domain_specificity_def normalize_domain_def Let_def)

lemma wildcard_or_suffix:
  assumes "normalize_domain s = s" "s \<noteq> []"
  shows "normalize_domain (''*.'' @ s) = ''*.'' @ s"
proof (rule normalize_idI)
  have "py_lower s = s" using assms(1) by (metis normalize_domain_def py_lower_idem)
  then show "py_lower (''*.'' @ s) = ''*.'' @ s" by (simp add: py_lower_def lower_char_def code_def)
  show "''*.'' @ s = [] \<or> last (''*.'' @ s) \<noteq> dot" using assms normalize_last [of s] by simp
qed

text \<open>A suffix at a dot is a suffix of the list of labels.\<close>

lemma label_suffix:
  "(q = s \<or> ends_with (dot # s) q) \<longleftrightarrow> (\<exists>labels. py_split dot q = labels @ py_split dot s)"
proof
  assume "q = s \<or> ends_with (dot # s) q"
  then show "\<exists>labels. py_split dot q = labels @ py_split dot s"
  proof
    assume "ends_with (dot # s) q"
    then obtain t where "q = t @ dot # s" by (auto simp: ends_with_append)
    then have "py_split dot q = py_split dot t @ py_split dot s" by (simp add: py_split_at)
    then show ?thesis by blast
  qed (auto intro: exI [of _ "[]"])
next
  assume "\<exists>labels. py_split dot q = labels @ py_split dot s"
  then obtain labels where l: "py_split dot q = labels @ py_split dot s" ..
  then have q: "q = py_join [dot] (labels @ py_split dot s)" by (metis py_join_split)
  show "q = s \<or> ends_with (dot # s) q"
  proof (cases "labels = []")
    case True
    with q show ?thesis by simp
  next
    case False
    then have "py_join [dot] (labels @ py_split dot s) = py_join [dot] labels @ dot # s"
      by (simp add: py_join_append)
    with q show ?thesis by (auto simp: ends_with_append)
  qed
qed

section \<open>Properties\<close>

text \<open>C17: \<open>select_policy\<close> returns the first rule, in table order, among the matching rules of
  maximal precedence (domain specificity, then client specificity), and nothing exactly
  when no rule matches.\<close>

theorem select_policy_reference:
  "select_policy rules client_ip qname =
     (case strongest rules client_ip (normalize_domain qname) of [] \<Rightarrow> None | r # _ \<Rightarrow> Some r)"
proof (cases "select_policy rules client_ip qname")
  case None
  then show ?thesis using strongest_Nil by (simp add: select_policy_None)
next
  case (Some r)
  then show ?thesis using strongest_wins [of client_ip "normalize_domain qname" rules r]
    by (auto simp: select_policy_wins)
qed

text \<open>Two matching rules of equal precedence name the same client and the same pattern.\<close>

lemma specificity_inject:
  assumes "domain_specificity d n = Some k" "domain_specificity e n = Some k" "length n < 999000"
  shows "normalize_domain d = normalize_domain e"
proof -
  have tail: "ends_with s n" if "ends_with (dot # s) n" for s
    using that by (auto simp: ends_with_append)
  have shape: "normalize_domain x = WILDCARD \<and> k = 0
      \<or> (\<exists>s. normalize_domain x = ''*.'' @ s \<and> k = 1000 + length s \<and> ends_with s n)
      \<or> normalize_domain x = n \<and> k = 1000000"
    if x: "domain_specificity x n = Some k" for x
  proof (cases "starts_with ''*.'' (normalize_domain x)")
    case True
    then obtain s where s: "normalize_domain x = ''*.'' @ s" by (auto simp: starts_with_append)
    have "ends_with n n" by (simp add: ends_with_def)
    with x s tail have "k = 1000 + length s \<and> ends_with s n"
      by (auto simp: domain_specificity_norm Let_def starts_with_def WILDCARD_def split: if_splits)
    with s show ?thesis by blast
  next
    case False
    with x show ?thesis by (simp add: domain_specificity_norm Let_def split: if_splits)
  qed
  have long: "length s \<le> length n" if "ends_with s n" for s using that by (simp add: ends_with_def)
  have same: "s = t" if "ends_with s n" "ends_with t n" "length s = length t" for s t
    using that by (auto simp: ends_with_def)
  have bound: "1000 + length s \<noteq> 1000000" if "ends_with s n" for s
    using long [OF that] assms(3) by linarith
  consider (any) "k = 0" | (suffix) s where "k = 1000 + length s" "ends_with s n" | (exact) "k = 1000000"
    using shape [OF assms(1)] by blast
  then show ?thesis
  proof cases
    case any
    with shape [OF assms(1)] shape [OF assms(2)] show ?thesis by force
  next
    case suffix
    with shape [OF assms(1)] obtain t where t: "normalize_domain d = ''*.'' @ t" "length t = length s" "ends_with t n"
      using bound by force
    from suffix shape [OF assms(2)] obtain u where u: "normalize_domain e = ''*.'' @ u" "length u = length s" "ends_with u n"
      using bound by force
    from same [OF t(3) u(3)] t u show ?thesis by simp
  next
    case exact
    have "\<not> (\<exists>s. k = 1000 + length s \<and> ends_with s n)" using exact bound by metis
    with exact shape [OF assms(1)] shape [OF assms(2)] show ?thesis by auto
  qed
qed

lemma rule_key_inject:
  assumes "rule_key c n r = rule_key c n s" "rule_key c n r \<noteq> None" "length n < 999000"
  shows "rule_client r = rule_client s \<and> normalize_domain (rule_domain r) = normalize_domain (rule_domain s)"
  using assms specificity_inject [of "rule_domain r" n _ "rule_domain s"]
  by (auto simp: rule_key_def client_matches_def split: if_splits)

text \<open>The decision does not depend on the order in which the rules are stored, when no
  two of them have the same client and the same normalised domain pattern (names of less
  than 999000 characters: longer suffixes would reach the score of an exact match).\<close>

theorem select_policy_perm:
  assumes "mset rules' = mset rules"
    and "\<forall>r \<in> set rules. \<forall>s \<in> set rules. rule_client r = rule_client s
           \<and> normalize_domain (rule_domain r) = normalize_domain (rule_domain s) \<longrightarrow> r = s"
    and "length qname < 999000"
  shows "select_policy rules' client_ip qname = select_policy rules client_ip qname"
proof -
  let ?n = "normalize_domain qname"
  let ?key = "rule_key client_ip ?n"
  have len: "length ?n < 999000"
    using assms(3) length_rstrip_if [of "\<lambda>d. d = dot" qname]
    by (simp add: normalize_domain_def py_rstrip_char_def)
  have same: "set rules' = set rules" using assms(1) by (metis set_mset_mset)
  have inj: "\<forall>x \<in> set rules. \<forall>y \<in> set rules. ?key x = ?key y \<longrightarrow> ?key x \<noteq> None \<longrightarrow> x = y"
    using assms(2) rule_key_inject [OF _ _ len] by blast
  show ?thesis
  proof (cases "select_policy rules client_ip qname")
    case None
    with same show ?thesis by (metis select_policy_None)
  next
    case (Some r)
    with first_max_perm [OF _ same inj] show ?thesis by (metis select_policy_wins)
  qed
qed

theorem select_policy_perm_witness:
  "select_policy [\<lparr>rule_client = ''*'', rule_domain = ''*'', rule_action = ''deny'', override_response = None, override_ttl = 300\<rparr>,
      \<lparr>rule_client = ''10.0.0.9'', rule_domain = ''*.a.b'', rule_action = ''forward'', override_response = None, override_ttl = 300\<rparr>]
      ''10.0.0.9'' ''x.A.b.''
   = select_policy [\<lparr>rule_client = ''10.0.0.9'', rule_domain = ''*.a.b'', rule_action = ''forward'', override_response = None, override_ttl = 300\<rparr>,
      \<lparr>rule_client = ''*'', rule_domain = ''*'', rule_action = ''deny'', override_response = None, override_ttl = 300\<rparr>]
      ''10.0.0.9'' ''x.A.b.''"
  by (rule select_policy_perm) simp_all

text \<open>C18: a pattern \<open>*.s\<close> covers the names whose labels end in the labels of \<open>s\<close>, the name
  \<open>s\<close> itself included, and no name that merely ends in the same characters.\<close>

theorem wildcard_label_boundary:
  assumes "normalize_domain s = s" "s \<noteq> []"
  shows "domain_specificity (''*.'' @ s) qname \<noteq> None
    \<longleftrightarrow> (\<exists>labels. py_split dot qname = labels @ py_split dot s)"
  unfolding domain_specificity_norm wildcard_or_suffix [OF assms] label_suffix [symmetric]
  using assms(2) by (simp add: starts_with_def WILDCARD_def)

theorem wildcard_label_boundary_witness:
  "domain_specificity (''*.'' @ ''b.c'') ''a.b.c'' \<noteq> None \<and> domain_specificity (''*.'' @ ''b.c'') ''ab.c'' = None"
proof -
  have norm: "normalize_domain ''b.c'' = ''b.c''" by (simp add: normalize_domain_def py_rstrip_char_def
    rstrip_if_def py_lower_def lower_char_def code_def)
  show ?thesis
    using wildcard_label_boundary [OF norm, of "''a.b.c''"] wildcard_label_boundary [OF norm, of "''ab.c''"]
    by (auto simp: Cons_eq_append_conv intro: exI [of _ "[''a'']"])
qed

end
