(* ===== verification/IpAddr.thy ===== *)
theory IpAddr
  imports PyText
begin

unbundle bit_operations_syntax

text \<open>
  The part of Python's \<open>ipaddress\<close> module the source calls: \<open>ip_address(text)\<close>,
  \<open>str(addr)\<close>, \<open>addr.reverse_pointer\<close>, \<open>ip_network(text, strict=False)\<close>,
  \<open>str(net)\<close> and \<open>addr in net\<close>. An address holds its integer, an IPv6 address also its
  optional scope id. \<open>None\<close> is a \<open>ValueError\<close>. The lemmas give the parse/print round
  trips for both families and the prefix reading of the mask arithmetic.
\<close>

datatype ip_addr = IPv4 nat | IPv6 nat "string option"

datatype ip_net = Net4 nat nat | Net6 nat "string option" nat


section \<open>IPv4\<close>

definition parse_octet :: "string \<Rightarrow> nat option" where
  "parse_octet s =
     (if s = [] then None
      else if \<not> list_all is_digit s then None
      else if 3 < length s then None
      else if s \<noteq> ''0'' \<and> hd s = CHR ''0'' then None
      else if 255 < base_val 10 s then None
      else Some (base_val 10 s))"

definition from_digits :: "nat \<Rightarrow> nat list \<Rightarrow> nat" where
  "from_digits b ds = foldl (\<lambda>a d. a * b + d) 0 ds"

definition parse_v4_int :: "string \<Rightarrow> nat option" where
  "parse_v4_int s =
     (if s = [] then None
      else let octets = py_split dot s in
        if length octets \<noteq> 4 then None
        else map_option (from_digits 256) (all_some (map parse_octet octets)))"

definition ipv4_address :: "string \<Rightarrow> nat option" where
  "ipv4_address s = (if CHR ''/'' \<in> set s then None else parse_v4_int s)"

definition v4_octets :: "nat \<Rightarrow> nat list" where
  "v4_octets n = [n div 16777216, n div 65536 mod 256, n div 256 mod 256, n mod 256]"

definition v4_str :: "nat \<Rightarrow> string" where
  "v4_str n = py_join [dot] (map nat_str (v4_octets n))"

definition v4_reverse_pointer :: "nat \<Rightarrow> string" where
  "v4_reverse_pointer n = py_join [dot] (rev (py_split dot (v4_str n))) @ ''.in-addr.arpa''"

lemma nat_str_no_dot: "dot \<notin> set (nat_str n)"
  by (auto dest!: nat_str_digits simp: is_digit_def code_def)

lemma parse_octet_str: "n < 256 \<Longrightarrow> parse_octet (nat_str n) = Some n"
proof -
  assume n: "n < 256"
  have digits: "list_all is_digit (nat_str n)" by (auto simp: list_all_iff dest: nat_str_digits)
  have len: "length (nat_str n) \<le> 3" by (rule length_base_str) (use n in simp_all)
  have val: "base_val 10 (nat_str n) = n" by (rule base_val_str) simp_all
  have lead: "nat_str n \<noteq> ''0'' \<longrightarrow> hd (nat_str n) \<noteq> CHR ''0''"
  proof (cases "n = 0")
    case True
    then show ?thesis by (simp add: base_str.simps digit_char_def)
  next
    case False
    then show ?thesis using base_str_hd [of 10 n] by simp
  qed
  from digits len val lead n show ?thesis by (auto simp: parse_octet_def)
qed

lemma v4_octets_lt: "n < 2 ^ 32 \<Longrightarrow> d \<in> set (v4_octets n) \<Longrightarrow> d < 256"
  by (auto simp: v4_octets_def less_mult_imp_div_less)

lemma from_digits_v4: "from_digits 256 (v4_octets n) = n"
proof -
  have "n div 16777216 = n div 65536 div 256" by (simp add: div_mult2_eq [symmetric])
  moreover have "n div 65536 = n div 256 div 256" by (simp add: div_mult2_eq [symmetric])
  moreover have "m = m div 256 * 256 + m mod 256" for m :: nat by simp
  ultimately show ?thesis unfolding from_digits_def v4_octets_def by simp
qed

lemma split_v4_str: "py_split dot (v4_str n) = map nat_str (v4_octets n)"
  unfolding v4_str_def
  by (rule py_split_join) (auto simp: v4_octets_def nat_str_no_dot)

lemma parse_v4_str: "n < 2 ^ 32 \<Longrightarrow> parse_v4_int (v4_str n) = Some n"
proof -
  assume n: "n < 2 ^ 32"
  have "map parse_octet (map nat_str (v4_octets n)) = map Some (v4_octets n)"
    using v4_octets_lt [OF n] by (simp add: parse_octet_str)
  then have oct: "all_some (map parse_octet (map nat_str (v4_octets n))) = Some (v4_octets n)"
    by (simp only: all_some_map_Some)
  have ne: "v4_str n \<noteq> []" using split_v4_str [of n] by (auto simp: v4_octets_def)
  have len: "length (map nat_str (v4_octets n)) = 4" by (simp add: v4_octets_def)
  show ?thesis
    using ne len by (simp only: parse_v4_int_def split_v4_str Let_def oct if_False simp_thms
        option.map from_digits_v4)
qed

lemma v4_str_chars: "c \<in> set (v4_str n) \<Longrightarrow> is_digit c \<or> c = dot"
  unfolding v4_str_def using py_join_chars nat_str_digits by fastforce

lemma ipv4_address_str: "n < 2 ^ 32 \<Longrightarrow> ipv4_address (v4_str n) = Some n"
proof -
  have "CHR ''/'' \<notin> set (v4_str n)"
    using v4_str_chars [of "CHR ''/''" n] by (auto simp: is_digit_def code_def)
  then show "n < 2 ^ 32 \<Longrightarrow> ?thesis" by (simp add: ipv4_address_def parse_v4_str)
qed

lemma parse_octet_Some: "parse_octet s = Some d \<Longrightarrow> d < 256 \<and> list_all is_digit s \<and> s \<noteq> []"
  by (auto simp: parse_octet_def split: if_splits)

lemma from_digits_lt:
  "\<forall>d \<in> set ds. d < b \<Longrightarrow> from_digits b ds < b ^ length ds"
proof (induction ds rule: rev_induct)
  case Nil
  then show ?case by (simp add: from_digits_def)
next
  case (snoc d ds)
  then have "Suc (from_digits b ds) \<le> b ^ length ds" by simp
  then have "Suc (from_digits b ds) * b \<le> b ^ length ds * b" by (rule mult_le_mono1)
  with snoc.prems show ?case by (simp add: from_digits_def mult.commute)
qed

lemma parse_v4_bound: "parse_v4_int s = Some n \<Longrightarrow> n < 2 ^ 32"
proof -
  assume "parse_v4_int s = Some n"
  then obtain ds where ds: "all_some (map parse_octet (py_split dot s)) = Some ds"
    and len: "length (py_split dot s) = 4" and n: "n = from_digits 256 ds"
    by (auto simp: parse_v4_int_def Let_def split: if_splits)
  from ds have eq: "map parse_octet (py_split dot s) = map Some ds" by (simp add: all_some_Some)
  then have "length ds = 4" using len by (metis length_map)
  moreover have "\<forall>d \<in> set ds. d < 256"
  proof
    fix d assume "d \<in> set ds"
    then have "Some d \<in> set (map parse_octet (py_split dot s))" using eq by simp
    then show "d < 256" by (auto dest!: parse_octet_Some [OF sym])
  qed
  ultimately show ?thesis using from_digits_lt [of ds 256] n by simp
qed

lemma parse_v4_chars: "parse_v4_int s = Some n \<Longrightarrow> c \<in> set s \<Longrightarrow> is_digit c \<or> c = dot"
proof -
  assume p: "parse_v4_int s = Some n" and c: "c \<in> set s"
  from p obtain ds where "map parse_octet (py_split dot s) = map Some ds"
    by (auto simp: parse_v4_int_def Let_def all_some_Some split: if_splits)
  then have all: "\<exists>d. parse_octet q = Some d" if "q \<in> set (py_split dot s)" for q
    using that by (metis (no_types, lifting) image_iff list.set_map)
  have "c \<in> set (py_join [dot] (py_split dot s))" using c by simp
  then have "c = dot \<or> (\<exists>q \<in> set (py_split dot s). c \<in> set q)"
    using py_join_chars by fastforce
  then show ?thesis
    using all parse_octet_Some by (fastforce simp: list_all_iff)
qed

section \<open>IPv6\<close>

definition parse_hextet :: "string \<Rightarrow> nat option" where
  "parse_hextet s =
     (if \<not> list_all is_hex_digit s then None
      else if 4 < length s then None
      else if s = [] then None
      else Some (base_val 16 s))"

text \<open>The trailing dotted quad is rewritten as two hextets.\<close>

definition v6_parts :: "string \<Rightarrow> string list option" where
  "v6_parts s =
     (let parts = py_split colon s in
      if length parts < 3 then None
      else if dot \<in> set (last parts) then
        map_option (\<lambda>n. butlast parts @ [base_str 16 (n div 65536 mod 65536), base_str 16 (n mod 65536)])
          (ipv4_address (last parts))
      else Some parts)"

text \<open>The hextets around the gap \<open>::\<close> at position \<open>skip\<close>.\<close>

definition v6_gap :: "string list \<Rightarrow> nat \<Rightarrow> nat option" where
  "v6_gap parts skip =
     (let hi = (if hd parts = [] then skip - 1 else skip);
          lo = (if last parts = [] then length parts - skip - 2
                else length parts - skip - 1)
      in if hd parts = [] \<and> hi \<noteq> 0 then None
         else if last parts = [] \<and> lo \<noteq> 0 then None
         else if 8 \<le> hi + lo then None
         else map_option (\<lambda>(hs, ls). from_digits 65536 (hs @ replicate (8 - (hi + lo)) 0 @ ls))
                (case all_some (map parse_hextet (take hi parts)) of
                   None \<Rightarrow> None
                 | Some hs \<Rightarrow> map_option (Pair hs)
                     (all_some (map parse_hextet (drop (length parts - lo) parts)))))"

definition parse_v6_int :: "string \<Rightarrow> nat option" where
  "parse_v6_int s =
     (if s = [] then None
      else case v6_parts s of
        None \<Rightarrow> None
      | Some parts \<Rightarrow>
          if 9 < length parts then None
          else case filter (\<lambda>i. parts ! i = []) [1..<length parts - 1] of
            [] \<Rightarrow>
              if length parts \<noteq> 8 \<or> hd parts = [] \<or> last parts = [] then None
              else map_option (from_digits 65536) (all_some (map parse_hextet parts))
          | [skip] \<Rightarrow> v6_gap parts skip
          | _ \<Rightarrow> None)"

text \<open>\<open>addr, sep, scope_id = ip_str.partition('%')\<close>\<close>

definition split_scope :: "string \<Rightarrow> (string \<times> string option) option" where
  "split_scope s =
     (if CHR ''%'' \<notin> set s then Some (s, None)
      else let addr = takeWhile (\<lambda>c. c \<noteq> CHR ''%'') s;
               scope = tl (dropWhile (\<lambda>c. c \<noteq> CHR ''%'') s)
           in if scope = [] \<or> CHR ''%'' \<in> set scope then None else Some (addr, Some scope))"

definition ipv6_address :: "string \<Rightarrow> (nat \<times> string option) option" where
  "ipv6_address s =
     (if CHR ''/'' \<in> set s then None
      else case split_scope s of
        None \<Rightarrow> None
      | Some (addr, scope) \<Rightarrow> map_option (\<lambda>n. (n, scope)) (parse_v6_int addr))"

definition v6_hextets :: "nat \<Rightarrow> nat list" where
  "v6_hextets n = map (\<lambda>i. n div 65536 ^ i mod 65536) [7, 6, 5, 4, 3, 2, 1, 0]"

text \<open>
  The loop of \<open>_compress_hextets\<close> over the hextets from position \<open>i\<close>: start and length
  of the current run of zeros, start and length of the first longest one.
\<close>

fun zero_run :: "string list \<Rightarrow> nat \<Rightarrow> nat \<Rightarrow> nat \<Rightarrow> nat \<Rightarrow> nat \<Rightarrow> nat \<times> nat" where
  "zero_run [] i cur_start cur_len best_start best_len = (best_start, best_len)"
| "zero_run (h # hs) i cur_start cur_len best_start best_len =
     (if h = ''0'' then
        let start = (if cur_len = 0 then i else cur_start); len = Suc cur_len
        in if best_len < len then zero_run hs (Suc i) start len start len
           else zero_run hs (Suc i) start len best_start best_len
      else zero_run hs (Suc i) 0 0 best_start best_len)"

definition cut_run :: "string list \<Rightarrow> nat \<Rightarrow> nat \<Rightarrow> string list" where
  "cut_run hs start len =
     (if start = 0 then [[]] else []) @ take start hs @ [[]] @ drop (start + len) hs
       @ (if start + len = length hs then [[]] else [])"

definition compress_hextets :: "string list \<Rightarrow> string list" where
  "compress_hextets hs =
     (case zero_run hs 0 0 0 0 0 of
        (start, len) \<Rightarrow> if 1 < len then cut_run hs start len else hs)"

definition v6_str :: "nat \<Rightarrow> string" where
  "v6_str n = py_join [colon] (compress_hextets (map (base_str 16) (v6_hextets n)))"

section \<open>Addresses\<close>

definition ip_address :: "string \<Rightarrow> ip_addr option" where
  "ip_address s =
     (case ipv4_address s of
        Some n \<Rightarrow> Some (IPv4 n)
      | None \<Rightarrow> map_option (\<lambda>(n, scope). IPv6 n scope) (ipv6_address s))"

fun ip_str :: "ip_addr \<Rightarrow> string" where
  "ip_str (IPv4 n) = v4_str n"
| "ip_str (IPv6 n None) = v6_str n"
| "ip_str (IPv6 n (Some scope)) = v6_str n @ CHR ''%'' # scope"

text \<open>\<open>'%032x' % n\<close>\<close>

definition hex32 :: "nat \<Rightarrow> string" where
  "hex32 n = (let h = base_str 16 n in replicate (32 - length h) (CHR ''0'') @ h)"

text \<open>
  \<open>reverse_pointer\<close> of an IPv6 address goes through \<open>exploded\<close>, which parses
  \<open>str(self)\<close> again: for an address with a scope id that parse raises.
\<close>

fun reverse_pointer :: "ip_addr \<Rightarrow> string option" where
  "reverse_pointer (IPv4 n) = Some (v4_reverse_pointer n)"
| "reverse_pointer (IPv6 n scope) =
     map_option (\<lambda>m. py_join [dot] (map (\<lambda>c. [c]) (rev (hex32 m))) @ ''.ip6.arpa'')
       (parse_v6_int (ip_str (IPv6 n scope)))"

section \<open>Networks\<close>

abbreviation all_ones :: "nat \<Rightarrow> nat" where
  "all_ones w \<equiv> 2 ^ w - 1"

definition netmask :: "nat \<Rightarrow> nat \<Rightarrow> nat" where
  "netmask w p = all_ones w XOR drop_bit p (all_ones w)"

text \<open>A decimal prefix length.\<close>

definition prefix_of_string :: "nat \<Rightarrow> string \<Rightarrow> nat option" where
  "prefix_of_string w s =
     (if s = [] \<or> \<not> list_all is_digit s then None
      else if max_str_digits < length s then None
      else if w < base_val 10 s then None
      else Some (base_val 10 s))"

text \<open>A dotted netmask: ones, then zeros.\<close>

fun trailing_zeros :: "nat \<Rightarrow> nat \<Rightarrow> nat" where
  "trailing_zeros 0 n = 0"
| "trailing_zeros (Suc bits) n = (if odd n then 0 else Suc (trailing_zeros bits (n div 2)))"

definition prefix_of_mask :: "nat \<Rightarrow> nat option" where
  "prefix_of_mask m =
     (let tz = trailing_zeros 32 m; p = 32 - tz
      in if drop_bit tz m \<noteq> 2 ^ p - 1 then None else Some p)"

definition v4_prefix :: "string \<Rightarrow> nat option" where
  "v4_prefix s =
     (case prefix_of_string 32 s of
        Some p \<Rightarrow> Some p
      | None \<Rightarrow>
          (case parse_v4_int s of
             None \<Rightarrow> None
           | Some m \<Rightarrow>
               (case prefix_of_mask m of
                  Some p \<Rightarrow> Some p
                | None \<Rightarrow> prefix_of_mask (m XOR all_ones 32))))"

text \<open>The text before and after an optional single slash.\<close>

definition split_addr_prefix :: "string \<Rightarrow> (string \<times> string option) option" where
  "split_addr_prefix s =
     (case py_split (CHR ''/'') s of
        [addr] \<Rightarrow> Some (addr, None)
      | [addr, msk] \<Rightarrow> Some (addr, Some msk)
      | _ \<Rightarrow> None)"

definition ipv4_network :: "string \<Rightarrow> ip_net option" where
  "ipv4_network s =
     (case split_addr_prefix s of
        None \<Rightarrow> None
      | Some (addr, msk) \<Rightarrow>
          (case ipv4_address addr of
             None \<Rightarrow> None
           | Some n \<Rightarrow>
               map_option (\<lambda>p. Net4 (n AND netmask 32 p) p)
                 (case msk of None \<Rightarrow> Some 32 | Some m \<Rightarrow> v4_prefix m)))"

text \<open>A cleared host part makes a fresh address, which has no scope id.\<close>

definition ipv6_network :: "string \<Rightarrow> ip_net option" where
  "ipv6_network s =
     (case split_addr_prefix s of
        None \<Rightarrow> None
      | Some (addr, msk) \<Rightarrow>
          (case ipv6_address addr of
             None \<Rightarrow> None
           | Some (n, scope) \<Rightarrow>
               map_option
                 (\<lambda>p. if n AND netmask 128 p \<noteq> n then Net6 (n AND netmask 128 p) None p
                      else Net6 n scope p)
                 (case msk of None \<Rightarrow> Some 128 | Some m \<Rightarrow> prefix_of_string 128 m)))"

definition ip_network :: "string \<Rightarrow> ip_net option" where
  "ip_network s = (case ipv4_network s of Some net \<Rightarrow> Some net | None \<Rightarrow> ipv6_network s)"

fun net_str :: "ip_net \<Rightarrow> string" where
  "net_str (Net4 n p) = v4_str n @ CHR ''/'' # nat_str p"
| "net_str (Net6 n scope p) = ip_str (IPv6 n scope) @ CHR ''/'' # nat_str p"

fun in_net :: "ip_addr \<Rightarrow> ip_net \<Rightarrow> bool" where
  "in_net (IPv4 n) (Net4 m p) = (n AND netmask 32 p = m)"
| "in_net (IPv6 n _) (Net6 m _ p) = (n AND netmask 128 p = m)"
| "in_net _ _ = False"

section \<open>Lemmas: IPv6 texts\<close>

lemma from_digits_Cons:
  "from_digits b (d # ds) = d * b ^ length ds + from_digits b ds"
proof (induction ds rule: rev_induct)
  case Nil
  then show ?case by (simp add: from_digits_def)
next
  case (snoc e ds)
  then show ?case by (simp add: from_digits_def algebra_simps)
qed

lemma from_digits_expand:
  "from_digits b (map (\<lambda>i. n div b ^ i mod b) (rev [0..<k])) = n mod b ^ k"
proof (induction k)
  case 0
  then show ?case by (simp add: from_digits_def)
next
  case (Suc k)
  have "n mod b ^ Suc k = b ^ k * (n div b ^ k mod b) + n mod b ^ k"
    by (metis mod_mult2_eq power_Suc2)
  with Suc show ?case by (simp add: from_digits_Cons mult.commute)
qed

lemma from_digits_v6: "n < 2 ^ 128 \<Longrightarrow> from_digits 65536 (v6_hextets n) = n"
proof -
  assume n: "n < 2 ^ 128"
  have "rev [0..<8] = [7, 6, 5, 4, 3, 2, 1, 0 :: nat]" by (simp add: upt_rec)
  then have "from_digits 65536 (v6_hextets n) = n mod 65536 ^ 8"
    using from_digits_expand [of 65536 n 8] by (simp only: v6_hextets_def)
  also have "\<dots> = n" using n by simp
  finally show ?thesis .
qed

lemma v6_hextets_lt: "d \<in> set (v6_hextets n) \<Longrightarrow> d < 65536"
  by (auto simp: v6_hextets_def)

lemma hex_no_sep: "c \<in> set (base_str 16 d) \<Longrightarrow> c \<noteq> colon \<and> c \<noteq> dot \<and> c \<noteq> CHR ''%'' \<and> c \<noteq> CHR ''/''"
  by (auto dest!: hex_str_digits simp: is_hex_digit_def code_def)

lemma parse_hextet_str: "d < 65536 \<Longrightarrow> parse_hextet (base_str 16 d) = Some d"
proof -
  assume d: "d < 65536"
  have "list_all is_hex_digit (base_str 16 d)" by (auto simp: list_all_iff dest: hex_str_digits)
  moreover have "length (base_str 16 d) \<le> 4" by (rule length_base_str) (use d in simp_all)
  moreover have "base_val 16 (base_str 16 d) = d" by (rule base_val_str) simp_all
  ultimately show ?thesis by (simp add: parse_hextet_def)
qed

lemma hex_zero: "base_str 16 d = ''0'' \<Longrightarrow> d = 0"
  using base_val_str [of 16 d] by (simp add: base_val_def digit_val_def code_def)

text \<open>What the scan returns is a run of zeros inside the list.\<close>

lemma zero_run_zeros:
  assumes "zero_run hs (length pre) cs cl bs bl = (s, l)"
    and "cl = 0 \<or> (cs + cl = length pre \<and> (\<forall>i. cs \<le> i \<and> i < cs + cl \<longrightarrow> (pre @ hs) ! i = ''0''))"
    and "bs + bl \<le> length pre" "\<forall>i. bs \<le> i \<and> i < bs + bl \<longrightarrow> (pre @ hs) ! i = ''0''"
  shows "s + l \<le> length (pre @ hs) \<and> (\<forall>i. s \<le> i \<and> i < s + l \<longrightarrow> (pre @ hs) ! i = ''0'')"
  using assms
proof (induction hs arbitrary: pre cs cl bs bl)
  case Nil
  then show ?case by simp
next
  case (Cons h hs)
  note IH = Cons.IH [of "pre @ [h]"]
  show ?case
  proof (cases "h = ''0''")
    case True
    define st where "st = (if cl = 0 then length pre else cs)"
    have run: "st + Suc cl = length (pre @ [h])
      \<and> (\<forall>i. st \<le> i \<and> i < st + Suc cl \<longrightarrow> (pre @ h # hs) ! i = ''0'')"
      using Cons.prems(2) True by (auto simp: st_def nth_append less_Suc_eq split: if_splits)
    show ?thesis
    proof (cases "bl < Suc cl")
      case True
      with \<open>h = ''0''\<close> Cons.prems(1) have "zero_run hs (length (pre @ [h])) st (Suc cl) st (Suc cl) = (s, l)"
        by (simp add: st_def Let_def)
      from IH [OF this] run show ?thesis by simp
    next
      case False
      with \<open>h = ''0''\<close> Cons.prems(1) have "zero_run hs (length (pre @ [h])) st (Suc cl) bs bl = (s, l)"
        by (simp add: st_def Let_def)
      from IH [OF this] run Cons.prems(3,4) show ?thesis by simp
    qed
  next
    case False
    with Cons.prems(1) have "zero_run hs (length (pre @ [h])) 0 0 bs bl = (s, l)" by simp
    from IH [OF this] Cons.prems(3,4) show ?thesis by simp
  qed
qed

lemma zero_run_top:
  assumes "zero_run hs 0 0 0 0 0 = (s, l)"
  shows "s + l \<le> length hs" "\<And>i. s \<le> i \<Longrightarrow> i < s + l \<Longrightarrow> hs ! i = ''0''"
  using zero_run_zeros [of hs "[]" 0 0 0 0 s l] assms by simp_all

lemma length8: "length xs = 8 \<longleftrightarrow> (\<exists>a b c d e f g h. xs = [a, b, c, d, e, f, g, h])"
  by (auto simp: numeral_eq_Suc length_Suc_conv)

lemma v6_parts_join:
  assumes "3 \<le> length ps" "\<forall>p \<in> set ps. colon \<notin> set p" "dot \<notin> set (last ps)"
  shows "v6_parts (py_join [colon] ps) = Some ps" "py_join [colon] ps \<noteq> []"
proof -
  have ne: "ps \<noteq> []" using assms(1) by auto
  have split: "py_split colon (py_join [colon] ps) = ps"
    by (rule py_split_join) (use ne assms(2) in auto)
  then show "v6_parts (py_join [colon] ps) = Some ps"
    using assms by (simp add: v6_parts_def)
  show "py_join [colon] ps \<noteq> []" using split assms(1) by auto
qed

lemma parse_v6_plain:
  assumes "length ds = 8" "\<And>d. d \<in> set ds \<Longrightarrow> d < 65536"
  shows "parse_v6_int (py_join [colon] (map (base_str 16) ds)) = Some (from_digits 65536 ds)"
proof -
  let ?ps = "map (base_str 16) ds"
  have ne: "ds \<noteq> []" using assms(1) by auto
  have len: "3 \<le> length ?ps" using assms(1) by simp
  have sep: "\<forall>p \<in> set ?ps. colon \<notin> set p" by (auto dest: hex_no_sep)
  have ld: "dot \<notin> set (last ?ps)" using ne by (auto dest: hex_no_sep simp: last_map)
  note parts = v6_parts_join [OF len sep ld]
  have none: "filter (\<lambda>i. ?ps ! i = []) [1..<length ?ps - 1] = []"
    by (auto simp: filter_empty_conv)
  have "map parse_hextet ?ps = map Some ds" using assms(2) by (simp add: parse_hextet_str)
  then have vals: "all_some (map parse_hextet ?ps) = Some ds" by (simp only: all_some_map_Some)
  have hl: "hd ?ps \<noteq> []" "last ?ps \<noteq> []" using ne by (simp_all add: hd_map last_map)
  have l8: "length ?ps = 8" using assms(1) by simp
  show ?thesis
    unfolding parse_v6_int_def parts(1) option.case none list.case vals
    using parts(2) hl l8 by simp
qed

text \<open>A compressed text: the hextets before and after the gap.\<close>

definition gap_parts :: "string list \<Rightarrow> string list \<Rightarrow> string list" where
  "gap_parts A B = (if A = [] then [[]] else []) @ A @ [[]] @ B @ (if B = [] then [[]] else [])"

lemma filter_upt_single:
  assumes "a \<le> k" "k < b" "\<And>i. a \<le> i \<Longrightarrow> i < b \<Longrightarrow> P i \<longleftrightarrow> i = k"
  shows "filter P [a..<b] = [k]"
proof -
  have "filter (\<lambda>i. i = k) [a..<b] = (if a \<le> k \<and> k < b then [k] else [])" for b
    by (induction b) auto
  moreover have "filter P [a..<b] = filter (\<lambda>i. i = k) [a..<b]"
    using assms(3) by (intro filter_cong) auto
  ultimately show ?thesis using assms(1,2) by simp
qed

lemma gap_skip:
  assumes "\<forall>p \<in> set A \<union> set B. p \<noteq> []"
  shows "filter (\<lambda>i. gap_parts A B ! i = []) [1..<length (gap_parts A B) - 1]
    = [if A = [] then 1 else length A]"
proof (rule filter_upt_single)
  show "1 \<le> (if A = [] then 1 else length A)" by (cases A) auto
  show "(if A = [] then 1 else length A) < length (gap_parts A B) - 1"
    by (cases B) (auto simp: gap_parts_def)
  fix i assume i: "1 \<le> i" "i < length (gap_parts A B) - 1"
  have inA: "i < length A \<Longrightarrow> A ! i \<noteq> []" and inB: "\<And>j. j < length B \<Longrightarrow> B ! j \<noteq> []"
    using assms by auto
  show "gap_parts A B ! i = [] \<longleftrightarrow> i = (if A = [] then 1 else length A)"
  proof (cases "A = []")
    case True
    then show ?thesis using i inB [of "i - 2"]
      by (cases "B = []") (auto simp: gap_parts_def nth_append nth_Cons' numeral_2_eq_2)
  next
    case False
    then show ?thesis using i inA inB [of "i - length A - 1"]
      by (cases "B = []") (auto simp: gap_parts_def nth_append nth_Cons' split: if_splits)
  qed
qed

lemma parse_v6_gap:
  assumes ne: "\<forall>p \<in> set A \<union> set B. p \<noteq> [] \<and> colon \<notin> set p \<and> dot \<notin> set p"
    and vals: "all_some (map parse_hextet A) = Some as" "all_some (map parse_hextet B) = Some bs"
    and len: "length A + length B < 8"
  shows "parse_v6_int (py_join [colon] (gap_parts A B))
    = Some (from_digits 65536 (as @ replicate (8 - (length A + length B)) 0 @ bs))"
proof -
  let ?ps = "gap_parts A B"
  have len3: "3 \<le> length ?ps" by (cases A; cases B) (auto simp: gap_parts_def)
  have len9: "\<not> 9 < length ?ps" using len by (auto simp: gap_parts_def)
  have set: "set ?ps \<subseteq> insert [] (set A \<union> set B)" by (auto simp: gap_parts_def)
  have sep: "\<forall>p \<in> set ?ps. colon \<notin> set p" using set ne by auto
  have "last ?ps \<in> set ?ps" using len3 by (intro last_in_set) auto
  then have ld: "dot \<notin> set (last ?ps)" using set ne by auto
  note parts = v6_parts_join [OF len3 sep ld]
  define k where "k = (if A = [] then 1 else length A)"
  have skip: "filter (\<lambda>i. ?ps ! i = []) [1..<length ?ps - 1] = [k]"
    unfolding k_def by (rule gap_skip) (use ne in auto)
  have hd: "hd ?ps = [] \<longleftrightarrow> A = []" using ne by (cases A) (auto simp: gap_parts_def)
  have last: "last ?ps = [] \<longleftrightarrow> B = []" using ne by (cases B rule: rev_cases) (auto simp: gap_parts_def)
  have hi: "(if hd ?ps = [] then k - 1 else k) = length A" by (simp add: hd k_def)
  have lo: "(if last ?ps = [] then length ?ps - k - 2 else length ?ps - k - 1) = length B"
    using last by (auto simp: gap_parts_def k_def)
  have take: "all_some (map parse_hextet (take (length A) ?ps)) = Some as"
    using vals(1) by (auto simp: gap_parts_def)
  have drop: "all_some (map parse_hextet (drop (length ?ps - length B) ?ps)) = Some bs"
    using vals(2) by (auto simp: gap_parts_def)
  have gap: "v6_gap ?ps k = Some (from_digits 65536 (as @ replicate (8 - (length A + length B)) 0 @ bs))"
    unfolding v6_gap_def Let_def hi lo take drop using len by (simp add: hd last)
  show ?thesis
    unfolding parse_v6_int_def parts(1) option.case skip list.case gap using parts(2) len9 by simp
qed

lemma parse_v6_cut:
  assumes len: "length ds = 8" and lt: "\<And>d. d \<in> set ds \<Longrightarrow> d < 65536"
    and zeros: "\<And>i. s \<le> i \<Longrightarrow> i < s + l \<Longrightarrow> ds ! i = 0"
    and run: "2 \<le> l" "s + l \<le> 8"
  shows "parse_v6_int (py_join [colon] (cut_run (map (base_str 16) ds) s l)) = Some (from_digits 65536 ds)"
proof -
  let ?h = "base_str 16"
  let ?A = "take s ds" and ?B = "drop (s + l) ds"
  have parts: "cut_run (map ?h ds) s l = gap_parts (map ?h ?A) (map ?h ?B)"
    using len run by (auto simp: cut_run_def gap_parts_def take_map drop_map)
  have vals: "all_some (map parse_hextet (map ?h xs)) = Some xs" if "set xs \<subseteq> set ds" for xs
  proof -
    have "map parse_hextet (map ?h xs) = map Some xs"
      using that lt by (auto simp: parse_hextet_str)
    then show ?thesis by (simp only: all_some_map_Some)
  qed
  have mid: "ds = ?A @ replicate l 0 @ ?B"
  proof -
    have "take l (drop s ds) = replicate l 0"
      by (rule nth_equalityI) (use len run zeros in \<open>auto simp: nth_take\<close>)
    then show ?thesis by (metis append_take_drop_id drop_drop add.commute)
  qed
  have "parse_v6_int (py_join [colon] (gap_parts (map ?h ?A) (map ?h ?B)))
      = Some (from_digits 65536 (?A @ replicate (8 - (length (map ?h ?A) + length (map ?h ?B))) 0 @ ?B))"
  proof (rule parse_v6_gap)
    show "\<forall>p \<in> set (map ?h ?A) \<union> set (map ?h ?B). p \<noteq> [] \<and> colon \<notin> set p \<and> dot \<notin> set p"
      by (auto dest: hex_no_sep)
    show "all_some (map parse_hextet (map ?h ?A)) = Some ?A" by (rule vals) (rule set_take_subset)
    show "all_some (map parse_hextet (map ?h ?B)) = Some ?B" by (rule vals) (rule set_drop_subset)
    show "length (map ?h ?A) + length (map ?h ?B) < 8" using len run by simp
  qed
  moreover have "8 - (length (map ?h ?A) + length (map ?h ?B)) = l" using len run by simp
  ultimately show ?thesis using mid parts by simp
qed

theorem parse_v6_str: "n < 2 ^ 128 \<Longrightarrow> parse_v6_int (v6_str n) = Some n"
proof -
  assume n: "n < 2 ^ 128"
  let ?hs = "map (base_str 16) (v6_hextets n)"
  obtain s l where sl: "zero_run ?hs 0 0 0 0 0 = (s, l)" by fastforce
  note z = zero_run_top [OF sl]
  have len: "length (v6_hextets n) = 8" by (simp add: v6_hextets_def)
  show ?thesis
  proof (cases "1 < l")
    case True
    have "parse_v6_int (py_join [colon] (cut_run ?hs s l)) = Some (from_digits 65536 (v6_hextets n))"
    proof (rule parse_v6_cut [OF len])
      show "d < 65536" if "d \<in> set (v6_hextets n)" for d using that by (rule v6_hextets_lt)
      show "2 \<le> l" "s + l \<le> 8" using True z(1) len by simp_all
      show "v6_hextets n ! i = 0" if "s \<le> i" "i < s + l" for i
        using z(2) [OF that] z(1) that len by (auto intro: hex_zero)
    qed
    with True n sl show ?thesis by (simp add: v6_str_def compress_hextets_def from_digits_v6)
  next
    case False
    then have "v6_str n = py_join [colon] ?hs" by (simp add: v6_str_def compress_hextets_def sl)
    with n show ?thesis
      using parse_v6_plain [OF len] v6_hextets_lt by (simp add: from_digits_v6)
  qed
qed

text \<open>What an accepted IPv6 text looks like.\<close>

definition hextet_or_gap :: "string \<Rightarrow> bool" where
  "hextet_or_gap p \<longleftrightarrow> p = [] \<or> parse_hextet p \<noteq> None"

lemma all_some_members: "all_some (map f xs) = Some ys \<Longrightarrow> x \<in> set xs \<Longrightarrow> f x \<noteq> None"
  by (auto simp: all_some_Some dest: map_eq_imp_length_eq) (metis image_eqI list.set_map option.distinct(1) imageE)

lemma v6_gapD:
  assumes "v6_gap ps k = Some n"
  obtains hs ls where "hd ps = [] \<Longrightarrow> (if hd ps = [] then k - 1 else k) = 0"
    "last ps = [] \<Longrightarrow> (if last ps = [] then length ps - k - 2 else length ps - k - 1) = 0"
    "all_some (map parse_hextet (take (if hd ps = [] then k - 1 else k) ps)) = Some hs"
    "all_some (map parse_hextet (drop (length ps
        - (if last ps = [] then length ps - k - 2 else length ps - k - 1)) ps)) = Some ls"
    "(if hd ps = [] then k - 1 else k)
       + (if last ps = [] then length ps - k - 2 else length ps - k - 1) < 8"
    "n = from_digits 65536 (hs @ replicate (8 - ((if hd ps = [] then k - 1 else k)
       + (if last ps = [] then length ps - k - 2 else length ps - k - 1))) 0 @ ls)"
proof -
  define hi where "hi = (if hd ps = [] then k - 1 else k)"
  define lo where "lo = (if last ps = [] then length ps - k - 2 else length ps - k - 1)"
  note eq = assms [unfolded v6_gap_def Let_def, folded hi_def lo_def]
  have c: "\<not> (hd ps = [] \<and> hi \<noteq> 0)" "\<not> (last ps = [] \<and> lo \<noteq> 0)" "\<not> 8 \<le> hi + lo"
    using eq by (metis option.distinct(1))+
  note eq' = eq [unfolded if_not_P [OF c(1)] if_not_P [OF c(2)] if_not_P [OF c(3)]]
  from eq' obtain hs where hs: "all_some (map parse_hextet (take hi ps)) = Some hs"
    by (cases "all_some (map parse_hextet (take hi ps))") simp_all
  from eq' hs obtain ls where ls: "all_some (map parse_hextet (drop (length ps - lo) ps)) = Some ls"
    by (cases "all_some (map parse_hextet (drop (length ps - lo) ps))") simp_all
  show thesis
    using that [folded hi_def lo_def, of hs ls] c hs ls eq' by simp
qed

lemma parse_v6D:
  assumes "parse_v6_int s = Some n"
  obtains ps where "v6_parts s = Some ps"
      "length ps = 8" "map_option (from_digits 65536) (all_some (map parse_hextet ps)) = Some n"
  | ps k where "v6_parts s = Some ps" "1 \<le> k" "k < length ps - 1" "ps ! k = []" "v6_gap ps k = Some n"
proof -
  from assms obtain ps where ps: "v6_parts s = Some ps"
    unfolding parse_v6_int_def by (cases "v6_parts s") (simp_all split: if_splits)
  let ?skip = "filter (\<lambda>i. ps ! i = []) [1..<length ps - 1]"
  from assms have eq: "(case ?skip of
        [] \<Rightarrow> if length ps \<noteq> 8 \<or> hd ps = [] \<or> last ps = [] then None
              else map_option (from_digits 65536) (all_some (map parse_hextet ps))
      | [k] \<Rightarrow> v6_gap ps k | _ \<Rightarrow> None) = Some n"
    unfolding parse_v6_int_def ps option.case by (metis option.distinct(1))
  show thesis
  proof (cases ?skip)
    case Nil
    with eq have "(if length ps \<noteq> 8 \<or> hd ps = [] \<or> last ps = [] then None
              else map_option (from_digits 65536) (all_some (map parse_hextet ps))) = Some n"
      by (simp only: list.case)
    then have "length ps = 8" "map_option (from_digits 65536) (all_some (map parse_hextet ps)) = Some n"
      by (metis option.distinct(1))+
    with that(1) [OF ps] show thesis .
  next
    case (Cons k rest)
    then have "k \<in> set ?skip" by simp
    then have k: "1 \<le> k" "k < length ps - 1" "ps ! k = []" by auto
    from eq Cons have "v6_gap ps k = Some n" by (cases rest) (simp_all only: list.case option.distinct)
    with that(2) [OF ps k] show thesis .
  qed
qed

lemma v6_gap_parts:
  assumes gap: "v6_gap ps k = Some n" and k: "1 \<le> k" "k < length ps - 1" "ps ! k = []"
    and p: "p \<in> set ps"
  shows "hextet_or_gap p"
proof -
  define hi where "hi = (if hd ps = [] then k - 1 else k)"
  define lo where "lo = (if last ps = [] then length ps - k - 2 else length ps - k - 1)"
  obtain hs ls where h0: "hd ps = [] \<Longrightarrow> hi = 0" and l0: "last ps = [] \<Longrightarrow> lo = 0"
    and A: "all_some (map parse_hextet (take hi ps)) = Some hs"
    and B: "all_some (map parse_hextet (drop (length ps - lo) ps)) = Some ls"
    using gap by (rule v6_gapD [where ps = ps and k = k and n = n, folded hi_def lo_def]) rule
  from p obtain i where i: "i < length ps" "p = ps ! i" by (auto simp: in_set_conv_nth)
  have ne: "ps \<noteq> []" using k by auto
  consider "i < hi" | "length ps - lo \<le> i" | "hi \<le> i" "i < length ps - lo" by linarith
  then show ?thesis
  proof cases
    case 1
    then have "p \<in> set (take hi ps)" using i by (auto simp: in_set_conv_nth)
    with A show ?thesis by (auto simp: hextet_or_gap_def dest: all_some_members)
  next
    case 2
    then have "drop (length ps - lo) ps ! (i - (length ps - lo)) = p" using i by simp
    then have "p \<in> set (drop (length ps - lo) ps)"
      using 2 i by (metis diff_less_mono length_drop nth_mem)
    with B show ?thesis by (auto simp: hextet_or_gap_def dest: all_some_members)
  next
    case 3
    have "i = k \<or> (i = 0 \<and> hd ps = []) \<or> (i = length ps - 1 \<and> last ps = [])"
      using 3 i k h0 l0 by (auto simp: hi_def lo_def split: if_splits)
    then have "p = []" using i k(3) ne by (auto simp: hd_conv_nth last_conv_nth)
    then show ?thesis by (simp add: hextet_or_gap_def)
  qed
qed

lemma parse_v6_parts:
  assumes "parse_v6_int s = Some n"
  obtains ps where "v6_parts s = Some ps" "\<forall>p \<in> set ps. hextet_or_gap p"
  using assms
proof (cases rule: parse_v6D)
  case (1 ps)
  from 1(3) have "\<forall>p \<in> set ps. hextet_or_gap p"
    by (cases "all_some (map parse_hextet ps)") (auto simp: hextet_or_gap_def dest: all_some_members)
  with 1(1) that show thesis by blast
next
  case (2 ps k)
  have "\<forall>p \<in> set ps. hextet_or_gap p" using v6_gap_parts [OF 2(5,2-4)] by blast
  with 2(1) that show thesis by blast
qed

lemma hextet_or_gap_chars: "hextet_or_gap p \<Longrightarrow> c \<in> set p \<Longrightarrow> is_hex_digit c"
  by (auto simp: hextet_or_gap_def parse_hextet_def list_all_iff split: if_splits)

lemma is_digit_hex: "is_digit c \<Longrightarrow> is_hex_digit c"
  by (auto simp: is_digit_def is_hex_digit_def Let_def)

lemma ipv4_address_chars: "ipv4_address s = Some n \<Longrightarrow> c \<in> set s \<Longrightarrow> is_digit c \<or> c = dot"
  by (auto simp: ipv4_address_def dest: parse_v4_chars split: if_splits)

lemma parse_v6_chars:
  assumes n: "parse_v6_int s = Some n" and c: "c \<in> set s"
  shows "is_hex_digit c \<or> c = colon \<or> c = dot"
proof -
  obtain ps where ps: "v6_parts s = Some ps" "\<forall>p \<in> set ps. hextet_or_gap p"
    using n by (rule parse_v6_parts)
  have parts: "is_hex_digit d \<or> d = dot" if q: "q \<in> set (py_split colon s)" and d: "d \<in> set q" for q d
  proof (cases "q \<in> set ps")
    case True
    with ps(2) d show ?thesis by (blast dest: hextet_or_gap_chars)
  next
    case False
    let ?qs = "py_split colon s"
    have "?qs \<noteq> ps" using False q by blast
    with ps(1) have "dot \<in> set (last ?qs)" "\<not> length ?qs < 3"
      unfolding v6_parts_def Let_def by (metis option.sel option.distinct(1))+
    with ps(1) have "map_option (\<lambda>n. butlast ?qs @
        [base_str 16 (n div 65536 mod 65536), base_str 16 (n mod 65536)]) (ipv4_address (last ?qs)) = Some ps"
      unfolding v6_parts_def Let_def by (simp only: if_True if_False)
    then obtain m where m: "ipv4_address (last ?qs) = Some m"
      and ps': "ps = butlast ?qs @ [base_str 16 (m div 65536 mod 65536), base_str 16 (m mod 65536)]"
      by blast
    have "?qs = butlast ?qs @ [last ?qs]" by simp
    with q have "q \<in> set (butlast ?qs) \<or> q = last ?qs" by (metis Un_iff empty_iff empty_set set_ConsD set_append)
    with False ps' have "q = last ?qs" by auto
    with m d show ?thesis by (auto dest: ipv4_address_chars is_digit_hex)
  qed
  have "c \<in> set (py_join [colon] (py_split colon s))" using c by simp
  then have "c = colon \<or> (\<exists>q \<in> set (py_split colon s). c \<in> set q)" using py_join_chars by fastforce
  then show ?thesis using parts by blast
qed

lemma parse_v6_colon: "parse_v6_int s = Some n \<Longrightarrow> colon \<in> set s"
proof (rule ccontr)
  assume n: "parse_v6_int s = Some n" and "colon \<notin> set s"
  then have "py_split colon s = [s]" by (simp add: py_split_single)
  then have "v6_parts s = None" by (simp add: v6_parts_def)
  with n show False by (simp add: parse_v6_int_def split: if_splits)
qed

lemma no_v4_of_colon: "colon \<in> set s \<Longrightarrow> ipv4_address s = None"
  using ipv4_address_chars [of s _ colon] by (cases "ipv4_address s") (auto simp: is_digit_def code_def)

section \<open>Lemmas: addresses\<close>

fun ip_wf :: "ip_addr \<Rightarrow> bool" where
  "ip_wf (IPv4 n) = (n < 2 ^ 32)"
| "ip_wf (IPv6 n None) = (n < 2 ^ 128)"
| "ip_wf (IPv6 n (Some scope)) =
     (n < 2 ^ 128 \<and> scope \<noteq> [] \<and> CHR ''%'' \<notin> set scope \<and> CHR ''/'' \<notin> set scope)"

lemma parse_hextet_lt: "parse_hextet s = Some d \<Longrightarrow> d < 65536"
proof -
  assume "parse_hextet s = Some d"
  then have d: "d = from_digits 16 (map digit_val s)" and len: "length s \<le> 4"
    and hex: "list_all is_hex_digit s"
    by (auto simp: parse_hextet_def base_val_def from_digits_def foldl_map split: if_splits)
  from hex have "\<forall>e \<in> set (map digit_val s). e < 16"
    by (auto simp: list_all_iff is_hex_digit_def digit_val_def Let_def)
  from from_digits_lt [OF this] d have "d < 16 ^ length s" by simp
  also have "\<dots> \<le> (16 :: nat) ^ 4" using len by (intro power_increasing) simp_all
  finally show ?thesis by simp
qed

lemma all_some_hextets: "all_some (map parse_hextet ps) = Some ds \<Longrightarrow> length ds = length ps \<and> (\<forall>d \<in> set ds. d < 65536)"
proof -
  assume "all_some (map parse_hextet ps) = Some ds"
  then have eq: "map parse_hextet ps = map Some ds" by (simp add: all_some_Some)
  then have "length ds = length ps" by (metis length_map)
  moreover have "d < 65536" if "d \<in> set ds" for d
  proof -
    have "Some d \<in> set (map parse_hextet ps)" using eq that by simp
    then show ?thesis by (auto dest: parse_hextet_lt [OF sym])
  qed
  ultimately show ?thesis by blast
qed

lemma from_digits_pad: "from_digits 65536 (replicate m 0 @ ds) = from_digits 65536 ds"
proof -
  have "foldl (\<lambda>a d. a * 65536 + d) 0 (replicate m 0) = (0 :: nat)" by (induction m) simp_all
  then show ?thesis by (simp add: from_digits_def)
qed

lemma parse_v6_bound:
  assumes "parse_v6_int s = Some n"
  shows "n < 2 ^ 128"
proof -
  have "\<exists>ds. length ds \<le> 8 \<and> (\<forall>d \<in> set ds. d < 65536) \<and> n = from_digits 65536 ds"
    using assms
  proof (cases rule: parse_v6D)
    case (1 ps)
    then obtain ds where ds: "all_some (map parse_hextet ps) = Some ds" "n = from_digits 65536 ds"
      by (cases "all_some (map parse_hextet ps)") auto
    with all_some_hextets [OF ds(1)] 1(2) show ?thesis by (intro exI [of _ ds]) simp
  next
    case (2 ps k)
    define hi where "hi = (if hd ps = [] then k - 1 else k)"
    define lo where "lo = (if last ps = [] then length ps - k - 2 else length ps - k - 1)"
    obtain hs ls where hl: "all_some (map parse_hextet (take hi ps)) = Some hs"
      "all_some (map parse_hextet (drop (length ps - lo) ps)) = Some ls" "hi + lo < 8"
      "n = from_digits 65536 (hs @ replicate (8 - (hi + lo)) 0 @ ls)"
      using 2(5) by (rule v6_gapD [where ps = ps and k = k and n = n, folded hi_def lo_def])
    note h = all_some_hextets [OF hl(1)] and l = all_some_hextets [OF hl(2)]
    let ?ds = "hs @ replicate (8 - (hi + lo)) 0 @ ls"
    have "length hs \<le> hi" "length ls \<le> lo" using h l by auto
    then have "length ?ds \<le> 8" using hl(3) by simp
    moreover have "\<forall>d \<in> set ?ds. d < 65536" using h l by auto
    ultimately show ?thesis using hl(4) by blast
  qed
  then obtain ds where ds: "length ds \<le> 8" "\<forall>d \<in> set ds. d < 65536" "n = from_digits 65536 ds" by blast
  from from_digits_lt [OF ds(2)] have "n < 65536 ^ length ds" using ds(3) by simp
  also have "\<dots> \<le> (65536 :: nat) ^ 8" using ds(1) by (intro power_increasing) simp_all
  finally show ?thesis by simp
qed

lemma split_scope_Some:
  "split_scope s = Some (a, sc) \<Longrightarrow> CHR ''/'' \<notin> set s \<Longrightarrow>
   (case sc of None \<Rightarrow> True | Some t \<Rightarrow> t \<noteq> [] \<and> CHR ''%'' \<notin> set t \<and> CHR ''/'' \<notin> set t)"
proof -
  assume s: "split_scope s = Some (a, sc)" and slash: "CHR ''/'' \<notin> set s"
  show ?thesis
  proof (cases sc)
    case None
    then show ?thesis by simp
  next
    case (Some t)
    with s have t: "t = tl (dropWhile (\<lambda>c. c \<noteq> CHR ''%'') s)" "t \<noteq> []" "CHR ''%'' \<notin> set t"
      by (auto simp: split_scope_def Let_def split: if_splits)
    have "set t \<subseteq> set s" unfolding t(1)
      by (metis dropWhile_eq_Nil_conv list.set_sel(2) set_dropWhileD subsetI tl_Nil)
    with t slash Some show ?thesis by auto
  qed
qed

lemma ip_address_wf: "ip_address s = Some a \<Longrightarrow> ip_wf a"
proof (cases "ipv4_address s")
  case (Some n)
  then show "ip_address s = Some a \<Longrightarrow> ?thesis"
    using parse_v4_bound [of s n] by (auto simp: ip_address_def ipv4_address_def split: if_splits)
next
  case None
  assume "ip_address s = Some a"
  with None obtain n scope addr where a: "a = IPv6 n scope" and slash: "CHR ''/'' \<notin> set s"
    and sp: "split_scope s = Some (addr, scope)" and n: "parse_v6_int addr = Some n"
    by (auto simp: ip_address_def ipv6_address_def split: if_splits option.splits)
  then show ?thesis
    using split_scope_Some [OF sp slash] parse_v6_bound [OF n] by (cases scope) auto
qed

lemma v6_str_chars: "n < 2 ^ 128 \<Longrightarrow> c \<in> set (v6_str n) \<Longrightarrow> is_hex_digit c \<or> c = colon \<or> c = dot"
  using parse_v6_str parse_v6_chars by blast

lemma v6_str_no: "n < 2 ^ 128 \<Longrightarrow> CHR ''%'' \<notin> set (v6_str n) \<and> CHR ''/'' \<notin> set (v6_str n)"
  using v6_str_chars [of n "CHR ''%''"] v6_str_chars [of n "CHR ''/''"]
  by (auto simp: is_hex_digit_def code_def)

lemma split_scope_str:
  "CHR ''%'' \<notin> set a \<Longrightarrow> sc \<noteq> [] \<Longrightarrow> CHR ''%'' \<notin> set sc \<Longrightarrow>
   split_scope (a @ CHR ''%'' # sc) = Some (a, Some sc)"
  by (auto simp: split_scope_def takeWhile_append dropWhile_append)

lemma ip_address_str: "ip_wf a \<Longrightarrow> ip_address (ip_str a) = Some a"
proof (cases a rule: ip_str.cases)
  case (1 n)
  then show "ip_wf a \<Longrightarrow> ?thesis" by (simp add: ip_address_def ipv4_address_str)
next
  case (2 n)
  assume "ip_wf a"
  with 2 have n: "n < 2 ^ 128" by simp
  then show ?thesis using 2 v6_str_no [OF n] no_v4_of_colon [OF parse_v6_colon [OF parse_v6_str [OF n]]]
    by (simp add: ip_address_def ipv6_address_def split_scope_def parse_v6_str)
next
  case (3 n sc)
  assume "ip_wf a"
  with 3 have n: "n < 2 ^ 128" and sc: "sc \<noteq> []" "CHR ''%'' \<notin> set sc" "CHR ''/'' \<notin> set sc" by auto
  have "colon \<in> set (v6_str n @ CHR ''%'' # sc)" using parse_v6_colon [OF parse_v6_str [OF n]] by simp
  from no_v4_of_colon [OF this] show ?thesis
    using 3 n sc v6_str_no [OF n]
    by (simp add: ip_address_def ipv6_address_def split_scope_str parse_v6_str)
qed

text \<open>A scoped address has no reverse pointer: the property raises.\<close>

lemma reverse_pointer_scoped: "reverse_pointer (IPv6 n (Some sc)) = None"
proof (cases "parse_v6_int (ip_str (IPv6 n (Some sc)))")
  case (Some m)
  from parse_v6_chars [OF this, of "CHR ''%''"] have False
    by (auto simp: is_hex_digit_def code_def)
  then show ?thesis ..
qed simp

lemma reverse_pointer_plain: "n < 2 ^ 128 \<Longrightarrow>
    reverse_pointer (IPv6 n None) = Some (py_join [dot] (map (\<lambda>c. [c]) (rev (hex32 n))) @ ''.ip6.arpa'')"
  by (simp add: parse_v6_str)

section \<open>Lemmas: networks\<close>

lemma netmask_and:
  assumes "n < 2 ^ w" "p \<le> w"
  shows "n AND netmask w p = n div 2 ^ (w - p) * 2 ^ (w - p)"
proof -
  have nm: "netmask w p = mask w XOR drop_bit p (mask w)"
    by (simp add: netmask_def mask_eq_exp_minus_1)
  have "n AND netmask w p = push_bit (w - p) (drop_bit (w - p) n)"
  proof (rule bit_eqI)
    fix i
    have hi: "bit n i \<Longrightarrow> i < w"
      using assms(1) by (metis bit_take_bit_iff take_bit_nat_eq_self)
    show "bit (n AND netmask w p) i \<longleftrightarrow> bit (push_bit (w - p) (drop_bit (w - p) n)) i"
      using hi assms(2)
      by (auto simp: nm bit_and_iff bit_xor_iff bit_drop_bit_eq bit_push_bit_iff bit_mask_iff)
  qed
  then show ?thesis by (simp add: push_bit_eq_mult drop_bit_eq_div)
qed

text \<open>Membership compares the leading \<open>p\<close> bits.\<close>

lemma in_net_prefix4:
  assumes "n < 2 ^ 32" "m < 2 ^ 32" "p \<le> 32"
  shows "in_net (IPv4 n) (Net4 (m AND netmask 32 p) p) \<longleftrightarrow> n div 2 ^ (32 - p) = m div 2 ^ (32 - p)"
  using assms by (simp add: netmask_and)

lemma prefix_of_string_le: "prefix_of_string w s = Some p \<Longrightarrow> p \<le> w"
  by (auto simp: prefix_of_string_def split: if_splits)

lemma prefix_of_mask_le: "prefix_of_mask m = Some p \<Longrightarrow> p \<le> 32"
  by (auto simp: prefix_of_mask_def Let_def split: if_splits)

lemma v4_prefix_le: "v4_prefix s = Some p \<Longrightarrow> p \<le> 32"
  by (auto simp: v4_prefix_def dest: prefix_of_string_le prefix_of_mask_le split: option.splits)

end
