(* ===== verification/Blocklist.thy ===== *)
theory Blocklist
  imports Policy IpAddr
begin

text \<open>
  Blocklists: \<open>domain/blocklist.py\<close>. The name pattern, the extraction of the domain a line
  denotes (hosts, domain-only and Adblock syntax), parsing of a whole text, overrides,
  detection of the syntax, and matching of a query against the listed names. The lemmas
  show that every parsed entry is a strictly valid, normalised name, that writing entries in
  any of the three syntaxes and parsing them gives them back, and that matching is suffix
  matching on labels.
\<close>

section \<open>The name pattern\<close>

text \<open>
  \<open>_LABEL\<close>: 1 to 63 letters, digits, hyphens or underscores, no hyphen at either end. The
  pattern ends in \<open>$\<close>, which also matches in front of a final line feed: \<open>pattern_body\<close>.
\<close>

definition label_char :: "char \<Rightarrow> bool" where
  "label_char c = (let n = code c in (97 \<le> n \<and> n \<le> 122) \<or> (48 \<le> n \<and> n \<le> 57) \<or> n = 95 \<or> n = 45)"

definition valid_label :: "string \<Rightarrow> bool" where
  "valid_label l = (1 \<le> length l \<and> length l \<le> 63 \<and> list_all label_char l
     \<and> hd l \<noteq> CHR ''-'' \<and> last l \<noteq> CHR ''-'')"

definition pattern_body :: "string \<Rightarrow> string" where
  "pattern_body s = (if s \<noteq> [] \<and> last s = newline then butlast s else s)"

definition labels_match :: "nat \<Rightarrow> string \<Rightarrow> bool" where
  "labels_match least s =
     (let t = pattern_body s; labels = py_split dot t
      in 1 \<le> length t \<and> length t \<le> 253 \<and> least \<le> length labels \<and> list_all valid_label labels)"

definition DOMAIN_RE :: "string \<Rightarrow> bool" where
  "DOMAIN_RE s = labels_match 2 s"

definition is_valid_domain :: "string \<Rightarrow> bool" where
  "is_valid_domain domain =
     (if domain = [] \<or> dot \<notin> set domain then False
      else case ip_address domain of
        Some _ \<Rightarrow> False
      | None \<Rightarrow> DOMAIN_RE domain)"

section \<open>Parsing\<close>

text \<open>\<open>_COSMETIC_RE.search\<close>: two number signs with only \<open>@?$%\<close> between them.\<close>

fun cosmetic_search :: "string \<Rightarrow> bool" where
  "cosmetic_search [] = False"
| "cosmetic_search (c # cs) =
     (c = CHR ''#'' \<and> starts_with ''#'' (dropWhile (\<lambda>d. d \<in> set ''@?$%'') cs) \<or> cosmetic_search cs)"

definition extract_adblock_domain :: "string \<Rightarrow> string option" where
  "extract_adblock_domain line =
     (let body = drop 2 line;
          cut = fold (\<lambda>terminator cut. case py_find terminator body of
                        None \<Rightarrow> cut | Some idx \<Rightarrow> min cut idx)
                  ''^$/*'' (length body);
          domain = normalize_domain (take cut body)
      in if is_valid_domain domain then Some domain else None)"

definition extract_domain :: "string \<Rightarrow> string option" where
  "extract_domain raw_line =
     (let line = py_strip raw_line in
      if line = [] then None
      else if hd line = CHR ''!'' \<or> (starts_with ''['' line \<and> ends_with '']'' line) then None
      else if starts_with ''||'' line then extract_adblock_domain line
      else if starts_with ''@@'' line \<or> cosmetic_search line then None
      else
        let line = py_strip (py_before (CHR ''#'') line) in
        if line = [] then None
        else
          let parts = py_split_ws line;
              candidate = (if 2 \<le> length parts then parts ! 1 else parts ! 0);
              domain = normalize_domain candidate
          in if is_valid_domain domain then Some domain else None)"

fun parse_blocklist_loop :: "string list \<Rightarrow> string list \<Rightarrow> string set \<Rightarrow> string list" where
  "parse_blocklist_loop [] domains seen = domains"
| "parse_blocklist_loop (raw_line # raw_lines) domains seen =
     (case extract_domain raw_line of
        None \<Rightarrow> parse_blocklist_loop raw_lines domains seen
      | Some domain \<Rightarrow>
          if domain \<in> seen then parse_blocklist_loop raw_lines domains seen
          else parse_blocklist_loop raw_lines (domains @ [domain]) (insert domain seen))"

definition parse_blocklist :: "string \<Rightarrow> string list" where
  "parse_blocklist text = parse_blocklist_loop (py_splitlines text) [] {}"

definition normalize_override_domain :: "string \<Rightarrow> string option" where
  "normalize_override_domain name =
     (let normalized = normalize_domain name
      in if is_valid_domain normalized then Some normalized else None)"

definition apply_overrides :: "string list \<Rightarrow> string list \<Rightarrow> string list" where
  "apply_overrides domains overrides =
     (let exempt = set overrides in
      if exempt = {} then domains else filter (\<lambda>domain. domain \<notin> exempt) domains)"

section \<open>Detection of the syntax\<close>

definition FORMAT_HOSTS :: string where "FORMAT_HOSTS = ''hosts''"
definition FORMAT_DOMAIN :: string where "FORMAT_DOMAIN = ''domain''"
definition FORMAT_ADBLOCK :: string where "FORMAT_ADBLOCK = ''adblock''"
definition FORMAT_UNKNOWN :: string where "FORMAT_UNKNOWN = ''unknown''"

definition DETECT_SAMPLE_LIMIT :: nat where
  "DETECT_SAMPLE_LIMIT = 50"

definition FORMAT_PRIORITY :: "(string, nat) dict" where
  "FORMAT_PRIORITY = [(FORMAT_HOSTS, 3), (FORMAT_ADBLOCK, 3), (FORMAT_DOMAIN, 2), (FORMAT_UNKNOWN, 0)]"

definition classify_line :: "string \<Rightarrow> string" where
  "classify_line line =
     (if starts_with ''||'' line \<or> starts_with ''@@'' line \<or> CHR ''^'' \<in> set line then FORMAT_ADBLOCK
      else
        let parts = py_split_ws line in
        if 2 \<le> length parts then
          case ip_address (parts ! 0) of
            None \<Rightarrow> FORMAT_UNKNOWN
          | Some _ \<Rightarrow> if is_valid_domain (normalize_domain (parts ! 1)) then FORMAT_HOSTS else FORMAT_UNKNOWN
        else if is_valid_domain (normalize_domain (parts ! 0)) then FORMAT_DOMAIN
        else FORMAT_UNKNOWN)"

fun detect_loop :: "string list \<Rightarrow> (string, nat) dict \<Rightarrow> nat \<Rightarrow> (string, nat) dict" where
  "detect_loop [] votes sampled = votes"
| "detect_loop (raw_line # raw_lines) votes sampled =
     (let line = py_strip raw_line in
      if line = [] \<or> hd line \<in> set ''#!'' \<or> (starts_with ''['' line \<and> ends_with '']'' line)
      then detect_loop raw_lines votes sampled
      else
        let fmt = classify_line line;
            votes = dict_set fmt (dict_get votes fmt 0 + 1) votes;
            sampled = sampled + 1
        in if DETECT_SAMPLE_LIMIT \<le> sampled then votes else detect_loop raw_lines votes sampled)"

definition detect_format :: "string \<Rightarrow> string" where
  "detect_format text =
     (let votes = detect_loop (py_splitlines text) [] 0 in
      case scan_max (\<lambda>fmt. Some (dict_get votes fmt 0, dict_get FORMAT_PRIORITY fmt 0)) (dict_keys votes) None None of
        None \<Rightarrow> FORMAT_UNKNOWN
      | Some fmt \<Rightarrow> fmt)"

section \<open>Matching\<close>

definition domain_suffixes :: "string \<Rightarrow> string list" where
  "domain_suffixes qname =
     (let name = normalize_domain qname in
      if name = [] then []
      else let labels = py_split dot name
           in map (\<lambda>i. py_join [dot] (drop i labels)) [0..<length labels])"

definition is_blocked :: "string set \<Rightarrow> string \<Rightarrow> bool" where
  "is_blocked blocked qname = list_ex (\<lambda>suffix. suffix \<in> blocked) (domain_suffixes qname)"

section \<open>Lemmas: names\<close>

definition plain_char :: "char \<Rightarrow> bool" where
  "plain_char c \<longleftrightarrow> label_char c \<or> c = dot"

lemma plain_char_cases:
  assumes "plain_char c"
  shows "\<not> is_space c" "\<not> is_linebreak c" "lower_char c = c" "c \<noteq> CHR ''#''" "c \<noteq> CHR ''!''" "c \<noteq> CHR ''[''"
    "c \<noteq> CHR ''|''" "c \<noteq> CHR ''@''" "c \<noteq> CHR ''^''" "c \<noteq> CHR ''$''" "c \<noteq> CHR ''/''" "c \<noteq> CHR ''*''"
    "c \<noteq> newline"
  using assms by (auto simp: plain_char_def label_char_def is_space_def is_linebreak_def lower_char_def
    Let_def code_def)

lemma labels_chars:
  assumes "list_all valid_label (py_split dot t)" "c \<in> set t"
  shows "plain_char c"
proof -
  have "c \<in> set (py_join [dot] (py_split dot t))" using assms(2) by simp
  then have "c = dot \<or> (\<exists>p \<in> set (py_split dot t). c \<in> set p)" using py_join_chars by fastforce
  with assms(1) show ?thesis by (auto simp: plain_char_def list_all_iff valid_label_def)
qed

lemma labels_last:
  assumes "list_all valid_label (py_split dot t)" "t \<noteq> []"
  shows "last t \<noteq> dot"
proof
  assume "last t = dot"
  with assms(2) have "t = butlast t @ dot # []" by (metis append_butlast_last_id)
  then have "py_split dot t = py_split dot (butlast t) @ [[]]" by (metis py_split.simps(1) py_split_at)
  with assms(1) show False by (simp add: valid_label_def)
qed

text \<open>A strict name: the pattern without its tolerance for a final line feed.\<close>

definition strict_name :: "nat \<Rightarrow> string \<Rightarrow> bool" where
  "strict_name least s \<longleftrightarrow> s \<noteq> [] \<and> length s \<le> 253 \<and> least \<le> length (py_split dot s)
     \<and> list_all valid_label (py_split dot s)"

lemma labels_match_strict: "labels_match least s \<longleftrightarrow> strict_name least (pattern_body s)"
  by (auto simp: labels_match_def strict_name_def Let_def Suc_le_eq)

lemma strict_chars: "strict_name least s \<Longrightarrow> c \<in> set s \<Longrightarrow> plain_char c"
  by (auto simp: strict_name_def intro: labels_chars)

lemma strict_no_newline: "strict_name least s \<Longrightarrow> newline \<notin> set s"
  using strict_chars plain_char_cases(13) by blast

lemma pattern_body_id: "newline \<notin> set s \<Longrightarrow> pattern_body s = s"
  by (auto simp: pattern_body_def) (metis last_in_set)

lemma labels_match_no_newline: "newline \<notin> set s \<Longrightarrow> labels_match least s \<longleftrightarrow> strict_name least s"
  by (simp add: labels_match_strict pattern_body_id)

lemma labels_match_newline: "labels_match least (s @ [newline]) \<longleftrightarrow> strict_name least s"
  by (simp add: labels_match_strict pattern_body_def)

lemma strict_normalized: "strict_name least s \<Longrightarrow> normalize_domain s = s"
  using strict_chars [of least s] labels_last [of s]
  by (intro normalize_idI) (auto simp: strict_name_def py_lower_def plain_char_cases(3) map_idI)

definition listed_name :: "string \<Rightarrow> bool" where
  "listed_name d \<longleftrightarrow> strict_name 2 d \<and> ip_address d = None"

lemma strict_dot: "strict_name 2 s \<Longrightarrow> dot \<in> set s"
  using length_py_split_1 [of dot s] by (cases "dot \<in> set s") (auto simp: strict_name_def)

lemma valid_listed: "newline \<notin> set d \<Longrightarrow> is_valid_domain d \<longleftrightarrow> listed_name d"
  by (auto simp: is_valid_domain_def listed_name_def DOMAIN_RE_def labels_match_no_newline strict_name_def
    intro: strict_dot [unfolded strict_name_def] split: option.splits)

lemma listed_valid [simp]: "listed_name d \<Longrightarrow> is_valid_domain d"
  using valid_listed strict_no_newline by (auto simp: listed_name_def)

lemma listed_normalized [simp]: "listed_name d \<Longrightarrow> normalize_domain d = d"
  by (auto simp: listed_name_def intro: strict_normalized)

lemma listed_chars: "listed_name d \<Longrightarrow> c \<in> set d \<Longrightarrow> plain_char c"
  by (auto simp: listed_name_def intro: strict_chars)

lemma listed_ne: "listed_name d \<Longrightarrow> d \<noteq> []"
  by (auto simp: listed_name_def strict_name_def)

section \<open>Lemmas: lines\<close>

lemma set_normalize: "newline \<notin> set s \<Longrightarrow> newline \<notin> set (normalize_domain s)"
proof -
  have "lower_char c = newline \<longleftrightarrow> c = newline" for c
    by (auto simp: code_inj [symmetric] code_lower_char) (auto simp: code_def split: if_splits)
  moreover assume "newline \<notin> set s"
  then have "newline \<notin> set (rstrip_if (\<lambda>d. d = dot) s)" using set_rstrip_if by blast
  ultimately show ?thesis
    unfolding normalize_domain_def py_lower_def py_rstrip_char_def set_map by (metis imageE)
qed

text \<open>What a line yields is a listed name: a line holds no line feed.\<close>

lemma extract_domain_listed:
  assumes "extract_domain raw = Some d" "newline \<notin> set raw"
  shows "listed_name d"
proof -
  have nl: "newline \<notin> set (py_strip raw)" using assms(2) set_py_strip by blast
  have "\<exists>s. newline \<notin> set s \<and> d = normalize_domain s \<and> is_valid_domain d"
  proof (cases "starts_with ''||'' (py_strip raw)")
    case True
    with assms(1) have "extract_adblock_domain (py_strip raw) = Some d"
      by (auto simp: extract_domain_def Let_def split: if_splits)
    then obtain cut where "d = normalize_domain (take cut (drop 2 (py_strip raw)))" "is_valid_domain d"
      by (auto simp: extract_adblock_domain_def Let_def split: if_splits)
    moreover have "newline \<notin> set (take cut (drop 2 (py_strip raw)))"
      using nl by (meson in_set_dropD in_set_takeD)
    ultimately show ?thesis by blast
  next
    case False
    let ?line = "py_strip (py_before (CHR ''#'') (py_strip raw))"
    let ?parts = "py_split_ws ?line"
    have ne: "?line \<noteq> []" and d: "d = normalize_domain (if 2 \<le> length ?parts then ?parts ! 1 else ?parts ! 0)"
      "is_valid_domain d"
      using assms(1) False by (auto simp: extract_domain_def Let_def split: if_splits)
    have "\<not> is_space (hd ?line)" using ne by (rule py_strip_hd)
    then have "?parts \<noteq> []" using ne hd_in_set py_split_ws_Nil by blast
    then have "(if 2 \<le> length ?parts then ?parts ! 1 else ?parts ! 0) \<in> set ?parts"
      by simp
    then have "set (if 2 \<le> length ?parts then ?parts ! 1 else ?parts ! 0) \<subseteq> set ?line"
      using py_split_ws_word by blast
    moreover have "newline \<notin> set ?line"
      using nl set_py_strip by (metis in_mono py_before_def set_takeWhileD)
    ultimately show ?thesis using d by blast
  qed
  then show ?thesis using set_normalize valid_listed by blast
qed

text \<open>Writing a name in one of the syntaxes and reading the line gives the name back.\<close>

lemma cosmetic_plain: "CHR ''#'' \<notin> set s \<Longrightarrow> \<not> cosmetic_search s"
  by (induction s) auto

lemma starts_with_hd: "starts_with (c # p) s \<Longrightarrow> s \<noteq> [] \<and> hd s = c"
  by (cases s) (auto simp: starts_with_def)

lemma py_before_id: "c \<notin> set s \<Longrightarrow> py_before c s = s"
  by (simp add: py_before_def takeWhile_eq_all_conv) blast

lemma extract_words:
  assumes "s \<noteq> []" "py_strip s = s" "CHR ''#'' \<notin> set s" "\<not> is_space (hd s)"
    "hd s \<noteq> CHR ''!''" "hd s \<noteq> CHR ''[''" "hd s \<noteq> CHR ''|''" "hd s \<noteq> CHR ''@''"
    and "py_split_ws s = ps" "d = (if 2 \<le> length ps then ps ! 1 else ps ! 0)" "listed_name d"
  shows "extract_domain s = Some d"
  using assms
  by (auto simp: extract_domain_def Let_def cosmetic_plain py_before_id dest: starts_with_hd)

lemma extract_name: "listed_name d \<Longrightarrow> extract_domain d = Some d"
proof -
  assume d: "listed_name d"
  have c: "plain_char (hd d)" "plain_char (last d)" using listed_chars [OF d] listed_ne [OF d] by auto
  have "CHR ''#'' \<notin> set d" "\<forall>c \<in> set d. \<not> is_space c"
    using listed_chars [OF d] plain_char_cases(1,4) by blast+
  with d c show ?thesis
    using listed_ne [OF d]
    by (intro extract_words [of _ "[d]"]) (auto simp: plain_char_cases py_strip_id py_split_ws_single)
qed

lemma extract_hosts: "listed_name d \<Longrightarrow> extract_domain (''0.0.0.0 '' @ d) = Some d"
proof -
  assume d: "listed_name d"
  have c: "plain_char (hd d)" "plain_char (last d)" using listed_chars [OF d] listed_ne [OF d] by auto
  have ch: "CHR ''#'' \<notin> set d" "\<forall>c \<in> set d. \<not> is_space c"
    using listed_chars [OF d] plain_char_cases(1,4) by blast+
  have "py_split_ws (''0.0.0.0 '' @ d) = [''0.0.0.0'', d]"
    using py_split_ws_two [of "''0.0.0.0''" d "CHR '' ''"] ch listed_ne [OF d]
    by (simp add: is_space_def code_def)
  with d c ch show ?thesis
    using listed_ne [OF d]
    by (intro extract_words [of _ "[''0.0.0.0'', d]"])
       (auto simp: plain_char_cases is_space_def code_def intro!: py_strip_id)
qed

lemma extract_adblock: "listed_name d \<Longrightarrow> extract_domain (''||'' @ d @ ''^'') = Some d"
proof -
  assume d: "listed_name d"
  let ?line = "''||'' @ d @ ''^''"
  have strip: "py_strip ?line = ?line" by (rule py_strip_id) (simp add: is_space_def code_def)
  have ch: "CHR ''^'' \<notin> set d" "CHR ''$'' \<notin> set d" "CHR ''/'' \<notin> set d" "CHR ''*'' \<notin> set d"
    using listed_chars [OF d] plain_char_cases(9-12) by blast+
  have "takeWhile (\<lambda>c. c \<noteq> CHR ''^'') (d @ ''^'') = d"
    using ch(1) by (auto simp: takeWhile_tail)
  then have find: "py_find (CHR ''^'') (d @ ''^'') = Some (length d)"
    "py_find (CHR ''$'') (d @ ''^'') = None" "py_find (CHR ''/'') (d @ ''^'') = None"
    "py_find (CHR ''*'') (d @ ''^'') = None"
    using ch by (simp_all add: py_find_def)
  have "drop 2 ?line = d @ ''^''" by simp
  then have "extract_adblock_domain ?line = Some d"
    unfolding extract_adblock_domain_def using d by (simp add: find)
  then show ?thesis
    by (simp add: extract_domain_def strip Let_def starts_with_def del: append_Cons)
qed

section \<open>Lemmas: texts\<close>

text \<open>The loop keeps the first occurrence of every domain.\<close>

fun first_occurrences :: "'a list \<Rightarrow> 'a list" where
  "first_occurrences [] = []"
| "first_occurrences (x # xs) = x # filter (\<lambda>y. y \<noteq> x) (first_occurrences xs)"

lemma set_first_occurrences [simp]: "set (first_occurrences xs) = set xs"
  by (induction xs) auto

lemma distinct_first_occurrences [simp]: "distinct (first_occurrences xs)"
  by (induction xs) auto

lemma first_occurrences_distinct: "distinct xs \<Longrightarrow> first_occurrences xs = xs"
  by (induction xs) (auto intro: filter_True)

lemma parse_loop_first:
  "parse_blocklist_loop ls ds seen =
     ds @ filter (\<lambda>d. d \<notin> seen) (first_occurrences (List.map_filter extract_domain ls))"
proof (induction ls arbitrary: ds seen)
  case Nil
  then show ?case by (simp add: List.map_filter_def)
next
  case (Cons l ls)
  show ?case
  proof (cases "extract_domain l")
    case None
    with Cons show ?thesis by (simp add: map_filter_simps)
  next
    case (Some d)
    then have "filter (\<lambda>x. x \<notin> seen) (filter (\<lambda>y. y \<noteq> d) xs) = filter (\<lambda>x. x \<notin> insert d seen) xs"
      "d \<in> seen \<Longrightarrow> filter (\<lambda>x. x \<notin> seen) xs = filter (\<lambda>x. x \<notin> seen) (filter (\<lambda>y. y \<noteq> d) xs)" for xs
      by (induction xs) auto
    with Cons Some show ?thesis by (auto simp: map_filter_simps)
  qed
qed

lemma parse_blocklist_first:
  "parse_blocklist text = first_occurrences (List.map_filter extract_domain (py_splitlines text))"
  by (simp add: parse_blocklist_def parse_loop_first)

lemma map_filter_Some: "(\<forall>x \<in> set xs. f x = Some (g x)) \<Longrightarrow> List.map_filter f xs = map g xs"
  by (induction xs) (simp_all add: map_filter_simps)

lemma set_map_filter: "set (List.map_filter f xs) = {y. \<exists>x \<in> set xs. f x = Some y}"
  by (force simp: List.map_filter_def image_iff)

lemma splitlines_lines:
  "(\<forall>l \<in> set ls. \<forall>c \<in> set l. \<not> is_linebreak c) \<Longrightarrow> py_splitlines (concat (map (\<lambda>l. l @ [newline]) ls)) = ls"
  by (induction ls) (simp_all add: py_splitlines_cons)

text \<open>The three ways of writing an entry.\<close>

datatype list_syntax = Hosts | Plain | Adblock

fun entry_line :: "list_syntax \<Rightarrow> string \<Rightarrow> string" where
  "entry_line Hosts d = ''0.0.0.0 '' @ d"
| "entry_line Plain d = d"
| "entry_line Adblock d = ''||'' @ d @ ''^''"

definition print_list :: "(list_syntax \<times> string) list \<Rightarrow> string" where
  "print_list es = concat (map (\<lambda>e. entry_line (fst e) (snd e) @ [newline]) es)"

lemma extract_entry: "listed_name d \<Longrightarrow> extract_domain (entry_line f d) = Some d"
  by (cases f) (simp_all add: extract_name extract_hosts [simplified] extract_adblock [simplified])

lemma entry_line_break: "listed_name d \<Longrightarrow> c \<in> set (entry_line f d) \<Longrightarrow> \<not> is_linebreak c"
  using listed_chars [of d c] plain_char_cases(2) [of c]
  by (cases f) (auto simp: is_linebreak_def code_def)

lemma parse_print:
  assumes "\<forall>e \<in> set es. listed_name (snd e)"
  shows "parse_blocklist (print_list es) = first_occurrences (map snd es)"
proof -
  let ?ls = "map (\<lambda>e. entry_line (fst e) (snd e)) es"
  have "print_list es = concat (map (\<lambda>l. l @ [newline]) ?ls)"
    by (simp add: print_list_def comp_def)
  moreover have "py_splitlines (concat (map (\<lambda>l. l @ [newline]) ?ls)) = ?ls"
    using assms entry_line_break by (intro splitlines_lines) fastforce
  moreover have "List.map_filter extract_domain ?ls = map snd es"
  proof -
    have "List.map_filter extract_domain ?ls = List.map_filter (\<lambda>e. extract_domain (entry_line (fst e) (snd e))) es"
      by (simp add: List.map_filter_def comp_def filter_map)
    also have "\<dots> = map snd es" using assms by (intro map_filter_Some) (auto simp: extract_entry)
    finally show ?thesis .
  qed
  ultimately show ?thesis by (simp add: parse_blocklist_first)
qed

lemma parse_blocklist_set:
  "set (parse_blocklist text) = {d. \<exists>l \<in> set (py_splitlines text). extract_domain l = Some d}"
  by (simp add: parse_blocklist_first set_map_filter)

lemma parse_blocklist_listed: "d \<in> set (parse_blocklist text) \<Longrightarrow> listed_name d"
proof -
  assume "d \<in> set (parse_blocklist text)"
  then obtain l where l: "l \<in> set (py_splitlines text)" "extract_domain l = Some d"
    by (auto simp: parse_blocklist_set)
  have "newline \<notin> set l" using py_splitlines_line [OF l(1)] newline_break by blast
  with l(2) show ?thesis by (rule extract_domain_listed)
qed

section \<open>Lemmas: matching\<close>

lemma domain_suffixes_set:
  "set (domain_suffixes q) =
     (if normalize_domain q = [] then {}
      else {s. \<exists>labels. py_split dot (normalize_domain q) = labels @ py_split dot s})"
proof -
  let ?n = "normalize_domain q"
  let ?ls = "py_split dot ?n"
  have "(\<exists>i < length ?ls. s = py_join [dot] (drop i ?ls)) \<longleftrightarrow> (\<exists>labels. ?ls = labels @ py_split dot s)" for s
  proof
    assume "\<exists>i < length ?ls. s = py_join [dot] (drop i ?ls)"
    then obtain i where i: "i < length ?ls" "s = py_join [dot] (drop i ?ls)" by blast
    have "\<forall>p \<in> set (drop i ?ls). dot \<notin> set p" by (meson in_set_dropD py_split_notin)
    then have "py_split dot s = drop i ?ls" using i by (simp add: py_split_join)
    then have "?ls = take i ?ls @ py_split dot s" by simp
    then show "\<exists>labels. ?ls = labels @ py_split dot s" ..
  next
    assume "\<exists>labels. ?ls = labels @ py_split dot s"
    then obtain labels where l: "?ls = labels @ py_split dot s" ..
    then have "length labels < length ?ls" "drop (length labels) ?ls = py_split dot s"
      by (simp_all add: l)
    then show "\<exists>i < length ?ls. s = py_join [dot] (drop i ?ls)" by (metis py_join_split)
  qed
  note labels = this
  have "set (domain_suffixes q) = {s. \<exists>i < length ?ls. s = py_join [dot] (drop i ?ls)}"
    if "?n \<noteq> []" using that by (auto simp: domain_suffixes_def Let_def)
  then have "set (domain_suffixes q) = {s. \<exists>labels. ?ls = labels @ py_split dot s}" if "?n \<noteq> []"
    using that unfolding labels by blast
  then show ?thesis by (simp add: domain_suffixes_def Let_def)
qed

section \<open>Properties\<close>

text \<open>C19: A query is blocked exactly when its normalised name is not empty and some listed name
  is the query itself or one of its parent domains, that is, when the labels of the query
  end in the labels of the listed name.\<close>

theorem is_blocked_labels:
  "is_blocked blocked qname \<longleftrightarrow>
     normalize_domain qname \<noteq> [] \<and>
     (\<exists>name \<in> blocked. \<exists>labels. py_split dot (normalize_domain qname) = labels @ py_split dot name)"
  using domain_suffixes_set [of qname] by (auto simp: is_blocked_def list_ex_iff)

text \<open>The parsed entries are the domains the lines denote, each once and in the order of
  their first line; every one is normalised, has at least two labels of 1 to 63 letters,
  digits, hyphens or underscores, at most 253 characters, and is no IP address.\<close>

theorem parse_blocklist_entries:
  "parse_blocklist text = first_occurrences (List.map_filter extract_domain (py_splitlines text))
   \<and> distinct (parse_blocklist text) \<and> list_all listed_name (parse_blocklist text)
   \<and> map normalize_domain (parse_blocklist text) = parse_blocklist text"
proof -
  have l: "\<forall>d \<in> set (parse_blocklist text). listed_name d" by (blast intro: parse_blocklist_listed)
  have "distinct (parse_blocklist text)" by (simp add: parse_blocklist_first)
  moreover have "map normalize_domain (parse_blocklist text) = parse_blocklist text"
    using l by (intro map_idI) simp
  ultimately show ?thesis using l parse_blocklist_first [of "text"] unfolding list_all_iff by blast
qed

text \<open>C20: printing distinct valid names, each in the hosts, plain or Adblock syntax, and
  parsing the text gives the names back in order.\<close>

theorem parse_blocklist_print:
  assumes "distinct (map snd es)" "\<forall>e \<in> set es. listed_name (snd e)"
  shows "parse_blocklist (print_list es) = map snd es"
  using assms by (simp add: parse_print first_occurrences_distinct)

text \<open>An override domain that passes validation is the normalised form of its input and
  either a name that a list can contain, which it then removes, or such a name followed
  by a line feed, which no list contains and which removes nothing.\<close>

theorem normalize_override_effect:
  assumes "normalize_override_domain name = Some d"
  shows "d = normalize_domain name \<and>
    (listed_name d \<and> d \<notin> set (apply_overrides (parse_blocklist text) (d # others))
     \<or> (\<exists>e. d = e @ [newline] \<and> strict_name 2 e
          \<and> apply_overrides (parse_blocklist text) [d] = parse_blocklist text))"
proof -
  from assms have d: "d = normalize_domain name" "is_valid_domain d"
    by (auto simp: normalize_override_domain_def Let_def split: if_splits)
  show ?thesis
  proof (cases "newline \<in> set d")
    case False
    with d show ?thesis by (auto simp: valid_listed apply_overrides_def)
  next
    case True
    from d(2) have m: "strict_name 2 (pattern_body d)"
      by (auto simp: is_valid_domain_def DOMAIN_RE_def labels_match_strict split: if_splits option.splits)
    with True strict_no_newline have "pattern_body d \<noteq> d" by metis
    then have e: "d = butlast d @ [newline]" "pattern_body d = butlast d"
      by (auto simp: pattern_body_def split: if_splits) (metis append_butlast_last_id)
    have "d \<notin> set (parse_blocklist text)"
      using True parse_blocklist_listed strict_no_newline unfolding listed_name_def by blast
    then have "apply_overrides (parse_blocklist text) [d] = parse_blocklist text"
      by (auto simp: apply_overrides_def intro: filter_True)
    with m e d show ?thesis by metis
  qed
qed

text \<open>Witnesses: concrete names.\<close>

lemma listed_example: "listed_name ''ads.example.com''"
  by code_simp

theorem parse_blocklist_print_witness:
  "parse_blocklist (print_list [(Hosts, ''ads.example.com''), (Adblock, ''b-2.example.com'')])
     = [''ads.example.com'', ''b-2.example.com'']"
proof -
  have "listed_name ''b-2.example.com''" by code_simp
  with listed_example show ?thesis
    using parse_blocklist_print [of "[(Hosts, ''ads.example.com''), (Adblock, ''b-2.example.com'')]"] by simp
qed

theorem normalize_override_effect_witness:
  "normalize_override_domain ''Ads.Example.com.'' = Some ''ads.example.com''
   \<and> normalize_override_domain (''ads.example.com'' @ [newline]) = Some (''ads.example.com'' @ [newline])
   \<and> apply_overrides (parse_blocklist ''ads.example.com'') [''ads.example.com'' @ [newline]] = parse_blocklist ''ads.example.com''
   \<and> ''ads.example.com'' \<notin> set (apply_overrides (parse_blocklist ''ads.example.com'') [''ads.example.com''])"
proof -
  have a: "normalize_override_domain ''Ads.Example.com.'' = Some ''ads.example.com''" by code_simp
  have b: "normalize_override_domain (''ads.example.com'' @ [newline]) = Some (''ads.example.com'' @ [newline])"
    by code_simp
  have c: "\<not> listed_name (''ads.example.com'' @ [newline])" by code_simp
  from normalize_override_effect [OF a, of "''ads.example.com''" "[]"]
    normalize_override_effect [OF b, of "''ads.example.com''" "[]"] a b c
  show ?thesis by auto
qed

end
