(* ===== verification/LocalZones.thy ===== *)
theory LocalZones
  imports Blocklist
begin

text \<open>
  Local zones: \<open>domain/localzones.py\<close>. A zone text is parsed into records (an address
  gives a forward and a reverse record, a name gives a CNAME); the records are indexed by
  name and type. An exception that leaves \<open>parse_zone\<close> is the value \<open>None\<close>. The lemmas show when
  it raises, that its records are valid, unique and closed under reverse lookup, and that
  the index answers as the list of records does.
\<close>

section \<open>Records\<close>

definition DEFAULT_TTL :: int where "DEFAULT_TTL = 300"

definition RTYPE_A :: string where "RTYPE_A = ''A''"
definition RTYPE_AAAA :: string where "RTYPE_AAAA = ''AAAA''"
definition RTYPE_CNAME :: string where "RTYPE_CNAME = ''CNAME''"
definition RTYPE_PTR :: string where "RTYPE_PTR = ''PTR''"

lemmas rtype_defs = RTYPE_A_def RTYPE_AAAA_def RTYPE_CNAME_def RTYPE_PTR_def

definition VALID_RTYPES :: "string set" where
  "VALID_RTYPES = {RTYPE_A, RTYPE_AAAA, RTYPE_CNAME, RTYPE_PTR}"

record LocalRecord =
  rec_name :: string
  rec_rtype :: string
  rec_value :: string
  rec_ttl :: int

section \<open>Parsing\<close>

definition NAME_RE :: "string \<Rightarrow> bool" where
  "NAME_RE s = labels_match 1 s"

definition is_valid_name :: "string \<Rightarrow> bool" where
  "is_valid_name name = (name \<noteq> [] \<and> NAME_RE name)"

definition parse_ttl :: "string \<Rightarrow> int \<Rightarrow> int" where
  "parse_ttl raw default_ttl = (case py_int raw of Some n \<Rightarrow> max 0 n | None \<Rightarrow> default_ttl)"

text \<open>\<open>reverse_pointer\<close> stands outside the \<open>try\<close>: its exception leaves \<open>_expand\<close>.\<close>

definition expand :: "string \<Rightarrow> string \<Rightarrow> int \<Rightarrow> LocalRecord list option" where
  "expand val name ttl =
     (case ip_address val of
        None \<Rightarrow>
          let target = normalize_domain val in
          if \<not> is_valid_name target then Some []
          else Some [\<lparr>rec_name = name, rec_rtype = RTYPE_CNAME, rec_value = target, rec_ttl = ttl\<rparr>]
      | Some addr \<Rightarrow>
          let rtype = (case addr of IPv4 _ \<Rightarrow> RTYPE_A | IPv6 _ _ \<Rightarrow> RTYPE_AAAA) in
          case reverse_pointer addr of
            None \<Rightarrow> None
          | Some pointer \<Rightarrow> Some
              [\<lparr>rec_name = name, rec_rtype = rtype, rec_value = ip_str addr, rec_ttl = ttl\<rparr>,
               \<lparr>rec_name = pointer, rec_rtype = RTYPE_PTR, rec_value = name, rec_ttl = ttl\<rparr>])"

definition rec_key :: "LocalRecord \<Rightarrow> string \<times> string \<times> string" where
  "rec_key r = (rec_name r, rec_rtype r, rec_value r)"

text \<open>The fields of a line: value, normalised name and TTL, or nothing where it is skipped.\<close>

definition zone_fields :: "string \<Rightarrow> int \<Rightarrow> (string \<times> string \<times> int) option" where
  "zone_fields raw_line default_ttl =
     (let line = py_strip (py_before (CHR ''#'') raw_line) in
      if line = [] then None
      else
        let parts = map py_strip (py_split (CHR '','') line) in
        if length parts < 2 \<or> parts ! 0 = [] \<or> parts ! 1 = [] then None
        else
          let ttl = (if 3 \<le> length parts \<and> parts ! 2 \<noteq> [] then parse_ttl (parts ! 2) default_ttl
                     else default_ttl);
              name = normalize_domain (parts ! 1)
          in if \<not> is_valid_name name then None else Some (parts ! 0, name, ttl))"

fun parse_zone_loop :: "string list \<Rightarrow> int \<Rightarrow> LocalRecord list \<times> (string \<times> string \<times> string) set
    \<Rightarrow> LocalRecord list option" where
  "parse_zone_loop [] default_ttl acc = Some (fst acc)"
| "parse_zone_loop (raw_line # raw_lines) default_ttl acc =
     (case zone_fields raw_line default_ttl of
        None \<Rightarrow> parse_zone_loop raw_lines default_ttl acc
      | Some (val, name, ttl) \<Rightarrow>
          (case expand val name ttl of
             None \<Rightarrow> None
           | Some records \<Rightarrow>
               parse_zone_loop raw_lines default_ttl (fold (add_unseen rec_key) records acc)))"

definition parse_zone :: "string \<Rightarrow> int \<Rightarrow> LocalRecord list option" where
  "parse_zone text default_ttl = parse_zone_loop (py_splitlines text) default_ttl ([], {})"

section \<open>The index\<close>

record LocalRecords =
  lr_index :: "(string \<times> string, LocalRecord list) dict"
  lr_names :: "string set"
  lr_count :: nat

definition index_record :: "LocalRecord \<Rightarrow> LocalRecords \<Rightarrow> LocalRecords" where
  "index_record r l =
     l\<lparr>lr_index := dict_set (rec_name r, rec_rtype r) (dict_get (lr_index l) (rec_name r, rec_rtype r) [] @ [r]) (lr_index l),
       lr_names := insert (rec_name r) (lr_names l),
       lr_count := lr_count l + 1\<rparr>"

definition LocalRecords_init :: "LocalRecord list \<Rightarrow> LocalRecords" where
  "LocalRecords_init records = fold index_record records \<lparr>lr_index = [], lr_names = {}, lr_count = 0\<rparr>"

definition local_owns :: "LocalRecords \<Rightarrow> string \<Rightarrow> bool" where
  "local_owns l name = (name \<in> lr_names l)"

definition local_get :: "LocalRecords \<Rightarrow> string \<Rightarrow> string \<Rightarrow> LocalRecord list" where
  "local_get l name rtype = dict_get (lr_index l) (name, rtype) []"

definition local_cname :: "LocalRecords \<Rightarrow> string \<Rightarrow> LocalRecord option" where
  "local_cname l name =
     (case map_of (lr_index l) (name, RTYPE_CNAME) of
        Some (r # _) \<Rightarrow> Some r
      | _ \<Rightarrow> None)"

definition local_len :: "LocalRecords \<Rightarrow> nat" where
  "local_len l = lr_count l"

section \<open>Lemmas: parsing\<close>

definition line_records :: "int \<Rightarrow> string \<Rightarrow> LocalRecord list option" where
  "line_records default_ttl raw_line =
     (case zone_fields raw_line default_ttl of
        None \<Rightarrow> Some []
      | Some (val, name, ttl) \<Rightarrow> expand val name ttl)"

lemma parse_zone_loop_all:
  "parse_zone_loop ls d acc =
     map_option (\<lambda>rss. fst (fold (add_unseen rec_key) (concat rss) acc)) (all_some (map (line_records d) ls))"
proof (induction ls arbitrary: acc)
  case Nil
  then show ?case by simp
next
  case (Cons l ls)
  show ?case
  proof (cases "line_records d l")
    case None
    then show ?thesis by (auto simp: line_records_def split: option.splits)
  next
    case (Some rs)
    then have "parse_zone_loop (l # ls) d acc = parse_zone_loop ls d (fold (add_unseen rec_key) rs acc)"
      by (auto simp: line_records_def split: option.splits)
    with Some Cons.IH show ?thesis by (simp add: option.map_comp comp_def)
  qed
qed

lemma parse_zone_first:
  "parse_zone t d = map_option (\<lambda>rss. first_by rec_key (concat rss)) (all_some (map (line_records d) (py_splitlines t)))"
  by (simp add: parse_zone_def parse_zone_loop_all fold_add_unseen)

lemma all_some_None: "all_some xs = None \<longleftrightarrow> None \<in> set xs"
  by (induction xs rule: all_some.induct) auto

lemma expand_None:
  "expand v n t = None \<longleftrightarrow> (\<exists>a scope. ip_address v = Some (IPv6 a (Some scope)))"
proof (cases "ip_address v")
  case None
  then show ?thesis by (simp add: expand_def Let_def)
next
  case (Some a)
  then have "ip_wf a" by (rule ip_address_wf)
  with Some show ?thesis
    by (cases a rule: ip_wf.cases)
      (auto simp: expand_def reverse_pointer_plain reverse_pointer_scoped simp del: reverse_pointer.simps(2) ip_str.simps)
qed

lemma line_records_None:
  "line_records d l = None \<longleftrightarrow>
     (\<exists>v n t a scope. zone_fields l d = Some (v, n, t) \<and> ip_address v = Some (IPv6 a (Some scope)))"
  by (auto simp: line_records_def expand_None split: option.split)

text \<open>The names of a line are strict: no line feed survives the splitting.\<close>

lemma set_split_strip: "p \<in> set (map py_strip (py_split c s)) \<Longrightarrow> set p \<subseteq> set s"
  using py_split_chars set_py_strip by fastforce

lemma zone_fields_strict:
  assumes "zone_fields l d = Some (v, n, t)" "newline \<notin> set l"
  shows "strict_name 1 n \<and> newline \<notin> set v \<and> (0 \<le> d \<longrightarrow> 0 \<le> t)"
proof -
  let ?line = "py_strip (py_before (CHR ''#'') l)"
  let ?parts = "map py_strip (py_split (CHR '','') ?line)"
  have n: "2 \<le> length ?parts" "v = ?parts ! 0" "n = normalize_domain (?parts ! 1)" "is_valid_name n"
    and t: "t = d \<or> t = parse_ttl (?parts ! 2) d"
    using assms(1) by (auto simp: zone_fields_def Let_def split: if_splits)
  have "newline \<notin> set ?line"
    using assms(2) set_py_strip by (metis in_mono py_before_def set_takeWhileD)
  then have nl: "newline \<notin> set p" if "p \<in> set ?parts" for p using that set_split_strip by blast
  have "?parts ! 0 \<in> set ?parts" "?parts ! 1 \<in> set ?parts" using n(1) by (intro nth_mem; simp)+
  with nl n set_normalize have "newline \<notin> set n" "newline \<notin> set v" by blast+
  with n(4) t show ?thesis
    by (auto simp: is_valid_name_def NAME_RE_def labels_match_no_newline parse_ttl_def split: option.split)
qed

section \<open>Lemmas: the records of a zone\<close>

definition forward_type :: "ip_addr \<Rightarrow> string" where
  "forward_type a = (case a of IPv4 _ \<Rightarrow> RTYPE_A | IPv6 _ _ \<Rightarrow> RTYPE_AAAA)"

text \<open>What a key of a zone stands for, relative to all the keys of the zone.\<close>

definition zone_key_ok :: "(string \<times> string \<times> string) set \<Rightarrow> string \<times> string \<times> string \<Rightarrow> bool" where
  "zone_key_ok keys k \<longleftrightarrow>
     (\<exists>n target. k = (n, RTYPE_CNAME, target) \<and> strict_name 1 n \<and> strict_name 1 target)
   \<or> (\<exists>n a p. k = (n, forward_type a, ip_str a) \<and> strict_name 1 n \<and> ip_wf a
        \<and> reverse_pointer a = Some p \<and> (p, RTYPE_PTR, n) \<in> keys)
   \<or> (\<exists>n a p. k = (p, RTYPE_PTR, n) \<and> strict_name 1 n \<and> ip_wf a
        \<and> reverse_pointer a = Some p \<and> (n, forward_type a, ip_str a) \<in> keys)"

lemma zone_key_forward:
  "strict_name 1 n \<Longrightarrow> ip_wf a \<Longrightarrow> reverse_pointer a = Some p \<Longrightarrow> (p, RTYPE_PTR, n) \<in> ks
   \<Longrightarrow> zone_key_ok ks (n, forward_type a, ip_str a)"
  unfolding zone_key_ok_def by (rule disjI2, rule disjI1) blast

lemma zone_key_pointer:
  "strict_name 1 n \<Longrightarrow> ip_wf a \<Longrightarrow> reverse_pointer a = Some p \<Longrightarrow> (n, forward_type a, ip_str a) \<in> ks
   \<Longrightarrow> zone_key_ok ks (p, RTYPE_PTR, n)"
  unfolding zone_key_ok_def by (rule disjI2, rule disjI2) blast

lemma zone_key_mono: "zone_key_ok ks k \<Longrightarrow> ks \<subseteq> ks' \<Longrightarrow> zone_key_ok ks' k"
  unfolding zone_key_ok_def by (elim disjE exE conjE) blast+

lemma line_keys_ok:
  assumes "line_records d l = Some rs" "newline \<notin> set l" "k \<in> rec_key ` set rs"
  shows "zone_key_ok (rec_key ` set rs) k"
proof (cases "zone_fields l d")
  case None
  with assms show ?thesis by (simp add: line_records_def)
next
  case (Some f)
  obtain v n t where f: "f = (v, n, t)" by (cases f)
  note strict = zone_fields_strict [OF Some [unfolded f] assms(2)]
  have e: "expand v n t = Some rs" using assms(1) Some f by (simp add: line_records_def)
  show ?thesis
  proof (cases "ip_address v")
    case None
    let ?target = "normalize_domain v"
    from e None assms(3) have k: "k = (n, RTYPE_CNAME, ?target)" "is_valid_name ?target"
      by (auto simp: expand_def Let_def rec_key_def split: if_splits)
    have "newline \<notin> set ?target" using strict set_normalize by blast
    with k(2) have "strict_name 1 ?target" by (simp add: is_valid_name_def NAME_RE_def labels_match_no_newline)
    with k(1) strict show ?thesis unfolding zone_key_ok_def by blast
  next
    case (Some a)
    then have wf: "ip_wf a" by (rule ip_address_wf)
    from e Some obtain p where p: "reverse_pointer a = Some p"
      by (cases "reverse_pointer a") (simp_all add: expand_def del: reverse_pointer.simps ip_str.simps)
    with e Some have rs: "rec_key ` set rs = {(n, forward_type a, ip_str a), (p, RTYPE_PTR, n)}"
      by (auto simp: expand_def rec_key_def forward_type_def simp del: reverse_pointer.simps ip_str.simps)
    from assms(3) rs have "k = (n, forward_type a, ip_str a) \<or> k = (p, RTYPE_PTR, n)" by blast
    then show ?thesis
    proof
      assume "k = (n, forward_type a, ip_str a)"
      with p rs wf strict show ?thesis by (simp only:) (rule zone_key_forward, auto)
    next
      assume "k = (p, RTYPE_PTR, n)"
      with p rs wf strict show ?thesis by (simp only:) (rule zone_key_pointer, auto)
    qed
  qed
qed

lemma line_ttl: "line_records d l = Some rs \<Longrightarrow> newline \<notin> set l \<Longrightarrow> 0 \<le> d \<Longrightarrow> r \<in> set rs \<Longrightarrow> 0 \<le> rec_ttl r"
  using zone_fields_strict [of l d]
  by (auto simp: line_records_def expand_def Let_def split: option.splits if_splits prod.splits)

lemma parse_zone_members:
  assumes "parse_zone t d = Some rs"
  obtains rss where "all_some (map (line_records d) (py_splitlines t)) = Some rss" "rs = first_by rec_key (concat rss)"
  using assms by (auto simp: parse_zone_first)

lemma zone_line:
  assumes "all_some (map (line_records d) (py_splitlines t)) = Some rss" "rs \<in> set rss"
  shows "\<exists>l. line_records d l = Some rs \<and> newline \<notin> set l"
proof -
  from assms(1) have "map (line_records d) (py_splitlines t) = map Some rss" by (simp add: all_some_Some)
  with assms(2) have "Some rs \<in> set (map (line_records d) (py_splitlines t))" by simp
  then obtain l where l: "l \<in> set (py_splitlines t)" "line_records d l = Some rs" by auto
  moreover have "newline \<notin> set l" using py_splitlines_line [OF l(1)] newline_break by blast
  ultimately show ?thesis by blast
qed

lemma parse_zone_ok:
  assumes "parse_zone t d = Some rs"
  shows "distinct (map rec_key rs) \<and> (\<forall>k \<in> rec_key ` set rs. zone_key_ok (rec_key ` set rs) k)
    \<and> (0 \<le> d \<longrightarrow> (\<forall>r \<in> set rs. 0 \<le> rec_ttl r))"
proof -
  obtain rss where rss: "all_some (map (line_records d) (py_splitlines t)) = Some rss"
      "rs = first_by rec_key (concat rss)"
    using assms by (rule parse_zone_members)
  have keys: "rec_key ` set rs = (\<Union>l \<in> set rss. rec_key ` set l)" using rss(2) by auto
  have "zone_key_ok (rec_key ` set rs) k" if k: "k \<in> rec_key ` set rs" for k
  proof -
    from k keys obtain l where l: "l \<in> set rss" "k \<in> rec_key ` set l" by auto
    from zone_line [OF rss(1) l(1)] l(2) have "zone_key_ok (rec_key ` set l) k" by (blast intro: line_keys_ok)
    then show ?thesis by (rule zone_key_mono) (use keys l(1) in blast)
  qed
  moreover have "0 \<le> rec_ttl r" if d: "0 \<le> d" and r: "r \<in> set rs" for r
  proof -
    from r rss(2) first_by_subset obtain l where l: "l \<in> set rss" "r \<in> set l" by fastforce
    from zone_line [OF rss(1) l(1)] l(2) d show ?thesis by (blast intro: line_ttl)
  qed
  ultimately show ?thesis using rss(2) by simp
qed

section \<open>Lemmas: the index\<close>

lemma fold_index:
  "local_get (fold index_record rs l) n t = local_get l n t @ filter (\<lambda>r. rec_name r = n \<and> rec_rtype r = t) rs
   \<and> lr_names (fold index_record rs l) = lr_names l \<union> rec_name ` set rs
   \<and> lr_count (fold index_record rs l) = lr_count l + length rs"
proof (induction rs arbitrary: l)
  case (Cons r rs)
  from Cons [of "index_record r l"] show ?case by (auto simp: local_get_def index_record_def)
qed simp

lemma local_cname_get:
  "local_cname l n = (case local_get l n RTYPE_CNAME of [] \<Rightarrow> None | r # _ \<Rightarrow> Some r)"
  by (auto simp: local_cname_def local_get_def dict_get_def split: option.splits list.splits)

section \<open>Properties\<close>

text \<open>Parsing a zone raises exactly when a usable line (value, valid name) gives a scoped
  IPv6 address as its value; otherwise invalid lines are skipped.\<close>

theorem parse_zone_raises:
  "parse_zone text default_ttl = None \<longleftrightarrow>
     (\<exists>line \<in> set (py_splitlines text). \<exists>val name ttl a scope.
        zone_fields line default_ttl = Some (val, name, ttl) \<and> ip_address val = Some (IPv6 a (Some scope)))"
  by (auto simp: parse_zone_first all_some_None line_records_None image_iff eq_commute [of None])

text \<open>C38: the records of a parsed zone have distinct (name, type, value) keys; each is a CNAME
  between valid names, an address record with its PTR record in the zone, or a PTR record
  with its address record in the zone; no TTL is negative when the default is not.\<close>

theorem parse_zone_closed:
  assumes "parse_zone text default_ttl = Some records"
  shows "distinct (map rec_key records)
    \<and> (\<forall>r \<in> set records. zone_key_ok (rec_key ` set records) (rec_key r))
    \<and> (0 \<le> default_ttl \<longrightarrow> (\<forall>r \<in> set records. 0 \<le> rec_ttl r))"
  using parse_zone_ok [OF assms] by auto

definition example_zone_records :: "LocalRecord list" where
  "example_zone_records =
     [\<lparr>rec_name = ''nas.lan'', rec_rtype = ''A'', rec_value = ''192.0.2.10'', rec_ttl = 60\<rparr>,
      \<lparr>rec_name = ''10.2.0.192.in-addr.arpa'', rec_rtype = ''PTR'', rec_value = ''nas.lan'', rec_ttl = 60\<rparr>]"

lemma example_zone_text: "parse_zone ''192.0.2.10, NAS.lan., 60'' DEFAULT_TTL = Some example_zone_records"
proof -
  have f: "zone_fields ''192.0.2.10, NAS.lan., 60'' 300 = Some (''192.0.2.10'', ''nas.lan'', 60)"
    by code_simp
  have s: "ip_str (IPv4 3221225994) = ''192.0.2.10''"
    by (simp add: v4_str_def v4_octets_def base_str.simps digit_char_table)
  have a: "ip_address ''192.0.2.10'' = Some (IPv4 3221225994)"
    using ip_address_str [of "IPv4 3221225994"] s by simp
  have "reverse_pointer (IPv4 3221225994) = Some ''10.2.0.192.in-addr.arpa''"
    by (simp add: v4_reverse_pointer_def v4_octets_def v4_str_def base_str.simps digit_char_table)
  with a s have "expand ''192.0.2.10'' ''nas.lan'' 60 = Some example_zone_records"
    by (simp add: expand_def rtype_defs example_zone_records_def del: reverse_pointer.simps ip_str.simps)
  moreover have "py_splitlines ''192.0.2.10, NAS.lan., 60'' = [''192.0.2.10, NAS.lan., 60'']"
    by code_simp
  ultimately show ?thesis
    using f by (simp add: parse_zone_def add_unseen_def rec_key_def example_zone_records_def DEFAULT_TTL_def)
qed

theorem parse_zone_closed_witness:
  "\<exists>records. parse_zone ''192.0.2.10, NAS.lan., 60'' DEFAULT_TTL = Some records \<and> length records = 2
     \<and> distinct (map rec_key records)"
  using parse_zone_closed [OF example_zone_text] example_zone_text by (simp add: example_zone_records_def)

text \<open>The index answers as the list it was built from does: the records of a name and type
  in order, ownership of a name, the first CNAME and the number of records.\<close>

theorem LocalRecords_index:
  "local_get (LocalRecords_init records) name rtype = filter (\<lambda>r. rec_name r = name \<and> rec_rtype r = rtype) records
   \<and> (local_owns (LocalRecords_init records) name \<longleftrightarrow> (\<exists>r \<in> set records. rec_name r = name))
   \<and> local_cname (LocalRecords_init records) name
       = List.find (\<lambda>r. rec_name r = name \<and> rec_rtype r = RTYPE_CNAME) records
   \<and> local_len (LocalRecords_init records) = length records"
proof -
  have head: "(case filter P xs of [] \<Rightarrow> None | r # _ \<Rightarrow> Some r) = List.find P xs" for P and xs :: "LocalRecord list"
    by (induction xs) auto
  let ?l = "LocalRecords_init records"
  note f = fold_index [of records "\<lparr>lr_index = [], lr_names = {}, lr_count = 0\<rparr>", folded LocalRecords_init_def]
  have get: "local_get ?l n t = filter (\<lambda>r. rec_name r = n \<and> rec_rtype r = t) records" for n t
    using f by (simp add: local_get_def dict_get_def)
  moreover have "local_owns ?l name \<longleftrightarrow> (\<exists>r \<in> set records. rec_name r = name)"
    using f by (auto simp: local_owns_def)
  moreover have "local_len ?l = length records" using f by (simp add: local_len_def)
  ultimately show ?thesis by (simp add: local_cname_get head)
qed

end
