(* ===== verification/Network.thy ===== *)
theory Network
  imports Policy IpAddr
begin

text \<open>
  Trusted source networks: \<open>domain/network.py\<close>. CIDR texts that do not parse are
  skipped, and a filter without networks trusts every client. The lemmas read membership
  as equality of the leading bits and give the decision for a whole list of texts; a network and
  its canonical text determine each other.
\<close>

record NetworkFilter =
  networks :: "ip_net list"

fun from_cidrs_loop :: "string list \<Rightarrow> ip_net list \<Rightarrow> ip_net list" where
  "from_cidrs_loop [] nets = nets"
| "from_cidrs_loop (cidr # cidrs) nets =
     (case ip_network cidr of
        Some net \<Rightarrow> from_cidrs_loop cidrs (nets @ [net])
      | None \<Rightarrow> from_cidrs_loop cidrs nets)"

definition from_cidrs :: "string list \<Rightarrow> NetworkFilter" where
  "from_cidrs cidrs = \<lparr>networks = from_cidrs_loop cidrs []\<rparr>"

definition is_trusted :: "NetworkFilter \<Rightarrow> string \<Rightarrow> bool" where
  "is_trusted self client_ip =
     (if networks self = [] then True
      else case ip_address client_ip of
        None \<Rightarrow> False
      | Some addr \<Rightarrow> list_ex (\<lambda>net. in_net addr net) (networks self))"

section \<open>Lemmas\<close>

lemma from_cidrs_filter: "from_cidrs_loop cidrs nets = nets @ List.map_filter ip_network cidrs"
  by (induction cidrs arbitrary: nets) (auto simp: map_filter_simps split: option.splits)

lemma networks_from_cidrs [simp]: "networks (from_cidrs cidrs) = List.map_filter ip_network cidrs"
  by (simp add: from_cidrs_def from_cidrs_filter)

lemma slash_v4: "CHR ''/'' \<notin> set (v4_str m)"
  using ipv4_address_chars [OF ipv4_address_str] nat_str_digits
  by (fastforce simp: v4_str_def is_digit_def code_def dest!: py_join_chars)

lemma split_prefix:
  assumes "CHR ''/'' \<notin> set a"
  shows "split_addr_prefix (a @ CHR ''/'' # nat_str p) = Some (a, Some (nat_str p))"
proof -
  have "CHR ''/'' \<notin> set (nat_str p)" by (auto dest!: nat_str_digits simp: is_digit_def code_def)
  then show ?thesis using assms by (simp add: split_addr_prefix_def py_split_append py_split_single)
qed

lemma prefix_nat_str:
  assumes "p \<le> w" "w \<le> 128"
  shows "prefix_of_string w (nat_str p) = Some p"
proof -
  have "length (nat_str p) \<le> 3" using assms by (intro length_base_str) simp_all
  moreover have "list_all is_digit (nat_str p)" by (auto simp: list_all_iff dest: nat_str_digits)
  moreover have "base_val 10 (nat_str p) = p" by (rule base_val_str) simp_all
  ultimately show ?thesis using assms by (simp add: prefix_of_string_def max_str_digits_def)
qed

lemma ip_network_v4:
  assumes "m < 2 ^ 32" "p \<le> 32"
  shows "ip_network (v4_str m @ CHR ''/'' # nat_str p) = Some (Net4 (m AND netmask 32 p) p)"
  using assms by (simp add: ip_network_def ipv4_network_def split_prefix slash_v4 ipv4_address_str
    v4_prefix_def prefix_nat_str)

section \<open>Lemmas: networks as texts\<close>

fun net_wf :: "ip_net \<Rightarrow> bool" where
  "net_wf (Net4 n p) = (n < 2 ^ 32 \<and> p \<le> 32 \<and> n AND netmask 32 p = n)"
| "net_wf (Net6 n scope p) = (ip_wf (IPv6 n scope) \<and> p \<le> 128 \<and> n AND netmask 128 p = n)"

lemma netmask_le: "n < 2 ^ w \<Longrightarrow> p \<le> w \<Longrightarrow> n AND netmask w p \<le> (n :: nat)"
  by (simp add: netmask_and)

lemma ipv4_network_wf: "ipv4_network s = Some net \<Longrightarrow> net_wf net"
proof -
  assume found: "ipv4_network s = Some net"
  then obtain addr msk where split: "split_addr_prefix s = Some (addr, msk)"
    by (cases "split_addr_prefix s") (auto simp: ipv4_network_def)
  with found obtain n where n: "ipv4_address addr = Some n" by (cases "ipv4_address addr") (auto simp: ipv4_network_def)
  with found split obtain p where s: "ipv4_address addr = Some n" "(case msk of None \<Rightarrow> Some 32 | Some m \<Rightarrow> v4_prefix m) = Some p"
    and net: "net = Net4 (n AND netmask 32 p) p"
    by (auto simp: ipv4_network_def)
  have "n < 2 ^ 32" using s(1) parse_v4_bound by (auto simp: ipv4_address_def split: if_splits)
  moreover have "p \<le> 32" using s(2) v4_prefix_le by (auto split: option.splits)
  ultimately show ?thesis using netmask_le [of n 32 p] by (simp add: net and.right_idem)
qed

lemma ipv6_network_wf: "ipv6_network s = Some net \<Longrightarrow> net_wf net"
proof -
  assume found: "ipv6_network s = Some net"
  then obtain addr msk where split: "split_addr_prefix s = Some (addr, msk)"
    by (cases "split_addr_prefix s") (auto simp: ipv6_network_def)
  with found obtain n scope where n: "ipv6_address addr = Some (n, scope)"
    by (cases "ipv6_address addr") (auto simp: ipv6_network_def)
  with found split obtain p where s: "ipv6_address addr = Some (n, scope)"
      "(case msk of None \<Rightarrow> Some 128 | Some m \<Rightarrow> prefix_of_string 128 m) = Some p"
    and net: "net = (if n AND netmask 128 p \<noteq> n then Net6 (n AND netmask 128 p) None p else Net6 n scope p)"
    by (simp add: ipv6_network_def) blast
  have slash: "CHR ''/'' \<notin> set addr" using s(1) by (auto simp: ipv6_address_def split: if_splits)
  from s(1) slash obtain a where a: "split_scope addr = Some (a, scope)" "parse_v6_int a = Some n"
    by (auto simp: ipv6_address_def split: option.splits)
  have n: "n < 2 ^ 128" using parse_v6_bound [OF a(2)] .
  have wf: "ip_wf (IPv6 n scope)" using split_scope_Some [OF a(1) slash] n by (cases scope) auto
  have p: "p \<le> 128" using s(2) prefix_of_string_le by (auto split: option.splits)
  then show ?thesis using netmask_le [OF n p] n wf by (simp add: net and.right_idem)
qed

lemma ip_network_wf: "ip_network s = Some net \<Longrightarrow> net_wf net"
  using ipv4_network_wf ipv6_network_wf by (auto simp: ip_network_def split: option.splits)

lemma ip_str_v6:
  assumes "ip_wf (IPv6 n scope)"
  shows "ipv4_address (ip_str (IPv6 n scope)) = None" "ipv6_address (ip_str (IPv6 n scope)) = Some (n, scope)"
    "CHR ''/'' \<notin> set (ip_str (IPv6 n scope))"
proof -
  have "ip_address (ip_str (IPv6 n scope)) = Some (IPv6 n scope)" using assms by (rule ip_address_str)
  then show "ipv4_address (ip_str (IPv6 n scope)) = None" and v6: "ipv6_address (ip_str (IPv6 n scope)) = Some (n, scope)"
    by (auto simp: ip_address_def split: option.splits)
  from v6 show "CHR ''/'' \<notin> set (ip_str (IPv6 n scope))" by (auto simp: ipv6_address_def split: if_splits)
qed

lemma ip_network_str: "net_wf net \<Longrightarrow> ip_network (net_str net) = Some net"
proof (cases net)
  case (Net4 n p)
  then show "net_wf net \<Longrightarrow> ?thesis" by (simp add: ip_network_v4)
next
  case (Net6 n scope p)
  assume "net_wf net"
  with Net6 have wf: "ip_wf (IPv6 n scope)" "p \<le> 128" "n AND netmask 128 p = n" by simp_all
  note str = ip_str_v6 [OF wf(1)]
  show ?thesis
    using wf by (simp add: Net6 ip_network_def ipv4_network_def ipv6_network_def split_prefix [OF str(3)] str(1,2) prefix_nat_str
        del: ip_str.simps)
qed

section \<open>Properties\<close>

text \<open>A client is trusted exactly when no configured text is a network, or its address
  parses and lies in one of the networks that do parse.\<close>

theorem is_trusted_cidrs:
  "is_trusted (from_cidrs cidrs) client_ip \<longleftrightarrow>
     (\<forall>cidr \<in> set cidrs. ip_network cidr = None) \<or>
     (\<exists>addr. ip_address client_ip = Some addr
        \<and> (\<exists>cidr \<in> set cidrs. \<exists>net. ip_network cidr = Some net \<and> in_net addr net))"
  by (auto simp: is_trusted_def List.map_filter_def list_ex_iff filter_empty_conv split: option.splits)

text \<open>A reference for membership: the same version, and the leading bits of the network.\<close>

fun shares_prefix :: "ip_net \<Rightarrow> ip_addr \<Rightarrow> bool" where
  "shares_prefix (Net4 m p) (IPv4 n) = (n div 2 ^ (32 - p) = m div 2 ^ (32 - p))"
| "shares_prefix (Net6 m scope p) (IPv6 n zone) = (n div 2 ^ (128 - p) = m div 2 ^ (128 - p))"
| "shares_prefix net addr = False"

lemma mask_prefix:
  assumes "n < 2 ^ w" "m < 2 ^ w" "p \<le> w" "m AND netmask w p = (m :: nat)"
  shows "n AND netmask w p = m \<longleftrightarrow> n div 2 ^ (w - p) = m div 2 ^ (w - p)"
proof -
  have "m = m div 2 ^ (w - p) * 2 ^ (w - p)" using assms(4) netmask_and [OF assms(2,3)] by simp
  then show ?thesis using netmask_and [OF assms(1,3)] by (metis mult_right_cancel power_not_zero zero_neq_numeral)
qed

lemma ip_wf_v6: "ip_wf (IPv6 n scope) \<Longrightarrow> n < 2 ^ 128"
  by (cases scope) simp_all

lemma in_net_shares:
  assumes "ip_wf addr" "net_wf net"
  shows "in_net addr net \<longleftrightarrow> shares_prefix net addr"
proof (cases addr)
  case (IPv4 n)
  with assms mask_prefix [of n 32] show ?thesis by (cases net) simp_all
next
  case (IPv6 n zone)
  then have "n < 2 ^ 128" using assms(1) ip_wf_v6 by blast
  moreover have "m < 2 ^ 128" if "net = Net6 m scope p" for m scope p
    using assms(2) that ip_wf_v6 [of m scope] by simp
  ultimately show ?thesis using IPv6 assms(2) mask_prefix [of n 128] by (cases net) simp_all
qed

text \<open>C27: Whatever texts are configured and whatever the address of a client is: if none of the texts is a network every
  client is trusted; otherwise exactly the clients whose address parses and, for one of the networks, is of its
  version and begins with its prefix. A client of the other version and one whose address does not parse are not
  trusted.\<close>

theorem trusted_by_prefix:
  "is_trusted (from_cidrs cidrs) client_ip \<longleftrightarrow>
     (if \<forall>cidr \<in> set cidrs. ip_network cidr = None then True
      else \<exists>addr. ip_address client_ip = Some addr
        \<and> (\<exists>cidr \<in> set cidrs. \<exists>net. ip_network cidr = Some net \<and> shares_prefix net addr))"
  unfolding is_trusted_cidrs using in_net_shares [OF ip_address_wf ip_network_wf] by (auto, blast)

theorem trusted_by_prefix_witness:
  "let lan = [v4_str 3232235776 @ CHR ''/'' # nat_str 24] in
     is_trusted (from_cidrs lan) (v4_str 3232235786) \<and> \<not> is_trusted (from_cidrs lan) (v4_str 3232236042)
   \<and> \<not> is_trusted (from_cidrs lan) (ip_str (IPv6 1 None)) \<and> \<not> is_trusted (from_cidrs lan) ''not-an-ip''
   \<and> is_trusted (from_cidrs []) ''not-an-ip''"
proof -
  have net: "ip_network (v4_str 3232235776 @ CHR ''/'' # nat_str 24) = Some (Net4 (3232235776 AND netmask 32 24) 24)"
    by (rule ip_network_v4) simp_all
  moreover have "(3232235776 :: nat) AND netmask 32 24 = 3232235776" by (simp add: netmask_and)
  moreover have "ip_address (v4_str 3232235786) = Some (IPv4 3232235786)" "ip_address (v4_str 3232236042) = Some (IPv4 3232236042)"
    "ip_address (ip_str (IPv6 1 None)) = Some (IPv6 1 None)"
    using ip_address_str [of "IPv4 3232235786"] ip_address_str [of "IPv4 3232236042"] ip_address_str [of "IPv6 1 None"] by simp_all
  moreover have "ip_address ''not-an-ip'' = None" by code_simp
  ultimately show ?thesis unfolding Let_def trusted_by_prefix by simp
qed

text \<open>With one IPv4 network \<open>m/p\<close> configured as a text, the IPv4 clients whose first \<open>p\<close> address bits are those of \<open>m\<close>
  are trusted, whether or not \<open>m\<close> has further bits.\<close>

theorem is_trusted_prefix:
  assumes "m < 2 ^ 32" "n < 2 ^ 32" "p \<le> 32"
  shows "is_trusted (from_cidrs [v4_str m @ CHR ''/'' # nat_str p]) (v4_str n)
    \<longleftrightarrow> n div 2 ^ (32 - p) = m div 2 ^ (32 - p)"
proof -
  have "ip_address (v4_str n) = Some (IPv4 n)" using ip_address_str [of "IPv4 n"] assms(2) by simp
  then show ?thesis
    using assms by (simp add: is_trusted_def ip_network_v4 map_filter_simps in_net_prefix4 del: in_net.simps)
qed

theorem is_trusted_prefix_witness:
  "is_trusted (from_cidrs [v4_str 3232235776 @ CHR ''/'' # nat_str 24]) (v4_str 3232235786)
   \<and> \<not> is_trusted (from_cidrs [v4_str 3232235776 @ CHR ''/'' # nat_str 24]) (v4_str 3232236042)"
  using is_trusted_prefix [of 3232235776 3232235786 24] is_trusted_prefix [of 3232235776 3232236042 24]
  by simp

end
