(* ===== verification/BufferSpec.thy ===== *)
theory BufferSpec
  imports Prelude
begin

text \<open>
  What the in-memory buffers of the DNS server have in common. Every buffer collects events
  under a lock, and \<open>flush\<close> swaps the collected data for an empty container and hands the
  rows to a callback whose exceptions are logged and swallowed. The interface of such a
  buffer is the locale \<open>flush_buffer\<close>; a buffer that never drops an event extends it to
  \<open>counting_buffer\<close>. A repository the rows are written to is a \<open>sink\<close>, and a buffer that
  feeds a sink is a \<open>pipeline\<close>.
\<close>

section \<open>Callbacks and timers\<close>

text \<open>\<open>try: self._flush_fn(rows) except Exception\<close>: a callback that raises has no effect.\<close>

definition deliver :: "('r \<Rightarrow> 'db \<Rightarrow> 'db option) \<Rightarrow> 'r \<Rightarrow> 'db \<Rightarrow> 'db" where
  "deliver flush_fn rows db = (case flush_fn rows db of None \<Rightarrow> db | Some db' \<Rightarrow> db')"

text \<open>
  \<open>while not self._stop.wait(seconds): body()\<close>: the loop ends at the first wait that finds
  the event set, and runs its body after every other one.
\<close>

fun timer_loop :: "('st \<Rightarrow> 'st) \<Rightarrow> bool list \<Rightarrow> 'st \<Rightarrow> 'st" where
  "timer_loop body [] st = st"
| "timer_loop body (stopped # waits) st = (if stopped then st else timer_loop body waits (body st))"

lemma timer_loop_power: "timer_loop body waits st = (body ^^ length (takeWhile Not waits)) st"
  by (induction waits arbitrary: st) (simp_all add: funpow_swap1)

text \<open>A run of a buffer; a flush carries what the write depends on (its clock, its outcome).\<close>

datatype ('e, 'x) buffer_op = Add 'e | Flush 'x

fun buffer_run :: "('e \<Rightarrow> 's \<Rightarrow> 's) \<Rightarrow> ('x \<Rightarrow> 's \<times> 'db \<Rightarrow> 's \<times> 'db) \<Rightarrow> ('e, 'x) buffer_op list
    \<Rightarrow> 's \<times> 'db \<Rightarrow> 's \<times> 'db" where
  "buffer_run add flush [] st = st"
| "buffer_run add flush (Add e # ops) st = buffer_run add flush ops (add e (fst st), snd st)"
| "buffer_run add flush (Flush x # ops) st = buffer_run add flush ops (flush x st)"

text \<open>How often a key was added in a run.\<close>

fun added :: "('e \<Rightarrow> 'k) \<Rightarrow> 'k \<Rightarrow> ('e, 'x) buffer_op list \<Rightarrow> int" where
  "added key k [] = 0"
| "added key k (Add e # ops) = of_bool (key e = k) + added key k ops"
| "added key k (Flush x # ops) = added key k ops"

section \<open>Interfaces\<close>

locale flush_buffer =
  fixes add :: "'e \<Rightarrow> 's \<Rightarrow> 's"
    and rows :: "'s \<Rightarrow> 'r list"
    and cleared :: "'s \<Rightarrow> 's"
    and flush :: "('r list \<Rightarrow> 'db \<Rightarrow> 'db option) \<Rightarrow> 's \<times> 'db \<Rightarrow> 's \<times> 'db"
    and inv :: "'s \<Rightarrow> bool"
    and event_key :: "'e \<Rightarrow> 'k"
    and row_key :: "'r \<Rightarrow> 'k"
    and row_hits :: "'r \<Rightarrow> int"
  assumes flush_step: "flush f (s, db) = (if rows s = [] then (s, db) else (cleared s, deliver f (rows s) db))"
    and rows_cleared: "rows (cleared s) = []"
    and inv_cleared: "inv s \<Longrightarrow> inv (cleared s)"
    and inv_add: "inv s \<Longrightarrow> inv (add e s)"
    and hits_pos: "inv s \<Longrightarrow> r \<in> set (rows s) \<Longrightarrow> 0 < row_hits r"
    and add_le: "inv s \<Longrightarrow> sum_by row_key row_hits k (rows (add e s))
        \<le> sum_by row_key row_hits k (rows s) + of_bool (event_key e = k)"
begin

abbreviation pending :: "'s \<Rightarrow> 'k \<Rightarrow> int" where
  "pending s k \<equiv> sum_by row_key row_hits k (rows s)"

lemma flush_rows: "rows (fst (flush f st)) = []"
  by (cases st) (simp add: flush_step rows_cleared)

lemma flush_pending: "pending (fst (flush f st)) k = 0"
  by (simp add: flush_rows)

lemma inv_flush: "inv (fst st) \<Longrightarrow> inv (fst (flush f st))"
  by (cases st) (simp add: flush_step inv_cleared)

lemma flush_db: "snd (flush f (s, db)) = (if rows s = [] then db else deliver f (rows s) db)"
  by (simp add: flush_step)

lemma inv_run: "inv (fst st) \<Longrightarrow> inv (fst (buffer_run add (\<lambda>x. flush (f x)) ops st))"
proof (induction ops arbitrary: st)
  case (Cons p ops)
  then show ?case by (cases p) (simp_all add: inv_add inv_flush)
qed simp

end

text \<open>An aggregating buffer has one row per key: its hits are what is pending for the key.\<close>

locale keyed_buffer = flush_buffer +
  assumes keys_distinct: "inv s \<Longrightarrow> distinct (map row_key (rows s))"
begin

lemma pending_row:
  assumes "inv s" "r \<in> set (rows s)"
  shows "pending s (row_key r) = row_hits r"
proof -
  from assms(2) obtain xs ys where xs: "rows s = xs @ r # ys" by (meson split_list)
  with keys_distinct [OF assms(1)] have "row_key r \<notin> row_key ` set xs" "row_key r \<notin> row_key ` set ys" by auto
  with xs show ?thesis by (simp add: sum_by_notin)
qed

end

locale counting_buffer = keyed_buffer +
  assumes add_eq: "inv s \<Longrightarrow> sum_by row_key row_hits k (rows (add e s))
        = sum_by row_key row_hits k (rows s) + of_bool (event_key e = k)"

text \<open>
  A store that counts: writing rows adds at most their hits to the totals, and exactly their
  hits to those of a key that the write keeps (it commits, and does not prune the key).
\<close>

locale sink =
  fixes save :: "'x \<Rightarrow> 'r list \<Rightarrow> 'db \<Rightarrow> 'db option"
    and total :: "'db \<Rightarrow> 'k \<Rightarrow> int"
    and ok :: "'db \<Rightarrow> bool"
    and row_key :: "'r \<Rightarrow> 'k"
    and row_hits :: "'r \<Rightarrow> int"
    and kept :: "'x \<Rightarrow> 'k \<Rightarrow> bool"
  assumes save_le: "ok db \<Longrightarrow> \<forall>r \<in> set rs. 0 \<le> row_hits r \<Longrightarrow> save x rs db = Some db' \<Longrightarrow>
      total db' k \<le> total db k + sum_by row_key row_hits k rs"
    and save_ok: "ok db \<Longrightarrow> \<forall>r \<in> set rs. 0 \<le> row_hits r \<Longrightarrow> save x rs db = Some db' \<Longrightarrow> ok db'"
    and save_kept: "ok db \<Longrightarrow> \<forall>r \<in> set rs. 0 \<le> row_hits r \<Longrightarrow> kept x k \<Longrightarrow>
      \<exists>db'. save x rs db = Some db' \<and> total db' k = total db k + sum_by row_key row_hits k rs"

locale pipeline = flush_buffer add rows cleared flush inv event_key row_key row_hits
    + sink save total ok row_key row_hits kept
  for add :: "'e \<Rightarrow> 's \<Rightarrow> 's" and rows cleared
    and flush :: "('r list \<Rightarrow> 'db \<Rightarrow> 'db option) \<Rightarrow> 's \<times> 'db \<Rightarrow> 's \<times> 'db"
    and inv event_key row_key row_hits and save :: "'x \<Rightarrow> 'r list \<Rightarrow> 'db \<Rightarrow> 'db option" and total ok kept
begin

abbreviation run :: "('e, 'x) buffer_op list \<Rightarrow> 's \<times> 'db \<Rightarrow> 's \<times> 'db" where
  "run \<equiv> buffer_run add (\<lambda>x. flush (save x))"

lemma rows_nonneg: "inv s \<Longrightarrow> \<forall>r \<in> set (rows s). 0 \<le> row_hits r"
  using hits_pos less_imp_le by blast

lemma flush_bound:
  assumes "inv (fst st)" "ok (snd st)"
  shows "total (snd (flush (save x) st)) k \<le> total (snd st) k + pending (fst st) k \<and> ok (snd (flush (save x) st))"
proof -
  obtain s db where st: "st = (s, db)" by (cases st)
  have nonneg: "\<forall>r \<in> set (rows s). 0 \<le> row_hits r" using rows_nonneg assms(1) st by simp
  then have "0 \<le> pending s k" by (intro sum_by_nonneg) simp
  then show ?thesis using save_le [OF _ nonneg, of db x _ k] save_ok [OF _ nonneg, of db x] assms(2)
    by (auto simp: st flush_step deliver_def split: option.split)
qed

text \<open>No sequence of events and flushes, failing ones included, counts an event twice.\<close>

lemma never_overcounts:
  assumes "inv (fst st)" "ok (snd st)"
  shows "total (snd (run ops st)) k + pending (fst (run ops st)) k
    \<le> total (snd st) k + pending (fst st) k + added event_key k ops"
  using assms
proof (induction ops arbitrary: st)
  case (Cons p ops)
  show ?case
  proof (cases p)
    case (Add e)
    with Cons.IH [of "(add e (fst st), snd st)"] Cons.prems add_le [of "fst st" k e] show ?thesis
      by (simp add: inv_add)
  next
    case (Flush x)
    with Cons.IH [of "flush (save x) st"] Cons.prems flush_bound [OF Cons.prems, of x k] show ?thesis
      by (simp add: inv_flush flush_pending)
  qed
qed simp

lemma stored_le:
  assumes "inv (fst st)" "ok (snd st)" "rows (fst st) = []" "total (snd st) k = 0"
  shows "total (snd (run ops st)) k \<le> added event_key k ops"
proof -
  have "0 \<le> pending (fst (run ops st)) k"
    using rows_nonneg [OF inv_run [OF assms(1), of save ops]] by (intro sum_by_nonneg) blast
  with never_overcounts [OF assms(1,2), of ops k] assms(3,4) show ?thesis by simp
qed

end

locale exact_pipeline = pipeline add rows cleared flush inv event_key row_key row_hits save total ok kept
    + counting_buffer add rows cleared flush inv event_key row_key row_hits
  for add :: "'e \<Rightarrow> 's \<Rightarrow> 's" and rows cleared
    and flush :: "('r list \<Rightarrow> 'db \<Rightarrow> 'db option) \<Rightarrow> 's \<times> 'db \<Rightarrow> 's \<times> 'db"
    and inv event_key row_key row_hits and save :: "'x \<Rightarrow> 'r list \<Rightarrow> 'db \<Rightarrow> 'db option" and total ok kept
begin

lemma flush_exact:
  assumes "inv (fst st)" "ok (snd st)" "kept x k"
  shows "total (snd (flush (save x) st)) k = total (snd st) k + pending (fst st) k"
proof -
  obtain s db where st: "st = (s, db)" by (cases st)
  have nonneg: "\<forall>r \<in> set (rows s). 0 \<le> row_hits r" using rows_nonneg assms(1) st by simp
  show ?thesis using save_kept [OF _ nonneg assms(3), of db] assms(2)
    by (auto simp: st flush_step deliver_def)
qed

text \<open>Where writes keep the key, no event of it is lost: stored plus pending is what was added.\<close>

lemma conservation:
  assumes "inv (fst st)" "ok (snd st)" "\<forall>x. Flush x \<in> set ops \<longrightarrow> kept x k"
  shows "total (snd (run ops st)) k + pending (fst (run ops st)) k
    = total (snd st) k + pending (fst st) k + added event_key k ops"
  using assms
proof (induction ops arbitrary: st)
  case (Cons p ops)
  show ?case
  proof (cases p)
    case (Add e)
    with Cons.IH [of "(add e (fst st), snd st)"] Cons.prems add_eq [of "fst st" k e] show ?thesis
      by (simp add: inv_add)
  next
    case (Flush x)
    with Cons.IH [of "flush (save x) st"] Cons.prems flush_bound [OF Cons.prems(1,2), of x k]
      flush_exact [OF Cons.prems(1,2), of x k] show ?thesis
      by (simp add: inv_flush flush_pending)
  qed
qed simp

text \<open>In particular after a final flush everything is stored.\<close>

lemma drained:
  assumes "inv (fst st)" "ok (snd st)" "\<forall>x. Flush x \<in> set ops \<longrightarrow> kept x k" "kept y k"
  shows "total (snd (flush (save y) (run ops st))) k
    = total (snd st) k + pending (fst st) k + added event_key k ops"
proof -
  have run: "run (ops @ [Flush y]) st = flush (save y) (run ops st)"
  proof (induction ops arbitrary: st)
    case (Cons p ops)
    then show ?case by (cases p) simp_all
  qed simp
  have "added event_key k (ops @ [Flush y :: ('e, 'x) buffer_op]) = added event_key k ops"
  proof (induction ops)
    case (Cons p ops)
    then show ?case by (cases p) simp_all
  qed simp
  with conservation [OF assms(1,2), of "ops @ [Flush y]" k] assms(3,4) show ?thesis
    using flush_pending [of k "save y" "run ops st"] by (simp add: run)
qed

end

end
