(* ===== verification/RuntimeState.thy ===== *)
theory RuntimeState
  imports Complex_Main Policy LocalZones Network BufferSpec
begin

text \<open>
  The in-memory snapshot of the configuration: \<open>domain/state.py\<close>. A reload reads every
  part through its loader and swaps the snapshot only when all of them succeeded. Seconds
  with a fraction are rationals.
\<close>

record UpstreamServer =
  up_address :: string
  up_port :: int
  up_protocol :: string
  up_priority :: int

record RuntimeSettings =
  cache_enabled :: bool
  cache_max_ttl :: int
  cache_min_ttl :: int
  cache_max_entries :: int
  forward_timeout :: rat
  default_action :: string
  refresh_seconds :: int
  query_flush_seconds :: int
  log_queries :: bool
  ipv6_enabled :: bool
  drop_private_ptr :: bool

definition RuntimeSettings_default :: RuntimeSettings where
  "RuntimeSettings_default =
     \<lparr>cache_enabled = True, cache_max_ttl = 3600, cache_min_ttl = 0, cache_max_entries = 10000,
      forward_timeout = 5, default_action = ''forward'', refresh_seconds = 10, query_flush_seconds = 5,
      log_queries = True, ipv6_enabled = True, drop_private_ptr = True\<rparr>"

text \<open>The loaders: each reads the database and may raise.\<close>

record 'db state_loaders =
  load_settings :: "'db \<Rightarrow> RuntimeSettings option"
  load_policies :: "'db \<Rightarrow> PolicyRule list option"
  load_upstreams_fn :: "'db \<Rightarrow> UpstreamServer list option"
  load_blocklist :: "'db \<Rightarrow> string set option"
  load_blocklist_excluded_fn :: "'db \<Rightarrow> string set option"
  load_trusted_networks_fn :: "'db \<Rightarrow> string list option"
  load_local_records_fn :: "'db \<Rightarrow> LocalRecord list option"

record RuntimeState =
  rt_settings :: RuntimeSettings
  rt_policies :: "PolicyRule list"
  rt_upstreams :: "UpstreamServer list"
  rt_blocklist :: "string set"
  rt_blocklist_excluded :: "string set"
  rt_network_filter :: NetworkFilter
  rt_local_records :: LocalRecords

definition RuntimeState_empty :: RuntimeState where
  "RuntimeState_empty =
     \<lparr>rt_settings = RuntimeSettings_default, rt_policies = [], rt_upstreams = [], rt_blocklist = {},
      rt_blocklist_excluded = {}, rt_network_filter = \<lparr>networks = []\<rparr>, rt_local_records = LocalRecords_init []\<rparr>"

definition state_reload :: "'db state_loaders \<Rightarrow> 'db \<Rightarrow> RuntimeState \<Rightarrow> RuntimeState option" where
  "state_reload loaders db self =
     Option.bind (load_settings loaders db) (\<lambda>new_settings.
     Option.bind (load_policies loaders db) (\<lambda>new_policies.
     Option.bind (load_upstreams_fn loaders db) (\<lambda>new_upstreams.
     Option.bind (load_blocklist loaders db) (\<lambda>new_blocklist.
     Option.bind (load_blocklist_excluded_fn loaders db) (\<lambda>new_blocklist_excluded.
     Option.bind (map_option from_cidrs (load_trusted_networks_fn loaders db)) (\<lambda>new_network_filter.
     Option.bind (map_option LocalRecords_init (load_local_records_fn loaders db)) (\<lambda>new_local_records.
       Some (self\<lparr>rt_settings := new_settings, rt_policies := new_policies, rt_upstreams := new_upstreams,
         rt_blocklist := new_blocklist, rt_blocklist_excluded := new_blocklist_excluded,
         rt_network_filter := new_network_filter, rt_local_records := new_local_records\<rparr>))))))))"

definition RuntimeState_init :: "'db state_loaders \<Rightarrow> 'db \<Rightarrow> RuntimeState option" where
  "RuntimeState_init loaders db = state_reload loaders db RuntimeState_empty"

text \<open>Each wait of the refresh loop ends either by the stop event or with the database as it
  is then; a reload that raises is logged and leaves the snapshot.\<close>

fun state_refresh_loop :: "'db state_loaders \<Rightarrow> 'db option list \<Rightarrow> RuntimeState \<Rightarrow> RuntimeState" where
  "state_refresh_loop loaders [] self = self"
| "state_refresh_loop loaders (None # waits) self = self"
| "state_refresh_loop loaders (Some db # waits) self =
     state_refresh_loop loaders waits (case state_reload loaders db self of None \<Rightarrow> self | Some self' \<Rightarrow> self')"

section \<open>Lemmas\<close>

text \<open>A reload replaces everything: the new snapshot does not depend on the old one.\<close>

lemma state_reload_fresh:
  "state_reload loaders db self = Some self' \<Longrightarrow> state_reload loaders db other = Some self'"
  by (auto simp: state_reload_def split: bind_splits)

text \<open>The snapshot is always one that a single database state produced: the last that could be
  loaded before the stop, or the initial one.\<close>

lemma refresh_last_good:
  "state_refresh_loop loaders waits self =
     (case rev (List.map_filter (\<lambda>w. Option.bind w (\<lambda>db. state_reload loaders db self)) (takeWhile (\<lambda>w. w \<noteq> None) waits)) of
        [] \<Rightarrow> self | s # _ \<Rightarrow> s)"
proof (induction loaders waits self rule: state_refresh_loop.induct)
  case (3 loaders db waits self)
  show ?case
  proof (cases "state_reload loaders db self")
    case None
    with 3 show ?thesis by (simp add: map_filter_simps split: list.split)
  next
    case (Some self')
    have eq: "Option.bind w (\<lambda>db. state_reload loaders db self') = Option.bind w (\<lambda>db. state_reload loaders db self)" for w
    proof (cases w)
      case (Some db)
      have "state_reload loaders db self' = state_reload loaders db self" for self self'
        using state_reload_fresh [of loaders db] by (metis option.exhaust)
      with Some show ?thesis by simp
    qed simp
    from Some 3 show ?thesis by (simp add: eq map_filter_simps split: list.split)
  qed
qed (simp_all add: map_filter_simps)

end
