(* ===== verification/TtlCache.thy ===== *)
theory TtlCache
  imports Prelude
begin

text \<open>
  The TTL cache with LRU eviction: \<open>domain/cache.py\<close>. The ordered dictionary is an
  association list, oldest entry first. Times are readings of the monotonic clock, in
  nanoseconds, passed in as the value the operation reads. The lemmas show the invariant
  (distinct keys, bounded size), what a lookup returns, the LRU guarantee, and that the cache
  refines a reference that numbers the uses of its keys.
\<close>

section \<open>State\<close>

record 'v CacheEntry =
  ce_value :: 'v
  inserted_at :: monotime
  expires_at :: monotime
  ce_ttl :: int

record 'v TTLCache =
  cache_max :: int
  cache_data :: "(string, 'v CacheEntry) dict"

section \<open>Operations\<close>

definition TTLCache_init :: "int \<Rightarrow> 'v TTLCache" where
  "TTLCache_init max_entries = \<lparr>cache_max = max 1 max_entries, cache_data = []\<rparr>"

definition move_to_end :: "string \<Rightarrow> (string, 'v) dict \<Rightarrow> (string, 'v) dict" where
  "move_to_end key d = (case map_of d key of None \<Rightarrow> d | Some v \<Rightarrow> AList.delete key d @ [(key, v)])"

definition cache_get :: "monotime \<Rightarrow> string \<Rightarrow> 'v TTLCache \<Rightarrow> 'v CacheEntry option \<times> 'v TTLCache" where
  "cache_get now key self =
     (case map_of (cache_data self) key of
        None \<Rightarrow> (None, self)
      | Some entry \<Rightarrow>
          if expires_at entry \<le> now
          then (None, self\<lparr>cache_data := AList.delete key (cache_data self)\<rparr>)
          else (Some entry, self\<lparr>cache_data := move_to_end key (cache_data self)\<rparr>))"

text \<open>\<open>while len(self._data) > self._max_entries: self._data.popitem(last=False)\<close>\<close>

fun evict :: "int \<Rightarrow> (string, 'v) dict \<Rightarrow> (string, 'v) dict" where
  "evict limit [] = []"
| "evict limit (e # es) = (if limit < int (length (e # es)) then evict limit es else e # es)"

definition cache_set :: "monotime \<Rightarrow> string \<Rightarrow> 'v \<Rightarrow> int \<Rightarrow> 'v TTLCache \<Rightarrow> 'v TTLCache" where
  "cache_set now key v ttl self =
     (let entry = \<lparr>ce_value = v, inserted_at = now, expires_at = now + ttl * nsec_per_sec, ce_ttl = ttl\<rparr>;
          data = move_to_end key (dict_set key entry (cache_data self))
      in self\<lparr>cache_data := evict (cache_max self) data\<rparr>)"

definition cache_clear :: "'v TTLCache \<Rightarrow> 'v TTLCache" where
  "cache_clear self = self\<lparr>cache_data := []\<rparr>"

fun snapshot_loop :: "monotime \<Rightarrow> (string, 'v CacheEntry) dict \<Rightarrow> (string \<times> 'v \<times> int \<times> int) list" where
  "snapshot_loop now [] = []"
| "snapshot_loop now ((key, entry) # items) =
     (let remaining = expires_at entry - now in
      if remaining \<le> 0 then snapshot_loop now items
      else (key, ce_value entry, remaining div nsec_per_sec, ce_ttl entry) # snapshot_loop now items)"

definition cache_snapshot :: "monotime \<Rightarrow> 'v TTLCache \<Rightarrow> (string \<times> 'v \<times> int \<times> int) list" where
  "cache_snapshot now self = snapshot_loop now (cache_data self)"

definition cache_len :: "'v TTLCache \<Rightarrow> nat" where
  "cache_len self = length (cache_data self)"

definition cache_capacity :: "'v TTLCache \<Rightarrow> int" where
  "cache_capacity self = cache_max self"

section \<open>Lemmas\<close>

lemma evict_drop: "0 \<le> limit \<Longrightarrow> evict limit d = drop (length d - nat limit) d"
  by (induction d) (auto simp: Suc_diff_le nat_le_iff not_less)

lemma delete_notin: "k \<notin> fst ` set d \<Longrightarrow> AList.delete k d = d"
  by (induction d) (auto simp: AList.delete_eq)

lemma delete_append [simp]: "AList.delete k (xs @ ys) = AList.delete k xs @ AList.delete k ys"
  by (simp add: AList.delete_eq)

lemma delete_dict_set [simp]: "AList.delete k (dict_set k v d) = AList.delete k d"
  by (induction d) auto

lemma move_set: "move_to_end k (dict_set k v d) = AList.delete k d @ [(k, v)]"
  by (simp add: move_to_end_def)

lemma move_present: "map_of d k = Some v \<Longrightarrow> move_to_end k d = AList.delete k d @ [(k, v)]"
  by (simp add: move_to_end_def)

lemma wf_delete_snoc: "dict_wf d \<Longrightarrow> dict_wf (AList.delete k d @ [(k, v)])"
  using dict_wf_delete [of d k] by (auto simp: dict_wf_def delete_keys)

lemma wf_drop: "dict_wf d \<Longrightarrow> dict_wf (drop n d)"
  by (simp add: dict_wf_def drop_map [symmetric])

definition cache_inv :: "'v TTLCache \<Rightarrow> bool" where
  "cache_inv c \<longleftrightarrow> 1 \<le> cache_max c \<and> dict_wf (cache_data c) \<and> int (length (cache_data c)) \<le> cache_max c
     \<and> (\<forall>(k, e) \<in> set (cache_data c). expires_at e = inserted_at e + ce_ttl e * nsec_per_sec)"

lemma set_delete: "set (AList.delete k d) \<subseteq> set d"
  by (auto simp: AList.delete_eq)

lemma cache_inv_init: "cache_inv (TTLCache_init n)"
  by (simp add: cache_inv_def TTLCache_init_def)

lemma cache_inv_clear: "cache_inv c \<Longrightarrow> cache_inv (cache_clear c)"
  by (simp add: cache_inv_def cache_clear_def)

lemma cache_data_set:
  assumes "cache_inv c"
  shows "cache_data (cache_set now k v ttl c) =
    (let d = AList.delete k (cache_data c) @ [(k, \<lparr>ce_value = v, inserted_at = now,
           expires_at = now + ttl * nsec_per_sec, ce_ttl = ttl\<rparr>)]
     in drop (length d - nat (cache_max c)) d)"
  using assms by (simp add: cache_set_def Let_def move_set evict_drop cache_inv_def)

lemma cache_inv_set: "cache_inv c \<Longrightarrow> cache_inv (cache_set now k v ttl c)"
proof -
  assume c: "cache_inv c"
  let ?d = "AList.delete k (cache_data c) @ [(k, \<lparr>ce_value = v, inserted_at = now,
      expires_at = now + ttl * nsec_per_sec, ce_ttl = ttl\<rparr>)]"
  have data: "cache_data (cache_set now k v ttl c) = drop (length ?d - nat (cache_max c)) ?d"
    using cache_data_set [OF c] by (simp add: Let_def)
  have "cache_max (cache_set now k v ttl c) = cache_max c" by (simp add: cache_set_def Let_def)
  moreover have "dict_wf ?d" using c by (intro wf_delete_snoc) (simp add: cache_inv_def)
  moreover have "\<forall>(k, e) \<in> set ?d. expires_at e = inserted_at e + ce_ttl e * nsec_per_sec"
    using c set_delete [of k "cache_data c"] by (auto simp: cache_inv_def)
  ultimately show ?thesis
    using c unfolding cache_inv_def data
    by (intro conjI ballI) (auto simp: wf_drop simp del: length_append drop_append dest!: in_set_dropD)
qed

lemma cache_get_data:
  assumes "cache_get now k c = (r, c')"
  shows "cache_max c' = cache_max c \<and> set (cache_data c') \<subseteq> set (cache_data c)"
proof (cases "map_of (cache_data c) k")
  case None
  with assms show ?thesis by (auto simp: cache_get_def)
next
  case (Some e)
  then have "(k, e) \<in> set (cache_data c)" by (rule map_of_SomeD)
  with Some assms set_delete [of k "cache_data c"] show ?thesis
    by (cases "expires_at e \<le> now") (auto simp: cache_get_def move_present)
qed

lemma cache_inv_get: "cache_inv c \<Longrightarrow> cache_get now k c = (r, c') \<Longrightarrow> cache_inv c'"
proof -
  assume c: "cache_inv c" and g: "cache_get now k c = (r, c')"
  have d: "dict_wf (cache_data c)" using c by (simp add: cache_inv_def)
  have "dict_wf (cache_data c') \<and> length (cache_data c') \<le> length (cache_data c)"
  proof (cases "map_of (cache_data c) k")
    case None
    with g d show ?thesis by (auto simp: cache_get_def)
  next
    case (Some e)
    then have "k \<in> fst ` set (cache_data c)" by (metis map_of_eq_None_iff option.distinct(1))
    from length_dict_delete [OF d this] Some g d show ?thesis
      by (auto simp: cache_get_def move_present wf_delete_snoc split: if_splits)
  qed
  with c cache_get_data [OF g] show ?thesis by (fastforce simp: cache_inv_def)
qed

lemma set_evict: "set (evict limit d) \<subseteq> set d"
  by (induction d) auto

lemma cache_set_subset:
  "set (cache_data (cache_set now k v ttl c)) \<subseteq> insert (k, \<lparr>ce_value = v, inserted_at = now,
     expires_at = now + ttl * nsec_per_sec, ce_ttl = ttl\<rparr>) (set (cache_data c))"
  using set_evict set_delete [of k "cache_data c"] by (fastforce simp: cache_set_def Let_def move_set)

section \<open>The LRU guarantee\<close>

datatype 'v cache_op = CGet monotime string | CSet monotime string 'v int

fun op_key :: "'v cache_op \<Rightarrow> string" where
  "op_key (CGet now k) = k"
| "op_key (CSet now k v ttl) = k"

fun cache_step :: "'v cache_op \<Rightarrow> 'v TTLCache \<Rightarrow> 'v TTLCache" where
  "cache_step (CGet now k) c = snd (cache_get now k c)"
| "cache_step (CSet now k v ttl) c = cache_set now k v ttl c"

abbreviation cache_run :: "'v cache_op list \<Rightarrow> 'v TTLCache \<Rightarrow> 'v TTLCache" where
  "cache_run ops c \<equiv> fold cache_step ops c"

lemma cache_inv_step: "cache_inv c \<Longrightarrow> cache_inv (cache_step p c)"
  by (cases p) (auto simp: cache_inv_set intro: cache_inv_get prod.collapse [symmetric])

lemma cache_inv_run: "cache_inv c \<Longrightarrow> cache_inv (cache_run ops c)"
  by (induction ops arbitrary: c) (auto simp: cache_inv_step)

text \<open>\<open>behind k U\<close>: the entry of \<open>k\<close> is kept and only keys of \<open>U\<close> were used after it.\<close>

definition behind :: "string \<Rightarrow> 'v CacheEntry \<Rightarrow> string set \<Rightarrow> 'v TTLCache \<Rightarrow> bool" where
  "behind k e U c \<longleftrightarrow> (\<exists>xs ys. cache_data c = xs @ (k, e) # ys \<and> fst ` set ys \<subseteq> U)"

lemma behind_get:
  assumes "cache_inv c" "behind k e U c" "j \<noteq> k"
  shows "behind k e (insert j U) (snd (cache_get now j c))"
proof -
  from assms(2) obtain xs ys where d: "cache_data c = xs @ (k, e) # ys" "fst ` set ys \<subseteq> U"
    by (auto simp: behind_def)
  have del: "AList.delete j (cache_data c) = AList.delete j xs @ (k, e) # AList.delete j ys"
    using d(1) assms(3) by simp
  have sub: "fst ` set (AList.delete j ys) \<subseteq> U" using d(2) set_delete [of j ys] by blast
  show ?thesis
  proof (cases "map_of (cache_data c) j")
    case None
    then have "snd (cache_get now j c) = c" by (simp add: cache_get_def)
    with d show ?thesis by (auto simp: behind_def)
  next
    case (Some f)
    show ?thesis
    proof (cases "expires_at f \<le> now")
      case True
      with Some del sub show ?thesis by (auto simp: cache_get_def behind_def)
    next
      case False
      with Some del have "cache_data (snd (cache_get now j c)) =
          AList.delete j xs @ (k, e) # (AList.delete j ys @ [(j, f)])"
        by (simp add: cache_get_def move_present)
      moreover have "fst ` set (AList.delete j ys @ [(j, f)]) \<subseteq> insert j U" using sub by auto
      ultimately show ?thesis unfolding behind_def by blast
    qed
  qed
qed

lemma behind_set:
  assumes c: "cache_inv c" and b: "behind k e U c" and j: "j \<noteq> k"
    and U: "finite U" "int (card (insert j U)) < cache_max c"
  shows "behind k e (insert j U) (cache_set now j v ttl c)"
proof -
  from b obtain xs ys where d: "cache_data c = xs @ (k, e) # ys" "fst ` set ys \<subseteq> U"
    by (auto simp: behind_def)
  let ?f = "\<lparr>ce_value = v, inserted_at = now, expires_at = now + ttl * nsec_per_sec, ce_ttl = ttl\<rparr>"
  let ?ys = "AList.delete j ys @ [(j, ?f)]"
  have del: "AList.delete j (cache_data c) @ [(j, ?f)] = AList.delete j xs @ (k, e) # ?ys"
    using d(1) j by simp
  have sub: "fst ` set ?ys \<subseteq> insert j U" using d(2) set_delete [of j ys] by auto
  have "dict_wf (AList.delete j xs @ (k, e) # ?ys)"
    using c wf_delete_snoc [of "cache_data c" j] by (simp add: cache_inv_def del [symmetric])
  then have "distinct (map fst ?ys)" by (simp add: dict_wf_def)
  then have "length ?ys = card (fst ` set ?ys)" by (metis distinct_card length_map list.set_map)
  also have "\<dots> \<le> card (insert j U)" using sub U(1) by (intro card_mono) auto
  finally have len: "Suc (length ?ys) \<le> nat (cache_max c)" using U(2) by simp
  let ?n = "length (AList.delete j xs @ (k, e) # ?ys) - nat (cache_max c)"
  have "?n \<le> length (AList.delete j xs)" using len by simp
  then have "drop ?n (AList.delete j xs @ (k, e) # ?ys) = drop ?n (AList.delete j xs) @ (k, e) # ?ys"
    by (simp del: length_append length_Cons)
  then have "cache_data (cache_set now j v ttl c) = drop ?n (AList.delete j xs) @ (k, e) # ?ys"
    using cache_data_set [OF c, of now j v ttl] by (simp only: Let_def del)
  with sub show ?thesis unfolding behind_def by blast
qed

lemma behind_own_get:
  assumes "behind k e U c" "now < expires_at e" "cache_inv c"
  shows "behind k e {} (snd (cache_get now k c))"
proof -
  from assms(1) obtain xs ys where d: "cache_data c = xs @ (k, e) # ys" by (auto simp: behind_def)
  with assms(3) have "k \<notin> fst ` set xs" by (auto simp: cache_inv_def dict_wf_def)
  then have "map_of (cache_data c) k = Some e" using d by (simp add: map_add_def map_of_eq_None_iff [THEN iffD2])
  with assms(2) show ?thesis by (auto simp: cache_get_def move_present behind_def)
qed

text \<open>Between two uses of the key fewer distinct other keys than the capacity are used, and the key is not set again.\<close>

fun kept_recent :: "int \<Rightarrow> string \<Rightarrow> string set \<Rightarrow> 'v cache_op list \<Rightarrow> bool" where
  "kept_recent limit k U [] = True"
| "kept_recent limit k U (CGet now j # ops) =
     (if j = k then kept_recent limit k {} ops
      else int (card (insert j U)) < limit \<and> kept_recent limit k (insert j U) ops)"
| "kept_recent limit k U (CSet now j v ttl # ops) =
     (j \<noteq> k \<and> int (card (insert j U)) < limit \<and> kept_recent limit k (insert j U) ops)"

definition read_before :: "monotime \<Rightarrow> string \<Rightarrow> 'v cache_op list \<Rightarrow> bool" where
  "read_before deadline k ops \<longleftrightarrow> list_all (\<lambda>p. case p of CGet now j \<Rightarrow> j = k \<longrightarrow> now < deadline | CSet now j v ttl \<Rightarrow> True) ops"

lemma read_before_simps [simp]:
  "read_before deadline k []"
  "read_before deadline k (CGet now j # ops) \<longleftrightarrow> (j = k \<longrightarrow> now < deadline) \<and> read_before deadline k ops"
  "read_before deadline k (CSet now j v ttl # ops) \<longleftrightarrow> read_before deadline k ops"
  by (simp_all add: read_before_def)

lemma cache_max_ops [simp]: "cache_max (snd (cache_get now k c)) = cache_max c" "cache_max (cache_set now k v ttl c) = cache_max c"
  using cache_get_data [OF prod.collapse [symmetric]] by (auto simp: cache_set_def Let_def)

lemma cache_max_step [simp]: "cache_max (cache_step p c) = cache_max c"
  by (cases p) simp_all

lemma behind_recent:
  assumes "cache_inv c" "behind k e U c" "finite U" "kept_recent (cache_max c) k U ops" "read_before (expires_at e) k ops"
  shows "\<exists>U'. behind k e U' (cache_run ops c)"
  using assms
proof (induction ops arbitrary: c U)
  case (Cons p ops)
  have inv: "cache_inv (cache_step p c)" using Cons.prems(1) by (rule cache_inv_step)
  show ?case
  proof (cases "op_key p = k")
    case True
    with Cons.prems(4) obtain now where p: "p = CGet now k" by (cases p) auto
    then have "behind k e {} (cache_step p c)" using Cons.prems by (simp add: behind_own_get)
    from Cons.IH [OF inv this] Cons.prems p show ?thesis by simp
  next
    case False
    then have "behind k e (insert (op_key p) U) (cache_step p c)" "finite (insert (op_key p) U)"
      using Cons.prems by (cases p; auto intro: behind_get behind_set)+
    from Cons.IH [OF inv this] Cons.prems False show ?thesis by (cases p) simp_all
  qed
qed auto

text \<open>A key that is not there and not set does not appear; a lookup after the deadline takes it away.\<close>

lemma absent_step: "k \<notin> fst ` set (cache_data c) \<Longrightarrow> (\<forall>now v ttl. p \<noteq> CSet now k v ttl) \<Longrightarrow> k \<notin> fst ` set (cache_data (cache_step p c))"
proof (cases p)
  case (CGet now j)
  assume "k \<notin> fst ` set (cache_data c)"
  moreover have "set (cache_data (cache_step p c)) \<subseteq> set (cache_data c)"
    using cache_get_data [OF prod.collapse [symmetric]] CGet by auto
  ultimately show ?thesis by blast
next
  case (CSet now j v ttl)
  assume k: "k \<notin> fst ` set (cache_data c)" and "\<forall>now v ttl. p \<noteq> CSet now k v ttl"
  with CSet have "j \<noteq> k" by auto
  with k cache_set_subset [of now j v ttl c] CSet show ?thesis by force
qed

lemma absent_run: "k \<notin> fst ` set (cache_data c) \<Longrightarrow> kept_recent limit k U ops \<Longrightarrow> k \<notin> fst ` set (cache_data (cache_run ops c))"
proof (induction ops arbitrary: c U)
  case (Cons p ops)
  from Cons.prems(2) have "\<forall>now v ttl. p \<noteq> CSet now k v ttl" by auto
  from absent_step [OF Cons.prems(1) this] Cons.IH Cons.prems(2) show ?case by (cases p) (auto split: if_splits)
qed simp

lemma late_read_absent:
  assumes "cache_inv c" "behind k e U c" "finite U" "kept_recent (cache_max c) k U ops" "\<not> read_before (expires_at e) k ops"
  shows "k \<notin> fst ` set (cache_data (cache_run ops c))"
  using assms
proof (induction ops arbitrary: c U)
  case (Cons p ops)
  have inv: "cache_inv (cache_step p c)" using Cons.prems(1) by (rule cache_inv_step)
  show ?case
  proof (cases "op_key p = k")
    case True
    with Cons.prems(4) obtain now where p: "p = CGet now k" by (cases p) auto
    show ?thesis
    proof (cases "now < expires_at e")
      case True
      then have "behind k e {} (cache_step p c)" using Cons.prems p by (simp add: behind_own_get)
      from Cons.IH [OF inv this] Cons.prems p True show ?thesis by simp
    next
      case False
      from Cons.prems(2) obtain xs ys where d: "cache_data c = xs @ (k, e) # ys" by (auto simp: behind_def)
      with Cons.prems(1) have "k \<notin> fst ` set xs" by (auto simp: cache_inv_def dict_wf_def)
      then have "map_of (cache_data c) k = Some e" using d by (simp add: map_add_def map_of_eq_None_iff [THEN iffD2])
      with False p have "k \<notin> fst ` set (cache_data (cache_step p c))" by (auto simp: cache_get_def AList.delete_eq)
      with Cons.prems(4) p show ?thesis by (auto dest: absent_run)
    qed
  next
    case False
    then have "behind k e (insert (op_key p) U) (cache_step p c)" "finite (insert (op_key p) U)"
      using Cons.prems by (cases p; auto intro: behind_get behind_set)+
    from Cons.IH [OF inv this] Cons.prems False show ?thesis by (cases p) simp_all
  qed
qed simp

lemma behind_lookup: "cache_inv c \<Longrightarrow> behind k e U c \<Longrightarrow> map_of (cache_data c) k = Some e"
  by (auto simp: behind_def cache_inv_def dict_wf_def map_of_eq_None_iff [symmetric] map_add_def
    image_iff split: option.split)

lemma behind_cache_set:
  assumes "cache_inv c"
  shows "behind k \<lparr>ce_value = v, inserted_at = now, expires_at = now + ttl * nsec_per_sec, ce_ttl = ttl\<rparr> {}
    (cache_set now k v ttl c)"
proof -
  have "length (AList.delete k (cache_data c) @ [(k, e)]) - nat (cache_max c) \<le> length (AList.delete k (cache_data c))" for e
    using assms by (auto simp: cache_inv_def)
  then show ?thesis
    using cache_data_set [OF assms, of now k v ttl] by (auto simp: behind_def Let_def)
qed

lemma snapshot_filter:
  "snapshot_loop now d = map (\<lambda>(k, e). (k, ce_value e, (expires_at e - now) div nsec_per_sec, ce_ttl e))
     (filter (\<lambda>(k, e). now < expires_at e) d)"
  by (induction d) (auto simp: Let_def)

lemma get_fst: "fst (cache_get now k c) =
   (case map_of (cache_data c) k of None \<Rightarrow> None | Some e \<Rightarrow> if now < expires_at e then Some e else None)"
  by (auto simp: cache_get_def split: option.split)

section \<open>A reference\<close>

text \<open>Entries without an order, each key with the number of its last use.\<close>

record 'v lru =
  lru_entries :: "string \<rightharpoonup> 'v CacheEntry"
  lru_used :: "string \<Rightarrow> nat"
  lru_uses :: nat

definition lru_init :: "'v lru" where
  "lru_init = \<lparr>lru_entries = (\<lambda>k. None), lru_used = (\<lambda>k. 0), lru_uses = 0\<rparr>"

definition lru_use :: "string \<Rightarrow> 'v lru \<Rightarrow> 'v lru" where
  "lru_use k s = s\<lparr>lru_used := (lru_used s)(k := lru_uses s), lru_uses := Suc (lru_uses s)\<rparr>"

definition lru_drop :: "int \<Rightarrow> 'v lru \<Rightarrow> 'v lru" where
  "lru_drop limit s =
     (if limit < int (card (dom (lru_entries s)))
      then s\<lparr>lru_entries := (lru_entries s)(arg_min_on (lru_used s) (dom (lru_entries s)) := None)\<rparr> else s)"

fun lru_step :: "int \<Rightarrow> 'v cache_op \<Rightarrow> 'v lru \<Rightarrow> 'v CacheEntry option list \<times> 'v lru" where
  "lru_step limit (CGet now k) s =
     (case lru_entries s k of
        None \<Rightarrow> ([None], s)
      | Some e \<Rightarrow> if expires_at e \<le> now then ([None], s\<lparr>lru_entries := (lru_entries s)(k := None)\<rparr>) else ([Some e], lru_use k s))"
| "lru_step limit (CSet now k v ttl) s =
     ([], lru_drop limit (lru_use k (s\<lparr>lru_entries := (lru_entries s)(k \<mapsto>
        \<lparr>ce_value = v, inserted_at = now, expires_at = now + ttl * nsec_per_sec, ce_ttl = ttl\<rparr>)\<rparr>)))"

fun lru_results :: "int \<Rightarrow> 'v cache_op list \<Rightarrow> 'v lru \<Rightarrow> 'v CacheEntry option list" where
  "lru_results limit [] s = []"
| "lru_results limit (p # ops) s = (case lru_step limit p s of (r, s') \<Rightarrow> r @ lru_results limit ops s')"

fun cache_results :: "'v cache_op list \<Rightarrow> 'v TTLCache \<Rightarrow> 'v CacheEntry option list" where
  "cache_results [] c = []"
| "cache_results (CGet now k # ops) c = fst (cache_get now k c) # cache_results ops (cache_step (CGet now k) c)"
| "cache_results (CSet now k v ttl # ops) c = cache_results ops (cache_step (CSet now k v ttl) c)"

text \<open>The order of the dictionary is the order of the last uses.\<close>

definition lru_rel :: "'v TTLCache \<Rightarrow> 'v lru \<Rightarrow> bool" where
  "lru_rel c s \<longleftrightarrow> lru_entries s = map_of (cache_data c) \<and> dict_wf (cache_data c)
     \<and> int (length (cache_data c)) \<le> cache_max c \<and> 1 \<le> cache_max c
     \<and> sorted_wrt (\<lambda>a b. lru_used s (fst a) < lru_used s (fst b)) (cache_data c)
     \<and> (\<forall>k \<in> fst ` set (cache_data c). lru_used s k < lru_uses s)"

lemma sorted_delete: "sorted_wrt P d \<Longrightarrow> sorted_wrt P (AList.delete k d)"
  by (simp add: AList.delete_eq sorted_wrt_filter)

text \<open>Moving a key to the end of the dictionary is a use of it.\<close>

lemma used_last:
  assumes "sorted_wrt (\<lambda>a b. lru_used s (fst a) < lru_used s (fst b)) d" "\<forall>k \<in> fst ` set d. lru_used s k < lru_uses s"
  shows "sorted_wrt (\<lambda>a b. lru_used (lru_use k s) (fst a) < lru_used (lru_use k s) (fst b)) (AList.delete k d @ [(k, e)])"
    "\<forall>j \<in> fst ` set (AList.delete k d @ [(k, e)]). lru_used (lru_use k s) j < lru_uses (lru_use k s)"
proof -
  have k: "\<forall>x \<in> set (AList.delete k d). fst x \<noteq> k \<and> lru_used s (fst x) < lru_uses s"
    using assms(2) set_delete [of k d] by (auto simp: AList.delete_eq)
  have "sorted_wrt (\<lambda>a b. lru_used (lru_use k s) (fst a) < lru_used (lru_use k s) (fst b)) (AList.delete k d)"
    using sorted_wrt_mono_rel [OF _ sorted_delete [OF assms(1), of k], of "\<lambda>a b. lru_used (lru_use k s) (fst a) < lru_used (lru_use k s) (fst b)"] k
    by (simp add: lru_use_def)
  with k show "sorted_wrt (\<lambda>a b. lru_used (lru_use k s) (fst a) < lru_used (lru_use k s) (fst b)) (AList.delete k d @ [(k, e)])"
    by (simp add: sorted_wrt_append) (simp add: lru_use_def)
  from k show "\<forall>j \<in> fst ` set (AList.delete k d @ [(k, e)]). lru_used (lru_use k s) j < lru_uses (lru_use k s)"
    by (auto simp: lru_use_def less_Suc_eq)
qed

lemma least_used_first:
  fixes f :: "string \<Rightarrow> nat"
  assumes "sorted_wrt (\<lambda>a b. f (fst a) < f (fst b)) ((k, e) # d)" "dict_wf ((k, e) # d)"
  shows "arg_min_on f (dom (map_of ((k, e) # d))) = k"
proof -
  let ?D = "dom (map_of ((k, e) # d))"
  have dom: "?D = insert k (fst ` set d)" by (auto simp: dom_map_of_conv_image_fst)
  have "arg_min_on f ?D \<in> ?D" by (rule arg_min_if_finite(1)) (simp_all add: finite_dom_map_of)
  moreover have "\<not> f k < f (arg_min_on f ?D)" using arg_min_if_finite(2) [of ?D f] by (simp add: finite_dom_map_of dom)
  ultimately have "arg_min_on f ?D \<in> insert k (fst ` set d)" "\<forall>j \<in> fst ` set d. j \<noteq> arg_min_on f ?D"
    using assms(1) unfolding dom by auto
  then show ?thesis by blast
qed

lemma lru_rel_drop:
  assumes d: "dict_wf d" "int (length d) \<le> limit + 1" "1 \<le> limit" "lru_entries s = map_of d"
    and used: "sorted_wrt (\<lambda>a b. lru_used s (fst a) < lru_used s (fst b)) d" "\<forall>k \<in> fst ` set d. lru_used s k < lru_uses s"
  shows "lru_rel \<lparr>cache_max = limit, cache_data = drop (length d - nat limit) d\<rparr> (lru_drop limit s)"
proof -
  have card: "card (dom (lru_entries s)) = length d"
    using d(1) unfolding d(4) dom_map_of_conv_image_fst dict_wf_def by (metis distinct_card length_map list.set_map)
  show ?thesis
  proof (cases "limit < int (length d)")
    case True
    then obtain k e r where r: "d = (k, e) # r" using d(3) by (cases d) auto
    with True d(2) have "length d - nat limit = 1" by (simp add: nat_eq_iff2)
    moreover have "map_of r = (map_of d)(k := None)"
      using d(1) unfolding r by (auto simp: dict_wf_def fun_eq_iff map_of_eq_None_iff)
    moreover have "arg_min_on (lru_used s) (dom (lru_entries s)) = k"
      using used(1) d(1) unfolding d(4) r by (rule least_used_first)
    moreover have "lru_drop limit s = s\<lparr>lru_entries := (lru_entries s)(arg_min_on (lru_used s) (dom (lru_entries s)) := None)\<rparr>"
      unfolding lru_drop_def card using True by simp
    ultimately show ?thesis
      using True d used by (simp add: lru_rel_def r dict_wf_def)
  next
    case False
    then have "length d - nat limit = 0" "lru_drop limit s = s" unfolding lru_drop_def card by simp_all
    with False d used show ?thesis by (simp add: lru_rel_def)
  qed
qed

lemma lru_rel_set:
  assumes "lru_rel c s"
  shows "lru_rel (cache_set now k v ttl c) (snd (lru_step (cache_max c) (CSet now k v ttl) s))"
proof -
  let ?e = "\<lparr>ce_value = v, inserted_at = now, expires_at = now + ttl * nsec_per_sec, ce_ttl = ttl\<rparr>"
  let ?d = "AList.delete k (cache_data c) @ [(k, ?e)]" and ?s = "lru_use k (s\<lparr>lru_entries := (lru_entries s)(k \<mapsto> ?e)\<rparr>)"
  have c: "dict_wf (cache_data c)" "int (length (cache_data c)) \<le> cache_max c" "1 \<le> cache_max c" "lru_entries s = map_of (cache_data c)"
    using assms by (simp_all add: lru_rel_def)
  have "length (AList.delete k (cache_data c)) \<le> length (cache_data c)" by (simp add: AList.delete_eq)
  then have len: "int (length ?d) \<le> cache_max c + 1" using c(2) by simp
  have "map_of ?d = (map_of (cache_data c))(k \<mapsto> ?e)" by (auto simp: map_add_def delete_conv' fun_eq_iff split: option.split)
  then have entries: "lru_entries ?s = map_of ?d" using c(4) by (simp add: lru_use_def)
  have used: "sorted_wrt (\<lambda>a b. lru_used ?s (fst a) < lru_used ?s (fst b)) ?d" "\<forall>j \<in> fst ` set ?d. lru_used ?s j < lru_uses ?s"
    using used_last [of "s\<lparr>lru_entries := (lru_entries s)(k \<mapsto> ?e)\<rparr>" "cache_data c" k ?e] assms by (simp_all add: lru_rel_def)
  have "cache_set now k v ttl c = \<lparr>cache_max = cache_max c, cache_data = drop (length ?d - nat (cache_max c)) ?d\<rparr>"
    using c(3) by (simp add: cache_set_def Let_def move_set evict_drop)
  then show ?thesis using lru_rel_drop [OF wf_delete_snoc [OF c(1)] len c(3) entries used] by simp
qed

lemma lru_rel_get:
  assumes "lru_rel c s"
  shows "lru_rel (snd (cache_get now k c)) (snd (lru_step (cache_max c) (CGet now k) s))
    \<and> fst (lru_step (cache_max c) (CGet now k) s) = [fst (cache_get now k c)]"
proof (cases "map_of (cache_data c) k")
  case None
  with assms show ?thesis by (simp add: lru_rel_def cache_get_def)
next
  case (Some e)
  have c: "dict_wf (cache_data c)" "int (length (cache_data c)) \<le> cache_max c" "lru_entries s = map_of (cache_data c)"
    using assms by (simp_all add: lru_rel_def)
  have len: "length (AList.delete k (cache_data c)) < length (cache_data c)"
    using length_dict_delete [OF c(1), of k] map_of_SomeD [OF Some] by force
  show ?thesis
  proof (cases "expires_at e \<le> now")
    case True
    have "(map_of (cache_data c))(k := None) = map_of (AList.delete k (cache_data c))" by (simp add: fun_eq_iff delete_conv')
    moreover have "set (AList.delete k (cache_data c)) \<subseteq> set (cache_data c)" by (rule set_delete)
    ultimately show ?thesis
      using True Some assms len by (auto simp: lru_rel_def cache_get_def sorted_delete dict_wf_delete)
  next
    case False
    have "map_of (AList.delete k (cache_data c) @ [(k, e)]) = map_of (cache_data c)"
      using Some by (auto simp: map_add_def delete_conv' fun_eq_iff split: option.split)
    with Some False assms len c used_last [of s "cache_data c" k e] show ?thesis
      by (simp add: lru_rel_def cache_get_def move_present wf_delete_snoc) (simp add: lru_use_def)
  qed
qed

lemma cache_results_lru: "lru_rel c s \<Longrightarrow> cache_max c = limit \<Longrightarrow> cache_results ops c = lru_results limit ops s"
proof (induction ops arbitrary: c s)
  case (Cons p ops)
  show ?case
  proof (cases p)
    case (CGet now k)
    obtain r s' where step: "lru_step limit p s = (r, s')" by fastforce
    from Cons.IH [of "cache_step p c" s'] Cons.prems lru_rel_get [OF Cons.prems(1), of now k] step
    show ?thesis unfolding CGet by (simp del: lru_step.simps)
  next
    case (CSet now k v ttl)
    with Cons.IH [of "cache_step p c" "snd (lru_step limit p s)"] Cons.prems lru_rel_set [OF Cons.prems(1), of now k v ttl]
    show ?thesis using cache_max_step [of p c] by (simp split: prod.split)
  qed
qed simp

section \<open>Properties\<close>

text \<open>C16: a new cache satisfies the invariant (distinct keys, at most the capacity, a deadline of
  insertion time plus TTL for every entry) and every operation keeps it.\<close>

theorem cache_invariant:
  "cache_inv (TTLCache_init n :: 'v TTLCache)
   \<and> (cache_inv (c :: 'v TTLCache) \<longrightarrow> cache_inv (cache_set now k v ttl c) \<and> cache_inv (snd (cache_get now k c)) \<and> cache_inv (cache_clear c))"
  by (simp add: cache_inv_init cache_inv_set cache_inv_clear cache_inv_get [OF _ prod.collapse [symmetric]])

theorem cache_invariant_witness:
  "cache_inv (snd (cache_get 5 ''a'' (cache_set 0 ''a'' (7 :: nat) 1 (TTLCache_init 0))))"
proof -
  have "cache_inv (cache_set 0 ''a'' (7 :: nat) 1 (TTLCache_init 0))"
    using cache_invariant [of 0 "TTLCache_init 0" 0 "''a''" "7 :: nat" 1] by simp
  then show ?thesis
    using cache_invariant [of 0 "cache_set 0 ''a'' (7 :: nat) 1 (TTLCache_init 0)" 5 "''a''"] by simp
qed

text \<open>C15: An entry that was set is returned by every lookup before its deadline, and by none from the deadline on, as
  long as it stays in use: between two uses of the key fewer distinct other keys than the capacity are looked up or
  set. A lookup of the key counts as a use, so an entry that is read often enough is never evicted, however many
  keys come and go. (The condition holds of every beginning of the operations, so each lookup on the way is covered.)\<close>

theorem cache_lru_guarantee:
  assumes "cache_inv c" "kept_recent (cache_max c) k {} ops"
  shows "fst (cache_get now k (cache_run ops (cache_set t0 k v ttl c))) =
    (if now < t0 + ttl * nsec_per_sec \<and> read_before (t0 + ttl * nsec_per_sec) k ops
     then Some \<lparr>ce_value = v, inserted_at = t0, expires_at = t0 + ttl * nsec_per_sec, ce_ttl = ttl\<rparr>
     else None)"
proof -
  let ?c = "cache_set t0 k v ttl c" and ?d = "t0 + ttl * nsec_per_sec"
  let ?e = "\<lparr>ce_value = v, inserted_at = t0, expires_at = ?d, ce_ttl = ttl\<rparr>"
  have inv: "cache_inv ?c" "behind k ?e {} ?c" using assms(1) by (simp_all add: cache_inv_set behind_cache_set)
  have recent: "kept_recent (cache_max ?c) k {} ops" using assms(2) by (simp add: cache_set_def Let_def)
  show ?thesis
  proof (cases "read_before ?d k ops")
    case True
    then obtain U where "behind k ?e U (cache_run ops ?c)" using behind_recent [OF inv _ recent] by auto
    from behind_lookup [OF cache_inv_run [OF inv(1)] this] True show ?thesis by (simp add: get_fst)
  next
    case False
    then have "k \<notin> fst ` set (cache_data (cache_run ops ?c))" using late_read_absent [OF inv _ recent] by simp
    with False show ?thesis by (simp add: get_fst map_of_eq_None_iff [THEN iffD2])
  qed
qed

theorem cache_lru_guarantee_witness:
  "fst (cache_get 9 ''a'' (cache_run [CSet 3 ''b'' 8 60, CGet 4 ''a'', CSet 5 ''x'' 9 60, CGet 6 ''a'', CSet 7 ''y'' 9 60]
      (cache_set 2 ''a'' (7 :: nat) 60 (TTLCache_init 2))))
   = Some \<lparr>ce_value = 7, inserted_at = 2, expires_at = 60000000002, ce_ttl = 60\<rparr>"
  using cache_lru_guarantee [OF cache_inv_init [of 2],
      of "''a''" "[CSet 3 ''b'' 8 60, CGet 4 ''a'', CSet 5 ''x'' 9 60, CGet 6 ''a'', CSet 7 ''y'' 9 60]" 9 2 "7 :: nat" 60]
  by (simp add: TTLCache_init_def)

text \<open>C14: The cache is a least-recently-used cache. It answers every sequence of operations as the reference does that
  numbers the uses of its keys and, when a new entry exceeds the capacity, drops the key whose last use is oldest.\<close>

theorem cache_refines_lru:
  "cache_results ops (TTLCache_init n) = lru_results (max 1 n) ops lru_init"
  by (rule cache_results_lru) (simp_all add: TTLCache_init_def lru_rel_def lru_init_def dict_wf_def)

text \<open>A snapshot lists each live key once, with the value a lookup at that moment returns and
  the whole seconds that remain, which lie between 0 and its TTL unless the clock ran
  backwards.\<close>

theorem cache_snapshot_live:
  assumes "cache_inv c" "\<forall>(k, e) \<in> set (cache_data c). inserted_at e \<le> now"
  shows "distinct (map fst (cache_snapshot now c)) \<and>
    (\<forall>k v rem ttl. (k, v, rem, ttl) \<in> set (cache_snapshot now c) \<longleftrightarrow>
       (\<exists>e. fst (cache_get now k c) = Some e \<and> v = ce_value e \<and> ttl = ce_ttl e
          \<and> rem = (expires_at e - now) div nsec_per_sec \<and> 0 \<le> rem \<and> rem \<le> ttl))"
proof -
  have d: "distinct (map fst (cache_data c))" using assms(1) by (simp add: cache_inv_def dict_wf_def)
  have "map fst (cache_snapshot now c) = map fst (filter (\<lambda>(k, e). now < expires_at e) (cache_data c))"
    by (simp add: cache_snapshot_def snapshot_filter comp_def case_prod_beta)
  then have "distinct (map fst (cache_snapshot now c))" using d by (simp add: distinct_map_filter)
  moreover have "(k, v, rem, ttl) \<in> set (cache_snapshot now c) \<longleftrightarrow>
       (\<exists>e. (k, e) \<in> set (cache_data c) \<and> now < expires_at e \<and> v = ce_value e \<and> ttl = ce_ttl e
          \<and> rem = (expires_at e - now) div nsec_per_sec)" for k v rem ttl
    by (auto simp: cache_snapshot_def snapshot_filter image_iff)
  moreover have "(k, e) \<in> set (cache_data c) \<longleftrightarrow> map_of (cache_data c) k = Some e" for k e
    using d by simp
  moreover have "0 \<le> (expires_at e - now) div nsec_per_sec \<and> (expires_at e - now) div nsec_per_sec \<le> ce_ttl e"
    if "(k, e) \<in> set (cache_data c)" "now < expires_at e" for k e
  proof -
    have "expires_at e = inserted_at e + ce_ttl e * nsec_per_sec" "inserted_at e \<le> now"
      using assms that(1) by (auto simp: cache_inv_def)
    then have "expires_at e - now \<le> ce_ttl e * nsec_per_sec" by simp
    then have "(expires_at e - now) div nsec_per_sec \<le> ce_ttl e * nsec_per_sec div nsec_per_sec"
      by (rule zdiv_mono1) simp
    with that(2) show ?thesis by (simp add: pos_imp_zdiv_nonneg_iff)
  qed
  ultimately show ?thesis by (fastforce simp: get_fst split: option.splits if_splits)
qed

theorem cache_snapshot_live_witness:
  "(''a'', 7 :: nat, 59, 60) \<in> set (cache_snapshot 500000000 (cache_set 0 ''a'' 7 60 (TTLCache_init 3)))"
proof -
  let ?c = "cache_set 0 ''a'' (7 :: nat) 60 (TTLCache_init 3)"
  have c: "cache_inv ?c" by (intro cache_inv_set cache_inv_init)
  have "\<forall>(k, e) \<in> set (cache_data ?c). inserted_at e \<le> 500000000"
    by (simp add: cache_set_def TTLCache_init_def move_to_end_def AList.delete_eq)
  from cache_snapshot_live [OF c this] show ?thesis
    by (simp add: cache_set_def TTLCache_init_def move_to_end_def AList.delete_eq get_fst)
qed

end
