(* ===== verification/Buffers.thy ===== *)
theory Buffers
  imports BufferSpec
begin

text \<open>
  The aggregating buffers of the DNS server: \<open>domain/clientrequests.py\<close>,
  \<open>domain/cacheoutcome.py\<close>, \<open>domain/foreignclients.py\<close>, \<open>domain/uncacheable.py\<close> and
  \<open>domain/querybuffer.py\<close>, and the event buffer \<open>domain/queryevents.py\<close>. Each class is a
  record with its constructor, \<open>add\<close>, \<open>flush\<close>, timer loop and \<open>stop\<close>; the event an \<open>add\<close>
  takes includes the clock reading it makes. A flush takes the callback and the state the
  callback writes to. Each class interprets the locales of \<open>BufferSpec\<close>.
\<close>

section \<open>Client requests\<close>

record ClientRequestAgg =
  cra_client :: string
  cra_domain :: string
  cra_qtype :: string
  cra_hits :: int

record ClientRequestBuffer =
  crb_flush_seconds :: int
  crb_data :: "(string \<times> string \<times> string, int) dict"
  crb_stop :: bool

definition ClientRequestBuffer_init :: "int \<Rightarrow> ClientRequestBuffer" where
  "ClientRequestBuffer_init flush_seconds =
     \<lparr>crb_flush_seconds = max 1 flush_seconds, crb_data = [], crb_stop = False\<rparr>"

definition cr_add :: "string \<times> string \<times> string \<Rightarrow> ClientRequestBuffer \<Rightarrow> ClientRequestBuffer" where
  "cr_add key self = self\<lparr>crb_data := dict_set key (dict_get (crb_data self) key 0 + 1) (crb_data self)\<rparr>"

definition cr_rows :: "ClientRequestBuffer \<Rightarrow> ClientRequestAgg list" where
  "cr_rows self = map (\<lambda>((client, domain, qtype), hits).
     \<lparr>cra_client = client, cra_domain = domain, cra_qtype = qtype, cra_hits = hits\<rparr>) (crb_data self)"

definition cr_flush :: "(ClientRequestAgg list \<Rightarrow> 'db \<Rightarrow> 'db option)
    \<Rightarrow> ClientRequestBuffer \<times> 'db \<Rightarrow> ClientRequestBuffer \<times> 'db" where
  "cr_flush flush_fn st = (case st of (self, db) \<Rightarrow>
     if crb_data self = [] then (self, db)
     else (self\<lparr>crb_data := []\<rparr>, deliver flush_fn (cr_rows self) db))"

definition cr_loop where
  "cr_loop flush_fn waits st = timer_loop (cr_flush flush_fn) waits st"

definition cr_stop_buffer where
  "cr_stop_buffer flush_fn st = cr_flush flush_fn (fst st\<lparr>crb_stop := True\<rparr>, snd st)"

section \<open>Cache outcomes\<close>

definition OUTCOME_CACHED :: string where "OUTCOME_CACHED = ''cached''"
definition OUTCOME_NXDOMAIN :: string where "OUTCOME_NXDOMAIN = ''nxdomain''"
definition OUTCOME_ERROR :: string where "OUTCOME_ERROR = ''error''"
definition OUTCOME_NODATA :: string where "OUTCOME_NODATA = ''nodata''"
definition OUTCOME_ZERO_TTL :: string where "OUTCOME_ZERO_TTL = ''zero-ttl''"
definition OUTCOME_UPSTREAM_FAILURE :: string where "OUTCOME_UPSTREAM_FAILURE = ''upstream-failure''"

definition CACHE_OUTCOME_REASONS :: "string list" where
  "CACHE_OUTCOME_REASONS = [OUTCOME_CACHED, OUTCOME_NXDOMAIN, OUTCOME_ERROR, OUTCOME_NODATA,
     OUTCOME_ZERO_TTL, OUTCOME_UPSTREAM_FAILURE]"

lemmas outcome_defs = OUTCOME_CACHED_def OUTCOME_NXDOMAIN_def OUTCOME_ERROR_def OUTCOME_NODATA_def
  OUTCOME_ZERO_TTL_def OUTCOME_UPSTREAM_FAILURE_def

record CacheOutcomeAgg =
  coa_hour_start :: datetime
  coa_reason :: string
  coa_hits :: int

record CacheOutcomeBuffer =
  cob_flush_seconds :: int
  cob_data :: "(datetime \<times> string, int) dict"
  cob_stop :: bool

definition CacheOutcomeBuffer_init :: "int \<Rightarrow> CacheOutcomeBuffer" where
  "CacheOutcomeBuffer_init flush_seconds =
     \<lparr>cob_flush_seconds = max 1 flush_seconds, cob_data = [], cob_stop = False\<rparr>"

definition co_add :: "datetime \<times> string \<Rightarrow> CacheOutcomeBuffer \<Rightarrow> CacheOutcomeBuffer" where
  "co_add event self = (case event of (now, reason) \<Rightarrow>
     let key = (floor_hour now, reason)
     in self\<lparr>cob_data := dict_set key (dict_get (cob_data self) key 0 + 1) (cob_data self)\<rparr>)"

definition co_rows :: "CacheOutcomeBuffer \<Rightarrow> CacheOutcomeAgg list" where
  "co_rows self = map (\<lambda>((hour, reason), hits).
     \<lparr>coa_hour_start = hour, coa_reason = reason, coa_hits = hits\<rparr>) (cob_data self)"

definition co_flush :: "(CacheOutcomeAgg list \<Rightarrow> 'db \<Rightarrow> 'db option)
    \<Rightarrow> CacheOutcomeBuffer \<times> 'db \<Rightarrow> CacheOutcomeBuffer \<times> 'db" where
  "co_flush flush_fn st = (case st of (self, db) \<Rightarrow>
     if cob_data self = [] then (self, db)
     else (self\<lparr>cob_data := []\<rparr>, deliver flush_fn (co_rows self) db))"

definition co_loop where
  "co_loop flush_fn waits st = timer_loop (co_flush flush_fn) waits st"

definition co_stop_buffer where
  "co_stop_buffer flush_fn st = co_flush flush_fn (fst st\<lparr>cob_stop := True\<rparr>, snd st)"

section \<open>Foreign clients\<close>

definition DEFAULT_MAX_CLIENTS :: int where "DEFAULT_MAX_CLIENTS = 1024"

record ForeignClientAgg =
  fca_ip :: string
  fca_hits :: int

record ForeignClientBuffer =
  fcb_flush_seconds :: int
  fcb_max_clients :: int
  fcb_data :: "(string, int) dict"
  fcb_stop :: bool

definition ForeignClientBuffer_init :: "int \<Rightarrow> int \<Rightarrow> ForeignClientBuffer" where
  "ForeignClientBuffer_init flush_seconds max_clients =
     \<lparr>fcb_flush_seconds = max 1 flush_seconds, fcb_max_clients = max 1 max_clients, fcb_data = [], fcb_stop = False\<rparr>"

definition fc_add :: "string \<Rightarrow> ForeignClientBuffer \<Rightarrow> ForeignClientBuffer" where
  "fc_add ip self =
     (case map_of (fcb_data self) ip of
        Some hits \<Rightarrow> self\<lparr>fcb_data := dict_set ip (hits + 1) (fcb_data self)\<rparr>
      | None \<Rightarrow>
          if int (length (fcb_data self)) < fcb_max_clients self
          then self\<lparr>fcb_data := dict_set ip 1 (fcb_data self)\<rparr> else self)"

definition fc_rows :: "ForeignClientBuffer \<Rightarrow> ForeignClientAgg list" where
  "fc_rows self = map (\<lambda>(ip, hits). \<lparr>fca_ip = ip, fca_hits = hits\<rparr>) (fcb_data self)"

definition fc_flush :: "(ForeignClientAgg list \<Rightarrow> 'db \<Rightarrow> 'db option)
    \<Rightarrow> ForeignClientBuffer \<times> 'db \<Rightarrow> ForeignClientBuffer \<times> 'db" where
  "fc_flush flush_fn st = (case st of (self, db) \<Rightarrow>
     if fcb_data self = [] then (self, db)
     else (self\<lparr>fcb_data := []\<rparr>, deliver flush_fn (fc_rows self) db))"

definition fc_loop where
  "fc_loop flush_fn waits st = timer_loop (fc_flush flush_fn) waits st"

definition fc_stop_buffer where
  "fc_stop_buffer flush_fn st = fc_flush flush_fn (fst st\<lparr>fcb_stop := True\<rparr>, snd st)"

section \<open>Uncacheable answers\<close>

definition DEFAULT_MAX_KEYS :: int where "DEFAULT_MAX_KEYS = 2048"

record UncacheableAgg =
  uca_client :: string
  uca_domain :: string
  uca_qtype :: string
  uca_reason :: string
  uca_last_ttl :: "int option"
  uca_hits :: int

record UncacheableBuffer =
  ucb_flush_seconds :: int
  ucb_max_keys :: int
  ucb_data :: "(string \<times> string \<times> string \<times> string, int \<times> int option) dict"
  ucb_stop :: bool

definition UncacheableBuffer_init :: "int \<Rightarrow> int \<Rightarrow> UncacheableBuffer" where
  "UncacheableBuffer_init flush_seconds max_keys =
     \<lparr>ucb_flush_seconds = max 1 flush_seconds, ucb_max_keys = max 1 max_keys, ucb_data = [], ucb_stop = False\<rparr>"

definition uc_add :: "(string \<times> string \<times> string \<times> string) \<times> int option \<Rightarrow> UncacheableBuffer \<Rightarrow> UncacheableBuffer" where
  "uc_add event self = (case event of (key, ttl) \<Rightarrow>
     case map_of (ucb_data self) key of
       Some existing \<Rightarrow> self\<lparr>ucb_data := dict_set key (fst existing + 1, ttl) (ucb_data self)\<rparr>
     | None \<Rightarrow>
         if int (length (ucb_data self)) < ucb_max_keys self
         then self\<lparr>ucb_data := dict_set key (1, ttl) (ucb_data self)\<rparr> else self)"

definition uc_rows :: "UncacheableBuffer \<Rightarrow> UncacheableAgg list" where
  "uc_rows self = map (\<lambda>((client, domain, qtype, reason), (hits, ttl)).
     \<lparr>uca_client = client, uca_domain = domain, uca_qtype = qtype, uca_reason = reason,
      uca_last_ttl = ttl, uca_hits = hits\<rparr>) (ucb_data self)"

definition uc_flush :: "(UncacheableAgg list \<Rightarrow> 'db \<Rightarrow> 'db option)
    \<Rightarrow> UncacheableBuffer \<times> 'db \<Rightarrow> UncacheableBuffer \<times> 'db" where
  "uc_flush flush_fn st = (case st of (self, db) \<Rightarrow>
     if ucb_data self = [] then (self, db)
     else (self\<lparr>ucb_data := []\<rparr>, deliver flush_fn (uc_rows self) db))"

definition uc_loop where
  "uc_loop flush_fn waits st = timer_loop (uc_flush flush_fn) waits st"

definition uc_stop_buffer where
  "uc_stop_buffer flush_fn st = uc_flush flush_fn (fst st\<lparr>ucb_stop := True\<rparr>, snd st)"

section \<open>The query log\<close>

record QueryAgg =
  qa_client :: string
  qa_domain :: string
  qa_qtype :: string
  qa_count :: int
  qa_last_action :: string
  qa_last_response :: string

record QueryCounter =
  qc_count :: int
  qc_last_action :: string
  qc_last_response :: string

record QueryBuffer =
  qb_flush_seconds :: int
  qb_data :: "(string \<times> string \<times> string, QueryCounter) dict"
  qb_stop :: bool

definition QueryBuffer_init :: "int \<Rightarrow> QueryBuffer" where
  "QueryBuffer_init flush_seconds = \<lparr>qb_flush_seconds = max 1 flush_seconds, qb_data = [], qb_stop = False\<rparr>"

definition qb_add :: "(string \<times> string \<times> string) \<times> string \<times> string \<Rightarrow> QueryBuffer \<Rightarrow> QueryBuffer" where
  "qb_add event self = (case event of (key, action, response) \<Rightarrow>
     case map_of (qb_data self) key of
       None \<Rightarrow> self\<lparr>qb_data := dict_set key
           \<lparr>qc_count = 1, qc_last_action = action, qc_last_response = response\<rparr> (qb_data self)\<rparr>
     | Some counter \<Rightarrow> self\<lparr>qb_data := dict_set key
           (counter\<lparr>qc_count := qc_count counter + 1, qc_last_action := action, qc_last_response := response\<rparr>)
           (qb_data self)\<rparr>)"

definition qb_rows :: "QueryBuffer \<Rightarrow> QueryAgg list" where
  "qb_rows self = map (\<lambda>((client, domain, qtype), counter).
     \<lparr>qa_client = client, qa_domain = domain, qa_qtype = qtype, qa_count = qc_count counter,
      qa_last_action = qc_last_action counter, qa_last_response = qc_last_response counter\<rparr>) (qb_data self)"

definition qb_flush :: "(QueryAgg list \<Rightarrow> 'db \<Rightarrow> 'db option) \<Rightarrow> QueryBuffer \<times> 'db \<Rightarrow> QueryBuffer \<times> 'db" where
  "qb_flush flush_fn st = (case st of (self, db) \<Rightarrow>
     if qb_data self = [] then (self, db)
     else (self\<lparr>qb_data := []\<rparr>, deliver flush_fn (qb_rows self) db))"

definition qb_loop where
  "qb_loop flush_fn waits st = timer_loop (qb_flush flush_fn) waits st"

definition qb_stop_buffer where
  "qb_stop_buffer flush_fn st = qb_flush flush_fn (fst st\<lparr>qb_stop := True\<rparr>, snd st)"

section \<open>Query events\<close>

definition MAX_EVENTS :: nat where "MAX_EVENTS = 50000"

record QueryEvent =
  qe_client :: string
  qe_domain :: string
  qe_qtype :: string
  qe_rcode :: string
  qe_response :: string
  qe_created_at :: datetime

record QueryEventBuffer =
  qeb_flush_seconds :: int
  qeb_maxlen :: nat
  qeb_events :: "QueryEvent list"
  qeb_stop :: bool

definition QueryEventBuffer_init :: "int \<Rightarrow> nat \<Rightarrow> QueryEventBuffer" where
  "QueryEventBuffer_init flush_seconds max_events =
     \<lparr>qeb_flush_seconds = max 1 flush_seconds, qeb_maxlen = max_events, qeb_events = [], qeb_stop = False\<rparr>"

text \<open>\<open>deque.append\<close> with a \<open>maxlen\<close> discards from the other end.\<close>

definition deque_append :: "nat \<Rightarrow> 'a \<Rightarrow> 'a list \<Rightarrow> 'a list" where
  "deque_append maxlen x xs = drop (length xs + 1 - maxlen) (xs @ [x])"

definition qe_add :: "datetime \<times> string \<times> string \<times> string \<times> string \<times> string \<Rightarrow> QueryEventBuffer \<Rightarrow> QueryEventBuffer" where
  "qe_add args self = (case args of (now, client, domain, qtype, rcode, response) \<Rightarrow>
     let event = \<lparr>qe_client = client, qe_domain = domain, qe_qtype = qtype, qe_rcode = rcode,
           qe_response = response, qe_created_at = now\<rparr>
     in self\<lparr>qeb_events := deque_append (qeb_maxlen self) event (qeb_events self)\<rparr>)"

definition qe_flush :: "(QueryEvent list \<Rightarrow> 'db \<Rightarrow> 'db option) \<Rightarrow> QueryEventBuffer \<times> 'db \<Rightarrow> QueryEventBuffer \<times> 'db" where
  "qe_flush flush_fn st = (case st of (self, db) \<Rightarrow>
     if qeb_events self = [] then (self, db)
     else (self\<lparr>qeb_events := []\<rparr>, deliver flush_fn (qeb_events self) db))"

definition qe_loop where
  "qe_loop flush_fn waits st = timer_loop (qe_flush flush_fn) waits st"

definition qe_stop_buffer where
  "qe_stop_buffer flush_fn st = qe_flush flush_fn (fst st\<lparr>qeb_stop := True\<rparr>, snd st)"

section \<open>Interpretations\<close>

text \<open>Client requests count every event under its key.\<close>

definition cra_key :: "ClientRequestAgg \<Rightarrow> string \<times> string \<times> string" where
  "cra_key r = (cra_client r, cra_domain r, cra_qtype r)"

definition cr_cleared :: "ClientRequestBuffer \<Rightarrow> ClientRequestBuffer" where
  "cr_cleared self = self\<lparr>crb_data := []\<rparr>"

definition cr_inv :: "ClientRequestBuffer \<Rightarrow> bool" where
  "cr_inv self \<longleftrightarrow> counts_ok (crb_data self)"

lemma cr_pending: "cr_inv s \<Longrightarrow> sum_by cra_key cra_hits k (cr_rows s) = dict_get (crb_data s) k 0"
  using sum_by_counts [of "crb_data s" k]
  by (simp add: cr_rows_def sum_by_rows cra_key_def cr_inv_def counts_ok_wf split_def)

interpretation cr: counting_buffer cr_add cr_rows cr_cleared cr_flush cr_inv "\<lambda>e. e" cra_key cra_hits
proof unfold_locales
  fix s e k
  assume s: "cr_inv s"
  then have s': "cr_inv (cr_add e s)" by (simp add: cr_inv_def cr_add_def counts_ok_incr)
  then show "cr_inv (cr_add e s)" .
  show "sum_by cra_key cra_hits k (cr_rows (cr_add e s)) = sum_by cra_key cra_hits k (cr_rows s) + of_bool (e = k)"
    unfolding cr_pending [OF s] cr_pending [OF s'] by (simp add: cr_add_def)
  then show "sum_by cra_key cra_hits k (cr_rows (cr_add e s)) \<le> sum_by cra_key cra_hits k (cr_rows s) + of_bool (e = k)"
    by simp
  have "cra_key \<circ> (\<lambda>((client, domain, qtype), hits).
     \<lparr>cra_client = client, cra_domain = domain, cra_qtype = qtype, cra_hits = hits\<rparr>) = fst"
    by (auto simp: cra_key_def)
  then show "distinct (map cra_key (cr_rows s))"
    using s by (simp add: cr_rows_def cr_inv_def counts_ok_def dict_wf_def)
next
  fix s r
  assume "cr_inv s" "r \<in> set (cr_rows s)"
  then show "0 < cra_hits r" by (auto simp: cr_inv_def cr_rows_def counts_ok_def)
qed (simp_all add: cr_flush_def cr_cleared_def cr_rows_def cr_inv_def)

text \<open>Cache outcomes count every event under its hour and reason.\<close>

definition coa_key :: "CacheOutcomeAgg \<Rightarrow> datetime \<times> string" where
  "coa_key r = (coa_hour_start r, coa_reason r)"

definition co_event_key :: "datetime \<times> string \<Rightarrow> datetime \<times> string" where
  "co_event_key e = (floor_hour (fst e), snd e)"

definition co_cleared :: "CacheOutcomeBuffer \<Rightarrow> CacheOutcomeBuffer" where
  "co_cleared self = self\<lparr>cob_data := []\<rparr>"

definition co_inv :: "CacheOutcomeBuffer \<Rightarrow> bool" where
  "co_inv self \<longleftrightarrow> counts_ok (cob_data self)"

lemma co_pending: "co_inv s \<Longrightarrow> sum_by coa_key coa_hits k (co_rows s) = dict_get (cob_data s) k 0"
  using sum_by_counts [of "cob_data s" k]
  by (simp add: co_rows_def sum_by_rows coa_key_def co_inv_def counts_ok_wf split_def)

interpretation co: counting_buffer co_add co_rows co_cleared co_flush co_inv co_event_key coa_key coa_hits
proof unfold_locales
  fix s e k
  assume s: "co_inv s"
  then have s': "co_inv (co_add e s)" by (simp add: co_inv_def co_add_def Let_def counts_ok_incr split_def)
  then show "co_inv (co_add e s)" .
  show "sum_by coa_key coa_hits k (co_rows (co_add e s)) = sum_by coa_key coa_hits k (co_rows s) + of_bool (co_event_key e = k)"
    unfolding co_pending [OF s] co_pending [OF s'] by (auto simp: co_add_def co_event_key_def Let_def split_def)
  then show "sum_by coa_key coa_hits k (co_rows (co_add e s)) \<le> sum_by coa_key coa_hits k (co_rows s) + of_bool (co_event_key e = k)"
    by simp
  have "coa_key \<circ> (\<lambda>((hour, reason), hits).
     \<lparr>coa_hour_start = hour, coa_reason = reason, coa_hits = hits\<rparr>) = fst"
    by (auto simp: coa_key_def)
  then show "distinct (map coa_key (co_rows s))"
    using s by (simp add: co_rows_def co_inv_def counts_ok_def dict_wf_def)
next
  fix s r
  assume "co_inv s" "r \<in> set (co_rows s)"
  then show "0 < coa_hits r" by (auto simp: co_inv_def co_rows_def counts_ok_def)
qed (simp_all add: co_flush_def co_cleared_def co_rows_def co_inv_def)

text \<open>Foreign clients: bounded, so an event of an address not held may be skipped.\<close>

definition fc_cleared :: "ForeignClientBuffer \<Rightarrow> ForeignClientBuffer" where
  "fc_cleared self = self\<lparr>fcb_data := []\<rparr>"

definition fc_inv :: "ForeignClientBuffer \<Rightarrow> bool" where
  "fc_inv self \<longleftrightarrow> counts_ok (fcb_data self) \<and> 1 \<le> fcb_max_clients self
     \<and> int (length (fcb_data self)) \<le> fcb_max_clients self"

lemma fc_pending: "fc_inv s \<Longrightarrow> sum_by fca_ip fca_hits k (fc_rows s) = dict_get (fcb_data s) k 0"
  using sum_by_counts [of "fcb_data s" k]
  by (simp add: fc_rows_def sum_by_rows fc_inv_def counts_ok_wf split_def)

lemma map_of_keys: "map_of d k = Some v \<Longrightarrow> k \<in> set (map fst d)"
  by (force dest: map_of_SomeD)

lemma fc_inv_add: "fc_inv s \<Longrightarrow> fc_inv (fc_add e s)"
  using counts_ok_get [of "fcb_data s" e]
  by (auto simp: fc_inv_def fc_add_def dict_get_def length_dict_set counts_ok_set dest: map_of_keys
    split: option.split)

text \<open>What an event does to the count of an address.\<close>

lemma fc_add_count:
  "dict_get (fcb_data (fc_add e s)) k 0 = dict_get (fcb_data s) k 0
     + of_bool (e = k \<and> (map_of (fcb_data s) e \<noteq> None \<or> int (length (fcb_data s)) < fcb_max_clients s))"
  by (auto simp: fc_add_def dict_get_def split: option.split)

interpretation fc: keyed_buffer fc_add fc_rows fc_cleared fc_flush fc_inv "\<lambda>e. e" fca_ip fca_hits
proof unfold_locales
  fix s e k
  assume s: "fc_inv s"
  then show s': "fc_inv (fc_add e s)" by (rule fc_inv_add)
  show "sum_by fca_ip fca_hits k (fc_rows (fc_add e s)) \<le> sum_by fca_ip fca_hits k (fc_rows s) + of_bool (e = k)"
    unfolding fc_pending [OF s] fc_pending [OF s'] fc_add_count by simp
  have "fca_ip \<circ> (\<lambda>(ip, hits). \<lparr>fca_ip = ip, fca_hits = hits\<rparr>) = fst" by auto
  then show "distinct (map fca_ip (fc_rows s))"
    using s by (simp add: fc_rows_def fc_inv_def counts_ok_def dict_wf_def)
next
  fix s r
  assume "fc_inv s" "r \<in> set (fc_rows s)"
  then show "0 < fca_hits r" by (auto simp: fc_inv_def fc_rows_def counts_ok_def)
qed (simp_all add: fc_flush_def fc_cleared_def fc_rows_def fc_inv_def)

text \<open>Uncacheable answers: bounded as well; the last TTL does not enter the key.\<close>

definition uca_key :: "UncacheableAgg \<Rightarrow> string \<times> string \<times> string \<times> string" where
  "uca_key r = (uca_client r, uca_domain r, uca_qtype r, uca_reason r)"

definition uc_cleared :: "UncacheableBuffer \<Rightarrow> UncacheableBuffer" where
  "uc_cleared self = self\<lparr>ucb_data := []\<rparr>"

definition uc_inv :: "UncacheableBuffer \<Rightarrow> bool" where
  "uc_inv self \<longleftrightarrow> dict_wf (ucb_data self) \<and> (\<forall>p \<in> set (ucb_data self). 0 < fst (snd p))
     \<and> 1 \<le> ucb_max_keys self \<and> int (length (ucb_data self)) \<le> ucb_max_keys self"

definition uc_count :: "UncacheableBuffer \<Rightarrow> string \<times> string \<times> string \<times> string \<Rightarrow> int" where
  "uc_count self k = (case map_of (ucb_data self) k of None \<Rightarrow> 0 | Some v \<Rightarrow> fst v)"

lemma uc_pending: "uc_inv s \<Longrightarrow> sum_by uca_key uca_hits k (uc_rows s) = uc_count s k"
  using sum_by_dict [of "ucb_data s" fst k]
  by (simp add: uc_rows_def sum_by_rows uca_key_def uc_inv_def uc_count_def split_def)

lemma uc_inv_add: "uc_inv s \<Longrightarrow> uc_inv (uc_add e s)"
proof -
  assume s: "uc_inv s"
  have "0 < fst v" if "map_of (ucb_data s) (fst e) = Some v" for v
    using dict_value [OF that, of "\<lambda>v. 0 < fst v"] s by (simp add: uc_inv_def)
  with s show ?thesis
    by (auto simp: uc_inv_def uc_add_def length_dict_set split_def dest!: set_dict_set dest: map_of_keys
      split: option.split)
qed

lemma uc_add_count:
  "uc_count (uc_add e s) k = uc_count s k
     + of_bool (fst e = k \<and> (map_of (ucb_data s) (fst e) \<noteq> None \<or> int (length (ucb_data s)) < ucb_max_keys s))"
  by (auto simp: uc_add_def uc_count_def split_def split: option.split)

interpretation uc: keyed_buffer uc_add uc_rows uc_cleared uc_flush uc_inv fst uca_key uca_hits
proof unfold_locales
  fix s k and e :: "(string \<times> string \<times> string \<times> string) \<times> int option"
  assume s: "uc_inv s"
  then show s': "uc_inv (uc_add e s)" by (rule uc_inv_add)
  show "sum_by uca_key uca_hits k (uc_rows (uc_add e s)) \<le> sum_by uca_key uca_hits k (uc_rows s) + of_bool (fst e = k)"
    unfolding uc_pending [OF s] uc_pending [OF s'] uc_add_count by simp
  have "uca_key \<circ> (\<lambda>((client, domain, qtype, reason), (hits, ttl)).
     \<lparr>uca_client = client, uca_domain = domain, uca_qtype = qtype, uca_reason = reason,
      uca_last_ttl = ttl, uca_hits = hits\<rparr>) = fst"
    by (auto simp: uca_key_def)
  then show "distinct (map uca_key (uc_rows s))"
    using s by (simp add: uc_rows_def uc_inv_def dict_wf_def)
next
  fix s r
  assume "uc_inv s" "r \<in> set (uc_rows s)"
  then show "0 < uca_hits r" by (auto simp: uc_inv_def uc_rows_def)
qed (simp_all add: uc_flush_def uc_cleared_def uc_rows_def uc_inv_def)

text \<open>The query log counts every event; the row keeps the last action and response.\<close>

definition qa_key :: "QueryAgg \<Rightarrow> string \<times> string \<times> string" where
  "qa_key r = (qa_client r, qa_domain r, qa_qtype r)"

definition qb_cleared :: "QueryBuffer \<Rightarrow> QueryBuffer" where
  "qb_cleared self = self\<lparr>qb_data := []\<rparr>"

definition qb_inv :: "QueryBuffer \<Rightarrow> bool" where
  "qb_inv self \<longleftrightarrow> dict_wf (qb_data self) \<and> (\<forall>p \<in> set (qb_data self). 0 < qc_count (snd p))"

definition qb_count :: "QueryBuffer \<Rightarrow> string \<times> string \<times> string \<Rightarrow> int" where
  "qb_count self k = (case map_of (qb_data self) k of None \<Rightarrow> 0 | Some c \<Rightarrow> qc_count c)"

lemma qb_pending: "qb_inv s \<Longrightarrow> sum_by qa_key qa_count k (qb_rows s) = qb_count s k"
  using sum_by_dict [of "qb_data s" qc_count k]
  by (simp add: qb_rows_def sum_by_rows qa_key_def qb_inv_def qb_count_def split_def)

lemma qb_inv_add: "qb_inv s \<Longrightarrow> qb_inv (qb_add e s)"
proof -
  assume s: "qb_inv s"
  have "0 < qc_count v" if "map_of (qb_data s) (fst e) = Some v" for v
    using dict_value [OF that, of "\<lambda>v. 0 < qc_count v"] s by (simp add: qb_inv_def)
  with s show ?thesis
    by (auto simp: qb_inv_def qb_add_def split_def dest!: set_dict_set split: option.split)
qed

lemma qb_add_count: "qb_count (qb_add e s) k = qb_count s k + of_bool (fst e = k)"
  by (auto simp: qb_add_def qb_count_def split_def split: option.split)

interpretation qb: counting_buffer qb_add qb_rows qb_cleared qb_flush qb_inv fst qa_key qa_count
proof unfold_locales
  fix s k and e :: "(string \<times> string \<times> string) \<times> string \<times> string"
  assume s: "qb_inv s"
  then show s': "qb_inv (qb_add e s)" by (rule qb_inv_add)
  show "sum_by qa_key qa_count k (qb_rows (qb_add e s)) = sum_by qa_key qa_count k (qb_rows s) + of_bool (fst e = k)"
    unfolding qb_pending [OF s] qb_pending [OF s'] qb_add_count by simp
  then show "sum_by qa_key qa_count k (qb_rows (qb_add e s)) \<le> sum_by qa_key qa_count k (qb_rows s) + of_bool (fst e = k)"
    by simp
  have "map qa_key (qb_rows s) = map fst (qb_data s)" by (auto simp: qb_rows_def qa_key_def)
  then show "distinct (map qa_key (qb_rows s))" using s by (simp add: qb_inv_def dict_wf_def)
next
  fix s r
  assume "qb_inv s" "r \<in> set (qb_rows s)"
  then show "0 < qa_count r" by (auto simp: qb_inv_def qb_rows_def)
qed (simp_all add: qb_flush_def qb_cleared_def qb_rows_def qb_inv_def)

text \<open>Query events: every event is a row of its own; the oldest are dropped past the bound.\<close>

type_synonym event_args = "datetime \<times> string \<times> string \<times> string \<times> string \<times> string"

definition event_of :: "event_args \<Rightarrow> QueryEvent" where
  "event_of args = (case args of (now, client, domain, qtype, rcode, response) \<Rightarrow>
     \<lparr>qe_client = client, qe_domain = domain, qe_qtype = qtype, qe_rcode = rcode,
      qe_response = response, qe_created_at = now\<rparr>)"

definition qe_cleared :: "QueryEventBuffer \<Rightarrow> QueryEventBuffer" where
  "qe_cleared self = self\<lparr>qeb_events := []\<rparr>"

lemma qe_add_events: "qeb_events (qe_add a s) = deque_append (qeb_maxlen s) (event_of a) (qeb_events s)"
  by (simp add: qe_add_def event_of_def Let_def split_def)

interpretation qe: flush_buffer qe_add qeb_events qe_cleared qe_flush "\<lambda>s. length (qeb_events s) \<le> qeb_maxlen s"
  event_of "\<lambda>r. r" "\<lambda>r. 1"
proof unfold_locales
  fix s a k
  show "length (qeb_events (qe_add a s)) \<le> qeb_maxlen (qe_add a s)"
    unfolding qe_add_events by (simp add: deque_append_def qe_add_def Let_def split_def)
  have "sum_by (\<lambda>r. r) (\<lambda>r. 1) k (qeb_events (qe_add a s))
      \<le> sum_by (\<lambda>r. r) (\<lambda>r. 1) k (qeb_events s @ [event_of a])"
    unfolding qe_add_events deque_append_def by (rule sum_by_drop_le) simp
  then show "sum_by (\<lambda>r. r) (\<lambda>r. 1) k (qeb_events (qe_add a s))
      \<le> sum_by (\<lambda>r. r) (\<lambda>r. 1) k (qeb_events s) + of_bool (event_of a = k)"
    by (auto split: if_splits)
qed (simp_all add: qe_flush_def qe_cleared_def)

section \<open>Properties\<close>

text \<open>The first addresses up to the bound are held, each with its exact count.\<close>

lemma fc_fold_keys:
  "map fst (fcb_data (fold fc_add ips (ForeignClientBuffer_init secs limit)))
     = take (nat (max 1 limit)) (first_by (\<lambda>ip. ip) ips)
   \<and> fcb_max_clients (fold fc_add ips (ForeignClientBuffer_init secs limit)) = max 1 limit"
proof (induction ips rule: rev_induct)
  case Nil
  then show ?case by (simp add: ForeignClientBuffer_init_def)
next
  case (snoc ip ips)
  let ?s = "fold fc_add ips (ForeignClientBuffer_init secs limit)"
  let ?f = "first_by (\<lambda>ip. ip) ips" and ?m = "nat (max 1 limit)"
  have keys: "map fst (fcb_data ?s) = take ?m ?f" and limit: "fcb_max_clients ?s = max 1 limit"
    using snoc by auto
  have len: "length (fcb_data ?s) = min ?m (length ?f)" using arg_cong [OF keys, of length] by simp
  have mem: "map_of (fcb_data ?s) ip = None \<longleftrightarrow> ip \<notin> set (take ?m ?f)"
    by (metis keys map_of_eq_None_iff set_map)
  have max: "fcb_max_clients (fc_add ip ?s) = max 1 limit" using limit by (simp add: fc_add_def split: option.split)
  show ?case
  proof (cases "ip \<in> set (take ?m ?f)")
    case True
    then have "ip \<in> set ips" using first_by_keys [of "\<lambda>ip. ip" ips] by (auto dest: in_set_takeD)
    moreover have "map fst (fcb_data (fc_add ip ?s)) = map fst (fcb_data ?s)"
      using True mem keys by (auto simp: fc_add_def update_keys split: option.split)
    ultimately show ?thesis using keys max by (simp add: first_by_snoc)
  next
    case False
    then have none: "map_of (fcb_data ?s) ip = None" using mem by simp
    show ?thesis
    proof (cases "length ?f < ?m")
      case True
      then have "ip \<notin> set ips" using False first_by_keys [of "\<lambda>ip. ip" ips] by simp
      moreover have "ip \<notin> set (map fst (fcb_data ?s))" using none by (simp add: map_of_eq_None_iff)
      then have "map fst (fcb_data (fc_add ip ?s)) = map fst (fcb_data ?s) @ [ip]"
        using none True len limit by (simp add: fc_add_def dict_set_notin)
      ultimately show ?thesis using keys max True by (simp add: first_by_snoc)
    next
      case full: False
      then have "fc_add ip ?s = ?s" using none len limit by (simp add: fc_add_def)
      then show ?thesis using keys max full by (simp add: first_by_snoc)
    qed
  qed
qed

lemma fc_fold_count:
  "ip \<in> set (take (nat (max 1 limit)) (first_by (\<lambda>ip. ip) ips)) \<Longrightarrow>
   dict_get (fcb_data (fold fc_add ips (ForeignClientBuffer_init secs limit))) ip 0 = int (count_list ips ip)"
proof (induction ips rule: rev_induct)
  case Nil
  then show ?case by simp
next
  case (snoc e ips)
  let ?s = "fold fc_add ips (ForeignClientBuffer_init secs limit)"
  let ?f = "first_by (\<lambda>ip. ip) ips" and ?m = "nat (max 1 limit)"
  have keys: "map fst (fcb_data ?s) = take ?m ?f" and limit: "fcb_max_clients ?s = max 1 limit"
    using fc_fold_keys by auto
  have len: "length (fcb_data ?s) = min ?m (length ?f)" using arg_cong [OF keys, of length] by simp
  have mem: "map_of (fcb_data ?s) ip = None \<longleftrightarrow> ip \<notin> set (take ?m ?f)"
    by (metis keys map_of_eq_None_iff set_map)
  show ?case
  proof (cases "ip \<in> set (take ?m ?f)")
    case True
    with snoc.IH mem show ?thesis by (auto simp: fc_add_count)
  next
    case False
    have "take ?m (first_by (\<lambda>ip. ip) (ips @ [e])) = take ?m ?f @ take (?m - length ?f) (if e \<in> set ips then [] else [e])"
      by (simp add: first_by_snoc)
    with snoc.prems False have "ip \<in> set (take (?m - length ?f) (if e \<in> set ips then [] else [e]))"
      by (metis Un_iff set_append)
    then have new: "e = ip" "length ?f < ?m" by (cases "?m - length ?f"; auto split: if_splits)+
    with False have "ip \<notin> set ?f" by simp
    then have "ip \<notin> set ips" using first_by_keys [of "\<lambda>ip. ip" ips] by simp
    moreover have "dict_get (fcb_data ?s) ip 0 = 0" using mem False by (simp add: dict_get_def)
    ultimately show ?thesis using new len limit by (simp add: fc_add_count count_list_0_iff)
  qed
qed

text \<open>Between flushes the foreign-client buffer holds exactly the first \<open>max_clients\<close> distinct
  addresses (at least one), in order, each with the number of its occurrences; further
  addresses are skipped, however many there are.\<close>

theorem foreign_clients_bounded:
  "fcb_data (fold fc_add ips (ForeignClientBuffer_init secs limit)) =
     map (\<lambda>ip. (ip, int (count_list ips ip))) (take (nat (max 1 limit)) (first_by (\<lambda>ip. ip) ips))"
proof -
  let ?d = "fcb_data (fold fc_add ips (ForeignClientBuffer_init secs limit))"
  have keys: "map fst ?d = take (nat (max 1 limit)) (first_by (\<lambda>ip. ip) ips)" using fc_fold_keys by blast
  then have "distinct (map fst ?d)" using first_by_distinct [of "\<lambda>ip. ip" ips] by simp
  then have "?d = map (\<lambda>k. (k, dict_get ?d k 0)) (map fst ?d)"
    by (auto simp: dict_get_def intro!: map_idI [symmetric])
  also have "\<dots> = map (\<lambda>ip. (ip, int (count_list ips ip))) (take (nat (max 1 limit)) (first_by (\<lambda>ip. ip) ips))"
    unfolding keys by (rule map_cong [OF refl]) (simp add: fc_fold_count)
  finally show ?thesis .
qed

text \<open>The event buffer holds the newest \<open>max_events\<close> events in order, and a flush hands over
  exactly these.\<close>

theorem query_events_newest:
  "qeb_events (fold qe_add args (QueryEventBuffer_init secs max_events))
     = drop (length args - max_events) (map event_of args)
   \<and> qe_flush (\<lambda>rows log. Some (log @ [rows])) (fold qe_add args (QueryEventBuffer_init secs max_events), log)
     = ((fold qe_add args (QueryEventBuffer_init secs max_events))\<lparr>qeb_events := []\<rparr>,
        if min (length args) max_events = 0 then log else log @ [drop (length args - max_events) (map event_of args)])"
proof -
  let ?s = "\<lambda>args. fold qe_add args (QueryEventBuffer_init secs max_events)"
  have run: "qeb_events (?s args) = drop (length args - max_events) (map event_of args) \<and> qeb_maxlen (?s args) = max_events"
  proof (induction args rule: rev_induct)
    case (snoc a args)
    then have "qeb_events (?s (args @ [a])) = deque_append max_events (event_of a) (drop (length args - max_events) (map event_of args))"
      by (simp add: qe_add_events)
    moreover have "qeb_maxlen (qe_add a b) = qeb_maxlen b" for b by (simp add: qe_add_def Let_def split_def)
    then have "qeb_maxlen (?s (args @ [a])) = max_events" using snoc by simp
    ultimately show ?case by (cases "max_events \<le> length args") (auto simp: deque_append_def Suc_diff_le)
  qed (simp add: QueryEventBuffer_init_def)
  then show ?thesis by (auto simp: qe_flush_def deliver_def min_def)
qed

end
