(* ===== verification/StatBuffers.thy ===== *)
theory StatBuffers
  imports Complex_Main BufferSpec
begin

text \<open>
  The hourly statistics buffers: per-client results (\<open>domain/clientstats.py\<close>) and per-upstream
  round-trip times (\<open>domain/upstreamstats.py\<close>). Milliseconds are rationals. The lemmas show
  that the rows of the first are exact counts of the reported events, and that the second
  knows exactly which upstreams were handled in the current hour.
\<close>

section \<open>Client statistics\<close>

definition FOREIGN_CLIENT :: string where "FOREIGN_CLIENT = ''foreign''"

definition RESULT_COLUMNS :: "(string, string) dict" where
  "RESULT_COLUMNS =
     [(''forward'', ''forwarded''), (''forward-cache'', ''cached''), (''override'', ''overridden''),
      (''local'', ''local''), (''deny'', ''denied''), (''blocklist'', ''blocked''),
      (''servfail'', ''servfail''), (''foreign'', ''foreign'')]"

record ClientStatAgg =
  csa_hour_start :: datetime
  csa_client :: string
  csa_total :: int
  csa_forwarded :: int
  csa_cached :: int
  csa_overridden :: int
  csa_local :: int
  csa_denied :: int
  csa_blocked :: int
  csa_servfail :: int
  csa_foreign :: int

record ClientStatsBuffer =
  csb_flush_seconds :: int
  csb_data :: "(datetime \<times> string, (string, int) dict) dict"
  csb_stop :: bool

definition ClientStatsBuffer_init :: "int \<Rightarrow> ClientStatsBuffer" where
  "ClientStatsBuffer_init flush_seconds =
     \<lparr>csb_flush_seconds = max 1 flush_seconds, csb_data = [], csb_stop = False\<rparr>"

definition cs_add :: "datetime \<times> string \<times> string \<Rightarrow> ClientStatsBuffer \<Rightarrow> ClientStatsBuffer" where
  "cs_add event self = (case event of (now, client, result) \<Rightarrow>
     let hour = floor_hour now;
         column = map_of RESULT_COLUMNS result;
         counter = dict_get (csb_data self) (hour, client) [];
         counter = dict_set ''total'' (dict_get counter ''total'' 0 + 1) counter;
         counter = (case column of None \<Rightarrow> counter | Some col \<Rightarrow> dict_set col (dict_get counter col 0 + 1) counter)
     in self\<lparr>csb_data := dict_set (hour, client) counter (csb_data self)\<rparr>)"

definition cs_add_foreign :: "datetime \<Rightarrow> ClientStatsBuffer \<Rightarrow> ClientStatsBuffer" where
  "cs_add_foreign now self = cs_add (now, FOREIGN_CLIENT, ''foreign'') self"

definition cs_row :: "datetime \<times> string \<Rightarrow> (string \<Rightarrow> int) \<Rightarrow> ClientStatAgg" where
  "cs_row key get =
     \<lparr>csa_hour_start = fst key, csa_client = snd key, csa_total = get ''total'',
      csa_forwarded = get ''forwarded'', csa_cached = get ''cached'', csa_overridden = get ''overridden'',
      csa_local = get ''local'', csa_denied = get ''denied'', csa_blocked = get ''blocked'',
      csa_servfail = get ''servfail'', csa_foreign = get ''foreign''\<rparr>"

definition cs_rows :: "ClientStatsBuffer \<Rightarrow> ClientStatAgg list" where
  "cs_rows self = map (\<lambda>(key, counter). cs_row key (\<lambda>col. dict_get counter col 0)) (csb_data self)"

definition cs_flush :: "(ClientStatAgg list \<Rightarrow> 'db \<Rightarrow> 'db option)
    \<Rightarrow> ClientStatsBuffer \<times> 'db \<Rightarrow> ClientStatsBuffer \<times> 'db" where
  "cs_flush flush_fn st = (case st of (self, db) \<Rightarrow>
     if csb_data self = [] then (self, db)
     else (self\<lparr>csb_data := []\<rparr>, deliver flush_fn (cs_rows self) db))"

definition cs_loop where
  "cs_loop flush_fn waits st = timer_loop (cs_flush flush_fn) waits st"

definition cs_stop_buffer where
  "cs_stop_buffer flush_fn st = cs_flush flush_fn (fst st\<lparr>csb_stop := True\<rparr>, snd st)"

section \<open>Upstream round-trip times\<close>

record UpstreamRttAgg =
  ura_hour_start :: datetime
  ura_address :: string
  ura_samples :: int
  ura_total_ms :: rat
  ura_max_ms :: rat

record RttAccumulator =
  acc_samples :: int
  acc_total_ms :: rat
  acc_max_ms :: rat

record UpstreamRttBuffer =
  urb_flush_seconds :: int
  urb_data :: "(datetime \<times> string, RttAccumulator) dict"
  urb_covered_hour :: "datetime option"
  urb_covered :: "string set"
  urb_stop :: bool

definition UpstreamRttBuffer_init :: "int \<Rightarrow> UpstreamRttBuffer" where
  "UpstreamRttBuffer_init flush_seconds =
     \<lparr>urb_flush_seconds = max 1 flush_seconds, urb_data = [], urb_covered_hour = None, urb_covered = {},
      urb_stop = False\<rparr>"

definition mark_covered :: "datetime \<Rightarrow> string \<Rightarrow> UpstreamRttBuffer \<Rightarrow> UpstreamRttBuffer" where
  "mark_covered hour address self =
     (let self = (if urb_covered_hour self \<noteq> Some hour
                  then self\<lparr>urb_covered_hour := Some hour, urb_covered := {}\<rparr> else self)
      in self\<lparr>urb_covered := insert address (urb_covered self)\<rparr>)"

definition rtt_add :: "datetime \<times> string \<times> rat \<Rightarrow> UpstreamRttBuffer \<Rightarrow> UpstreamRttBuffer" where
  "rtt_add event self = (case event of (now, address, rtt_ms) \<Rightarrow>
     let hour = floor_hour now;
         self = mark_covered hour address self
     in case map_of (urb_data self) (hour, address) of
          None \<Rightarrow> self\<lparr>urb_data := dict_set (hour, address)
              \<lparr>acc_samples = 1, acc_total_ms = rtt_ms, acc_max_ms = rtt_ms\<rparr> (urb_data self)\<rparr>
        | Some acc \<Rightarrow> self\<lparr>urb_data := dict_set (hour, address)
              \<lparr>acc_samples = acc_samples acc + 1, acc_total_ms = acc_total_ms acc + rtt_ms,
               acc_max_ms = max (acc_max_ms acc) rtt_ms\<rparr> (urb_data self)\<rparr>)"

definition mark_probed :: "datetime \<Rightarrow> string \<Rightarrow> UpstreamRttBuffer \<Rightarrow> UpstreamRttBuffer" where
  "mark_probed now address self = mark_covered (floor_hour now) address self"

definition uncovered :: "datetime \<Rightarrow> string list \<Rightarrow> UpstreamRttBuffer \<Rightarrow> string list" where
  "uncovered now addresses self =
     (let hour = floor_hour now;
          covered = (if urb_covered_hour self = Some hour then urb_covered self else {})
      in filter (\<lambda>address. address \<notin> covered) addresses)"

definition rtt_rows :: "UpstreamRttBuffer \<Rightarrow> UpstreamRttAgg list" where
  "rtt_rows self = map (\<lambda>((hour, address), acc).
     \<lparr>ura_hour_start = hour, ura_address = address, ura_samples = acc_samples acc,
      ura_total_ms = acc_total_ms acc, ura_max_ms = acc_max_ms acc\<rparr>) (urb_data self)"

definition rtt_flush :: "(UpstreamRttAgg list \<Rightarrow> 'db \<Rightarrow> 'db option)
    \<Rightarrow> UpstreamRttBuffer \<times> 'db \<Rightarrow> UpstreamRttBuffer \<times> 'db" where
  "rtt_flush flush_fn st = (case st of (self, db) \<Rightarrow>
     if urb_data self = [] then (self, db)
     else (self\<lparr>urb_data := []\<rparr>, deliver flush_fn (rtt_rows self) db))"

text \<open>The hook runs before each timed flush; what it did before an exception remains.\<close>

definition rtt_loop where
  "rtt_loop before_flush flush_fn waits st =
     timer_loop (\<lambda>st. rtt_flush flush_fn (case before_flush of None \<Rightarrow> st | Some hook \<Rightarrow> hook st)) waits st"

definition rtt_stop_buffer where
  "rtt_stop_buffer flush_fn st = rtt_flush flush_fn (fst st\<lparr>urb_stop := True\<rparr>, snd st)"

section \<open>Lemmas: client statistics\<close>

definition cs_event_key :: "datetime \<times> string \<times> string \<Rightarrow> datetime \<times> string" where
  "cs_event_key e = (floor_hour (fst e), fst (snd e))"

abbreviation cs_counter :: "ClientStatsBuffer \<Rightarrow> datetime \<times> string \<Rightarrow> string \<Rightarrow> int" where
  "cs_counter s k col \<equiv> dict_get (dict_get (csb_data s) k []) col 0"

text \<open>The columns an event counts in.\<close>

definition cs_hit :: "datetime \<times> string \<Rightarrow> string \<Rightarrow> datetime \<times> string \<times> string \<Rightarrow> bool" where
  "cs_hit k col e \<longleftrightarrow> cs_event_key e = k \<and> (col = ''total'' \<or> map_of RESULT_COLUMNS (snd (snd e)) = Some col)"

lemma RESULT_COLUMNS_total: "map_of RESULT_COLUMNS r \<noteq> Some ''total''"
  by (simp add: RESULT_COLUMNS_def)

lemma cs_add_counter: "cs_counter (cs_add e s) k col = cs_counter s k col + of_bool (cs_hit k col e)"
proof (cases "map_of RESULT_COLUMNS (snd (snd e))")
  case None
  then show ?thesis by (auto simp: cs_add_def cs_hit_def cs_event_key_def Let_def split_def)
next
  case (Some c)
  with RESULT_COLUMNS_total [of "snd (snd e)"] have "c \<noteq> ''total''" by auto
  with Some show ?thesis by (auto simp: cs_add_def cs_hit_def cs_event_key_def Let_def split_def)
qed

lemma keys_dict_set:
  "map fst (dict_set k v d) = (if k \<in> set (map fst d) then map fst d else map fst d @ [k])"
  by (induction d) auto

lemma cs_add_keys:
  "map fst (csb_data (cs_add e s)) =
     (if cs_event_key e \<in> set (map fst (csb_data s)) then map fst (csb_data s)
      else map fst (csb_data s) @ [cs_event_key e])"
  by (simp add: cs_add_def cs_event_key_def Let_def split_def keys_dict_set)

definition cs_events :: "(datetime \<times> string \<times> string) list \<Rightarrow> ClientStatsBuffer \<Rightarrow> ClientStatsBuffer" where
  "cs_events es s = fold cs_add es s"

lemma cs_events_counter:
  "cs_counter (cs_events es s) k col = cs_counter s k col + int (length (filter (cs_hit k col) es))"
proof (induction es arbitrary: s)
  case (Cons e es)
  from Cons [of "cs_add e s"] show ?case by (simp add: cs_events_def cs_add_counter)
qed (simp add: cs_events_def)

lemma cs_events_keys:
  assumes "csb_data s = []"
  shows "map fst (csb_data (cs_events es s)) = first_by (\<lambda>k. k) (map cs_event_key es)"
proof (induction es rule: rev_induct)
  case Nil
  with assms show ?case by (simp add: cs_events_def)
next
  case (snoc e es)
  have set: "set (map fst (csb_data (cs_events es s))) = set (map cs_event_key es)"
    using first_by_keys [of "\<lambda>k. k" "map cs_event_key es"] by (simp add: snoc)
  have "map fst (csb_data (cs_events (es @ [e]) s)) = map fst (csb_data (cs_add e (cs_events es s)))"
    by (simp add: cs_events_def)
  then show ?case unfolding cs_add_keys set by (simp add: snoc first_by_snoc)
qed

lemma dict_rebuild: "dict_wf d \<Longrightarrow> d = map (\<lambda>k. (k, the (map_of d k))) (map fst d)"
  by (auto simp: dict_wf_def intro!: map_idI [symmetric])

section \<open>Interpretations\<close>

definition csa_key :: "ClientStatAgg \<Rightarrow> datetime \<times> string" where
  "csa_key r = (csa_hour_start r, csa_client r)"

definition cs_cleared :: "ClientStatsBuffer \<Rightarrow> ClientStatsBuffer" where
  "cs_cleared self = self\<lparr>csb_data := []\<rparr>"

definition cs_inv :: "ClientStatsBuffer \<Rightarrow> bool" where
  "cs_inv s \<longleftrightarrow> dict_wf (csb_data s) \<and> (\<forall>p \<in> set (csb_data s). 0 < dict_get (snd p) ''total'' 0)"

lemma cs_pending: "cs_inv s \<Longrightarrow> sum_by csa_key csa_total k (cs_rows s) = cs_counter s k ''total''"
  using sum_by_dict [of "csb_data s" "\<lambda>c. dict_get c ''total'' 0" k]
  by (auto simp: cs_rows_def sum_by_rows csa_key_def cs_row_def cs_inv_def split_def dict_get_def split: option.split)

lemma cs_inv_add: "cs_inv s \<Longrightarrow> cs_inv (cs_add e s)"
proof -
  assume s: "cs_inv s"
  let ?k = "cs_event_key e"
  have wf: "dict_wf (csb_data (cs_add e s))"
    using s by (simp add: cs_inv_def cs_add_def Let_def split_def)
  have "0 < dict_get c ''total'' 0" if "(k, c) \<in> set (csb_data (cs_add e s))" for k c
  proof (cases "k = ?k")
    case True
    from that wf have "map_of (csb_data (cs_add e s)) k = Some c" by (simp add: dict_wf_def)
    then have "dict_get c ''total'' 0 = cs_counter (cs_add e s) k ''total''" by (simp add: dict_get_def)
    also have "\<dots> = cs_counter s k ''total'' + 1" by (simp add: cs_add_counter cs_hit_def True)
    moreover have "0 \<le> cs_counter s k ''total''"
      using dict_value [of "csb_data s" k _ "\<lambda>c. 0 < dict_get c ''total'' 0"] s
      by (auto simp: cs_inv_def dict_get_def [of "csb_data s"] dict_get_def [of "[]"] less_imp_le split: option.split)
    ultimately show ?thesis by simp
  next
    case False
    with that have "(k, c) \<in> set (csb_data s)"
      by (auto simp: cs_add_def cs_event_key_def Let_def split_def dest!: set_dict_set)
    with s show ?thesis by (force simp: cs_inv_def)
  qed
  with wf show ?thesis by (auto simp: cs_inv_def)
qed

interpretation cs: counting_buffer cs_add cs_rows cs_cleared cs_flush cs_inv cs_event_key csa_key csa_total
proof unfold_locales
  fix s e k
  assume s: "cs_inv s"
  then show s': "cs_inv (cs_add e s)" by (rule cs_inv_add)
  show "sum_by csa_key csa_total k (cs_rows (cs_add e s)) = sum_by csa_key csa_total k (cs_rows s) + of_bool (cs_event_key e = k)"
    unfolding cs_pending [OF s] cs_pending [OF s'] cs_add_counter by (simp add: cs_hit_def)
  then show "sum_by csa_key csa_total k (cs_rows (cs_add e s)) \<le> sum_by csa_key csa_total k (cs_rows s) + of_bool (cs_event_key e = k)"
    by simp
  have "map csa_key (cs_rows s) = map fst (csb_data s)" by (auto simp: cs_rows_def csa_key_def cs_row_def)
  then show "distinct (map csa_key (cs_rows s))" using s by (simp add: cs_inv_def dict_wf_def)
next
  fix s r
  assume "cs_inv s" "r \<in> set (cs_rows s)"
  then show "0 < csa_total r" by (auto simp: cs_inv_def cs_rows_def cs_row_def)
qed (simp_all add: cs_flush_def cs_cleared_def cs_rows_def cs_inv_def)

definition ura_key :: "UpstreamRttAgg \<Rightarrow> datetime \<times> string" where
  "ura_key r = (ura_hour_start r, ura_address r)"

definition rtt_event_key :: "datetime \<times> string \<times> rat \<Rightarrow> datetime \<times> string" where
  "rtt_event_key e = (floor_hour (fst e), fst (snd e))"

definition rtt_cleared :: "UpstreamRttBuffer \<Rightarrow> UpstreamRttBuffer" where
  "rtt_cleared self = self\<lparr>urb_data := []\<rparr>"

definition rtt_inv :: "UpstreamRttBuffer \<Rightarrow> bool" where
  "rtt_inv s \<longleftrightarrow> dict_wf (urb_data s) \<and> (\<forall>p \<in> set (urb_data s). 0 < acc_samples (snd p))"

definition rtt_count :: "UpstreamRttBuffer \<Rightarrow> datetime \<times> string \<Rightarrow> int" where
  "rtt_count s k = (case map_of (urb_data s) k of None \<Rightarrow> 0 | Some a \<Rightarrow> acc_samples a)"

lemma mark_covered_data [simp]: "urb_data (mark_covered h a s) = urb_data s"
  by (simp add: mark_covered_def Let_def)

lemma rtt_pending: "rtt_inv s \<Longrightarrow> sum_by ura_key ura_samples k (rtt_rows s) = rtt_count s k"
  using sum_by_dict [of "urb_data s" acc_samples k]
  by (simp add: rtt_rows_def sum_by_rows ura_key_def rtt_inv_def rtt_count_def split_def)

lemma rtt_inv_add: "rtt_inv s \<Longrightarrow> rtt_inv (rtt_add e s)"
proof -
  assume s: "rtt_inv s"
  have "0 < acc_samples v" if "map_of (urb_data s) k = Some v" for v k
    using dict_value [OF that, of "\<lambda>v. 0 < acc_samples v"] s by (simp add: rtt_inv_def)
  with s show ?thesis
    by (auto simp: rtt_inv_def rtt_add_def Let_def split_def dest!: set_dict_set split: option.split) force
qed

lemma rtt_add_count: "rtt_count (rtt_add e s) k = rtt_count s k + of_bool (rtt_event_key e = k)"
  by (auto simp: rtt_add_def rtt_count_def rtt_event_key_def Let_def split_def split: option.split)

interpretation rtt: counting_buffer rtt_add rtt_rows rtt_cleared rtt_flush rtt_inv rtt_event_key ura_key ura_samples
proof unfold_locales
  fix s e k
  assume s: "rtt_inv s"
  then show s': "rtt_inv (rtt_add e s)" by (rule rtt_inv_add)
  show "sum_by ura_key ura_samples k (rtt_rows (rtt_add e s)) = sum_by ura_key ura_samples k (rtt_rows s) + of_bool (rtt_event_key e = k)"
    unfolding rtt_pending [OF s] rtt_pending [OF s'] rtt_add_count by simp
  then show "sum_by ura_key ura_samples k (rtt_rows (rtt_add e s)) \<le> sum_by ura_key ura_samples k (rtt_rows s) + of_bool (rtt_event_key e = k)"
    by simp
  have "map ura_key (rtt_rows s) = map fst (urb_data s)" by (auto simp: rtt_rows_def ura_key_def)
  then show "distinct (map ura_key (rtt_rows s))" using s by (simp add: rtt_inv_def dict_wf_def)
next
  fix s r
  assume "rtt_inv s" "r \<in> set (rtt_rows s)"
  then show "0 < ura_samples r" by (auto simp: rtt_inv_def rtt_rows_def)
qed (simp_all add: rtt_flush_def rtt_cleared_def rtt_rows_def rtt_inv_def)

section \<open>Lemmas: coverage of the hour\<close>

datatype rtt_op = Sample datetime string rat | Probe datetime string

fun rtt_time :: "rtt_op \<Rightarrow> datetime" where
  "rtt_time (Sample now address ms) = now"
| "rtt_time (Probe now address) = now"

fun rtt_address :: "rtt_op \<Rightarrow> string" where
  "rtt_address (Sample now address ms) = address"
| "rtt_address (Probe now address) = address"

fun rtt_step :: "rtt_op \<Rightarrow> UpstreamRttBuffer \<Rightarrow> UpstreamRttBuffer" where
  "rtt_step (Sample now address ms) s = rtt_add (now, address, ms) s"
| "rtt_step (Probe now address) s = mark_probed now address s"

lemma rtt_step_covered:
  "urb_covered_hour (rtt_step p s) = Some (floor_hour (rtt_time p))
   \<and> urb_covered (rtt_step p s) = insert (rtt_address p)
        (if urb_covered_hour s = Some (floor_hour (rtt_time p)) then urb_covered s else {})"
  by (cases p) (auto simp: rtt_add_def mark_probed_def mark_covered_def Let_def split: option.split)

lemma rtt_run_covered:
  assumes "sorted (map rtt_time ops)" "ops \<noteq> []" "urb_covered_hour s = None"
  shows "urb_covered_hour (fold rtt_step ops s) = Some (floor_hour (rtt_time (last ops)))
    \<and> urb_covered (fold rtt_step ops s)
        = {rtt_address p | p. p \<in> set ops \<and> floor_hour (rtt_time p) = floor_hour (rtt_time (last ops))}"
  using assms(1,2)
proof (induction ops rule: rev_induct)
  case Nil
  then show ?case by simp
next
  case (snoc p ops)
  show ?case
  proof (cases "ops = []")
    case True
    then show ?thesis using assms(3) rtt_step_covered [of p s] by auto
  next
    case False
    let ?s = "fold rtt_step ops s" and ?h = "\<lambda>q. floor_hour (rtt_time q)"
    from snoc False have IH: "urb_covered_hour ?s = Some (?h (last ops))"
      "urb_covered ?s = {rtt_address q | q. q \<in> set ops \<and> ?h q = ?h (last ops)}"
      by (auto simp: sorted_append)
    have last: "last ops \<in> set ops" using False by simp
    have le: "rtt_time q \<le> rtt_time (last ops)" "rtt_time (last ops) \<le> rtt_time p" if "q \<in> set ops" for q
      using sorted_map_le_last [OF _ that, of rtt_time] snoc(2) last by (simp_all add: sorted_append)
    have none: "?h q \<noteq> ?h p" if "?h (last ops) \<noteq> ?h p" "q \<in> set ops" for q
      using that floor_hour_mono [OF le(1) [OF that(2)]] floor_hour_mono [OF le(2) [OF last]] by linarith
    from rtt_step_covered [of p ?s] IH none show ?thesis by (auto split: if_splits)
  qed
qed

section \<open>Properties\<close>

text \<open>The rows a flush of the client statistics hands over are exact: one row per hour and
  client seen, in order of first appearance, whose total is the number of events of that
  hour and client and whose columns are the numbers of those events with the column's
  result (so an event whose result has no column counts in the total only).\<close>

theorem client_stats_exact:
  "cs_rows (cs_events es (ClientStatsBuffer_init n)) =
     map (\<lambda>k. cs_row k (\<lambda>col. int (length (filter (cs_hit k col) es))))
       (first_by (\<lambda>k. k) (map cs_event_key es))"
proof -
  let ?s = "cs_events es (ClientStatsBuffer_init n)"
  have wf: "dict_wf (csb_data ?s)"
  proof (induction es rule: rev_induct)
    case (snoc e es)
    then show ?case by (simp add: cs_events_def cs_add_def Let_def split_def)
  qed (simp add: cs_events_def ClientStatsBuffer_init_def)
  have "cs_rows ?s = map (\<lambda>k. cs_row k (\<lambda>col. dict_get (the (map_of (csb_data ?s) k)) col 0)) (map fst (csb_data ?s))"
    unfolding cs_rows_def by (subst dict_rebuild [OF wf]) simp
  also have "\<dots> = map (\<lambda>k. cs_row k (cs_counter ?s k)) (map fst (csb_data ?s))"
  proof (rule map_cong [OF refl])
    fix k
    assume "k \<in> set (map fst (csb_data ?s))"
    then obtain c where "map_of (csb_data ?s) k = Some c" by (metis map_of_eq_None_iff not_None_eq set_map)
    then show "cs_row k (\<lambda>col. dict_get (the (map_of (csb_data ?s) k)) col 0) = cs_row k (cs_counter ?s k)"
      by (simp add: dict_get_def [of "csb_data ?s"])
  qed
  also have "map fst (csb_data ?s) = first_by (\<lambda>k. k) (map cs_event_key es)"
    by (rule cs_events_keys) (simp add: ClientStatsBuffer_init_def)
  also have "(\<lambda>k. cs_row k (cs_counter ?s k)) = (\<lambda>k. cs_row k (\<lambda>col. int (length (filter (cs_hit k col) es))))"
    unfolding cs_events_counter by (simp add: ClientStatsBuffer_init_def dict_get_def [of "[]"])
  finally show ?thesis .
qed

text \<open>With a clock that does not run backwards, the upstreams reported as uncovered are
  those with neither a sample nor a probe in the hour of the call.\<close>

theorem uncovered_exact:
  assumes "sorted (map rtt_time ops @ [now])"
  shows "uncovered now addresses (fold rtt_step ops (UpstreamRttBuffer_init n)) =
    filter (\<lambda>a. \<not> (\<exists>p \<in> set ops. rtt_address p = a \<and> floor_hour (rtt_time p) = floor_hour now)) addresses"
proof (cases "ops = []")
  case True
  then show ?thesis by (simp add: uncovered_def UpstreamRttBuffer_init_def)
next
  case False
  let ?s = "fold rtt_step ops (UpstreamRttBuffer_init n)" and ?h = "\<lambda>q. floor_hour (rtt_time q)"
  have s: "urb_covered_hour ?s = Some (?h (last ops))"
    "urb_covered ?s = {rtt_address p | p. p \<in> set ops \<and> ?h p = ?h (last ops)}"
    using rtt_run_covered [of ops "UpstreamRttBuffer_init n"] assms False
    by (auto simp: sorted_append UpstreamRttBuffer_init_def)
  have le: "rtt_time p \<le> rtt_time (last ops)" "rtt_time (last ops) \<le> now" if "p \<in> set ops" for p
    using sorted_map_le_last [OF _ that, of rtt_time] assms False by (simp_all add: sorted_append)
  show ?thesis
  proof (cases "?h (last ops) = floor_hour now")
    case True
    with s show ?thesis by (auto simp: uncovered_def intro: filter_cong)
  next
    case False
    have "?h p \<noteq> floor_hour now" if "p \<in> set ops" for p
      using floor_hour_mono [OF le(1) [OF that]] floor_hour_mono [OF le(2) [OF that]] False by linarith
    with False s show ?thesis by (auto simp: uncovered_def)
  qed
qed

theorem uncovered_exact_witness:
  "uncovered 7200000000 [''9.9.9.9'', ''1.1.1.1'']
     (fold rtt_step [Sample 3500000000 ''9.9.9.9'' 12, Probe 3600000001 ''1.1.1.1''] (UpstreamRttBuffer_init 60))
   = [''9.9.9.9'', ''1.1.1.1'']
   \<and> uncovered 3600000002 [''9.9.9.9'', ''1.1.1.1'']
     (fold rtt_step [Sample 3500000000 ''9.9.9.9'' 12, Probe 3600000001 ''1.1.1.1''] (UpstreamRttBuffer_init 60))
   = [''9.9.9.9'']"
  using uncovered_exact [of "[Sample 3500000000 ''9.9.9.9'' 12, Probe 3600000001 ''1.1.1.1'']" 7200000000
      "[''9.9.9.9'', ''1.1.1.1'']" 60]
    uncovered_exact [of "[Sample 3500000000 ''9.9.9.9'' 12, Probe 3600000001 ''1.1.1.1'']" 3600000002
      "[''9.9.9.9'', ''1.1.1.1'']" 60]
  by (simp add: floor_hour_def)

end
