(* ===== verification/Resolver.thy ===== *)
theory Resolver
  imports DnsMessage RuntimeState TtlCache Buffers StatBuffers
begin

text \<open>
  The screening logic: \<open>domain/resolver.py\<close>. The state holds the configuration snapshot, the
  answer cache and the buffers. A method takes the library \<open>D\<close>, the environment \<open>E\<close> of
  one query (its clock readings, the shuffle and the network) and the state, and gives
  its result with the new state; the result \<open>None\<close> is an exception, which keeps the changes
  made before it. Log output is left out.
\<close>

section \<open>State and environment\<close>

record 'b resolver_state =
  rs_state :: RuntimeState
  rs_cache :: "'b TTLCache"
  rs_buffer :: QueryBuffer
  rs_stats :: ClientStatsBuffer
  rs_requests :: ClientRequestBuffer
  rs_rtt :: UpstreamRttBuffer
  rs_events :: QueryEventBuffer
  rs_foreign :: ForeignClientBuffer
  rs_uncached :: UncacheableBuffer
  rs_outcomes :: CacheOutcomeBuffer

text \<open>
  Every clock reading of a query is a value of its own; \<open>ev_send i retry\<close> is the network's
  answer to the request sent to the upstream at position \<open>i\<close> of the order, or to its retry
  over TCP.
\<close>

record ('d, 'b) query_env =
  ev_stats_now :: datetime
  ev_events_now :: datetime
  ev_outcome_now :: datetime
  ev_rtt_now :: datetime
  ev_cache_get :: monotime
  ev_cache_hit :: monotime
  ev_cache_set :: monotime
  ev_shuffle :: "UpstreamServer list \<Rightarrow> UpstreamServer list"
  ev_send :: "nat \<Rightarrow> bool \<Rightarrow> string \<Rightarrow> int \<Rightarrow> bool \<Rightarrow> rat \<Rightarrow> 'd dns_msg \<Rightarrow> 'b option"
  ev_elapsed :: "nat \<Rightarrow> rat"

section \<open>Helpers\<close>

definition qtype_name :: "('d, 'b) dnslib \<Rightarrow> int \<Rightarrow> string" where
  "qtype_name D v = (case dl_qtype D v of Some name \<Rightarrow> name | None \<Rightarrow> int_str v)"

definition rcode_name :: "('d, 'b) dnslib \<Rightarrow> int \<Rightarrow> string" where
  "rcode_name D v = (case dl_rcode D v of Some name \<Rightarrow> name | None \<Rightarrow> int_str v)"

definition answer_summary :: "('d, 'b) dnslib \<Rightarrow> 'd dns_msg \<Rightarrow> string" where
  "answer_summary D reply = py_join '', '' (map (\<lambda>r. dl_text D (rr_data r)) (msg_rr reply))"

definition cache_key :: "string \<Rightarrow> int \<Rightarrow> int \<Rightarrow> string" where
  "cache_key qname qtype qclass = normalize_domain qname @ ''|'' @ int_str qtype @ ''|'' @ int_str qclass"

definition clamp_ttl :: "int \<Rightarrow> RuntimeSettings \<Rightarrow> int" where
  "clamp_ttl ttl settings = max (cache_min_ttl settings) (min ttl (cache_max_ttl settings))"

text \<open>The outer option is an exception (a SOA record without its time fields).\<close>

definition negative_ttl :: "('d, 'b) dnslib \<Rightarrow> 'd dns_msg \<Rightarrow> RuntimeSettings \<Rightarrow> int option option" where
  "negative_ttl D reply settings =
     (case List.find (\<lambda>r. rr_type r = QTYPE_SOA) (msg_auth reply) of
        None \<Rightarrow> Some None
      | Some soa \<Rightarrow>
          (case dl_soa_minimum D (rr_data soa) of
             None \<Rightarrow> None
           | Some minimum \<Rightarrow> Some (Some (clamp_ttl (min (rr_ttl soa) minimum) settings))))"

definition MAX_CNAME_DEPTH :: nat where
  "MAX_CNAME_DEPTH = 8"

text \<open>\<open>10.0.0.0/8\<close>, \<open>172.16.0.0/12\<close> and \<open>192.168.0.0/16\<close>.\<close>

definition RFC1918_NETWORKS :: "ip_net list" where
  "RFC1918_NETWORKS = [Net4 167772160 8, Net4 2886729728 12, Net4 3232235520 16]"

definition INADDR_ARPA_SUFFIX :: string where
  "INADDR_ARPA_SUFFIX = ''.in-addr.arpa''"

definition is_rfc1918_ptr :: "string \<Rightarrow> bool" where
  "is_rfc1918_ptr qname =
     (let name = py_rstrip_char dot qname in
      if \<not> ends_with INADDR_ARPA_SUFFIX name then False
      else
        let labels = py_split dot (take (length name - length INADDR_ARPA_SUFFIX) name) in
        if length labels \<noteq> 4 then False
        else case ipv4_address (py_join [dot] (rev labels)) of
            None \<Rightarrow> False
          | Some addr \<Rightarrow> list_ex (\<lambda>net. in_net (IPv4 addr) net) RFC1918_NETWORKS)"

section \<open>Answers without the network\<close>

definition deny :: "('d, 'b) dnslib \<Rightarrow> 'd dns_msg \<Rightarrow> 'd dns_msg" where
  "deny D request = (dl_reply D request)\<lparr>msg_rcode := RCODE_NXDOMAIN\<rparr>"

definition nodata :: "('d, 'b) dnslib \<Rightarrow> 'd dns_msg \<Rightarrow> 'd dns_msg" where
  "nodata D request = dl_reply D request"

text \<open>The loop of \<open>_override\<close> over the values; an exception of a constructor leaves it.\<close>

fun override_loop :: "('d, 'b) dnslib \<Rightarrow> dns_question \<Rightarrow> int \<Rightarrow> string list \<Rightarrow> 'd dns_msg \<Rightarrow> 'd dns_msg option" where
  "override_loop D question ttl [] reply = Some reply"
| "override_loop D question ttl (val # vals) reply =
     (case ip_address val of
        None \<Rightarrow> override_loop D question ttl vals reply
      | Some addr \<Rightarrow>
          (case addr of
             IPv4 _ \<Rightarrow>
               if qn_type question = QTYPE_A then
                 Option.bind (dl_A D (ip_str addr)) (\<lambda>rdata.
                 Option.bind (dl_RR D (qn_name question) QTYPE_A ttl rdata) (\<lambda>r.
                   override_loop D question ttl vals (add_answer r reply)))
               else override_loop D question ttl vals reply
           | IPv6 _ _ \<Rightarrow>
               if qn_type question = QTYPE_AAAA then
                 Option.bind (dl_AAAA D (ip_str addr)) (\<lambda>rdata.
                 Option.bind (dl_RR D (qn_name question) QTYPE_AAAA ttl rdata) (\<lambda>r.
                   override_loop D question ttl vals (add_answer r reply)))
               else override_loop D question ttl vals reply))"

definition override_values :: "PolicyRule \<Rightarrow> string list" where
  "override_values rule =
     filter (\<lambda>v. v \<noteq> [])
       (map py_strip (py_split (CHR '','') (case override_response rule of None \<Rightarrow> [] | Some r \<Rightarrow> r)))"

definition override :: "('d, 'b) dnslib \<Rightarrow> 'd dns_msg \<Rightarrow> PolicyRule \<Rightarrow> 'd dns_msg option" where
  "override D request rule =
     override_loop D (msg_q request) (override_ttl rule) (override_values rule) (dl_reply D request)"

definition build_addr_rdata :: "('d, 'b) dnslib \<Rightarrow> int \<Rightarrow> string \<Rightarrow> 'd option" where
  "build_addr_rdata D qtype val = (if qtype = QTYPE_A then dl_A D val else dl_AAAA D val)"

fun add_addresses :: "('d, 'b) dnslib \<Rightarrow> string \<Rightarrow> int \<Rightarrow> LocalRecord list \<Rightarrow> 'd dns_msg \<Rightarrow> 'd dns_msg option" where
  "add_addresses D owner qtype [] reply = Some reply"
| "add_addresses D owner qtype (record # records) reply =
     (case build_addr_rdata D qtype (rec_value record) of
        None \<Rightarrow> add_addresses D owner qtype records reply
      | Some rdata \<Rightarrow>
          Option.bind (dl_RR D owner qtype (rec_ttl record) rdata) (\<lambda>r.
            add_addresses D owner qtype records (add_answer r reply)))"

function add_address_chain :: "('d, 'b) dnslib \<Rightarrow> 'd dns_msg \<Rightarrow> string \<Rightarrow> string \<Rightarrow> int \<Rightarrow> LocalRecords
    \<Rightarrow> nat \<Rightarrow> 'd dns_msg option" where
  "add_address_chain D reply owner name qtype records depth =
     (let rtype = (if qtype = QTYPE_A then RTYPE_A else RTYPE_AAAA);
          matches = local_get records name rtype in
      if matches \<noteq> [] then add_addresses D owner qtype matches reply
      else if MAX_CNAME_DEPTH \<le> depth then Some reply
      else
        (case local_cname records name of
           None \<Rightarrow> Some reply
         | Some alias \<Rightarrow>
             Option.bind (dl_CNAME D (rec_value alias)) (\<lambda>rdata.
             Option.bind (dl_RR D owner QTYPE_CNAME (rec_ttl alias) rdata) (\<lambda>r.
               let reply = add_answer r reply in
               if local_owns records (rec_value alias)
               then add_address_chain D reply (rec_value alias) (rec_value alias) qtype records (depth + 1)
               else Some reply))))"
  by pat_completeness auto
termination
  by (relation "measure (\<lambda>(D, reply, owner, name, qtype, records, depth). MAX_CNAME_DEPTH - depth)") auto

declare add_address_chain.simps [simp del]

fun add_records :: "('d, 'b) dnslib \<Rightarrow> string \<Rightarrow> LocalRecord list \<Rightarrow> 'd dns_msg \<Rightarrow> 'd dns_msg option" where
  "add_records D owner [] reply = Some reply"
| "add_records D owner (record # records) reply =
     (if rec_rtype record = RTYPE_CNAME then
        Option.bind (dl_CNAME D (rec_value record)) (\<lambda>rdata.
        Option.bind (dl_RR D owner QTYPE_CNAME (rec_ttl record) rdata) (\<lambda>r.
          add_records D owner records (add_answer r reply)))
      else if rec_rtype record = RTYPE_PTR then
        Option.bind (dl_PTR D (rec_value record)) (\<lambda>rdata.
        Option.bind (dl_RR D owner QTYPE_PTR (rec_ttl record) rdata) (\<lambda>r.
          add_records D owner records (add_answer r reply)))
      else add_records D owner records reply)"

text \<open>The outer option is an exception, the inner one a name that is not served locally.\<close>

definition local_answer :: "('d, 'b) dnslib \<Rightarrow> 'd dns_msg \<Rightarrow> LocalRecords \<Rightarrow> 'd dns_msg option option" where
  "local_answer D request records =
     (let question = msg_q request;
          name = normalize_domain (qn_name question) in
      if \<not> local_owns records name then Some None
      else
        let reply = dl_reply D request; qtype = qn_type question in
        if qtype = QTYPE_A \<or> qtype = QTYPE_AAAA
        then map_option Some (add_address_chain D reply (qn_name question) name qtype records 0)
        else if qtype = QTYPE_CNAME
        then map_option Some (add_records D (qn_name question) (local_get records name RTYPE_CNAME) reply)
        else if qtype = QTYPE_PTR
        then map_option Some (add_records D (qn_name question) (local_get records name RTYPE_PTR) reply)
        else Some (Some reply))"

section \<open>Forwarding\<close>

text \<open>\<open>groupby\<close>: runs of neighbours with equal priority.\<close>

fun group_priority :: "UpstreamServer list \<Rightarrow> UpstreamServer list list" where
  "group_priority [] = []"
| "group_priority (u # us) =
     (case group_priority us of
        [] \<Rightarrow> [[u]]
      | g # gs \<Rightarrow> if up_priority u = up_priority (hd g) then (u # g) # gs else [u] # g # gs)"

definition balanced_order :: "('d, 'b) query_env \<Rightarrow> UpstreamServer list \<Rightarrow> UpstreamServer list" where
  "balanced_order E upstreams = concat (map (ev_shuffle E) (group_priority (sort_key up_priority upstreams)))"

text \<open>One upstream: the query, and the retry over TCP for a truncated answer.\<close>

definition attempt :: "('d, 'b) dnslib \<Rightarrow> ('d, 'b) query_env \<Rightarrow> nat \<Rightarrow> 'd dns_msg \<Rightarrow> rat \<Rightarrow> UpstreamServer
    \<Rightarrow> 'd dns_msg option" where
  "attempt D E i request timeout upstream =
     (let use_tcp = (up_protocol upstream = ''tcp'') in
      Option.bind (ev_send E i False (up_address upstream) (up_port upstream) use_tcp timeout request) (\<lambda>raw.
      Option.bind (dl_parse D raw) (\<lambda>reply.
        if msg_tc reply \<and> \<not> use_tcp
        then Option.bind (ev_send E i True (up_address upstream) (up_port upstream) True timeout request) (dl_parse D)
        else Some reply)))"

fun forward_loop :: "('d, 'b) dnslib \<Rightarrow> ('d, 'b) query_env \<Rightarrow> nat \<Rightarrow> 'd dns_msg \<Rightarrow> rat \<Rightarrow> UpstreamServer list
    \<Rightarrow> UpstreamRttBuffer \<Rightarrow> 'd dns_msg option \<times> UpstreamRttBuffer" where
  "forward_loop D E i request timeout [] rtt = (None, rtt)"
| "forward_loop D E i request timeout (upstream # upstreams) rtt =
     (case attempt D E i request timeout upstream of
        None \<Rightarrow> forward_loop D E (i + 1) request timeout upstreams rtt
      | Some reply \<Rightarrow> (Some reply, rtt_add (ev_rtt_now E, up_address upstream, ev_elapsed E i * 1000) rtt))"

definition forward :: "('d, 'b) dnslib \<Rightarrow> ('d, 'b) query_env \<Rightarrow> 'd dns_msg \<Rightarrow> RuntimeSettings \<Rightarrow> 'b resolver_state
    \<Rightarrow> 'd dns_msg option \<times> 'b resolver_state" where
  "forward D E request settings self =
     (let upstreams = rt_upstreams (rs_state self) in
      if upstreams = [] then (None, self)
      else case forward_loop D E 0 request (forward_timeout settings) (balanced_order E upstreams) (rs_rtt self) of
          (reply, rtt) \<Rightarrow> (reply, self\<lparr>rs_rtt := rtt\<rparr>))"

section \<open>Caching\<close>

definition compute_ttl :: "'d dns_msg \<Rightarrow> RuntimeSettings \<Rightarrow> int" where
  "compute_ttl reply settings = clamp_ttl (Min (set (map rr_ttl (msg_rr reply)))) settings"

definition record_outcome :: "('d, 'b) query_env \<Rightarrow> string \<Rightarrow> 'b resolver_state \<Rightarrow> 'b resolver_state" where
  "record_outcome E reason self = self\<lparr>rs_outcomes := co_add (ev_outcome_now E, reason) (rs_outcomes self)\<rparr>"

definition skip_cache :: "('d, 'b) query_env \<Rightarrow> string \<Rightarrow> string \<Rightarrow> string \<Rightarrow> string \<Rightarrow> int option
    \<Rightarrow> 'b resolver_state \<Rightarrow> 'b resolver_state" where
  "skip_cache E client name qtype reason ttl self =
     record_outcome E reason
       (self\<lparr>rs_uncached := uc_add ((client, name, qtype, reason), ttl) (rs_uncached self)\<rparr>)"

definition store_reply :: "('d, 'b) dnslib \<Rightarrow> ('d, 'b) query_env \<Rightarrow> string \<Rightarrow> 'd dns_msg \<Rightarrow> int
    \<Rightarrow> 'b resolver_state \<Rightarrow> bool option \<times> 'b resolver_state" where
  "store_reply D E key reply ttl self =
     (case dl_pack D reply of
        None \<Rightarrow> (None, self)
      | Some packed \<Rightarrow>
          (Some True, record_outcome E OUTCOME_CACHED
             (self\<lparr>rs_cache := cache_set (ev_cache_set E) key packed ttl (rs_cache self)\<rparr>)))"

definition cache_negative :: "('d, 'b) dnslib \<Rightarrow> ('d, 'b) query_env \<Rightarrow> string \<Rightarrow> 'd dns_msg \<Rightarrow> RuntimeSettings
    \<Rightarrow> 'b resolver_state \<Rightarrow> bool option \<times> 'b resolver_state" where
  "cache_negative D E key reply settings self =
     (case negative_ttl D reply settings of
        None \<Rightarrow> (None, self)
      | Some None \<Rightarrow> (Some False, self)
      | Some (Some ttl) \<Rightarrow> if ttl \<le> 0 then (Some False, self) else store_reply D E key reply ttl self)"

definition cache_negative_or_skip where
  "cache_negative_or_skip D E key reply name qtype settings client reason self =
     (case cache_negative D E key reply settings self of
        (None, self) \<Rightarrow> (None, self)
      | (Some True, self) \<Rightarrow> (Some (), self)
      | (Some False, self) \<Rightarrow> (Some (), skip_cache E client name qtype reason None self))"

definition cache_or_record_skip :: "('d, 'b) dnslib \<Rightarrow> ('d, 'b) query_env \<Rightarrow> string \<Rightarrow> 'd dns_msg \<Rightarrow> string \<Rightarrow> string
    \<Rightarrow> RuntimeSettings \<Rightarrow> string \<Rightarrow> 'b resolver_state \<Rightarrow> unit option \<times> 'b resolver_state" where
  "cache_or_record_skip D E key reply name qtype settings client self =
     (let rcode = msg_rcode reply in
      if rcode = RCODE_NXDOMAIN
      then cache_negative_or_skip D E key reply name qtype settings client OUTCOME_NXDOMAIN self
      else if rcode \<noteq> RCODE_NOERROR
      then (Some (), skip_cache E client name qtype OUTCOME_ERROR None self)
      else if msg_rr reply = []
      then cache_negative_or_skip D E key reply name qtype settings client OUTCOME_NODATA self
      else
        let raw_ttl = Min (set (map rr_ttl (msg_rr reply)));
            ttl = compute_ttl reply settings in
        if 0 < ttl
        then (case store_reply D E key reply ttl self of
                (None, self) \<Rightarrow> (None, self)
              | (Some _, self) \<Rightarrow> (Some (), self))
        else (Some (), skip_cache E client name qtype OUTCOME_ZERO_TTL (Some raw_ttl) self))"

text \<open>The answer from a live entry: the identifier of the request, and the remaining lifetime as
  the TTL of every record of the three sections.\<close>

definition cached_reply :: "('d, 'b) dnslib \<Rightarrow> ('d, 'b) query_env \<Rightarrow> 'd dns_msg \<Rightarrow> 'b CacheEntry \<Rightarrow> 'd dns_msg option" where
  "cached_reply D E request entry =
     Option.bind (dl_parse D (ce_value entry)) (\<lambda>reply.
       let remaining = max 0 ((expires_at entry - ev_cache_hit E) div nsec_per_sec);
           set_all = (\<lambda>rs. all_some (map (dl_set_ttl D remaining) rs)) in
       Option.bind (set_all (msg_rr reply)) (\<lambda>rr.
       Option.bind (set_all (msg_auth reply)) (\<lambda>auth.
       Option.bind (set_all (msg_ar reply)) (\<lambda>ar.
         Some (reply\<lparr>msg_id := msg_id request, msg_rr := rr, msg_auth := auth, msg_ar := ar\<rparr>)))))"

definition forward_and_cache :: "('d, 'b) dnslib \<Rightarrow> ('d, 'b) query_env \<Rightarrow> 'd dns_msg \<Rightarrow> RuntimeSettings \<Rightarrow> string
    \<Rightarrow> 'b resolver_state \<Rightarrow> ('d dns_msg \<times> string) option \<times> 'b resolver_state" where
  "forward_and_cache D E request settings client self =
     (let question = msg_q request;
          name = normalize_domain (qn_name question);
          qtype = qtype_name D (qn_type question);
          key = cache_key (qn_name question) (qn_type question) (qn_class question) in
      case forward D E request settings self of
        (None, self) \<Rightarrow>
          (Some ((dl_reply D request)\<lparr>msg_rcode := RCODE_SERVFAIL\<rparr>, ''servfail''),
           if cache_enabled settings then skip_cache E client name qtype OUTCOME_UPSTREAM_FAILURE None self else self)
      | (Some reply, self) \<Rightarrow>
          if cache_enabled settings
          then (case cache_or_record_skip D E key reply name qtype settings client self of
                  (None, self) \<Rightarrow> (None, self)
                | (Some _, self) \<Rightarrow> (Some (reply, ''forward''), self))
          else (Some (reply, ''forward''), self))"

definition forward_or_cache :: "('d, 'b) dnslib \<Rightarrow> ('d, 'b) query_env \<Rightarrow> 'd dns_msg \<Rightarrow> RuntimeSettings \<Rightarrow> string
    \<Rightarrow> 'b resolver_state \<Rightarrow> ('d dns_msg \<times> string) option \<times> 'b resolver_state" where
  "forward_or_cache D E request settings client self =
     (let question = msg_q request;
          key = cache_key (qn_name question) (qn_type question) (qn_class question) in
      if cache_enabled settings then
        (case cache_get (ev_cache_get E) key (rs_cache self) of
           (entry, cache) \<Rightarrow>
             let self = self\<lparr>rs_cache := cache\<rparr> in
             (case entry of
                Some e \<Rightarrow> (map_option (\<lambda>reply. (reply, ''forward-cache'')) (cached_reply D E request e), self)
              | None \<Rightarrow> forward_and_cache D E request settings client self))
      else forward_and_cache D E request settings client self)"

definition resolve_local_or_forward :: "('d, 'b) dnslib \<Rightarrow> ('d, 'b) query_env \<Rightarrow> 'd dns_msg \<Rightarrow> RuntimeSettings \<Rightarrow> string
    \<Rightarrow> 'b resolver_state \<Rightarrow> ('d dns_msg \<times> string) option \<times> 'b resolver_state" where
  "resolve_local_or_forward D E request settings client self =
     (case local_answer D request (rt_local_records (rs_state self)) of
        None \<Rightarrow> (None, self)
      | Some (Some reply) \<Rightarrow> (Some (reply, ''local''), self)
      | Some None \<Rightarrow> forward_or_cache D E request settings client self)"

section \<open>Handling a query\<close>

definition resolver_is_trusted :: "'b resolver_state \<Rightarrow> string \<Rightarrow> bool" where
  "resolver_is_trusted self client_ip = is_trusted (rt_network_filter (rs_state self)) client_ip"

definition record_foreign :: "datetime \<Rightarrow> string \<Rightarrow> 'b resolver_state \<Rightarrow> 'b resolver_state" where
  "record_foreign now client_ip self =
     self\<lparr>rs_stats := cs_add_foreign now (rs_stats self), rs_foreign := fc_add client_ip (rs_foreign self)\<rparr>"

text \<open>The screening decision: the reply with its result string.\<close>

definition screen :: "('d, 'b) dnslib \<Rightarrow> ('d, 'b) query_env \<Rightarrow> 'd dns_msg \<Rightarrow> string
    \<Rightarrow> 'b resolver_state \<Rightarrow> ('d dns_msg \<times> string) option \<times> 'b resolver_state" where
  "screen D E request client_ip self =
     (let question = msg_q request;
          qname = normalize_domain (qn_name question);
          settings = rt_settings (rs_state self);
          rule = select_policy (rt_policies (rs_state self)) client_ip (qn_name question);
          action = (case rule of Some r \<Rightarrow> rule_action r | None \<Rightarrow> default_action settings) in
      if qn_type question = QTYPE_AAAA \<and> \<not> ipv6_enabled settings
      then (Some (nodata D request, ''nodata''), self)
      else if action = ACTION_OVERRIDE \<and> rule \<noteq> None
      then (map_option (\<lambda>reply. (reply, ''override'')) (override D request (the rule)), self)
      else if action = ACTION_DENY
      then (Some (deny D request, ''deny''), self)
      else if client_ip \<notin> rt_blocklist_excluded (rs_state self) \<and> is_blocked (rt_blocklist (rs_state self)) qname
      then (Some (deny D request, ''blocklist''), self)
      else resolve_local_or_forward D E request settings client_ip self)"

text \<open>What is recorded about an answered query.\<close>

definition record_query :: "('d, 'b) dnslib \<Rightarrow> ('d, 'b) query_env \<Rightarrow> 'd dns_msg \<Rightarrow> string \<Rightarrow> 'd dns_msg \<Rightarrow> string
    \<Rightarrow> 'b resolver_state \<Rightarrow> 'b resolver_state" where
  "record_query D E request client_ip reply result self =
     (let qname = normalize_domain (qn_name (msg_q request));
          qtype = qtype_name D (qn_type (msg_q request));
          answer = answer_summary D reply in
      self\<lparr>rs_buffer := qb_add ((client_ip, qname, qtype), result, answer) (rs_buffer self),
        rs_stats := cs_add (ev_stats_now E, client_ip, result) (rs_stats self),
        rs_requests := cr_add (client_ip, qname, qtype) (rs_requests self),
        rs_events := qe_add (ev_events_now E, client_ip, qname, qtype, rcode_name D (msg_rcode reply), answer) (rs_events self)\<rparr>)"

definition private_ptr_drop :: "'d dns_msg \<Rightarrow> RuntimeState \<Rightarrow> bool" where
  "private_ptr_drop request st =
     (let qname = normalize_domain (qn_name (msg_q request)) in
      drop_private_ptr (rt_settings st) \<and> qn_type (msg_q request) = QTYPE_PTR \<and> is_rfc1918_ptr qname
      \<and> \<not> local_owns (rt_local_records st) qname)"

definition handle :: "('d, 'b) dnslib \<Rightarrow> ('d, 'b) query_env \<Rightarrow> 'd dns_msg \<Rightarrow> string
    \<Rightarrow> 'b resolver_state \<Rightarrow> 'd dns_msg option \<times> 'b resolver_state" where
  "handle D E request client_ip self =
     (if private_ptr_drop request (rs_state self) then (Some (nodata D request), self)
      else case screen D E request client_ip self of
          (None, self) \<Rightarrow> (None, self)
        | (Some (reply, result), self) \<Rightarrow> (Some reply, record_query D E request client_ip reply result self))"

end
