(* ===== verification/ResolverFacts.thy ===== *)
theory ResolverFacts
  imports Resolver
begin

text \<open>
  Facts about the screening logic of \<open>Resolver\<close>: the order of the upstreams and the choice of
  the answering one, reverse names of private addresses, the answers built from overrides and
  local records, what a query changes in the buffers and the cache, and which queries never
  reach the network.
\<close>

section \<open>Upstream order\<close>

lemma concat_group_priority [simp]: "concat (group_priority us) = us"
  by (induction us) (auto split: list.splits if_splits)

lemma group_priority_ne: "g \<in> set (group_priority us) \<Longrightarrow> g \<noteq> []"
  by (induction us arbitrary: g) (auto split: list.splits if_splits)

lemma group_priority_same: "g \<in> set (group_priority us) \<Longrightarrow> u \<in> set g \<Longrightarrow> up_priority u = up_priority (hd g)"
proof (induction us arbitrary: g u)
  case (Cons v us)
  show ?case
  proof (cases "group_priority us")
    case Nil
    with Cons.prems show ?thesis by simp
  next
    case (Cons h hs)
    with Cons.IH Cons.prems show ?thesis by (fastforce split: if_splits)
  qed
qed simp

lemma shuffle_groups_mset:
  assumes "\<And>us. mset (sh us) = mset us"
  shows "mset (concat (map sh gs)) = mset (concat gs)"
  using assms by (induction gs) simp_all

lemma sorted_same:
  fixes f :: "'a \<Rightarrow> int"
  shows "\<forall>x \<in> set xs. \<forall>y \<in> set xs. f x = f y \<Longrightarrow> sorted (map f xs)"
proof (induction xs)
  case (Cons x xs)
  then have "sorted (map f xs)" by (meson list.set_intros(2))
  moreover have "\<forall>y \<in> set xs. f x \<le> f y"
    using Cons.prems by (intro ballI eq_refl) (meson list.set_intros)
  ultimately show ?case by simp
qed simp

lemma sorted_shuffle_groups:
  fixes gs :: "UpstreamServer list list"
  assumes "\<And>us. mset (sh us) = mset us"
    and "sorted (map up_priority (concat gs))"
    and "\<forall>g \<in> set gs. \<forall>u \<in> set g. \<forall>v \<in> set g. up_priority u = up_priority v"
  shows "sorted (map up_priority (concat (map sh gs)))"
  using assms(2,3)
proof (induction gs)
  case (Cons g gs)
  have members: "set (sh us) = set us" for us by (metis assms(1) set_mset_mset)
  have flat: "set (concat (map sh gs)) = set (concat gs)" by (simp add: members)
  have g: "sorted (map up_priority (sh g))"
    unfolding members using Cons.prems(2) by (intro sorted_same) (metis list.set_intros(1) members)
  from Cons.prems(1) have rest: "sorted (map up_priority (concat gs))"
    and cross: "\<forall>u \<in> set g. \<forall>v \<in> set (concat gs). up_priority u \<le> up_priority v"
    by (simp_all add: sorted_append)
  have "sorted (map up_priority (concat (map sh gs)))"
    using Cons.IH rest Cons.prems(2) by (meson list.set_intros(2))
  with g cross flat members [of g] show ?case by (simp add: sorted_append)
qed simp

lemma balanced_order_perm:
  assumes "\<And>us. mset (ev_shuffle E us) = mset us"
  shows "mset (balanced_order E us) = mset us"
  unfolding balanced_order_def by (simp add: shuffle_groups_mset [OF assms])

lemma balanced_order_sorted:
  assumes "\<And>us. mset (ev_shuffle E us) = mset us"
  shows "sorted (map up_priority (balanced_order E us))"
  unfolding balanced_order_def
proof (rule sorted_shuffle_groups [OF assms])
  show "sorted (map up_priority (concat (group_priority (sort_key up_priority us))))" by simp
  show "\<forall>g \<in> set (group_priority (sort_key up_priority us)). \<forall>u \<in> set g. \<forall>v \<in> set g. up_priority u = up_priority v"
    using group_priority_same by metis
qed

text \<open>The loop takes the first upstream of the order whose attempt succeeds.\<close>

lemma forward_loop_first:
  "forward_loop D E i rq t us rtt =
     (case List.find (\<lambda>(j, u). attempt D E j rq t u \<noteq> None) (enumerate i us) of
        None \<Rightarrow> (None, rtt)
      | Some (j, u) \<Rightarrow> (attempt D E j rq t u, rtt_add (ev_rtt_now E, up_address u, ev_elapsed E j * 1000) rtt))"
  by (induction us arbitrary: i) (auto split: option.split)

section \<open>Reverse names\<close>

lemma net_block: "p \<le> 32 \<Longrightarrow> n < 2 ^ 32 \<Longrightarrow> in_net (IPv4 n) (Net4 (m * 2 ^ (32 - p)) p) \<longleftrightarrow> n div 2 ^ (32 - p) = m"
  by (simp add: netmask_and)

lemma rfc1918_networks:
  assumes "n < 2 ^ 32"
  shows "list_ex (\<lambda>net. in_net (IPv4 n) net) RFC1918_NETWORKS \<longleftrightarrow>
    n div 16777216 = 10 \<or> n div 1048576 = 2753 \<or> n div 65536 = 49320"
  using net_block [of 8 n 10] net_block [of 12 n 2753] net_block [of 16 n 49320] assms
  by (simp add: RFC1918_NETWORKS_def del: in_net.simps)

lemma split_v4: "py_split dot (v4_str n) = map nat_str (v4_octets n)"
  unfolding v4_str_def by (rule py_split_join) (auto simp: v4_octets_def nat_str_no_dot)

lemma rfc1918_reverse:
  assumes "n < 2 ^ 32"
  shows "is_rfc1918_ptr (v4_reverse_pointer n) \<longleftrightarrow>
    n div 16777216 = 10 \<or> n div 1048576 = 2753 \<or> n div 65536 = 49320"
proof -
  let ?ls = "rev (map nat_str (v4_octets n))"
  have rp: "v4_reverse_pointer n = py_join [dot] ?ls @ INADDR_ARPA_SUFFIX"
    by (simp add: v4_reverse_pointer_def split_v4 INADDR_ARPA_SUFFIX_def)
  then have strip: "py_rstrip_char dot (v4_reverse_pointer n) = v4_reverse_pointer n"
    by (simp add: py_rstrip_char_def rstrip_if_id INADDR_ARPA_SUFFIX_def)
  have ends: "ends_with INADDR_ARPA_SUFFIX (v4_reverse_pointer n)" by (auto simp: rp ends_with_append)
  have "py_split dot (py_join [dot] ?ls) = ?ls"
    by (rule py_split_join) (auto simp: v4_octets_def nat_str_no_dot)
  then have labels: "py_split dot (take (length (v4_reverse_pointer n) - length INADDR_ARPA_SUFFIX) (v4_reverse_pointer n)) = ?ls"
    by (simp add: rp)
  have "py_join [dot] (rev ?ls) = v4_str n" by (simp add: v4_str_def)
  moreover have "length ?ls = 4" by (simp add: v4_octets_def)
  ultimately show ?thesis
    unfolding is_rfc1918_ptr_def Let_def strip labels
    using ends assms by (simp add: ipv4_address_str rfc1918_networks)
qed

section \<open>Overrides\<close>

text \<open>The addresses of an override that fit the type of the query, and their records.\<close>

definition fits_type :: "int \<Rightarrow> ip_addr \<Rightarrow> bool" where
  "fits_type qtype a = (case a of IPv4 _ \<Rightarrow> qtype = QTYPE_A | IPv6 _ _ \<Rightarrow> qtype = QTYPE_AAAA)"

definition override_addrs :: "int \<Rightarrow> string list \<Rightarrow> ip_addr list" where
  "override_addrs qtype vals = filter (fits_type qtype) (List.map_filter ip_address vals)"

definition addr_data :: "('d, 'b) dnslib \<Rightarrow> ip_addr \<Rightarrow> 'd option" where
  "addr_data D a = (case a of IPv4 _ \<Rightarrow> dl_A D (ip_str a) | IPv6 _ _ \<Rightarrow> dl_AAAA D (ip_str a))"

definition addr_record :: "('d, 'b) dnslib \<Rightarrow> dns_question \<Rightarrow> int \<Rightarrow> ip_addr \<Rightarrow> 'd dns_rr" where
  "addr_record D q ttl a =
     \<lparr>rr_name = qn_name q, rr_type = qn_type q, rr_ttl = ttl, rr_data = the (addr_data D a)\<rparr>"

lemma record_okD:
  assumes "record_ok D"
  shows "dl_RR D name type ttl data =
      (if ttl_fits ttl then Some \<lparr>rr_name = name, rr_type = type, rr_ttl = ttl, rr_data = data\<rparr> else None)"
    "dl_set_ttl D ttl r = (if ttl_fits ttl then Some (r\<lparr>rr_ttl := ttl\<rparr>) else None)"
  using assms by (simp_all add: record_ok_def)

lemma add_answer_rr [simp]: "msg_rr (add_answer r m) = msg_rr m @ [r]"
  by (simp add: add_answer_def)

lemma override_loop_Cons:
  "override_loop D q ttl (v # vs) reply =
     (case ip_address v of
        None \<Rightarrow> override_loop D q ttl vs reply
      | Some a \<Rightarrow>
          if fits_type (qn_type q) a
          then Option.bind (addr_data D a) (\<lambda>rdata.
               Option.bind (dl_RR D (qn_name q) (qn_type q) ttl rdata) (\<lambda>r.
                 override_loop D q ttl vs (add_answer r reply)))
          else override_loop D q ttl vs reply)"
  by (auto simp: fits_type_def addr_data_def simp del: ip_str.simps split: option.split ip_addr.split)

lemma override_loop_spec:
  assumes "record_ok D" "ttl_fits ttl" "\<forall>a \<in> set (override_addrs (qn_type q) vs). addr_data D a \<noteq> None"
  shows "override_loop D q ttl vs reply =
    Some (reply\<lparr>msg_rr := msg_rr reply @ map (addr_record D q ttl) (override_addrs (qn_type q) vs)\<rparr>)"
  using assms(3)
proof (induction vs arbitrary: reply)
  case Nil
  then show ?case by (simp add: override_addrs_def List.map_filter_def)
next
  case (Cons v vs)
  show ?case
  proof (cases "ip_address v")
    case None
    with Cons show ?thesis by (simp add: override_loop_Cons override_addrs_def map_filter_simps del: override_loop.simps)
  next
    case (Some a)
    show ?thesis
    proof (cases "fits_type (qn_type q) a")
      case True
      with Some have addrs: "override_addrs (qn_type q) (v # vs) = a # override_addrs (qn_type q) vs"
        by (simp add: override_addrs_def map_filter_simps)
      with Cons.prems obtain d where d: "addr_data D a = Some d" by auto
      let ?r = "\<lparr>rr_name = qn_name q, rr_type = qn_type q, rr_ttl = ttl, rr_data = d\<rparr>"
      have "override_loop D q ttl (v # vs) reply = override_loop D q ttl vs (add_answer ?r reply)"
        using Some True d by (simp add: override_loop_Cons record_okD [OF assms(1)] assms(2) del: override_loop.simps)
      also have "\<dots> = Some ((add_answer ?r reply)\<lparr>msg_rr := msg_rr (add_answer ?r reply)
            @ map (addr_record D q ttl) (override_addrs (qn_type q) vs)\<rparr>)"
        using Cons.IH Cons.prems addrs by simp
      finally show ?thesis using d by (simp add: addrs addr_record_def add_answer_def)
    next
      case False
      with Some Cons show ?thesis by (simp add: override_loop_Cons override_addrs_def map_filter_simps del: override_loop.simps)
    qed
  qed
qed

text \<open>A TTL that does not fit makes the first answer raise.\<close>

lemma override_loop_ttl:
  assumes "record_ok D" "\<not> ttl_fits ttl" "override_addrs (qn_type q) vs \<noteq> []"
  shows "override_loop D q ttl vs reply = None"
  using assms(3)
proof (induction vs arbitrary: reply)
  case (Cons v vs)
  then show ?case
    by (auto simp: override_loop_Cons override_addrs_def map_filter_simps record_okD [OF assms(1)] assms(2)
      simp del: override_loop.simps split: option.splits if_splits)
qed (simp add: override_addrs_def List.map_filter_def)

section \<open>Local answers\<close>

lemma add_addresses_spec:
  assumes "record_ok D" "add_addresses D owner qtype rs reply = Some reply'"
  shows "\<exists>as. reply' = reply\<lparr>msg_rr := msg_rr reply @ as\<rparr> \<and> length as \<le> length rs
    \<and> (\<forall>r \<in> set as. rr_name r = owner \<and> rr_type r = qtype \<and> (\<exists>l \<in> set rs. rr_ttl r = rec_ttl l
          \<and> build_addr_rdata D qtype (rec_value l) = Some (rr_data r)))"
  using assms(2)
proof (induction rs arbitrary: reply)
  case Nil
  then show ?case by (auto intro!: exI [of _ "[]"])
next
  case (Cons l rs)
  show ?case
  proof (cases "build_addr_rdata D qtype (rec_value l)")
    case None
    with Cons.prems have "add_addresses D owner qtype rs reply = Some reply'" by simp
    from Cons.IH [OF this] show ?thesis by (auto intro: le_SucI)
  next
    case (Some d)
    let ?r = "\<lparr>rr_name = owner, rr_type = qtype, rr_ttl = rec_ttl l, rr_data = d\<rparr>"
    from Cons.prems Some have "add_addresses D owner qtype rs (add_answer ?r reply) = Some reply'"
      by (simp add: record_okD [OF assms(1)] split: if_splits)
    from Cons.IH [OF this] obtain as where as: "reply' = (add_answer ?r reply)\<lparr>msg_rr := msg_rr (add_answer ?r reply) @ as\<rparr>"
      "length as \<le> length rs" "\<forall>r \<in> set as. rr_name r = owner \<and> rr_type r = qtype \<and> (\<exists>l \<in> set rs. rr_ttl r = rec_ttl l
          \<and> build_addr_rdata D qtype (rec_value l) = Some (rr_data r))" by blast
    then have "reply' = reply\<lparr>msg_rr := msg_rr reply @ (?r # as)\<rparr>" by (simp add: add_answer_def)
    with as(2,3) Some show ?thesis by (intro exI [of _ "?r # as"]) auto
  qed
qed

text \<open>A list of CNAME answers that follows the aliases of the records from a name on, and the name
  it ends at.\<close>

inductive alias_chain :: "LocalRecords \<Rightarrow> string \<Rightarrow> string \<Rightarrow> 'd dns_rr list \<Rightarrow> string \<Rightarrow> string \<Rightarrow> bool" where
  chain_end: "alias_chain records owner name [] owner name"
| chain_step: "local_cname records name = Some al \<Longrightarrow> rr_name r = owner \<Longrightarrow> rr_type r = QTYPE_CNAME \<Longrightarrow>
    rr_ttl r = rec_ttl al \<Longrightarrow> alias_chain records (rec_value al) (rec_value al) rs owner' name' \<Longrightarrow>
    alias_chain records owner name (r # rs) owner' name'"

lemma add_address_chain_spec:
  assumes "record_ok D" "add_address_chain D reply owner name qtype records depth = Some reply'"
  shows "\<exists>cn as owner' name'. reply' = reply\<lparr>msg_rr := msg_rr reply @ cn @ as\<rparr>
    \<and> length cn \<le> MAX_CNAME_DEPTH - depth \<and> alias_chain records owner name cn owner' name'
    \<and> (\<forall>r \<in> set as. rr_name r = owner' \<and> rr_type r = qtype
        \<and> (\<exists>l \<in> set (local_get records name' (if qtype = QTYPE_A then RTYPE_A else RTYPE_AAAA)).
              rr_ttl r = rec_ttl l \<and> build_addr_rdata D qtype (rec_value l) = Some (rr_data r)))"
  using assms
proof (induction D reply owner name qtype records depth rule: add_address_chain.induct)
  case (1 D reply owner name qtype records depth)
  let ?rtype = "if qtype = QTYPE_A then RTYPE_A else RTYPE_AAAA"
  note ok = "1.prems"(1)
  note eq = "1.prems"(2) [unfolded add_address_chain.simps [of D reply] Let_def]
  show ?case
  proof (cases "local_get records name ?rtype = []")
    case False
    with eq have "add_addresses D owner qtype (local_get records name ?rtype) reply = Some reply'" by simp
    from add_addresses_spec [OF ok this] obtain as where
      "reply' = reply\<lparr>msg_rr := msg_rr reply @ [] @ as\<rparr>"
      "\<forall>r \<in> set as. rr_name r = owner \<and> rr_type r = qtype \<and> (\<exists>l \<in> set (local_get records name ?rtype).
         rr_ttl r = rec_ttl l \<and> build_addr_rdata D qtype (rec_value l) = Some (rr_data r))" by auto
    then show ?thesis by (intro exI [of _ "[]"] exI [of _ as] exI [of _ owner] exI [of _ name])
      (auto intro: alias_chain.chain_end)
  next
    case empty: True
    have stop: ?thesis if "reply' = reply"
      using that by (intro exI [of _ "[]"] exI [of _ owner] exI [of _ name]) (auto intro: alias_chain.chain_end)
    show ?thesis
    proof (cases "MAX_CNAME_DEPTH \<le> depth")
      case True
      with empty eq stop show ?thesis by simp
    next
      case deep: False
      show ?thesis
      proof (cases "local_cname records name")
        case None
        with empty deep eq stop show ?thesis by simp
      next
        case (Some al)
        with empty deep eq obtain d where d: "dl_CNAME D (rec_value al) = Some d" "ttl_fits (rec_ttl al)"
          by (cases "dl_CNAME D (rec_value al)") (auto simp: record_okD [OF ok] split: if_splits)
        let ?r = "\<lparr>rr_name = owner, rr_type = QTYPE_CNAME, rr_ttl = rec_ttl al, rr_data = d\<rparr>"
        have link: "alias_chain records owner name (?r # cn) owner' name'"
          if "alias_chain records (rec_value al) (rec_value al) cn owner' name'" for cn owner' name'
          using that Some by (intro alias_chain.chain_step) simp_all
        show ?thesis
        proof (cases "local_owns records (rec_value al)")
          case False
          with empty deep eq Some d have "reply' = add_answer ?r reply" by (simp add: record_okD [OF ok])
          then show ?thesis using deep
            by (intro exI [of _ "[?r]"] exI [of _ "[]"] exI [of _ "rec_value al"])
              (auto simp: add_answer_def intro: link alias_chain.chain_end)
        next
          case True
          with empty deep eq Some d have rest: "add_address_chain D (add_answer ?r reply) (rec_value al)
              (rec_value al) qtype records (depth + 1) = Some reply'"
            by (simp add: record_okD [OF ok])
          have e: "\<not> local_get records name ?rtype \<noteq> []" using empty by simp
          have rr: "dl_RR D owner QTYPE_CNAME (rec_ttl al) d = Some ?r" using d(2) by (simp add: record_okD [OF ok])
          obtain cn as owner' name' where IH: "reply' = (add_answer ?r reply)\<lparr>msg_rr := msg_rr (add_answer ?r reply) @ cn @ as\<rparr>"
            "length cn \<le> MAX_CNAME_DEPTH - (depth + 1)"
            "alias_chain records (rec_value al) (rec_value al) cn owner' name'"
            "\<forall>r \<in> set as. rr_name r = owner' \<and> rr_type r = qtype \<and> (\<exists>l \<in> set (local_get records name' ?rtype).
                rr_ttl r = rec_ttl l \<and> build_addr_rdata D qtype (rec_value l) = Some (rr_data r))"
            using "1.IH" [OF refl refl e deep Some d(1) rr refl True ok rest] by blast
          have "reply' = reply\<lparr>msg_rr := msg_rr reply @ (?r # cn) @ as\<rparr>" using IH(1) by (simp add: add_answer_def)
          moreover have "length (?r # cn) \<le> MAX_CNAME_DEPTH - depth" using IH(2) deep by simp
          ultimately show ?thesis using link [OF IH(3)] IH(4) by blast
        qed
      qed
    qed
  qed
qed

section \<open>What a query changes\<close>

text \<open>The parts of the state that screening leaves alone.\<close>

definition same_records :: "'b resolver_state \<Rightarrow> 'b resolver_state \<Rightarrow> bool" where
  "same_records s t \<longleftrightarrow> rs_state t = rs_state s \<and> rs_buffer t = rs_buffer s \<and> rs_stats t = rs_stats s
     \<and> rs_requests t = rs_requests s \<and> rs_events t = rs_events s \<and> rs_foreign t = rs_foreign s"

lemma same_records_refl [simp]: "same_records s s"
  by (simp add: same_records_def)

lemma same_records_update [simp]:
  "same_records s (t\<lparr>rs_cache := c\<rparr>) = same_records s t" "same_records s (t\<lparr>rs_rtt := r\<rparr>) = same_records s t"
  "same_records s (skip_cache E client name qtype reason ttl t) = same_records s t"
  "same_records s (record_outcome E reason t) = same_records s t"
  by (simp_all add: same_records_def skip_cache_def record_outcome_def)

lemma same_records_forward: "same_records s t \<Longrightarrow> same_records s (snd (forward D E rq settings t))"
  by (simp add: forward_def Let_def split: prod.split)

lemma same_records_store: "same_records s t \<Longrightarrow> same_records s (snd (store_reply D E key reply ttl t))"
  by (simp add: store_reply_def split: option.split)

lemma same_records_negative: "same_records s t \<Longrightarrow> same_records s (snd (cache_negative D E key reply settings t))"
  by (simp add: cache_negative_def same_records_store split: option.split)

lemma same_records_negative_or_skip:
  "same_records s t \<Longrightarrow> same_records s (snd (cache_negative_or_skip D E key reply name qtype settings client reason t))"
  using same_records_negative [of s t D E key reply settings]
  by (auto simp: cache_negative_or_skip_def split: prod.splits option.splits bool.splits)

lemma same_records_cache:
  "same_records s t \<Longrightarrow> same_records s (snd (cache_or_record_skip D E key reply name qtype settings client t))"
  using same_records_store [of s t D E key reply "compute_ttl reply settings"]
  by (auto simp: cache_or_record_skip_def Let_def same_records_negative_or_skip split: prod.splits option.splits)

lemma same_records_forward_and_cache:
  "same_records s t \<Longrightarrow> same_records s (snd (forward_and_cache D E rq settings client t))"
proof -
  assume t: "same_records s t"
  obtain reply u where f: "forward D E rq settings t = (reply, u)" by (metis prod.exhaust)
  have u: "same_records s u" using same_records_forward [OF t, of D E rq settings] f by simp
  show ?thesis
  proof (cases reply)
    case None
    with f u show ?thesis by (simp add: forward_and_cache_def Let_def)
  next
    case (Some m)
    let ?c = "cache_or_record_skip D E (cache_key (qn_name (msg_q rq)) (qn_type (msg_q rq)) (qn_class (msg_q rq))) m
        (normalize_domain (qn_name (msg_q rq))) (qtype_name D (qn_type (msg_q rq))) settings client u"
    have "same_records s (snd ?c)" using u by (rule same_records_cache)
    with f Some u show ?thesis
      by (auto simp: forward_and_cache_def Let_def split: prod.split option.split)
  qed
qed

lemma same_records_screen: "same_records s (snd (screen D E rq client s))"
proof -
  have "same_records s (snd (forward_or_cache D E rq settings client s))" for settings
    by (simp add: forward_or_cache_def Let_def same_records_forward_and_cache split: prod.split option.split)
  then show ?thesis
    by (simp add: screen_def Let_def resolve_local_or_forward_def split: option.split)
qed

section \<open>Queries that stay local\<close>

text \<open>The queries that are answered without cache and network.\<close>

definition policy_action :: "RuntimeState \<Rightarrow> string \<Rightarrow> string \<Rightarrow> string" where
  "policy_action st client qname =
     (case select_policy (rt_policies st) client qname of
        Some r \<Rightarrow> rule_action r | None \<Rightarrow> default_action (rt_settings st))"

definition stays_local :: "'d dns_msg \<Rightarrow> string \<Rightarrow> RuntimeState \<Rightarrow> bool" where
  "stays_local rq client st \<longleftrightarrow>
     (let q = msg_q rq; name = normalize_domain (qn_name q) in
      private_ptr_drop rq st
    \<or> qn_type q = QTYPE_AAAA \<and> \<not> ipv6_enabled (rt_settings st)
    \<or> policy_action st client (qn_name q) = ACTION_OVERRIDE \<and> select_policy (rt_policies st) client (qn_name q) \<noteq> None
    \<or> policy_action st client (qn_name q) = ACTION_DENY
    \<or> client \<notin> rt_blocklist_excluded st \<and> is_blocked (rt_blocklist st) name
    \<or> local_owns (rt_local_records st) name)"

lemma local_answer_owned:
  "local_owns records (normalize_domain (qn_name (msg_q rq))) \<Longrightarrow> local_answer D rq records \<noteq> Some None"
  by (auto simp: local_answer_def Let_def)

lemma screen_stays_local:
  assumes "stays_local rq client (rs_state s)" "\<not> private_ptr_drop rq (rs_state s)"
  shows "\<exists>r. \<forall>E. screen D E rq client s = (r, s)"
proof -
  let ?st = "rs_state s" and ?q = "msg_q rq"
  let ?rule = "select_policy (rt_policies ?st) client (qn_name ?q)"
  have action: "(case ?rule of Some r \<Rightarrow> rule_action r | None \<Rightarrow> default_action (rt_settings ?st))
      = policy_action ?st client (qn_name ?q)" by (simp add: policy_action_def)
  note eq = screen_def [where D = D and request = rq and client_ip = client and self = s, unfolded Let_def action]
  consider (ipv6) "qn_type ?q = QTYPE_AAAA \<and> \<not> ipv6_enabled (rt_settings ?st)"
    | (over) "\<not> (qn_type ?q = QTYPE_AAAA \<and> \<not> ipv6_enabled (rt_settings ?st))"
        "policy_action ?st client (qn_name ?q) = ACTION_OVERRIDE \<and> ?rule \<noteq> None"
    | (deny) "\<not> (qn_type ?q = QTYPE_AAAA \<and> \<not> ipv6_enabled (rt_settings ?st))"
        "\<not> (policy_action ?st client (qn_name ?q) = ACTION_OVERRIDE \<and> ?rule \<noteq> None)"
        "policy_action ?st client (qn_name ?q) = ACTION_DENY"
    | (block) "\<not> (qn_type ?q = QTYPE_AAAA \<and> \<not> ipv6_enabled (rt_settings ?st))"
        "\<not> (policy_action ?st client (qn_name ?q) = ACTION_OVERRIDE \<and> ?rule \<noteq> None)"
        "policy_action ?st client (qn_name ?q) \<noteq> ACTION_DENY"
        "client \<notin> rt_blocklist_excluded ?st \<and> is_blocked (rt_blocklist ?st) (normalize_domain (qn_name ?q))"
    | (owned) "\<not> (qn_type ?q = QTYPE_AAAA \<and> \<not> ipv6_enabled (rt_settings ?st))"
        "\<not> (policy_action ?st client (qn_name ?q) = ACTION_OVERRIDE \<and> ?rule \<noteq> None)"
        "policy_action ?st client (qn_name ?q) \<noteq> ACTION_DENY"
        "\<not> (client \<notin> rt_blocklist_excluded ?st \<and> is_blocked (rt_blocklist ?st) (normalize_domain (qn_name ?q)))"
        "local_owns (rt_local_records ?st) (normalize_domain (qn_name ?q))"
    using assms unfolding stays_local_def Let_def by argo
  then show ?thesis
  proof cases
    case ipv6
    then show ?thesis unfolding eq by simp
  next
    case over
    show ?thesis unfolding eq if_not_P [OF over(1)] if_P [OF over(2)] by blast
  next
    case deny
    show ?thesis unfolding eq if_not_P [OF deny(1)] if_not_P [OF deny(2)] if_P [OF deny(3)] by blast
  next
    case block
    show ?thesis
      unfolding eq if_not_P [OF block(1)] if_not_P [OF block(2)] if_not_P [OF block(3)] if_P [OF block(4)] by blast
  next
    case owned
    obtain r where "local_answer D rq (rt_local_records ?st) = None
        \<or> local_answer D rq (rt_local_records ?st) = Some (Some r)"
      using local_answer_owned [OF owned(5), of D] by (metis option.exhaust)
    then have "\<exists>x. \<forall>E settings. resolve_local_or_forward D E rq settings client s = (x, s)"
      by (auto simp: resolve_local_or_forward_def)
    then show ?thesis
      unfolding eq if_not_P [OF owned(1)] if_not_P [OF owned(2)] if_not_P [OF owned(3)] if_not_P [OF owned(4)]
      by blast
  qed
qed

section \<open>Outcomes\<close>

text \<open>Storing or skipping a forwarded answer adds one outcome; a reason other than \<open>cached\<close> is
  also noted with the client, and leaves the cache alone.\<close>

definition one_outcome :: "('d, 'b) query_env \<Rightarrow> string \<Rightarrow> string \<Rightarrow> string
    \<Rightarrow> 'b resolver_state \<Rightarrow> 'b resolver_state \<Rightarrow> bool" where
  "one_outcome E client name qtype s t \<longleftrightarrow> (\<exists>reason \<in> set CACHE_OUTCOME_REASONS.
     rs_outcomes t = co_add (ev_outcome_now E, reason) (rs_outcomes s)
     \<and> (if reason = OUTCOME_CACHED then rs_uncached t = rs_uncached s
        else rs_cache t = rs_cache s
           \<and> (\<exists>ttl. rs_uncached t = uc_add ((client, name, qtype, reason), ttl) (rs_uncached s))))"

lemma one_outcome_skip:
  "reason \<in> set CACHE_OUTCOME_REASONS \<Longrightarrow> reason \<noteq> OUTCOME_CACHED \<Longrightarrow>
   one_outcome E client name qtype s (skip_cache E client name qtype reason ttl s)"
  by (auto simp: one_outcome_def skip_cache_def record_outcome_def)

lemma one_outcome_store:
  "store_reply D E key reply ttl s = (Some b, t) \<Longrightarrow> one_outcome E client name qtype s t \<and> b"
proof -
  assume st: "store_reply D E key reply ttl s = (Some b, t)"
  then obtain packed where t: "t = record_outcome E OUTCOME_CACHED
      (s\<lparr>rs_cache := cache_set (ev_cache_set E) key packed ttl (rs_cache s)\<rparr>)" and b: b
    by (cases "dl_pack D reply") (auto simp: store_reply_def)
  have "OUTCOME_CACHED \<in> set CACHE_OUTCOME_REASONS" by (simp add: CACHE_OUTCOME_REASONS_def)
  then have "one_outcome E client name qtype s t"
    unfolding one_outcome_def t by (rule bexI [rotated]) (simp add: record_outcome_def)
  with b show ?thesis by blast
qed

lemma reasons:
  "OUTCOME_NXDOMAIN \<in> set CACHE_OUTCOME_REASONS" "OUTCOME_NXDOMAIN \<noteq> OUTCOME_CACHED"
  "OUTCOME_NODATA \<in> set CACHE_OUTCOME_REASONS" "OUTCOME_NODATA \<noteq> OUTCOME_CACHED"
  "OUTCOME_ERROR \<in> set CACHE_OUTCOME_REASONS" "OUTCOME_ERROR \<noteq> OUTCOME_CACHED"
  "OUTCOME_ZERO_TTL \<in> set CACHE_OUTCOME_REASONS" "OUTCOME_ZERO_TTL \<noteq> OUTCOME_CACHED"
  "OUTCOME_UPSTREAM_FAILURE \<in> set CACHE_OUTCOME_REASONS" "OUTCOME_UPSTREAM_FAILURE \<noteq> OUTCOME_CACHED"
  by (simp_all add: CACHE_OUTCOME_REASONS_def outcome_defs)

lemma one_outcome_skips [simp]:
  "one_outcome E client name qtype s (skip_cache E client name qtype OUTCOME_NXDOMAIN ttl s)"
  "one_outcome E client name qtype s (skip_cache E client name qtype OUTCOME_NODATA ttl s)"
  "one_outcome E client name qtype s (skip_cache E client name qtype OUTCOME_ERROR ttl s)"
  "one_outcome E client name qtype s (skip_cache E client name qtype OUTCOME_ZERO_TTL ttl s)"
  "one_outcome E client name qtype s (skip_cache E client name qtype OUTCOME_UPSTREAM_FAILURE ttl s)"
  by (simp_all add: one_outcome_skip reasons)

lemma cache_negative_cases:
  assumes "cache_negative D E key reply settings s = (Some b, t)"
  shows "if b then one_outcome E client name qtype s t else t = s"
proof (cases "negative_ttl D reply settings")
  case None
  with assms show ?thesis by (simp add: cache_negative_def)
next
  case (Some n)
  show ?thesis
  proof (cases n)
    case None
    with Some assms show ?thesis by (auto simp: cache_negative_def)
  next
    case (Some ttl)
    with \<open>negative_ttl D reply settings = Some n\<close> assms show ?thesis
      using one_outcome_store [of D E key reply ttl s b t client name qtype]
      by (cases "ttl \<le> 0") (auto simp: cache_negative_def)
  qed
qed

lemma one_outcome_negative_or_skip:
  assumes "cache_negative_or_skip D E key reply name qtype settings client reason s = (Some u, t)"
    and "reason \<in> set CACHE_OUTCOME_REASONS" "reason \<noteq> OUTCOME_CACHED"
  shows "one_outcome E client name qtype s t"
proof -
  obtain b s' where n: "cache_negative D E key reply settings s = (b, s')" by (metis prod.exhaust)
  show ?thesis
  proof (cases b)
    case None
    with assms(1) n show ?thesis by (simp add: cache_negative_or_skip_def)
  next
    case (Some c)
    from cache_negative_cases [of D E key reply settings s c s'] n Some assms(1) show ?thesis
      using one_outcome_skip [OF assms(2,3)] by (cases c) (auto simp: cache_negative_or_skip_def)
  qed
qed

lemma one_outcome_cache:
  assumes "cache_or_record_skip D E key reply name qtype settings client s = (Some u, t)"
  shows "one_outcome E client name qtype s t"
proof -
  consider "msg_rcode reply = RCODE_NXDOMAIN"
    | "msg_rcode reply \<noteq> RCODE_NXDOMAIN" "msg_rcode reply \<noteq> RCODE_NOERROR"
    | "msg_rcode reply = RCODE_NOERROR" "msg_rr reply = []"
    | "msg_rcode reply = RCODE_NOERROR" "msg_rr reply \<noteq> []" "\<not> 0 < compute_ttl reply settings"
    | "msg_rcode reply = RCODE_NOERROR" "msg_rr reply \<noteq> []" "0 < compute_ttl reply settings" by blast
  then show ?thesis
  proof cases
    case 1
    with assms have "cache_negative_or_skip D E key reply name qtype settings client OUTCOME_NXDOMAIN s = (Some u, t)"
      by (simp add: cache_or_record_skip_def)
    then show ?thesis by (rule one_outcome_negative_or_skip [OF _ reasons(1,2)])
  next
    case 3
    with assms have "cache_negative_or_skip D E key reply name qtype settings client OUTCOME_NODATA s = (Some u, t)"
      by (simp add: cache_or_record_skip_def rcode_defs)
    then show ?thesis by (rule one_outcome_negative_or_skip [OF _ reasons(3,4)])
  next
    case 5
    obtain b s' where st: "store_reply D E key reply (compute_ttl reply settings) s = (b, s')" by (metis prod.exhaust)
    with 5 assms have "b \<noteq> None" "t = s'"
      by (cases b; simp add: cache_or_record_skip_def rcode_defs Let_def)+
    with st one_outcome_store [of D E key reply "compute_ttl reply settings" s _ s'] show ?thesis by blast
  qed (use assms in \<open>auto simp: cache_or_record_skip_def Let_def rcode_defs\<close>)
qed

lemma forward_frame:
  "forward D E rq settings s = (r, t) \<Longrightarrow> rs_outcomes t = rs_outcomes s \<and> rs_uncached t = rs_uncached s \<and> rs_cache t = rs_cache s"
  by (auto simp: forward_def Let_def split: prod.splits if_splits)

lemma one_outcome_base:
  "one_outcome E client name qtype s t \<Longrightarrow> rs_outcomes s = rs_outcomes s0 \<Longrightarrow> rs_uncached s = rs_uncached s0
   \<Longrightarrow> rs_cache s = rs_cache s0 \<Longrightarrow> one_outcome E client name qtype s0 t"
  by (simp only: one_outcome_def)

lemma forward_and_cache_outcome:
  assumes "forward_and_cache D E rq settings client s = (Some (reply, result), t)"
  shows "result \<in> {''forward'', ''servfail''} \<and>
    (if cache_enabled settings
     then one_outcome E client (normalize_domain (qn_name (msg_q rq))) (qtype_name D (qn_type (msg_q rq))) s t
     else rs_outcomes t = rs_outcomes s \<and> rs_uncached t = rs_uncached s \<and> rs_cache t = rs_cache s)"
proof -
  obtain f u where f: "forward D E rq settings s = (f, u)" by (metis prod.exhaust)
  note fr = forward_frame [OF f]
  show ?thesis
  proof (cases f)
    case None
    with f fr assms show ?thesis
      by (auto simp: forward_and_cache_def Let_def split: if_splits intro: one_outcome_base [OF one_outcome_skips(5)])
  next
    case (Some m)
    show ?thesis
    proof (cases "cache_enabled settings")
      case False
      with Some f fr assms show ?thesis by (auto simp: forward_and_cache_def Let_def)
    next
      case True
      let ?key = "cache_key (qn_name (msg_q rq)) (qn_type (msg_q rq)) (qn_class (msg_q rq))"
      let ?n = "normalize_domain (qn_name (msg_q rq))" and ?ty = "qtype_name D (qn_type (msg_q rq))"
      obtain b v where c: "cache_or_record_skip D E ?key m ?n ?ty settings client u = (b, v)" by (metis prod.exhaust)
      with True Some f assms have "b \<noteq> None" "v = t" "result = ''forward''"
        by (cases b; simp add: forward_and_cache_def Let_def)+
      with c have "one_outcome E client ?n ?ty u t" by (auto intro: one_outcome_cache)
      with fr True \<open>result = ''forward''\<close> show ?thesis by (auto intro: one_outcome_base)
    qed
  qed
qed

lemma forward_or_cache_outcome:
  assumes "forward_or_cache D E rq settings client s = (Some (reply, result), t)"
  shows "if result \<in> {''forward'', ''servfail''} \<and> cache_enabled settings
    then \<exists>s'. rs_outcomes s' = rs_outcomes s \<and> rs_uncached s' = rs_uncached s
      \<and> one_outcome E client (normalize_domain (qn_name (msg_q rq))) (qtype_name D (qn_type (msg_q rq))) s' t
    else rs_outcomes t = rs_outcomes s \<and> rs_uncached t = rs_uncached s"
proof (cases "cache_enabled settings")
  case False
  with assms forward_and_cache_outcome [of D E rq settings client s reply result t] show ?thesis
    by (simp add: forward_or_cache_def)
next
  case True
  let ?key = "cache_key (qn_name (msg_q rq)) (qn_type (msg_q rq)) (qn_class (msg_q rq))"
  obtain entry c where g: "cache_get (ev_cache_get E) ?key (rs_cache s) = (entry, c)" by (metis prod.exhaust)
  show ?thesis
  proof (cases entry)
    case None
    with True g assms have "forward_and_cache D E rq settings client (s\<lparr>rs_cache := c\<rparr>) = (Some (reply, result), t)"
      by (simp add: forward_or_cache_def Let_def)
    from forward_and_cache_outcome [OF this] True show ?thesis
      by (auto intro!: exI [of _ "s\<lparr>rs_cache := c\<rparr>"])
  next
    case (Some e)
    with True g assms show ?thesis by (auto simp: forward_or_cache_def Let_def)
  qed
qed

lemma screen_outcome:
  assumes "screen D E rq client s = (Some (reply, result), t)"
  shows "if result \<in> {''forward'', ''servfail''} \<and> cache_enabled (rt_settings (rs_state s))
    then \<exists>s'. rs_outcomes s' = rs_outcomes s \<and> rs_uncached s' = rs_uncached s
      \<and> one_outcome E client (normalize_domain (qn_name (msg_q rq))) (qtype_name D (qn_type (msg_q rq))) s' t
    else rs_outcomes t = rs_outcomes s \<and> rs_uncached t = rs_uncached s"
proof -
  consider "t = s" "result \<notin> {''forward'', ''servfail''}"
    | "forward_or_cache D E rq (rt_settings (rs_state s)) client s = (Some (reply, result), t)"
    using assms
    by (auto simp: screen_def Let_def resolve_local_or_forward_def split: if_splits option.splits)
  then show ?thesis
  proof cases
    case 2
    then show ?thesis by (rule forward_or_cache_outcome)
  qed simp
qed

section \<open>Stored entries\<close>

text \<open>What an entry of the answer cache holds.\<close>

definition stored_ok :: "('d, 'b) dnslib \<Rightarrow> RuntimeSettings \<Rightarrow> 'd dns_msg \<Rightarrow> 'b CacheEntry \<Rightarrow> bool" where
  "stored_ok D settings reply e \<longleftrightarrow> dl_pack D reply = Some (ce_value e) \<and> 0 < ce_ttl e \<and>
     (msg_rcode reply = RCODE_NOERROR \<and> msg_rr reply \<noteq> [] \<and> ce_ttl e = compute_ttl reply settings
      \<or> (msg_rcode reply = RCODE_NXDOMAIN \<or> msg_rcode reply = RCODE_NOERROR \<and> msg_rr reply = [])
        \<and> negative_ttl D reply settings = Some (Some (ce_ttl e)))"

definition cache_grows :: "('d, 'b) dnslib \<Rightarrow> RuntimeSettings \<Rightarrow> string \<Rightarrow> 'b TTLCache \<Rightarrow> 'b TTLCache \<Rightarrow> bool" where
  "cache_grows D settings key c c' \<longleftrightarrow> (\<forall>(k, e) \<in> set (cache_data c').
     (k, e) \<in> set (cache_data c) \<or> k = key \<and> (\<exists>reply. stored_ok D settings reply e))"

lemma cache_grows_refl [simp]: "cache_grows D settings key c c"
  by (auto simp: cache_grows_def)

lemma store_reply_grows:
  assumes "0 < ttl" "msg_rcode reply = RCODE_NOERROR \<and> msg_rr reply \<noteq> [] \<and> ttl = compute_ttl reply settings
      \<or> (msg_rcode reply = RCODE_NXDOMAIN \<or> msg_rcode reply = RCODE_NOERROR \<and> msg_rr reply = [])
        \<and> negative_ttl D reply settings = Some (Some ttl)"
  shows "cache_grows D settings key (rs_cache s) (rs_cache (snd (store_reply D E key reply ttl s)))"
proof (cases "dl_pack D reply")
  case None
  then show ?thesis by (simp add: store_reply_def)
next
  case (Some packed)
  let ?e = "\<lparr>ce_value = packed, inserted_at = ev_cache_set E,
     expires_at = ev_cache_set E + ttl * nsec_per_sec, ce_ttl = ttl\<rparr>"
  have "stored_ok D settings reply ?e" using Some assms by (simp add: stored_ok_def)
  moreover have "rs_cache (snd (store_reply D E key reply ttl s)) = cache_set (ev_cache_set E) key packed ttl (rs_cache s)"
    using Some by (simp add: store_reply_def record_outcome_def)
  ultimately show ?thesis
    using cache_set_subset [of "ev_cache_set E" key packed ttl "rs_cache s"] by (auto simp: cache_grows_def)
qed

lemma skip_cache_cache [simp]: "rs_cache (skip_cache E client name qtype reason ttl s) = rs_cache s"
  by (simp add: skip_cache_def record_outcome_def)

lemma cache_negative_grows:
  assumes "msg_rcode reply = RCODE_NXDOMAIN \<or> msg_rcode reply = RCODE_NOERROR \<and> msg_rr reply = []"
  shows "cache_grows D settings key (rs_cache s) (rs_cache (snd (cache_negative D E key reply settings s)))"
proof (cases "\<exists>ttl. negative_ttl D reply settings = Some (Some ttl) \<and> 0 < ttl")
  case True
  then obtain ttl where ttl: "negative_ttl D reply settings = Some (Some ttl)" "0 < ttl" by blast
  with assms have "cache_grows D settings key (rs_cache s) (rs_cache (snd (store_reply D E key reply ttl s)))"
    by (intro store_reply_grows) blast+
  with ttl show ?thesis by (simp add: cache_negative_def)
next
  case False
  then have "snd (cache_negative D E key reply settings s) = s"
    by (auto simp: cache_negative_def split: option.split)
  then show ?thesis by simp
qed

lemma cache_or_record_grows:
  "cache_grows D settings key (rs_cache s) (rs_cache (snd (cache_or_record_skip D E key reply name qtype settings client s)))"
proof -
  have neg: "cache_grows D settings key (rs_cache s)
      (rs_cache (snd (cache_negative_or_skip D E key reply name qtype settings client reason s)))"
    if "msg_rcode reply = RCODE_NXDOMAIN \<or> msg_rcode reply = RCODE_NOERROR \<and> msg_rr reply = []" for reason
    using cache_negative_grows [OF that, of D settings key s E]
    by (auto simp: cache_negative_or_skip_def split: prod.splits option.splits bool.splits)
  consider "msg_rcode reply = RCODE_NXDOMAIN"
    | "msg_rcode reply \<noteq> RCODE_NXDOMAIN" "msg_rcode reply \<noteq> RCODE_NOERROR"
    | "msg_rcode reply = RCODE_NOERROR" "msg_rr reply = []"
    | "msg_rcode reply = RCODE_NOERROR" "msg_rr reply \<noteq> []" "\<not> 0 < compute_ttl reply settings"
    | "msg_rcode reply = RCODE_NOERROR" "msg_rr reply \<noteq> []" "0 < compute_ttl reply settings" by blast
  then show ?thesis
  proof cases
    case 1
    then show ?thesis using neg by (simp add: cache_or_record_skip_def)
  next
    case 3
    then show ?thesis using neg by (simp add: cache_or_record_skip_def rcode_defs)
  next
    case 5
    have "cache_grows D settings key (rs_cache s) (rs_cache (snd (store_reply D E key reply (compute_ttl reply settings) s)))"
      using 5 by (intro store_reply_grows) blast+
    with 5 show ?thesis
      by (auto simp: cache_or_record_skip_def rcode_defs Let_def split: prod.splits option.splits)
  qed (simp_all add: cache_or_record_skip_def Let_def rcode_defs)
qed

lemma forward_and_cache_grows:
  "cache_grows D settings (cache_key (qn_name (msg_q rq)) (qn_type (msg_q rq)) (qn_class (msg_q rq))) (rs_cache s)
     (rs_cache (snd (forward_and_cache D E rq settings client s)))"
proof -
  let ?key = "cache_key (qn_name (msg_q rq)) (qn_type (msg_q rq)) (qn_class (msg_q rq))"
  obtain f u where f: "forward D E rq settings s = (f, u)" by (metis prod.exhaust)
  have c: "rs_cache u = rs_cache s" using forward_frame [OF f] by blast
  show ?thesis
  proof (cases f)
    case None
    with f c show ?thesis by (simp add: forward_and_cache_def Let_def)
  next
    case (Some m)
    from cache_or_record_grows [of D settings ?key u E m "normalize_domain (qn_name (msg_q rq))"
        "qtype_name D (qn_type (msg_q rq))" client] c f Some show ?thesis
      by (auto simp: forward_and_cache_def Let_def split: prod.split option.split)
  qed
qed

lemma screen_grows:
  "cache_grows D (rt_settings (rs_state s)) (cache_key (qn_name (msg_q rq)) (qn_type (msg_q rq)) (qn_class (msg_q rq)))
     (rs_cache s) (rs_cache (snd (screen D E rq client s)))"
proof -
  let ?set = "rt_settings (rs_state s)"
  let ?key = "cache_key (qn_name (msg_q rq)) (qn_type (msg_q rq)) (qn_class (msg_q rq))"
  obtain entry c where g: "cache_get (ev_cache_get E) ?key (rs_cache s) = (entry, c)" by (metis prod.exhaust)
  have sub: "set (cache_data c) \<subseteq> set (cache_data (rs_cache s))" using cache_get_data [OF g] by blast
  have "cache_grows D ?set ?key (rs_cache s) (rs_cache (snd (forward_or_cache D E rq ?set client s)))"
  proof (cases "cache_enabled ?set \<and> entry \<noteq> None")
    case True
    with g have "rs_cache (snd (forward_or_cache D E rq ?set client s)) = c"
      by (auto simp: forward_or_cache_def Let_def)
    with sub show ?thesis by (auto simp: cache_grows_def)
  next
    case False
    with g forward_and_cache_grows [of D ?set rq s E client] forward_and_cache_grows [of D ?set rq "s\<lparr>rs_cache := c\<rparr>" E client] sub
    show ?thesis by (cases "cache_enabled ?set") (auto simp: forward_or_cache_def Let_def cache_grows_def)
  qed
  then show ?thesis
    by (auto simp: screen_def Let_def resolve_local_or_forward_def split: option.split)
qed

end
