(* ===== verification/Hosts.thy ===== *)
theory Hosts
  imports BufferSpec
begin

text \<open>
  The registry of client hosts: \<open>domain/hosts.py\<close>. The tracker counts queries per address and
  notes new addresses; the flush thread writes the counts and reports the new addresses, and
  the refresh thread reloads the known addresses. The methods are modelled as they run
  undisturbed; the inductive relation \<open>host_step\<close> interleaves them at the points where they
  release the lock. The lemmas show that no host is ever missed in any interleaving, that each is
  reported once when flushes and refreshes do not overlap, and that they can overlap so that
  a host is reported twice.
\<close>

section \<open>The tracker\<close>

record HostTracker =
  ht_flush_seconds :: int
  ht_refresh_seconds :: int
  ht_pending :: "(string, int) dict"
  ht_pending_new :: "string set"
  ht_known :: "string set"
  ht_stop :: bool

definition HostTracker_init :: "int \<Rightarrow> int \<Rightarrow> HostTracker" where
  "HostTracker_init flush_seconds refresh_seconds =
     \<lparr>ht_flush_seconds = max 1 flush_seconds, ht_refresh_seconds = max 1 refresh_seconds,
      ht_pending = [], ht_pending_new = {}, ht_known = {}, ht_stop = False\<rparr>"

definition ht_record :: "string \<Rightarrow> HostTracker \<Rightarrow> HostTracker" where
  "ht_record ip self =
     (let self = self\<lparr>ht_pending := dict_set ip (dict_get (ht_pending self) ip 0 + 1) (ht_pending self)\<rparr>
      in if ip \<notin> ht_known self
         then self\<lparr>ht_known := insert ip (ht_known self), ht_pending_new := insert ip (ht_pending_new self)\<rparr>
         else self)"

definition known_hosts :: "HostTracker \<Rightarrow> string set" where
  "known_hosts self = ht_known self"

text \<open>What \<open>refresh\<close> does with the addresses it has loaded.\<close>

definition ht_apply_refresh :: "string set \<Rightarrow> HostTracker \<Rightarrow> HostTracker" where
  "ht_apply_refresh known self = self\<lparr>ht_known := known \<union> set (dict_keys (ht_pending self))\<rparr>"

definition ht_refresh :: "('db \<Rightarrow> string set option) \<Rightarrow> HostTracker \<times> 'db \<Rightarrow> (HostTracker \<times> 'db) option" where
  "ht_refresh load_fn st = map_option (\<lambda>known. (ht_apply_refresh known (fst st), snd st)) (load_fn (snd st))"

text \<open>The part of \<open>flush\<close> under the lock, and the whole method.\<close>

definition ht_take :: "HostTracker \<Rightarrow> (string, int) dict \<times> string set \<times> HostTracker" where
  "ht_take self = (ht_pending self, ht_pending_new self, self\<lparr>ht_pending := [], ht_pending_new := {}\<rparr>)"

definition ht_flush :: "((string, int) dict \<Rightarrow> 'db \<Rightarrow> 'db option) \<Rightarrow> (string set \<Rightarrow> 'db \<Rightarrow> 'db option) option
    \<Rightarrow> HostTracker \<times> 'db \<Rightarrow> HostTracker \<times> 'db" where
  "ht_flush flush_fn on_discover st =
     (case ht_take (fst st) of (snapshot, discovered, self) \<Rightarrow>
       let db = (if snapshot \<noteq> [] then deliver flush_fn snapshot (snd st) else snd st);
           db = (case on_discover of
                   Some callback \<Rightarrow> if discovered \<noteq> {} then deliver callback discovered db else db
                 | None \<Rightarrow> db)
       in (self, db))"

definition ht_flush_loop where
  "ht_flush_loop flush_fn on_discover waits st = timer_loop (ht_flush flush_fn on_discover) waits st"

text \<open>The refresh loop runs its body before the first wait; its exceptions are swallowed.\<close>

definition ht_refresh_loop where
  "ht_refresh_loop load_fn waits st =
     (let body = (\<lambda>st. case ht_refresh load_fn st of None \<Rightarrow> st | Some st' \<Rightarrow> st')
      in timer_loop body waits (body st))"

definition ht_stop_tracker where
  "ht_stop_tracker flush_fn on_discover st = ht_flush flush_fn on_discover (fst st\<lparr>ht_stop := True\<rparr>, snd st)"

section \<open>Interleavings\<close>

text \<open>
  The system: the tracker, the addresses in the database, the flushes between their lock and their
  write, the flushes between their write and their report (the one of \<open>stop\<close> may overlap with that of the
  timer), a refresh between its load and its lock, the reports so far, and (as history) every address recorded.
\<close>

record host_sys =
  hs_self :: HostTracker
  hs_db :: "string set"
  hs_writing :: "((string, int) dict \<times> string set) list"
  hs_reporting :: "string set list"
  hs_loaded :: "string set option"
  hs_reports :: "string set list"
  hs_recorded :: "string set"

inductive host_step :: "host_sys \<Rightarrow> host_sys \<Rightarrow> bool" where
  record_host:
  "host_step s (s\<lparr>hs_self := ht_record ip (hs_self s), hs_recorded := insert ip (hs_recorded s)\<rparr>)"
| flush_take:
  "ht_take (hs_self s) = (snapshot, discovered, self) \<Longrightarrow>
   host_step s (s\<lparr>hs_self := self, hs_writing := hs_writing s @ [(snapshot, discovered)]\<rparr>)"
| flush_write:
  "hs_writing s = before @ (snapshot, discovered) # after \<Longrightarrow>
   host_step s (s\<lparr>hs_writing := before @ after, hs_reporting := hs_reporting s @ [discovered],
     hs_db := hs_db s \<union> set (dict_keys snapshot)\<rparr>)"
| flush_write_failed:
  "hs_writing s = before @ (snapshot, discovered) # after \<Longrightarrow>
   host_step s (s\<lparr>hs_writing := before @ after, hs_reporting := hs_reporting s @ [discovered]\<rparr>)"
| flush_report:
  "hs_reporting s = before @ discovered # after \<Longrightarrow>
   host_step s (s\<lparr>hs_reporting := before @ after,
     hs_reports := (if discovered \<noteq> {} then hs_reports s @ [discovered] else hs_reports s)\<rparr>)"
| refresh_load:
  "hs_loaded s = None \<Longrightarrow> host_step s (s\<lparr>hs_loaded := Some (hs_db s)\<rparr>)"
| refresh_apply:
  "hs_loaded s = Some known \<Longrightarrow>
   host_step s (s\<lparr>hs_loaded := None, hs_self := ht_apply_refresh known (hs_self s)\<rparr>)"

definition host_start :: "int \<Rightarrow> int \<Rightarrow> string set \<Rightarrow> host_sys" where
  "host_start flush_seconds refresh_seconds db =
     \<lparr>hs_self = HostTracker_init flush_seconds refresh_seconds, hs_db = db, hs_writing = [],
      hs_reporting = [], hs_loaded = None, hs_reports = [], hs_recorded = {}\<rparr>"

section \<open>Lemmas\<close>

lemma ht_record_fields:
  "set (dict_keys (ht_pending (ht_record ip s))) = insert ip (set (dict_keys (ht_pending s)))"
  "ht_known (ht_record ip s) = insert ip (ht_known s)"
  "ht_pending_new (ht_record ip s) = (if ip \<in> ht_known s then ht_pending_new s else insert ip (ht_pending_new s))"
  by (auto simp: ht_record_def Let_def fst_dict_set)

text \<open>Addresses accounted for: stored at the start, or in one of the stages of a report.\<close>

definition accounted :: "string set \<Rightarrow> host_sys \<Rightarrow> string set" where
  "accounted db0 s = db0 \<union> ht_pending_new (hs_self s)
     \<union> \<Union> (snd ` set (hs_writing s)) \<union> \<Union> (set (hs_reporting s)) \<union> \<Union> (set (hs_reports s))"

definition host_inv :: "string set \<Rightarrow> host_sys \<Rightarrow> bool" where
  "host_inv db0 s \<longleftrightarrow>
     hs_recorded s \<subseteq> accounted db0 s
   \<and> accounted db0 s \<subseteq> db0 \<union> hs_recorded s
   \<and> ht_pending_new (hs_self s) \<subseteq> set (dict_keys (ht_pending (hs_self s)))
   \<and> set (dict_keys (ht_pending (hs_self s))) \<subseteq> ht_known (hs_self s)
   \<and> ht_known (hs_self s) \<subseteq> db0 \<union> hs_recorded s
   \<and> hs_db s \<subseteq> db0 \<union> hs_recorded s
   \<and> (\<forall>w \<in> set (hs_writing s). set (dict_keys (fst w)) \<subseteq> hs_recorded s)
   \<and> set (dict_keys (ht_pending (hs_self s))) \<subseteq> hs_recorded s
   \<and> (case hs_loaded s of None \<Rightarrow> True | Some known \<Rightarrow> known \<subseteq> db0 \<union> hs_recorded s)"

inductive_cases host_stepE: "host_step s t"

lemma host_inv_start: "host_inv db (host_start a b db)"
  by (simp add: host_inv_def host_start_def accounted_def HostTracker_init_def)

lemma host_inv_step: "host_step s t \<Longrightarrow> host_inv db0 s \<Longrightarrow> host_inv db0 t"
proof (induction rule: host_step.induct)
  case (record_host s ip)
  then show ?case
    by (auto simp: host_inv_def accounted_def ht_record_fields simp del: set_map split: option.splits)
next
  case (flush_take s snapshot discovered self)
  then show ?case
    by (auto simp: host_inv_def accounted_def ht_take_def split: option.splits)
next
  case (flush_write s before snapshot discovered after)
  then show ?case
    by (auto simp: host_inv_def accounted_def split: option.splits)
next
  case (flush_write_failed s before snapshot discovered after)
  then show ?case
    by (auto simp: host_inv_def accounted_def split: option.splits)
next
  case (flush_report s before discovered after)
  then show ?case
    by (auto simp: host_inv_def accounted_def split: option.splits if_splits)
next
  case (refresh_load s)
  then show ?case
    by (auto simp: host_inv_def accounted_def split: option.splits)
next
  case (refresh_apply s known)
  then show ?case
    by (auto simp: host_inv_def accounted_def ht_apply_refresh_def split: option.splits)
qed

lemma host_inv_reachable: "host_step\<^sup>*\<^sup>* (host_start a b db) s \<Longrightarrow> host_inv db s"
  by (induction rule: rtranclp_induct) (auto intro: host_inv_start host_inv_step)

section \<open>Undisturbed methods\<close>

text \<open>A database of addresses with the log of reports, whose operations succeed.\<close>

type_synonym host_db = "string set \<times> string set list"

definition save_hosts :: "(string, int) dict \<Rightarrow> host_db \<Rightarrow> host_db option" where
  "save_hosts snapshot db = Some (fst db \<union> set (dict_keys snapshot), snd db)"

definition report_hosts :: "string set \<Rightarrow> host_db \<Rightarrow> host_db option" where
  "report_hosts discovered db = Some (fst db, snd db @ [discovered])"

definition load_hosts :: "host_db \<Rightarrow> string set option" where
  "load_hosts db = Some (fst db)"

datatype host_op = HRecord string | HFlush | HRefresh

fun host_run_op :: "host_op \<Rightarrow> HostTracker \<times> host_db \<Rightarrow> HostTracker \<times> host_db" where
  "host_run_op (HRecord ip) st = (ht_record ip (fst st), snd st)"
| "host_run_op HFlush st = ht_flush save_hosts (Some report_hosts) st"
| "host_run_op HRefresh st = the (ht_refresh load_hosts st)"

fun hosts_of :: "host_op list \<Rightarrow> string set" where
  "hosts_of [] = {}"
| "hosts_of (HRecord ip # ops) = insert ip (hosts_of ops)"
| "hosts_of (HFlush # ops) = hosts_of ops"
| "hosts_of (HRefresh # ops) = hosts_of ops"

fun disjoint_reports :: "string set list \<Rightarrow> bool" where
  "disjoint_reports [] = True"
| "disjoint_reports (r # rs) = ((\<forall>q \<in> set rs. r \<inter> q = {}) \<and> disjoint_reports rs)"

lemma disjoint_reports_snoc:
  "disjoint_reports (rs @ [r]) \<longleftrightarrow> disjoint_reports rs \<and> (\<forall>q \<in> set rs. q \<inter> r = {})"
  by (induction rs) auto

text \<open>Between methods the known addresses are those stored or pending, and what has been
  reported is what was stored since the start.\<close>

definition quiet_inv :: "string set \<Rightarrow> string set \<Rightarrow> HostTracker \<times> host_db \<Rightarrow> bool" where
  "quiet_inv db0 seen st \<longleftrightarrow>
     ht_known (fst st) = fst (snd st) \<union> set (dict_keys (ht_pending (fst st)))
   \<and> ht_pending_new (fst st) = set (dict_keys (ht_pending (fst st))) - fst (snd st)
   \<and> fst (snd st) = db0 \<union> \<Union> (set (snd (snd st)))
   \<and> (\<forall>r \<in> set (snd (snd st)). r \<inter> db0 = {}) \<and> disjoint_reports (snd (snd st))
   \<and> db0 \<union> seen = ht_known (fst st) \<union> db0"

lemma quiet_inv_op: "quiet_inv db0 seen st \<Longrightarrow> quiet_inv db0 (seen \<union> hosts_of [p]) (host_run_op p st)"
proof (cases p)
  case (HRecord ip)
  assume "quiet_inv db0 seen st"
  with HRecord show ?thesis
    by (auto simp: quiet_inv_def ht_record_fields simp del: set_map)
next
  case HFlush
  assume "quiet_inv db0 seen st"
  with HFlush show ?thesis
    by (cases "ht_pending (fst st) = []")
      (auto simp: quiet_inv_def ht_flush_def ht_take_def Let_def deliver_def save_hosts_def report_hosts_def
        disjoint_reports_snoc)
next
  case HRefresh
  assume "quiet_inv db0 seen st"
  with HRefresh show ?thesis
    by (auto simp: quiet_inv_def ht_refresh_def ht_apply_refresh_def load_hosts_def)
qed

lemma hosts_of_Cons: "hosts_of (p # ops) = hosts_of [p] \<union> hosts_of ops"
  by (cases p) auto

lemma quiet_inv_run: "quiet_inv db0 seen st \<Longrightarrow> quiet_inv db0 (seen \<union> hosts_of ops) (fold host_run_op ops st)"
proof (induction ops arbitrary: st seen)
  case (Cons p ops)
  from Cons.IH [OF quiet_inv_op [OF Cons.prems, of p]] show ?case
    unfolding hosts_of_Cons [of p ops] by (simp add: Un_assoc)
qed simp

section \<open>Properties\<close>

text \<open>C28: in every interleaving of recording, flushing (with writes that may fail, and flushes that overlap) and refreshing,
  an address that was recorded and was not stored at the start is pending as new, or on its
  way to a report, or reported; and only such addresses are.\<close>

theorem host_never_missed:
  assumes "host_step\<^sup>*\<^sup>* (host_start flush_seconds refresh_seconds db) s"
  shows "hs_recorded s \<subseteq> accounted db s \<and> accounted db s \<subseteq> db \<union> hs_recorded s"
  using host_inv_reachable [OF assms] by (simp add: host_inv_def)

text \<open>When methods do not overlap and the database works, the reports are disjoint and, after a
  final flush, cover exactly the recorded addresses that were not stored at the start.\<close>

theorem hosts_reported_once:
  "case fold host_run_op (HRefresh # ops @ [HFlush]) (HostTracker_init flush_seconds refresh_seconds, (db, [])) of
     (self, (stored, reports)) \<Rightarrow> disjoint_reports reports \<and> \<Union> (set reports) = hosts_of ops - db
        \<and> stored = db \<union> hosts_of ops"
proof -
  let ?st0 = "host_run_op HRefresh (HostTracker_init flush_seconds refresh_seconds, (db, []))"
  have "quiet_inv db {} ?st0"
    by (simp add: quiet_inv_def HostTracker_init_def ht_refresh_def ht_apply_refresh_def load_hosts_def)
  from quiet_inv_run [OF this, of ops] have q: "quiet_inv db (hosts_of ops) (fold host_run_op ops ?st0)" by simp
  from quiet_inv_op [OF this, of HFlush]
  have f: "quiet_inv db (hosts_of ops) (host_run_op HFlush (fold host_run_op ops ?st0))" by simp
  have "ht_pending (fst (host_run_op HFlush (fold host_run_op ops ?st0))) = []"
    by (simp add: ht_flush_def ht_take_def Let_def)
  moreover obtain self stored reports where st: "host_run_op HFlush (fold host_run_op ops ?st0) = (self, (stored, reports))"
    by (metis prod.exhaust)
  ultimately have "db \<union> hosts_of ops = db \<union> \<Union> (set reports)" "\<forall>r \<in> set reports. r \<inter> db = {}"
    "stored = db \<union> \<Union> (set reports)" "disjoint_reports reports"
    using f by (auto simp: quiet_inv_def)
  moreover from this(1,2) have "\<Union> (set reports) = hosts_of ops - db" by blast
  ultimately show ?thesis using st by simp
qed

text \<open>An executable reading of the relation, for concrete traces: the oldest flush goes first.\<close>

datatype host_move = MRecord string | MTake | MWrite | MReport | MLoad | MApply

fun host_exec :: "host_move \<Rightarrow> host_sys \<Rightarrow> host_sys option" where
  "host_exec (MRecord ip) s = Some (s\<lparr>hs_self := ht_record ip (hs_self s), hs_recorded := insert ip (hs_recorded s)\<rparr>)"
| "host_exec MTake s =
     (case ht_take (hs_self s) of (snapshot, discovered, self) \<Rightarrow>
        Some (s\<lparr>hs_self := self, hs_writing := hs_writing s @ [(snapshot, discovered)]\<rparr>))"
| "host_exec MWrite s = (case hs_writing s of [] \<Rightarrow> None | (snapshot, discovered) # rest \<Rightarrow>
     Some (s\<lparr>hs_writing := rest, hs_reporting := hs_reporting s @ [discovered], hs_db := hs_db s \<union> set (dict_keys snapshot)\<rparr>))"
| "host_exec MReport s = (case hs_reporting s of [] \<Rightarrow> None | discovered # rest \<Rightarrow>
     Some (s\<lparr>hs_reporting := rest,
       hs_reports := (if discovered \<noteq> {} then hs_reports s @ [discovered] else hs_reports s)\<rparr>))"
| "host_exec MLoad s = (if hs_loaded s = None then Some (s\<lparr>hs_loaded := Some (hs_db s)\<rparr>) else None)"
| "host_exec MApply s = (case hs_loaded s of None \<Rightarrow> None | Some known \<Rightarrow>
     Some (s\<lparr>hs_loaded := None, hs_self := ht_apply_refresh known (hs_self s)\<rparr>))"

fun host_trace :: "host_move list \<Rightarrow> host_sys \<Rightarrow> host_sys option" where
  "host_trace [] s = Some s"
| "host_trace (m # ms) s = (case host_exec m s of None \<Rightarrow> None | Some t \<Rightarrow> host_trace ms t)"

lemma host_exec_step: "host_exec m s = Some t \<Longrightarrow> host_step s t"
proof (cases m)
  case MWrite
  assume "host_exec m s = Some t"
  with MWrite obtain snapshot d rest where w: "hs_writing s = [] @ (snapshot, d) # rest"
    and t: "t = s\<lparr>hs_writing := [] @ rest, hs_reporting := hs_reporting s @ [d], hs_db := hs_db s \<union> set (dict_keys snapshot)\<rparr>"
    by (auto simp del: set_map split: list.splits prod.splits)
  show ?thesis unfolding t by (rule host_step.flush_write [OF w])
next
  case MReport
  assume "host_exec m s = Some t"
  with MReport obtain d rest where r: "hs_reporting s = [] @ d # rest" and t: "t = s\<lparr>hs_reporting := [] @ rest,
      hs_reports := (if d \<noteq> {} then hs_reports s @ [d] else hs_reports s)\<rparr>"
    by (cases "hs_reporting s") simp_all
  show ?thesis unfolding t by (rule host_step.flush_report [OF r])
qed (auto intro: host_step.intros simp del: set_map split: if_splits option.splits prod.splits)

lemma host_trace_steps: "host_trace ms s = Some t \<Longrightarrow> host_step\<^sup>*\<^sup>* s t"
proof (induction ms arbitrary: s)
  case (Cons m ms)
  then show ?case
    by (auto split: option.splits intro: converse_rtranclp_into_rtranclp dest: host_exec_step)
qed simp

text \<open>When a refresh loads before a flush writes and applies afterwards, the flushed address
  is forgotten although it is stored, and its next query reports it again.\<close>

theorem host_reported_twice:
  "\<exists>s. host_step\<^sup>*\<^sup>* (host_start 5 60 {}) s \<and> hs_reports s = [{''10.0.0.7''}, {''10.0.0.7''}]
     \<and> hs_db s = {''10.0.0.7''}"
proof -
  obtain s where s: "host_trace [MRecord ''10.0.0.7'', MLoad, MTake, MWrite, MReport, MApply,
      MRecord ''10.0.0.7'', MTake, MWrite, MReport] (host_start 5 60 {}) = Some s"
    and r: "hs_reports s = [{''10.0.0.7''}, {''10.0.0.7''}]" "hs_db s = {''10.0.0.7''}"
    by (simp add: host_start_def HostTracker_init_def ht_record_def ht_take_def ht_apply_refresh_def Let_def dict_get_def)
  from host_trace_steps [OF s] r show ?thesis by blast
qed

theorem host_never_missed_witness:
  "\<exists>s. hs_recorded s = {''10.0.0.7''} \<and> hs_recorded s \<subseteq> accounted {} s"
proof -
  obtain s where s: "host_trace [MRecord ''10.0.0.7'', MTake] (host_start 5 60 {}) = Some s"
    and r: "hs_recorded s = {''10.0.0.7''}"
    by (simp add: host_start_def HostTracker_init_def ht_record_def ht_take_def Let_def)
  from host_never_missed [OF host_trace_steps [OF s]] r show ?thesis by blast
qed

end
