(* ===== verification/Tables.thy ===== *)
theory Tables
  imports Complex_Main BufferSpec "HOL-Library.Multiset"
begin

text \<open>
  Tables of the databases: a table is the list of its rows in the order of their primary key. SQLite
  gives a new row the largest identifier plus one, so an insertion appends. The statements
  of the repositories are functions on these lists: upserts, deletions, ordered and paged
  selections. A session commits or rolls back as a whole; whether the commit succeeds and
  what the clocks read are arguments. The dictionaries that the repositories return are lists of
  names and values; \<open>isoformat()\<close>, which is injective, is the constructor \<open>JTime\<close>.
\<close>

section \<open>Values\<close>

datatype json = JNull | JBool bool | JInt int | JNum rat | JStr string | JTime datetime

type_synonym json_dict = "(string, json) dict"

definition json_opt :: "('a \<Rightarrow> json) \<Rightarrow> 'a option \<Rightarrow> json" where
  "json_opt f v = (case v of None \<Rightarrow> JNull | Some x \<Rightarrow> f x)"

section \<open>Statements\<close>

definition next_id :: "int list \<Rightarrow> int" where
  "next_id ids = (if ids = [] then 1 else Max (set ids) + 1)"

lemma next_id_gt:
  assumes "i \<in> set ids"
  shows "i < next_id ids"
proof -
  have "i \<le> Max (set ids)" using assms by simp
  with assms show ?thesis by (auto simp: next_id_def)
qed

lemma next_id_fresh: "next_id ids \<notin> set ids"
  using next_id_gt by blast

text \<open>\<open>INSERT ... ON CONFLICT DO UPDATE\<close>: \<open>same\<close> are the rows with the conflicting key.\<close>

definition upsert :: "('t \<Rightarrow> bool) \<Rightarrow> 't \<Rightarrow> ('t \<Rightarrow> 't) \<Rightarrow> 't list \<Rightarrow> 't list" where
  "upsert same new upd t = (if list_ex same t then map (\<lambda>r. if same r then upd r else r) t else t @ [new])"

lemma find_snoc: "List.find P (t @ [x]) = (case List.find P t of None \<Rightarrow> if P x then Some x else None | Some y \<Rightarrow> Some y)"
  by (induction t) simp_all

lemma find_upsert:
  assumes same: "\<And>r. same r \<longleftrightarrow> key r = key new" and upd: "\<And>r. same r \<Longrightarrow> key (upd r) = key r"
  shows "List.find (\<lambda>r. key r = k) (upsert same new upd t) =
    (if k = key new then Some (case List.find (\<lambda>r. key r = k) t of None \<Rightarrow> new | Some r \<Rightarrow> upd r)
     else List.find (\<lambda>r. key r = k) t)"
proof (cases "list_ex same t")
  case True
  then have "List.find (\<lambda>r. key r = key new) t \<noteq> None" by (auto simp: find_None_iff list_ex_iff same)
  moreover have "List.find (\<lambda>r. key r = k) (map (\<lambda>r. if same r then upd r else r) t) =
      (if k = key new then map_option upd (List.find (\<lambda>r. key r = k) t) else List.find (\<lambda>r. key r = k) t)"
    using same upd by (induction t) auto
  ultimately show ?thesis using True by (auto simp: upsert_def)
next
  case False
  then have "List.find (\<lambda>r. key r = key new) t = None" by (auto simp: find_None_iff list_ex_iff same)
  with False show ?thesis by (auto simp: upsert_def find_snoc split: option.split)
qed

definition delete_where :: "('t \<Rightarrow> bool) \<Rightarrow> 't list \<Rightarrow> 't list" where
  "delete_where P t = filter (\<lambda>r. \<not> P r) t"

lemma find_delete_where:
  "List.find (\<lambda>r. key r = k) (delete_where (\<lambda>r. P (key r)) t) = (if P k then None else List.find (\<lambda>r. key r = k) t)"
  unfolding delete_where_def by (induction t) auto

text \<open>\<open>ORDER BY a DESC, b\<close> with the primary key last is a stable sort on each key in turn.\<close>

definition order_by :: "('t \<Rightarrow> 'k :: linorder) \<Rightarrow> 't list \<Rightarrow> 't list" where
  "order_by = sort_key"

definition order_by_desc :: "('t \<Rightarrow> 'k :: linorder) \<Rightarrow> 't list \<Rightarrow> 't list" where
  "order_by_desc key t = rev (sort_key key (rev t))"

lemma set_order_by [simp]: "set (order_by key t) = set t"
  by (simp add: order_by_def)

lemma set_order_by_desc [simp]: "set (order_by_desc key t) = set t"
  by (simp add: order_by_desc_def)

lemma mset_order_by [simp]: "mset (order_by key t) = mset t"
  by (simp add: order_by_def)

lemma mset_order_by_desc [simp]: "mset (order_by_desc key t) = mset t"
  by (simp add: order_by_desc_def)

lemma sorted_order_by_desc: "sorted_wrt (\<lambda>a b. key b \<le> key a) (order_by_desc key t)"
proof -
  have "sorted_wrt (\<lambda>a b. key a \<le> key b) (sort_key key (rev t))"
    using sorted_sort_key [of key "rev t"] by (simp add: sorted_map)
  then show ?thesis by (simp add: order_by_desc_def sorted_wrt_rev)
qed

text \<open>Both sorts are stable: they refine an order that the list has already.\<close>

lemma insort_key_refines:
  assumes "sorted_wrt (\<lambda>a b. key a < key b \<or> key a = key b \<and> Q a b) xs" "\<forall>y \<in> set xs. Q x y"
  shows "sorted_wrt (\<lambda>a b. key a < key b \<or> key a = key b \<and> Q a b) (insort_key key x xs)"
  using assms
proof (induction xs)
  case (Cons y ys)
  have later: "key y \<le> key z" if "z \<in> set ys" for z using Cons.prems(1) that by auto
  show ?case
  proof (cases "key x \<le> key y")
    case True
    have "key x < key z \<or> key x = key z \<and> Q x z" if "z \<in> set (y # ys)" for z
      using that True later Cons.prems(2) by fastforce
    with True Cons.prems(1) show ?thesis by simp
  next
    case False
    with Cons show ?thesis by (auto simp: set_insort_key)
  qed
qed simp

lemma order_by_refines:
  "sorted_wrt Q xs \<Longrightarrow> sorted_wrt (\<lambda>a b. key a < key b \<or> key a = key b \<and> Q a b) (order_by key xs)"
  by (induction xs) (simp_all add: order_by_def insort_key_refines)

lemma order_by_desc_refines:
  assumes "sorted_wrt Q xs"
  shows "sorted_wrt (\<lambda>a b. key b < key a \<or> key a = key b \<and> Q a b) (order_by_desc key xs)"
proof -
  have "sorted_wrt (\<lambda>a b. Q b a) (rev xs)" using assms by (simp add: sorted_wrt_rev)
  from order_by_refines [OF this, of key] show ?thesis
    by (simp add: order_by_def order_by_desc_def sorted_wrt_rev eq_commute)
qed

text \<open>A session commits as a whole or changes nothing and raises.\<close>

definition transaction :: "bool \<Rightarrow> ('db \<Rightarrow> 'db) \<Rightarrow> 'db \<Rightarrow> 'db option" where
  "transaction commits body db = (if commits then Some (body db) else None)"

section \<open>Rows by identifier\<close>

text \<open>\<open>session.get(Model, id)\<close>, an update of the row and \<open>session.delete(row)\<close>.\<close>

definition get_row :: "('t \<Rightarrow> int) \<Rightarrow> int \<Rightarrow> 't list \<Rightarrow> 't option" where
  "get_row rid i t = List.find (\<lambda>r. rid r = i) t"

definition replace_row :: "('t \<Rightarrow> int) \<Rightarrow> 't \<Rightarrow> 't list \<Rightarrow> 't list" where
  "replace_row rid row t = map (\<lambda>r. if rid r = rid row then row else r) t"

definition delete_row :: "('t \<Rightarrow> int) \<Rightarrow> int \<Rightarrow> 't list \<Rightarrow> bool \<times> 't list" where
  "delete_row rid i t =
     (case get_row rid i t of None \<Rightarrow> (False, t) | Some r \<Rightarrow> (True, delete_where (\<lambda>r. rid r = i) t))"

lemma find_Some_mem: "List.find P t = Some r \<Longrightarrow> r \<in> set t \<and> P r"
  by (induction t) (auto split: if_splits)

lemma get_row_Some: "get_row rid i t = Some r \<Longrightarrow> r \<in> set t \<and> rid r = i"
  using find_Some_mem [of "\<lambda>r. rid r = i"] by (auto simp: get_row_def)

lemma get_row_None: "get_row rid i t = None \<longleftrightarrow> i \<notin> rid ` set t"
  by (auto simp: get_row_def find_None_iff)

lemma get_row_distinct: "distinct (map rid t) \<Longrightarrow> r \<in> set t \<Longrightarrow> get_row rid (rid r) t = Some r"
  unfolding get_row_def by (induction t) (auto simp: image_iff)

lemma map_rid_replace [simp]: "map rid (replace_row rid row t) = map rid t"
  by (simp add: replace_row_def)

lemma set_replace_row:
  "row \<in> set (replace_row rid new t) \<longleftrightarrow> (row \<in> set t \<and> rid row \<noteq> rid new) \<or> (row = new \<and> rid new \<in> rid ` set t)"
  by (induction t) (auto simp: replace_row_def)

lemma delete_row_spec:
  "delete_row rid i t = (i \<in> rid ` set t, filter (\<lambda>r. rid r \<noteq> i) t)"
proof (cases "get_row rid i t")
  case None
  then have "i \<notin> rid ` set t" by (simp add: get_row_None)
  moreover from this have "filter (\<lambda>r. rid r \<noteq> i) t = t" by (auto simp: filter_id_conv)
  ultimately show ?thesis using None by (simp add: delete_row_def)
next
  case (Some r)
  then have "i \<in> rid ` set t" using get_row_None [of rid i t] by auto
  with Some show ?thesis by (simp add: delete_row_def delete_where_def)
qed

lemma distinct_replace_row:
  assumes "distinct (map rid t)" "distinct (map key t)" "\<forall>r \<in> set t. rid r \<noteq> rid new \<longrightarrow> key r \<noteq> key new"
  shows "distinct (map key (replace_row rid new t))"
  using assms
proof (induction t)
  case (Cons r t)
  have keep: "replace_row rid new t = t" if "rid new \<notin> rid ` set t"
    unfolding replace_row_def using that by (intro map_idI) (auto simp: image_iff)
  have key: "k \<in> key ` set (replace_row rid new t) \<Longrightarrow> k \<in> key ` set t \<or> k = key new \<and> rid new \<in> rid ` set t" for k
    by (auto simp: set_replace_row)
  show ?case
  proof (cases "rid r = rid new")
    case True
    with Cons.prems have new: "rid new \<notin> rid ` set t" by simp
    have "key new \<notin> key ` set t"
    proof
      assume "key new \<in> key ` set t"
      then obtain x where x: "x \<in> set t" "key x = key new" by auto
      with new have "rid x \<noteq> rid new" by (metis imageI)
      with x Cons.prems(3) show False by simp
    qed
    with True Cons.prems(2) keep [OF new] show ?thesis by (simp add: replace_row_def)
  next
    case False
    have "key r \<notin> key ` set (replace_row rid new t)" using key [of "key r"] Cons.prems False by auto
    with False Cons show ?thesis by (auto simp: replace_row_def)
  qed
qed (simp add: replace_row_def)

text \<open>A field of an update: absent, null, or a value. A required column rejects null.\<close>

datatype 'a patch = Keep | Null | Put 'a

definition patch_opt :: "'a patch \<Rightarrow> 'a option \<Rightarrow> 'a option" where
  "patch_opt p old = (case p of Keep \<Rightarrow> old | Null \<Rightarrow> None | Put v \<Rightarrow> Some v)"

definition patch_req :: "'a patch \<Rightarrow> 'a \<Rightarrow> 'a option" where
  "patch_req p old = (case p of Keep \<Rightarrow> Some old | Null \<Rightarrow> None | Put v \<Rightarrow> Some v)"

datatype repo_error = IntegrityError | OverflowError

section \<open>Capped tables\<close>

text \<open>\<open>DELETE WHERE id NOT IN (SELECT id ORDER BY seen DESC, id DESC LIMIT n)\<close>.\<close>

definition keep_newest :: "nat \<Rightarrow> ('t \<Rightarrow> datetime) \<Rightarrow> ('t \<Rightarrow> int) \<Rightarrow> 't list \<Rightarrow> 't list" where
  "keep_newest n seen rid t =
     (let keep = map rid (take n (order_by_desc seen (order_by_desc rid t))) in delete_where (\<lambda>r. rid r \<notin> set keep) t)"

definition newer :: "('t \<Rightarrow> datetime) \<Rightarrow> ('t \<Rightarrow> int) \<Rightarrow> 't \<Rightarrow> 't \<Rightarrow> bool" where
  "newer seen rid a b \<longleftrightarrow> seen b < seen a \<or> seen a = seen b \<and> rid b < rid a"

lemma newest_first:
  assumes "distinct (map rid t)"
  shows "sorted_wrt (newer seen rid) (order_by_desc seen (order_by_desc rid t))"
proof -
  have "distinct (map rid (order_by_desc rid t))"
    using assms by (simp add: distinct_map) (simp add: order_by_desc_def)
  then have "sorted_wrt (\<lambda>a b. rid a \<noteq> rid b) (order_by_desc rid t)"
    by (simp add: distinct_conv_nth sorted_wrt_iff_nth_less)
  with sorted_order_by_desc [of rid t] have "sorted_wrt (\<lambda>a b. rid b < rid a) (order_by_desc rid t)"
    unfolding sorted_wrt_iff_nth_less by force
  from order_by_desc_refines [OF this, of seen] show ?thesis by (simp add: newer_def [abs_def])
qed

lemma keep_newest_spec:
  assumes ids: "distinct (map rid t)"
  shows "length (keep_newest n seen rid t) = min n (length t)"
    and "r \<in> set (keep_newest n seen rid t) \<Longrightarrow> q \<in> set t \<Longrightarrow> q \<notin> set (keep_newest n seen rid t) \<Longrightarrow> newer seen rid r q"
proof -
  let ?l = "order_by_desc seen (order_by_desc rid t)"
  have inj: "inj_on rid (set t)" using ids by (simp add: distinct_map)
  have mem: "q \<in> set (keep_newest n seen rid t) \<longleftrightarrow> q \<in> set (take n ?l)" for q
  proof
    assume "q \<in> set (keep_newest n seen rid t)"
    then obtain p where "q \<in> set t" "p \<in> set (take n ?l)" "rid p = rid q"
      by (auto simp: keep_newest_def delete_where_def)
    with inj show "q \<in> set (take n ?l)" using in_set_takeD [of p n ?l] by (metis inj_onD set_order_by_desc)
  next
    assume q: "q \<in> set (take n ?l)"
    then have "q \<in> set t" using in_set_takeD [of q n ?l] by simp
    with q show "q \<in> set (keep_newest n seen rid t)" by (auto simp: keep_newest_def delete_where_def)
  qed
  have dist: "distinct t" "distinct ?l" using ids
    by (auto simp: distinct_map order_by_desc_def)
  have "length (keep_newest n seen rid t) = card (set (keep_newest n seen rid t))"
    using dist by (subst distinct_card) (auto simp: keep_newest_def delete_where_def)
  also have "\<dots> = card (set (take n ?l))" using mem by (metis subset_antisym subsetI)
  also have "\<dots> = min n (length t)"
    using dist by (simp add: distinct_card order_by_desc_def)
  finally show "length (keep_newest n seen rid t) = min n (length t)" .
  assume r: "r \<in> set (keep_newest n seen rid t)" and q: "q \<in> set t" "q \<notin> set (keep_newest n seen rid t)"
  have "sorted_wrt (newer seen rid) (take n ?l @ drop n ?l)" using newest_first [OF ids] by simp
  moreover have "r \<in> set (take n ?l)" using r mem by simp
  moreover have "q \<in> set (drop n ?l)"
  proof -
    have "q \<in> set (take n ?l @ drop n ?l)" using q(1) by simp
    then show ?thesis using q(2) mem by (simp del: append_take_drop_id)
  qed
  ultimately show "newer seen rid r q" by (simp only: sorted_wrt_append)
qed

section \<open>Counting tables\<close>

text \<open>What a flush to a table depends on: the time each statement reads, the time the
  retention is computed from, and whether the session commits.\<close>

record write_env =
  we_clock :: "nat \<Rightarrow> datetime"
  we_now :: datetime
  we_commits :: bool

definition put_rows :: "(datetime \<Rightarrow> 'r \<Rightarrow> 't list \<Rightarrow> 't list) \<Rightarrow> (nat \<Rightarrow> datetime) \<Rightarrow> 'r list \<Rightarrow> 't list \<Rightarrow> 't list" where
  "put_rows put clock rows t = fold (\<lambda>(i, row). put (clock i) row) (enumerate 0 rows) t"

definition write_rows :: "(datetime \<Rightarrow> 'r \<Rightarrow> 't list \<Rightarrow> 't list) \<Rightarrow> (datetime \<Rightarrow> 't list \<Rightarrow> 't list)
    \<Rightarrow> write_env \<Rightarrow> 'r list \<Rightarrow> 't list \<Rightarrow> 't list option" where
  "write_rows put prune E rows t =
     (if rows = [] then Some t
      else transaction (we_commits E) (\<lambda>t. prune (we_now E) (put_rows put (we_clock E) rows t)) t)"

definition table_ok :: "('t \<Rightarrow> int) \<Rightarrow> ('t \<Rightarrow> 'k) \<Rightarrow> ('t \<Rightarrow> int) \<Rightarrow> 't list \<Rightarrow> bool" where
  "table_ok rid key hits t \<longleftrightarrow> sorted_wrt (<) (map rid t) \<and> distinct (map key t) \<and> (\<forall>r \<in> set t. 0 \<le> hits r)"

lemma table_ok_Nil [simp]: "table_ok rid key hits []"
  by (simp add: table_ok_def)

lemma table_ok_filter: "table_ok rid key hits t \<Longrightarrow> table_ok rid key hits (filter P t)"
  by (auto simp: table_ok_def sorted_wrt_map distinct_map_filter intro: sorted_wrt_filter)

lemma upsert_ok:
  assumes ok: "table_ok rid key hits t" and same: "\<And>r. same r \<longleftrightarrow> key r = key new"
    and new: "rid new = next_id (map rid t)" "0 \<le> hits new"
    and upd: "\<And>r. rid (upd r) = rid r" "\<And>r. same r \<Longrightarrow> key (upd r) = key r" "\<And>r. hits (upd r) = hits r + hits new"
  shows "table_ok rid key hits (upsert same new upd t)"
proof (cases "list_ex same t")
  case True
  have k: "map key (map (\<lambda>r. if same r then upd r else r) t) = map key t"
    using upd(2) by (induction t) auto
  have i: "map rid (map (\<lambda>r. if same r then upd r else r) t) = map rid t"
    using upd(1) by (induction t) auto
  have "\<forall>r \<in> set (map (\<lambda>r. if same r then upd r else r) t). 0 \<le> hits r"
    using ok new(2) upd(3) by (auto simp: table_ok_def)
  with True ok show ?thesis unfolding table_ok_def upsert_def if_P [OF True] k i by blast
next
  case False
  then have "key new \<notin> key ` set t" using same by (auto simp: list_ex_iff)
  moreover have "\<forall>i \<in> set (map rid t). i < rid new" unfolding new(1) using next_id_gt by blast
  ultimately show ?thesis using ok new(2)
    unfolding table_ok_def upsert_def if_not_P [OF False] by (simp add: sorted_wrt_append)
qed

lemma upsert_total:
  assumes ok: "distinct (map key t)" and same: "\<And>r. same r \<longleftrightarrow> key r = key new"
    and upd: "\<And>r. same r \<Longrightarrow> key (upd r) = key r" "\<And>r. hits (upd r) = hits r + hits new"
  shows "sum_by key hits k (upsert same new upd t) = sum_by key hits k t + (if key new = k then hits new else 0)"
proof (cases "list_ex same t")
  case True
  have "sum_by key hits k (map (\<lambda>r. if same r then upd r else r) t)
      = sum_by key hits k t + (if key new = k \<and> list_ex same t then hits new else 0)"
    using ok
  proof (induction t)
    case (Cons r t)
    have "\<not> list_ex same t" if "same r"
    proof
      assume "list_ex same t"
      then obtain q where "q \<in> set t" "same q" by (auto simp: list_ex_iff)
      with same that have "key q = key r" by simp
      with \<open>q \<in> set t\<close> have "key r \<in> key ` set t" by (metis imageI)
      with Cons.prems show False by simp
    qed
    then show ?case using Cons.IH Cons.prems same [of r] upd(1) [of r] upd(2) [of r] by (cases "same r") simp_all
  qed simp
  with True show ?thesis by (simp add: upsert_def)
next
  case False
  then show ?thesis by (simp add: upsert_def)
qed

text \<open>
  A table of counters: every row of a batch is put under its key, adding its hits, and the
  table is pruned afterwards by removing rows; \<open>spared\<close> says which keys the pruning
  leaves alone.
\<close>

locale counter_table =
  fixes put :: "datetime \<Rightarrow> 'r \<Rightarrow> 't list \<Rightarrow> 't list"
    and prune :: "datetime \<Rightarrow> 't list \<Rightarrow> 't list"
    and rid :: "'t \<Rightarrow> int"
    and key :: "'t \<Rightarrow> 'k"
    and hits :: "'t \<Rightarrow> int"
    and row_key :: "'r \<Rightarrow> 'k"
    and row_hits :: "'r \<Rightarrow> int"
    and spared :: "datetime \<Rightarrow> 'k \<Rightarrow> bool"
  assumes put_ok: "table_ok rid key hits t \<Longrightarrow> 0 \<le> row_hits r \<Longrightarrow> table_ok rid key hits (put now r t)"
    and put_total: "table_ok rid key hits t \<Longrightarrow>
      sum_by key hits k (put now r t) = sum_by key hits k t + (if row_key r = k then row_hits r else 0)"
    and prune_filter: "\<exists>P. prune now t = filter P t \<and> (\<forall>r. spared now (key r) \<longrightarrow> P r)"
begin

lemma put_rows_total:
  assumes "table_ok rid key hits t" "\<forall>r \<in> set rows. 0 \<le> row_hits r"
  shows "table_ok rid key hits (put_rows put clock rows t)
    \<and> sum_by key hits k (put_rows put clock rows t) = sum_by key hits k t + sum_by row_key row_hits k rows"
proof -
  have "table_ok rid key hits (fold (\<lambda>(i, row). put (clock i) row) (enumerate n rows) t)
    \<and> sum_by key hits k (fold (\<lambda>(i, row). put (clock i) row) (enumerate n rows) t)
      = sum_by key hits k t + sum_by row_key row_hits k rows" for n
    using assms
  proof (induction rows arbitrary: n t)
    case (Cons r rows)
    then show ?case using Cons.IH [of "put (clock n) r t" "Suc n"] put_ok [of t r] put_total [of t k _ r] by simp
  qed simp
  then show ?thesis by (simp add: put_rows_def)
qed

lemma prune_ok: "table_ok rid key hits t \<Longrightarrow> table_ok rid key hits (prune now t)"
  using prune_filter [of now t] table_ok_filter by force

lemma prune_total:
  assumes "table_ok rid key hits t"
  shows "sum_by key hits k (prune now t) \<le> sum_by key hits k t"
    and "spared now k \<Longrightarrow> sum_by key hits k (prune now t) = sum_by key hits k t"
proof -
  obtain P where P: "prune now t = filter P t" "\<And>r. spared now (key r) \<Longrightarrow> P r" using prune_filter by blast
  have "\<forall>r \<in> set t. 0 \<le> hits r" using assms by (simp add: table_ok_def)
  then have "sum_by key hits k (filter P t) \<le> sum_by key hits k t \<and>
      (spared now k \<longrightarrow> sum_by key hits k (filter P t) = sum_by key hits k t)"
    using P(2) by (induction t) auto
  then show "sum_by key hits k (prune now t) \<le> sum_by key hits k t"
    "spared now k \<Longrightarrow> sum_by key hits k (prune now t) = sum_by key hits k t" by (simp_all add: P)
qed

end

text \<open>An upsert on the key that adds the hits makes a counting table.\<close>

lemma counter_table_upsert:
  assumes put: "\<And>now r t. put now r t = upsert (same r) (new now r t) (upd now r) t"
    and same: "\<And>r x. same r x \<longleftrightarrow> key x = row_key r"
    and new: "\<And>now r t. rid (new now r t) = next_id (map rid t)" "\<And>now r t. key (new now r t) = row_key r"
      "\<And>now r t. hits (new now r t) = row_hits r"
    and upd: "\<And>now r x. rid (upd now r x) = rid x" "\<And>now r x. key (upd now r x) = key x"
      "\<And>now r x. hits (upd now r x) = hits x + row_hits r"
    and prune: "\<And>now t. \<exists>P. prune now t = filter P t \<and> (\<forall>r. spared now (key r) \<longrightarrow> P r)"
  shows "counter_table put prune rid key hits row_key row_hits spared"
proof
  fix t k now r
  assume ok: "table_ok rid key hits t"
  show "0 \<le> row_hits r \<Longrightarrow> table_ok rid key hits (put now r t)"
    unfolding put by (rule upsert_ok [OF ok]) (simp_all add: same new upd)
  show "sum_by key hits k (put now r t) = sum_by key hits k t + (if row_key r = k then row_hits r else 0)"
    unfolding put using ok by (subst upsert_total) (simp_all add: same new upd table_ok_def)
qed (rule prune)

text \<open>A counting table gives a sink.\<close>

sublocale counter_table \<subseteq> sink "write_rows put prune" "\<lambda>t k. sum_by key hits k t" "table_ok rid key hits"
  row_key row_hits "\<lambda>E k. we_commits E \<and> spared (we_now E) k"
proof
  fix db db' rs E k
  assume db: "table_ok rid key hits db" and rs: "\<forall>r \<in> set rs. 0 \<le> row_hits r"
  note put = put_rows_total [OF db rs]
  show "write_rows put prune E rs db = Some db' \<Longrightarrow>
      sum_by key hits k db' \<le> sum_by key hits k db + sum_by row_key row_hits k rs"
    using put [of "we_clock E" k] prune_total(1) [of "put_rows put (we_clock E) rs db" k "we_now E"]
    by (auto simp: write_rows_def transaction_def split: if_splits)
  show "write_rows put prune E rs db = Some db' \<Longrightarrow> table_ok rid key hits db'"
    using put [of "we_clock E"] prune_ok db by (auto simp: write_rows_def transaction_def split: if_splits)
  show "we_commits E \<and> spared (we_now E) k \<Longrightarrow> \<exists>db'. write_rows put prune E rs db = Some db'
      \<and> sum_by key hits k db' = sum_by key hits k db + sum_by row_key row_hits k rs"
    using put [of "we_clock E" k] prune_total(2) [of "put_rows put (we_clock E) rs db" "we_now E" k]
    by (auto simp: write_rows_def transaction_def)
qed

end
