(* ===== verification/SearchText.thy ===== *)
theory SearchText
  imports PyText
begin

text \<open>
  Text search of the repositories: \<open>_escape_like\<close> and the \<open>ilike\<close> filters of
  \<open>repository/query_log.py\<close>, \<open>repository/cache_entries.py\<close> and \<open>repository/blocklists.py\<close>. SQLAlchemy turns
  \<open>column.ilike(term, escape)\<close> into \<open>lower(column) LIKE lower(term) ESCAPE\<close>; SQLite folds the ASCII
  letters only. The result is that a search finds exactly the texts that contain it.
\<close>

section \<open>LIKE\<close>

abbreviation like_esc :: char where "like_esc \<equiv> CHR 0x5C"
abbreviation like_any :: char where "like_any \<equiv> CHR ''%''"
abbreviation like_one :: char where "like_one \<equiv> CHR ''_''"

definition sql_lower_char :: "char \<Rightarrow> char" where
  "sql_lower_char c = (if 65 \<le> code c \<and> code c \<le> 90 then char_of (code c + 32) else c)"

definition sql_lower :: "string \<Rightarrow> string" where
  "sql_lower s = map sql_lower_char s"

text \<open>\<open>LIKE\<close> compares letters without case as well.\<close>

function like_match :: "string \<Rightarrow> string \<Rightarrow> bool" where
  "like_match [] s \<longleftrightarrow> s = []"
| "like_match (p # ps) s \<longleftrightarrow>
     (if p = like_esc then
        (case ps of
           [] \<Rightarrow> False
         | q # qs \<Rightarrow> (case s of [] \<Rightarrow> False | c # cs \<Rightarrow> sql_lower_char c = sql_lower_char q \<and> like_match qs cs))
      else if p = like_any then like_match ps s \<or> (case s of [] \<Rightarrow> False | c # cs \<Rightarrow> like_match (p # ps) cs)
      else (case s of
          [] \<Rightarrow> False
        | c # cs \<Rightarrow> (p = like_one \<or> sql_lower_char c = sql_lower_char p) \<and> like_match ps cs))"
  by pat_completeness auto
termination
  by (relation "measures [\<lambda>(ps, s). length ps, \<lambda>(ps, s). length s]") auto

declare like_match.simps(2) [simp del]

definition ilike :: "string \<Rightarrow> string \<Rightarrow> bool" where
  "ilike column term \<longleftrightarrow> like_match (sql_lower term) (sql_lower column)"

definition escape_like :: "string \<Rightarrow> string" where
  "escape_like val =
     py_replace1 like_one [like_esc, like_one]
       (py_replace1 like_any [like_esc, like_any] (py_replace1 like_esc [like_esc, like_esc] val))"

definition search_term :: "string \<Rightarrow> string" where
  "search_term search = [like_any] @ escape_like search @ [like_any]"

text \<open>The filter over the columns that are searched; an absent or empty search filters nothing.\<close>

definition search_filter :: "string option \<Rightarrow> string list \<Rightarrow> bool" where
  "search_filter search columns \<longleftrightarrow>
     (case search of
        None \<Rightarrow> True
      | Some s \<Rightarrow> s = [] \<or> list_ex (\<lambda>column. ilike column (search_term s)) columns)"

section \<open>A search is literal\<close>

definition contains_text :: "string \<Rightarrow> string \<Rightarrow> bool" where
  "contains_text s part \<longleftrightarrow> (\<exists>before middle after. s = before @ middle @ after \<and> sql_lower middle = sql_lower part)"

lemma sql_lower_simps [simp]: "sql_lower [] = []" "sql_lower (c # s) = sql_lower_char c # sql_lower s"
  "sql_lower (s @ t) = sql_lower s @ sql_lower t"
  by (simp_all add: sql_lower_def)

lemma code_sql_lower: "code (sql_lower_char c) = (if 65 \<le> code c \<and> code c \<le> 90 then code c + 32 else code c)"
  by (simp add: sql_lower_char_def)

lemma sql_lower_char_idem [simp]: "sql_lower_char (sql_lower_char c) = sql_lower_char c"
  by (simp add: code_sql_lower flip: code_inj)

definition escape_one :: "char \<Rightarrow> string" where
  "escape_one c = (if c = like_esc \<or> c = like_any \<or> c = like_one then [like_esc, c] else [c])"

lemma escape_like_Nil [simp]: "escape_like [] = []"
  by (simp add: escape_like_def py_replace1_def)

lemma escape_like_Cons [simp]: "escape_like (c # s) = escape_one c @ escape_like s"
  by (simp add: escape_like_def py_replace1_def escape_one_def)

lemma special_lower: "sql_lower_char c \<in> {like_esc, like_any, like_one} \<longleftrightarrow> c \<in> {like_esc, like_any, like_one}"
proof -
  have "code like_esc = 92" "code like_any = 37" "code like_one = 95" by (simp_all add: code_def)
  then show ?thesis by (auto simp: code_sql_lower simp flip: code_inj)
qed

lemma lower_escape_one: "sql_lower (escape_one c) = escape_one (sql_lower_char c)"
proof -
  have "sql_lower_char like_esc = like_esc" by (simp add: sql_lower_char_def code_def)
  then show ?thesis using special_lower [of c] by (auto simp: escape_one_def)
qed

lemma like_any_Nil: "like_match (like_any # ps) [] \<longleftrightarrow> like_match ps []"
  by (subst like_match.simps(2)) simp

lemma like_any_Cons: "like_match (like_any # ps) (c # s) \<longleftrightarrow> like_match ps (c # s) \<or> like_match (like_any # ps) s"
  by (subst like_match.simps(2)) simp

lemma like_literal:
  "like_match (escape_one c @ ps) s \<longleftrightarrow> s \<noteq> [] \<and> sql_lower_char (hd s) = sql_lower_char c \<and> like_match ps (tl s)"
proof (cases "c = like_esc \<or> c = like_any \<or> c = like_one")
  case True
  then have "escape_one c @ ps = like_esc # c # ps" by (simp add: escape_one_def)
  then show ?thesis by (simp add: like_match.simps(2) split: list.split)
next
  case False
  then have "escape_one c @ ps = c # ps" by (simp add: escape_one_def)
  with False show ?thesis by (simp add: like_match.simps(2) split: list.split)
qed

lemma like_literals:
  "like_match (sql_lower (escape_like val) @ ps) s \<longleftrightarrow>
     (\<exists>a b. s = a @ b \<and> sql_lower a = sql_lower val \<and> like_match ps b)"
proof (induction val arbitrary: s)
  case Nil
  then show ?case by (auto simp: sql_lower_def)
next
  case (Cons c val)
  have "like_match (sql_lower (escape_like (c # val)) @ ps) s \<longleftrightarrow>
      s \<noteq> [] \<and> sql_lower_char (hd s) = sql_lower_char c
      \<and> (\<exists>a b. tl s = a @ b \<and> sql_lower a = sql_lower val \<and> like_match ps b)"
    by (simp add: lower_escape_one like_literal Cons.IH)
  also have "\<dots> \<longleftrightarrow> (\<exists>a b. s = a @ b \<and> sql_lower a = sql_lower (c # val) \<and> like_match ps b)"
    (is "?l \<longleftrightarrow> ?r")
  proof
    assume ?l
    then obtain a b where "s = (hd s # a) @ b" "sql_lower (hd s # a) = sql_lower (c # val)" "like_match ps b"
      by (cases s) auto
    then show ?r by blast
  next
    assume ?r
    then obtain a b where ab: "s = a @ b" "sql_lower a = sql_lower (c # val)" "like_match ps b" by blast
    then show ?l by (cases a) auto
  qed
  finally show ?case .
qed

lemma like_any_end: "like_match [like_any] s"
  by (induction s) (simp_all add: like_any_Nil like_any_Cons)

lemma like_any_start: "like_match (like_any # ps) s \<longleftrightarrow> (\<exists>a b. s = a @ b \<and> like_match ps b)"
  by (induction s) (auto simp: like_any_Nil like_any_Cons Cons_eq_append_conv)

lemma sql_lower_append: "sql_lower s = a @ b \<longleftrightarrow> (\<exists>x y. s = x @ y \<and> sql_lower x = a \<and> sql_lower y = b)"
  by (auto simp: sql_lower_def map_eq_append_conv)

lemma ilike_search: "ilike column (search_term search) \<longleftrightarrow> contains_text column search"
proof -
  have any: "sql_lower_char like_any = like_any" by (simp add: sql_lower_char_def code_def)
  have idem: "sql_lower (sql_lower x) = sql_lower x" for x by (simp add: sql_lower_def)
  have "ilike column (search_term search) \<longleftrightarrow>
      (\<exists>a b c. sql_lower column = a @ b @ c \<and> sql_lower b = sql_lower search)"
    by (simp add: ilike_def search_term_def any like_any_start like_literals like_any_end) metis
  also have "\<dots> \<longleftrightarrow> contains_text column search" (is "?l \<longleftrightarrow> ?r")
  proof
    assume ?l
    then obtain a b c where "sql_lower column = a @ b @ c" "sql_lower b = sql_lower search" by blast
    then show ?r unfolding contains_text_def sql_lower_append by (metis idem)
  next
    assume ?r
    then obtain a b c where "column = a @ b @ c" "sql_lower b = sql_lower search" unfolding contains_text_def by blast
    then have "sql_lower column = sql_lower a @ sql_lower b @ sql_lower c" "sql_lower (sql_lower b) = sql_lower search"
      by (simp_all add: idem)
    then show ?l by blast
  qed
  finally show ?thesis .
qed

lemma search_filter_literal:
  "search_filter (Some s) columns \<longleftrightarrow> s = [] \<or> (\<exists>c \<in> set columns. contains_text c s)"
  by (auto simp: search_filter_def list_ex_iff ilike_search)

end
