(* ===== verification/CacheMirror.thy ===== *)
theory CacheMirror
  imports Resolver Tables SearchText "HOL-Library.Char_ord" "HOL-Library.List_Lexorder"
begin

text \<open>
  The mirror of the answer cache that the API reads: \<open>domain/cacheview.py\<close> decodes the live entries and
  \<open>repository/cache_entries.py\<close> replaces the table \<open>dns_cache_entries\<close> by them. The lemmas show that the
  decoding of a key inverts its encoding, and that the readers see exactly the live entries of
  the last snapshot, never with more lifetime than they have.
\<close>

section \<open>Decoding the cache\<close>

record CacheEntrySnapshot =
  ces_domain :: string
  ces_qtype :: string
  ces_qclass :: string
  ces_response :: string
  ces_answers :: int
  ces_ttl :: int
  ces_expires_at :: datetime

definition decoded_name :: "(int \<Rightarrow> string option) \<Rightarrow> string \<Rightarrow> string" where
  "decoded_name names val =
     (case py_int val of None \<Rightarrow> val | Some i \<Rightarrow> (case names i of None \<Rightarrow> val | Some name \<Rightarrow> name))"

definition snapshot_qtype_name :: "('d, 'b) dnslib \<Rightarrow> string \<Rightarrow> string" where
  "snapshot_qtype_name D = decoded_name (dl_qtype D)"

definition snapshot_qclass_name :: "('d, 'b) dnslib \<Rightarrow> string \<Rightarrow> string" where
  "snapshot_qclass_name D = decoded_name (dl_class D)"

text \<open>\<open>s.rsplit(c, n)\<close> splits at the last \<open>n\<close> separators only.\<close>

definition py_rsplit :: "char \<Rightarrow> nat \<Rightarrow> string \<Rightarrow> string list" where
  "py_rsplit c n s =
     (let parts = py_split c s; k = length parts - n in
      if k \<le> 1 then parts else py_join [c] (take k parts) # drop k parts)"

definition split_key :: "string \<Rightarrow> string \<times> string \<times> string" where
  "split_key key =
     (case py_rsplit (CHR ''|'') 2 key of
        [a, b, c] \<Rightarrow> (a, b, c)
      | parts \<Rightarrow> (key, [], []))"

definition usec_per_sec :: int where
  "usec_per_sec = 1000000"

text \<open>One entry: \<open>now\<close> is the wall clock.\<close>

definition snapshot_entry :: "('d, 'b) dnslib \<Rightarrow> datetime \<Rightarrow> string \<times> 'b \<times> int \<times> int \<Rightarrow> CacheEntrySnapshot" where
  "snapshot_entry D now entry =
     (case entry of (key, val, remaining, ttl) \<Rightarrow>
       case split_key key of (domain, qtype, qclass) \<Rightarrow>
       let (response, answers) =
             (case dl_parse D val of
                None \<Rightarrow> ([], 0)
              | Some reply \<Rightarrow> (py_join '', '' (map (\<lambda>r. dl_text D (rr_data r)) (msg_rr reply)), int (length (msg_rr reply))))
       in \<lparr>ces_domain = domain, ces_qtype = snapshot_qtype_name D qtype, ces_qclass = snapshot_qclass_name D qclass,
           ces_response = response, ces_answers = answers, ces_ttl = ttl,
           ces_expires_at = now + remaining * usec_per_sec\<rparr>)"

definition build_cache_snapshot :: "('d, 'b) dnslib \<Rightarrow> datetime \<Rightarrow> monotime \<Rightarrow> 'b TTLCache \<Rightarrow> CacheEntrySnapshot list" where
  "build_cache_snapshot D now mono_now cache = map (snapshot_entry D now) (cache_snapshot mono_now cache)"

section \<open>The table\<close>

record DnsCacheEntry =
  dce_id :: int
  dce_domain :: string
  dce_qtype :: string
  dce_qclass :: string
  dce_response :: string
  dce_answers :: int
  dce_ttl :: int
  dce_expires_at :: datetime
  dce_updated_at :: datetime

definition cache_entry_row :: "int \<Rightarrow> datetime \<Rightarrow> CacheEntrySnapshot \<Rightarrow> DnsCacheEntry" where
  "cache_entry_row i now e =
     \<lparr>dce_id = i, dce_domain = ces_domain e, dce_qtype = ces_qtype e, dce_qclass = ces_qclass e,
      dce_response = ces_response e, dce_answers = ces_answers e, dce_ttl = ces_ttl e,
      dce_expires_at = ces_expires_at e, dce_updated_at = now\<rparr>"

text \<open>The table is emptied first, so the identifiers start at one.\<close>

definition record_cache_entries :: "write_env \<Rightarrow> CacheEntrySnapshot list \<Rightarrow> DnsCacheEntry list \<Rightarrow> DnsCacheEntry list option" where
  "record_cache_entries E entries t =
     transaction (we_commits E)
       (\<lambda>t. let t = delete_where (\<lambda>r. True) t in
          if entries = [] then t
          else t @ map (\<lambda>(i, e). cache_entry_row (next_id (map dce_id t) + int i) (we_clock E i) e) (enumerate 0 entries)) t"

definition trunc_seconds :: "int \<Rightarrow> int" where
  "trunc_seconds us = (if us < 0 then - (- us div usec_per_sec) else us div usec_per_sec)"

definition cache_entry_dict :: "datetime \<Rightarrow> DnsCacheEntry \<Rightarrow> json_dict" where
  "cache_entry_dict now row =
     [(''domain'', JStr (dce_domain row)), (''qtype'', JStr (dce_qtype row)), (''qclass'', JStr (dce_qclass row)),
      (''response'', JStr (dce_response row)), (''answers'', JInt (dce_answers row)), (''ttl'', JInt (dce_ttl row)),
      (''remaining_ttl'', JInt (max 0 (trunc_seconds (dce_expires_at row - now)))),
      (''expires_at'', JTime (dce_expires_at row)), (''updated_at'', JTime (dce_updated_at row))]"

definition cache_search_filter :: "string option \<Rightarrow> DnsCacheEntry \<Rightarrow> bool" where
  "cache_search_filter search r \<longleftrightarrow> search_filter search [dce_domain r, dce_response r]"

definition list_cache_entries :: "int option \<Rightarrow> int \<Rightarrow> string option \<Rightarrow> datetime \<Rightarrow> DnsCacheEntry list \<Rightarrow> json_dict list" where
  "list_cache_entries limit offset search now t =
     map (cache_entry_dict now) (sql_page limit offset
       (order_by dce_domain (order_by dce_qtype (filter (cache_search_filter search) t))))"

definition count_cache_entries :: "string option \<Rightarrow> DnsCacheEntry list \<Rightarrow> nat" where
  "count_cache_entries search t = length (filter (cache_search_filter search) t)"

definition cache_updated_at :: "DnsCacheEntry list \<Rightarrow> datetime option" where
  "cache_updated_at t = (if t = [] then None else Some (Max (set (map dce_updated_at t))))"

section \<open>Lemmas\<close>

lemma cache_key_join: "cache_key q t c = py_join ''|'' [normalize_domain q, int_str t, int_str c]"
  by (simp add: cache_key_def)

lemma bar_not_digit: "CHR ''|'' \<notin> set (int_str i)"
proof -
  have "\<not> is_digit (CHR ''|'')" by (simp add: is_digit_def code_def)
  then show ?thesis by (auto simp: int_str_def dest: nat_str_digits)
qed

lemma py_split_key:
  "CHR ''|'' \<notin> set b \<Longrightarrow> CHR ''|'' \<notin> set c \<Longrightarrow> py_split (CHR ''|'') (a @ ''|'' @ b @ ''|'' @ c) = py_split (CHR ''|'') a @ [b, c]"
  by (simp add: py_split_at [of "CHR ''|''" a "b @ CHR ''|'' # c"] py_split_append py_split_single)

text \<open>Names with a separator in them decode correctly as well.\<close>

lemma split_key_cache_key: "split_key (cache_key q t c) = (normalize_domain q, int_str t, int_str c)"
proof -
  let ?p = "py_split (CHR ''|'') (normalize_domain q)"
  have parts: "py_split (CHR ''|'') (cache_key q t c) = ?p @ [int_str t, int_str c]"
    by (simp add: cache_key_def py_split_key [simplified] bar_not_digit)
  have "py_rsplit (CHR ''|'') 2 (cache_key q t c) = [normalize_domain q, int_str t, int_str c]"
  proof (cases "length ?p = 1")
    case True
    then obtain p where "?p = [p]" by (cases ?p) auto
    moreover from this have "p = normalize_domain q" by (metis py_join.simps(2) py_join_split)
    ultimately show ?thesis by (simp add: py_rsplit_def parts)
  next
    case False
    then have "\<not> length ?p \<le> 1" using py_split_not_Nil [of "CHR ''|''" "normalize_domain q"] by (cases ?p) auto
    then show ?thesis by (simp add: py_rsplit_def parts)
  qed
  then show ?thesis by (simp add: split_key_def)
qed

lemma decoded_int: "length (nat_str (nat \<bar>i\<bar>)) \<le> max_str_digits \<Longrightarrow>
    decoded_name names (int_str i) = (case names i of None \<Rightarrow> int_str i | Some name \<Rightarrow> name)"
  by (simp add: decoded_name_def py_int_str)

definition wire_value :: "int \<Rightarrow> bool" where
  "wire_value i \<longleftrightarrow> 0 \<le> i \<and> i < 65536"

lemma wire_str: "wire_value i \<Longrightarrow> length (nat_str (nat \<bar>i\<bar>)) \<le> max_str_digits"
  using length_base_str [of 10 "nat i" 5] by (auto simp: wire_value_def max_str_digits_def nat_less_iff)

lemma trunc_seconds_le: "max 0 (trunc_seconds us) * usec_per_sec \<le> max 0 us"
  by (auto simp: trunc_seconds_def usec_per_sec_def max_def)

lemma lifetime_shown:
  assumes "rem = life div nsec_per_sec"
  shows "max 0 (trunc_seconds (rem * usec_per_sec - d)) * nsec_per_sec \<le> max 0 (life - d * 1000)"
proof -
  have "rem * nsec_per_sec \<le> life" using assms by simp
  moreover have "max 0 (trunc_seconds (rem * usec_per_sec - d)) * usec_per_sec \<le> max 0 (rem * usec_per_sec - d)"
    by (rule trunc_seconds_le)
  ultimately show ?thesis by (auto simp: usec_per_sec_def max_def split: if_splits)
qed

lemma length_record_cache_entries:
  "record_cache_entries E rows t = Some t' \<Longrightarrow> length t' = length rows"
  by (auto simp: record_cache_entries_def transaction_def delete_where_def Let_def split: if_splits)

lemma recorded_entry:
  assumes "record_cache_entries E rows t = Some t'" "row \<in> set rows"
  shows "\<exists>i now. cache_entry_row i now row \<in> set t'"
proof -
  from assms(2) obtain n where n: "n < length rows" "rows ! n = row" by (auto simp: in_set_conv_nth)
  then have "(n, row) \<in> set (enumerate 0 rows)" by (auto simp: in_set_enumerate_eq)
  then have "cache_entry_row (1 + int n) (we_clock E n) row \<in> set t'"
    using assms by (force simp: record_cache_entries_def transaction_def delete_where_def Let_def next_id_def split: if_splits)
  then show ?thesis by blast
qed

section \<open>Properties\<close>

text \<open>C30: After a snapshot the API counts the live entries of the cache, and lists for every entry that a lookup
  finds its name, type, class, answer data and TTL, with a remaining lifetime that is never longer
  than the time the entry still has.\<close>

theorem cache_mirror:
  assumes "record_cache_entries E (build_cache_snapshot D now m c) t = Some t'"
    and "fst (cache_get m (cache_key q qtype qclass) c) = Some e" "cache_inv c"
    and "wire_value qtype" "wire_value qclass" "dl_qtype D qtype = Some tname" "dl_class D qclass = Some cname"
    and "dl_parse D (ce_value e) = Some reply"
  shows "count_cache_entries None t' = length (filter (\<lambda>(k, e). m < expires_at e) (cache_data c)) \<and>
    (\<exists>rem expires updated. [(''domain'', JStr (normalize_domain q)), (''qtype'', JStr tname), (''qclass'', JStr cname),
        (''response'', JStr (answer_summary D reply)), (''answers'', JInt (int (length (msg_rr reply)))), (''ttl'', JInt (ce_ttl e)),
        (''remaining_ttl'', JInt rem), (''expires_at'', JTime expires), (''updated_at'', JTime updated)]
          \<in> set (list_cache_entries None 0 None later t')
      \<and> 0 \<le> rem \<and> rem * nsec_per_sec \<le> max 0 (expires_at e - (m + (later - now) * 1000)))"
proof -
  let ?rem = "(expires_at e - m) div nsec_per_sec"
  let ?item = "(cache_key q qtype qclass, ce_value e, ?rem, ce_ttl e)"
  have live: "map_of (cache_data c) (cache_key q qtype qclass) = Some e" "m < expires_at e"
    using assms(2) by (auto simp: get_fst split: option.splits if_splits)
  then have "?item \<in> set (cache_snapshot m c)"
    using map_of_SomeD [OF live(1)] by (force simp: cache_snapshot_def snapshot_filter)
  then have "snapshot_entry D now ?item \<in> set (build_cache_snapshot D now m c)" by (simp add: build_cache_snapshot_def)
  from recorded_entry [OF assms(1) this] obtain i updated
    where row: "cache_entry_row i updated (snapshot_entry D now ?item) \<in> set t'" by blast
  let ?row = "cache_entry_row i updated (snapshot_entry D now ?item)"
  have "cache_entry_dict later ?row =
      [(''domain'', JStr (normalize_domain q)), (''qtype'', JStr tname), (''qclass'', JStr cname),
        (''response'', JStr (answer_summary D reply)), (''answers'', JInt (int (length (msg_rr reply)))), (''ttl'', JInt (ce_ttl e)),
        (''remaining_ttl'', JInt (max 0 (trunc_seconds (now + ?rem * usec_per_sec - later)))),
        (''expires_at'', JTime (now + ?rem * usec_per_sec)), (''updated_at'', JTime updated)]"
    using assms(4-8) by (simp add: cache_entry_dict_def cache_entry_row_def snapshot_entry_def split_key_cache_key
        snapshot_qtype_name_def snapshot_qclass_name_def decoded_int wire_str answer_summary_def Let_def)
  moreover have "cache_entry_dict later ?row \<in> set (list_cache_entries None 0 None later t')"
    using row by (simp add: list_cache_entries_def cache_search_filter_def search_filter_def)
  moreover have "max 0 (trunc_seconds (now + ?rem * usec_per_sec - later)) * nsec_per_sec
      \<le> max 0 (expires_at e - (m + (later - now) * 1000))"
    using lifetime_shown [OF refl, of "expires_at e - m" "later - now"] by (simp add: algebra_simps)
  moreover have "count_cache_entries None t' = length (filter (\<lambda>(k, e). m < expires_at e) (cache_data c))"
    using length_record_cache_entries [OF assms(1)]
    by (simp add: count_cache_entries_def cache_search_filter_def search_filter_def build_cache_snapshot_def
        cache_snapshot_def snapshot_filter)
  ultimately show ?thesis by (metis max.cobounded1)
qed

theorem cache_mirror_witness:
  "let reply = \<lparr>msg_id = 7, msg_rcode = 0, msg_tc = False, msg_q = \<lparr>qn_name = ''a.b'', qn_type = 1, qn_class = 1\<rparr>,
         msg_rr = [\<lparr>rr_name = ''a.b'', rr_type = 1, rr_ttl = 60, rr_data = ''1.2.3.4''\<rparr>], msg_auth = [], msg_ar = []\<rparr>;
       cache = cache_set 0 (cache_key ''A.b.'' 1 1) reply 60 (TTLCache_init 3);
       t = record_cache_entries \<lparr>we_clock = (\<lambda>i. 0), we_now = 0, we_commits = True\<rparr>
             (build_cache_snapshot toy_dnslib 5000000 nsec_per_sec cache) [] in
   \<exists>t'. t = Some t' \<and> count_cache_entries None t' = 1 \<and>
     (\<exists>rem expires updated. [(''domain'', JStr ''a.b''), (''qtype'', JStr ''A''), (''qclass'', JStr ''IN''),
        (''response'', JStr ''1.2.3.4''), (''answers'', JInt 1), (''ttl'', JInt 60),
        (''remaining_ttl'', JInt rem), (''expires_at'', JTime expires), (''updated_at'', JTime updated)]
          \<in> set (list_cache_entries None 0 None 7000000 t')
      \<and> 0 \<le> rem \<and> rem * nsec_per_sec \<le> 57000000000)"
proof -
  let ?reply = "\<lparr>msg_id = 7, msg_rcode = 0, msg_tc = False, msg_q = \<lparr>qn_name = ''a.b'', qn_type = 1, qn_class = 1\<rparr>,
    msg_rr = [\<lparr>rr_name = ''a.b'', rr_type = 1, rr_ttl = 60, rr_data = ''1.2.3.4''\<rparr>], msg_auth = [], msg_ar = []\<rparr> :: string dns_msg"
  let ?c = "cache_set 0 (cache_key ''A.b.'' 1 1) ?reply 60 (TTLCache_init 3)"
  let ?E = "\<lparr>we_clock = (\<lambda>i. 0), we_now = 0, we_commits = True\<rparr>"
  obtain t' where t': "record_cache_entries ?E (build_cache_snapshot toy_dnslib 5000000 nsec_per_sec ?c) [] = Some t'"
    by (simp add: record_cache_entries_def transaction_def)
  let ?e = "\<lparr>ce_value = ?reply, inserted_at = 0, expires_at = 60000000000, ce_ttl = 60\<rparr>"
  have data: "cache_data ?c = [(cache_key ''A.b.'' 1 1, ?e)]"
    by (simp add: cache_set_def TTLCache_init_def move_to_end_def Let_def)
  have name: "normalize_domain ''A.b.'' = ''a.b''" by code_simp
  have "fst (cache_get nsec_per_sec (cache_key ''A.b.'' 1 1) ?c) = Some ?e" by (simp add: get_fst data)
  from cache_mirror [OF t' this, of "''A''" "''IN''" ?reply 7000000]
  have "count_cache_entries None t' = 1 \<and>
     (\<exists>rem expires updated. [(''domain'', JStr ''a.b''), (''qtype'', JStr ''A''), (''qclass'', JStr ''IN''),
        (''response'', JStr ''1.2.3.4''), (''answers'', JInt 1), (''ttl'', JInt 60),
        (''remaining_ttl'', JInt rem), (''expires_at'', JTime expires), (''updated_at'', JTime updated)]
          \<in> set (list_cache_entries None 0 None 7000000 t')
      \<and> 0 \<le> rem \<and> rem * nsec_per_sec \<le> 57000000000)"
    by (simp add: cache_inv_set cache_inv_init wire_value_def toy_dnslib_def answer_summary_def name data)
  with t' show ?thesis by (simp add: Let_def)
qed

end
