(* ===== verification/CounterTables.thy ===== *)
theory CounterTables
  imports Tables Buffers StatBuffers "HOL-Library.Char_ord" "HOL-Library.List_Lexorder"
begin

text \<open>
  The tables that the counting buffers are flushed to: \<open>client_requests\<close>, \<open>cache_outcome_hourly\<close>,
  \<open>client_hourly_stats\<close>, \<open>upstream_hourly_rtt\<close>, \<open>foreign_clients\<close>, \<open>uncacheable_responses\<close> and
  \<open>query_log\<close> (\<open>repository/models.py\<close> and the modules of the same names). For each: its row, the
  upsert of one aggregate, the flush, and the readers. Every table is a \<open>counter_table\<close> and every
  buffer with its table a \<open>pipeline\<close>, so that what is stored never exceeds, and where nothing is
  pruned or lost equals, what was recorded.
\<close>

definition hours_ago :: "int \<Rightarrow> datetime \<Rightarrow> datetime" where
  "hours_ago hours now = now - hours * usec_per_hour"

text \<open>The filter that an optional \<open>hours\<close> argument puts on a time column.\<close>

definition within_hours :: "int option \<Rightarrow> datetime \<Rightarrow> datetime \<Rightarrow> bool" where
  "within_hours hours now t = (case hours of None \<Rightarrow> True | Some h \<Rightarrow> hours_ago h now \<le> t)"

definition matches_opt :: "'a option \<Rightarrow> 'a \<Rightarrow> bool" where
  "matches_opt wanted v = (case wanted of None \<Rightarrow> True | Some w \<Rightarrow> v = w)"

section \<open>Client requests\<close>

record ClientRequest =
  crq_id :: int
  crq_client :: string
  crq_domain :: string
  crq_qtype :: string
  crq_hits :: int
  crq_first_seen :: datetime
  crq_last_seen :: datetime

definition client_request_dict :: "ClientRequest \<Rightarrow> json_dict" where
  "client_request_dict row =
     [(''id'', JInt (crq_id row)), (''client'', JStr (crq_client row)), (''domain'', JStr (crq_domain row)),
      (''qtype'', JStr (crq_qtype row)), (''hits'', JInt (crq_hits row)),
      (''first_seen'', JTime (crq_first_seen row)), (''last_seen'', JTime (crq_last_seen row))]"

definition put_client_request :: "datetime \<Rightarrow> ClientRequestAgg \<Rightarrow> ClientRequest list \<Rightarrow> ClientRequest list" where
  "put_client_request now row t =
     upsert (\<lambda>r. crq_client r = cra_client row \<and> crq_domain r = cra_domain row \<and> crq_qtype r = cra_qtype row)
       \<lparr>crq_id = next_id (map crq_id t), crq_client = cra_client row, crq_domain = cra_domain row,
        crq_qtype = cra_qtype row, crq_hits = cra_hits row, crq_first_seen = now, crq_last_seen = now\<rparr>
       (\<lambda>r. r\<lparr>crq_hits := crq_hits r + cra_hits row, crq_last_seen := now\<rparr>) t"

definition record_client_requests :: "write_env \<Rightarrow> ClientRequestAgg list \<Rightarrow> ClientRequest list \<Rightarrow> ClientRequest list option" where
  "record_client_requests = write_rows put_client_request (\<lambda>now t. t)"

definition list_client_requests :: "int option \<Rightarrow> int \<Rightarrow> string option \<Rightarrow> ClientRequest list \<Rightarrow> json_dict list" where
  "list_client_requests limit offset client t =
     map client_request_dict (sql_page limit offset
       (order_by_desc crq_hits (filter (\<lambda>r. matches_opt client (crq_client r)) t)))"

definition count_client_requests :: "string option \<Rightarrow> ClientRequest list \<Rightarrow> nat" where
  "count_client_requests client t = length (filter (\<lambda>r. matches_opt client (crq_client r)) t)"

definition crq_key :: "ClientRequest \<Rightarrow> string \<times> string \<times> string" where
  "crq_key r = (crq_client r, crq_domain r, crq_qtype r)"

interpretation crt: counter_table put_client_request "\<lambda>now t. t" crq_id crq_key crq_hits cra_key cra_hits "\<lambda>now k. True"
  by (rule counter_table_upsert [OF put_client_request_def]) (auto simp: cra_key_def crq_key_def intro: exI [of _ "\<lambda>r. True"])

interpretation crp: exact_pipeline cr_add cr_rows cr_cleared cr_flush cr_inv "\<lambda>e. e" cra_key cra_hits
  record_client_requests "\<lambda>t k. sum_by crq_key crq_hits k t" "table_ok crq_id crq_key crq_hits"
  "\<lambda>E k. we_commits E \<and> True"
  unfolding record_client_requests_def ..

section \<open>Cache outcomes\<close>

definition OUTCOME_RETENTION_HOURS :: int where
  "OUTCOME_RETENTION_HOURS = 100"

record CacheOutcomeHourly =
  coh_id :: int
  coh_hour_start :: datetime
  coh_reason :: string
  coh_hits :: int

definition cache_outcome_dict :: "CacheOutcomeHourly \<Rightarrow> json_dict" where
  "cache_outcome_dict row =
     [(''hour_start'', JTime (coh_hour_start row)), (''reason'', JStr (coh_reason row)), (''hits'', JInt (coh_hits row))]"

definition put_cache_outcome :: "datetime \<Rightarrow> CacheOutcomeAgg \<Rightarrow> CacheOutcomeHourly list \<Rightarrow> CacheOutcomeHourly list" where
  "put_cache_outcome now row t =
     upsert (\<lambda>r. coh_hour_start r = coa_hour_start row \<and> coh_reason r = coa_reason row)
       \<lparr>coh_id = next_id (map coh_id t), coh_hour_start = coa_hour_start row, coh_reason = coa_reason row,
        coh_hits = coa_hits row\<rparr>
       (\<lambda>r. r\<lparr>coh_hits := coh_hits r + coa_hits row\<rparr>) t"

definition prune_cache_outcomes :: "datetime \<Rightarrow> CacheOutcomeHourly list \<Rightarrow> CacheOutcomeHourly list" where
  "prune_cache_outcomes now = delete_where (\<lambda>r. coh_hour_start r < hours_ago OUTCOME_RETENTION_HOURS now)"

definition record_cache_outcomes :: "write_env \<Rightarrow> CacheOutcomeAgg list \<Rightarrow> CacheOutcomeHourly list \<Rightarrow> CacheOutcomeHourly list option" where
  "record_cache_outcomes = write_rows put_cache_outcome prune_cache_outcomes"

definition coh_key :: "CacheOutcomeHourly \<Rightarrow> datetime \<times> string" where
  "coh_key r = (coh_hour_start r, coh_reason r)"

interpretation cot: counter_table put_cache_outcome prune_cache_outcomes coh_id coh_key coh_hits coa_key coa_hits
  "\<lambda>now k. hours_ago OUTCOME_RETENTION_HOURS now \<le> fst k"
  by (rule counter_table_upsert [OF put_cache_outcome_def]) (auto simp: coa_key_def coh_key_def prune_cache_outcomes_def delete_where_def)

interpretation cop: exact_pipeline co_add co_rows co_cleared co_flush co_inv co_event_key coa_key coa_hits
  record_cache_outcomes "\<lambda>t k. sum_by coh_key coh_hits k t" "table_ok coh_id coh_key coh_hits"
  "\<lambda>E k. we_commits E \<and> hours_ago OUTCOME_RETENTION_HOURS (we_now E) \<le> fst k"
  unfolding record_cache_outcomes_def ..

text \<open>
  The loop of \<open>_fill_hours\<close>: the hours from the current one back to the cutoff. Rows are looked
  up by the hour and the reason they show.
\<close>

function hour_buckets :: "datetime \<Rightarrow> datetime \<Rightarrow> datetime list" where
  "hour_buckets cutoff bucket =
     (if cutoff \<le> bucket then bucket # hour_buckets cutoff (bucket - usec_per_hour) else [])"
  by pat_completeness auto
termination
  by (relation "measure (\<lambda>(cutoff, bucket). nat (bucket - cutoff + 1))") auto

declare hour_buckets.simps [simp del]

definition by_key :: "(json_dict \<Rightarrow> 'k) \<Rightarrow> json_dict list \<Rightarrow> ('k, json_dict) dict" where
  "by_key key rows = fold (\<lambda>row. dict_set (key row) row) rows []"

definition filled :: "('k, json_dict) dict \<Rightarrow> 'k \<Rightarrow> json_dict \<Rightarrow> json_dict" where
  "filled d k zero = (case map_of d k of Some row \<Rightarrow> row | None \<Rightarrow> zero)"

definition zero_outcome_row :: "datetime \<Rightarrow> string \<Rightarrow> json_dict" where
  "zero_outcome_row hour reason = [(''hour_start'', JTime hour), (''reason'', JStr reason), (''hits'', JInt 0)]"

definition fill_outcome_hours :: "json_dict list \<Rightarrow> int \<Rightarrow> datetime \<Rightarrow> json_dict list" where
  "fill_outcome_hours rows hours now =
     (let d = by_key (\<lambda>row. (dict_get row ''hour_start'' JNull, dict_get row ''reason'' JNull)) rows;
          cutoff = hours_ago (min hours OUTCOME_RETENTION_HOURS) now in
      concat (map (\<lambda>bucket. map (\<lambda>reason. filled d (JTime bucket, JStr reason) (zero_outcome_row bucket reason))
          CACHE_OUTCOME_REASONS) (hour_buckets cutoff (floor_hour now))))"

definition list_cache_outcomes :: "int option \<Rightarrow> int \<Rightarrow> int option \<Rightarrow> bool \<Rightarrow> datetime
    \<Rightarrow> CacheOutcomeHourly list \<Rightarrow> json_dict list" where
  "list_cache_outcomes limit offset hours fill now t =
     (let rows = order_by_desc coh_hour_start (order_by coh_reason
            (filter (\<lambda>r. within_hours hours now (coh_hour_start r)) t));
          dicts = map cache_outcome_dict (if limit \<noteq> None \<and> \<not> fill then sql_page limit offset rows else rows) in
      case hours of
        Some h \<Rightarrow> if fill then fill_outcome_hours dicts h now else dicts
      | None \<Rightarrow> dicts)"

definition count_cache_outcomes :: "int option \<Rightarrow> datetime \<Rightarrow> CacheOutcomeHourly list \<Rightarrow> nat" where
  "count_cache_outcomes hours now t = length (filter (\<lambda>r. within_hours hours now (coh_hour_start r)) t)"

lemma set_hour_buckets:
  "b \<in> set (hour_buckets cutoff bucket) \<longleftrightarrow> cutoff \<le> b \<and> b \<le> bucket \<and> usec_per_hour dvd bucket - b"
proof (induction cutoff bucket rule: hour_buckets.induct)
  case (1 cutoff bucket)
  show ?case
  proof (cases "cutoff \<le> bucket")
    case True
    have step: "usec_per_hour dvd bucket - b \<and> b \<le> bucket \<longleftrightarrow>
        b = bucket \<or> (usec_per_hour dvd bucket - usec_per_hour - b \<and> b \<le> bucket - usec_per_hour)"
    proof -
      have "usec_per_hour dvd bucket - usec_per_hour - b \<longleftrightarrow> usec_per_hour dvd bucket - b"
        using dvd_add_left_iff [of usec_per_hour "- usec_per_hour" "bucket - b"] by (simp add: algebra_simps)
      moreover have "b \<le> bucket - usec_per_hour" if "usec_per_hour dvd bucket - b" "b \<le> bucket" "b \<noteq> bucket"
        using that zdvd_imp_le [of usec_per_hour "bucket - b"] by simp
      ultimately show ?thesis by auto
    qed
    have "hour_buckets cutoff bucket = bucket # hour_buckets cutoff (bucket - usec_per_hour)"
      using True by (simp add: hour_buckets.simps [of cutoff bucket])
    then have "b \<in> set (hour_buckets cutoff bucket) \<longleftrightarrow>
        b = bucket \<or> cutoff \<le> b \<and> b \<le> bucket - usec_per_hour \<and> usec_per_hour dvd bucket - usec_per_hour - b"
      using 1 [OF True] by simp
    with step True show ?thesis by blast
  next
    case False
    then have "hour_buckets cutoff bucket = []" by (simp add: hour_buckets.simps [of cutoff bucket])
    with False show ?thesis by auto
  qed
qed

lemma map_of_by_key_notin: "k \<notin> key ` set rows \<Longrightarrow> map_of (fold (\<lambda>row. dict_set (key row) row) rows d) k = map_of d k"
  by (induction rows arbitrary: d) auto

lemma map_of_by_key:
  assumes "distinct (map key rows)" "row \<in> set rows"
  shows "map_of (by_key key rows) (key row) = Some row"
proof -
  obtain xs ys where rows: "rows = xs @ row # ys" using assms(2) by (meson split_list)
  with assms(1) have "key row \<notin> key ` set ys" by auto
  then show ?thesis by (simp add: rows by_key_def map_of_by_key_notin)
qed

lemma sum_by_unique:
  assumes "distinct (map key t)" "r \<in> set t"
  shows "sum_by key hits (key r) t = hits r"
proof -
  from assms(2) obtain xs ys where t: "t = xs @ r # ys" by (meson split_list)
  with assms(1) have "key r \<notin> key ` set xs" "key r \<notin> key ` set ys" by auto
  then show ?thesis by (simp add: t sum_by_notin)
qed

text \<open>The filled series shows the stored hits of every hour of the window and every reason.\<close>

lemma filled_outcomes:
  assumes ok: "distinct (map coh_key t)"
  shows "list_cache_outcomes limit offset (Some h) True now t =
    concat (map (\<lambda>b. map (\<lambda>reason. [(''hour_start'', JTime b), (''reason'', JStr reason),
        (''hits'', JInt (sum_by coh_key coh_hits (b, reason) t))]) CACHE_OUTCOME_REASONS)
      (hour_buckets (hours_ago (min h OUTCOME_RETENTION_HOURS) now) (floor_hour now)))"
proof -
  let ?rows = "order_by_desc coh_hour_start (order_by coh_reason (filter (\<lambda>r. within_hours (Some h) now (coh_hour_start r)) t))"
  let ?key = "\<lambda>row. (dict_get row ''hour_start'' JNull, dict_get row ''reason'' JNull)"
  have key: "?key (cache_outcome_dict r) = (JTime (coh_hour_start r), JStr (coh_reason r))" for r
    by (simp add: cache_outcome_dict_def dict_get_def)
  have m: "mset (map ?key (map cache_outcome_dict ?rows)) = mset (map (\<lambda>r. (JTime (coh_hour_start r), JStr (coh_reason r)))
      (filter (\<lambda>r. within_hours (Some h) now (coh_hour_start r)) t))"
    by (simp only: map_map comp_def key mset_map mset_order_by_desc mset_order_by)
  have "distinct (map (\<lambda>r. (JTime (coh_hour_start r), JStr (coh_reason r))) (filter Q t))" for Q
    using ok by (induction t) (auto simp: coh_key_def)
  then have dist: "distinct (map ?key (map cache_outcome_dict ?rows))"
    by (rule mset_eq_imp_distinct_iff [OF m, THEN iffD2])
  have entry: "filled (by_key ?key (map cache_outcome_dict ?rows)) (JTime b, JStr reason) (zero_outcome_row b reason)
      = [(''hour_start'', JTime b), (''reason'', JStr reason), (''hits'', JInt (sum_by coh_key coh_hits (b, reason) t))]"
    if b: "hours_ago h now \<le> b" for b reason
  proof (cases "(b, reason) \<in> coh_key ` set t")
    case True
    then obtain r where r: "r \<in> set t" "coh_key r = (b, reason)" by (metis image_iff)
    with b have "cache_outcome_dict r \<in> set (map cache_outcome_dict ?rows)"
      by (auto simp: within_hours_def coh_key_def)
    from map_of_by_key [OF dist this] r sum_by_unique [OF ok r(1), of coh_hits] show ?thesis
      by (simp add: key filled_def coh_key_def) (simp add: cache_outcome_dict_def)
  next
    case False
    then have "(JTime b, JStr reason) \<notin> ?key ` set (map cache_outcome_dict ?rows)"
      by (auto simp: cache_outcome_dict_def dict_get_def coh_key_def image_iff)
    with False show ?thesis
      by (simp add: filled_def by_key_def map_of_by_key_notin sum_by_notin zero_outcome_row_def)
  qed
  have "hours_ago h now \<le> b" if "b \<in> set (hour_buckets (hours_ago (min h OUTCOME_RETENTION_HOURS) now) (floor_hour now))" for b
    using that by (auto simp: set_hour_buckets hours_ago_def min_def split: if_splits)
  then show ?thesis
    unfolding list_cache_outcomes_def fill_outcome_hours_def Let_def
    by (simp add: entry cong: map_cong)
qed

end
