(* ===== verification/EventTables.thy ===== *)
theory EventTables
  imports CounterTables
begin

text \<open>
  Tables that are not counters: the recent query events (\<open>repository/query_events.py\<close>), the hourly
  samples of the blocklist size (\<open>repository/blocklist_size.py\<close>) and the gauges of the DNS server
  (\<open>repository/runtime_stats.py\<close>).
\<close>

section \<open>Query events\<close>

definition EVENT_RETENTION_SECONDS :: int where
  "EVENT_RETENTION_SECONDS = 3600"

abbreviation seconds_ago :: "int \<Rightarrow> datetime \<Rightarrow> datetime" where
  "seconds_ago s now \<equiv> now - s * 1000000"

record ClientQueryEvent =
  cqe_id :: int
  cqe_client :: string
  cqe_domain :: string
  cqe_qtype :: string
  cqe_rcode :: string
  cqe_response :: string
  cqe_created_at :: datetime

definition query_event_dict :: "ClientQueryEvent \<Rightarrow> json_dict" where
  "query_event_dict row =
     [(''timestamp'', JTime (cqe_created_at row)), (''client'', JStr (cqe_client row)), (''domain'', JStr (cqe_domain row)),
      (''qtype'', JStr (cqe_qtype row)), (''rcode'', JStr (cqe_rcode row)), (''response'', JStr (cqe_response row))]"

definition event_row :: "int \<Rightarrow> QueryEvent \<Rightarrow> ClientQueryEvent" where
  "event_row i row =
     \<lparr>cqe_id = i, cqe_client = qe_client row, cqe_domain = qe_domain row, cqe_qtype = qe_qtype row,
      cqe_rcode = qe_rcode row, cqe_response = qe_response row, cqe_created_at = qe_created_at row\<rparr>"

text \<open>One \<open>INSERT\<close> of many rows.\<close>

definition insert_events :: "QueryEvent list \<Rightarrow> ClientQueryEvent list \<Rightarrow> ClientQueryEvent list" where
  "insert_events rows t = fold (\<lambda>row t. t @ [event_row (next_id (map cqe_id t)) row]) rows t"

definition record_query_events :: "write_env \<Rightarrow> QueryEvent list \<Rightarrow> ClientQueryEvent list \<Rightarrow> ClientQueryEvent list option" where
  "record_query_events E rows t =
     (if rows = [] then Some t
      else (let cutoff = seconds_ago EVENT_RETENTION_SECONDS (we_now E) in
        transaction (we_commits E)
          (\<lambda>t. delete_where (\<lambda>r. cqe_created_at r < cutoff) (insert_events rows t)) t))"

definition list_recent_queries :: "string \<Rightarrow> int \<Rightarrow> int option \<Rightarrow> datetime \<Rightarrow> ClientQueryEvent list \<Rightarrow> json_dict list" where
  "list_recent_queries client seconds limit now t =
     (let cutoff = seconds_ago seconds now in
      map query_event_dict (sql_page limit 0
        (order_by_desc cqe_created_at (order_by_desc cqe_id
          (filter (\<lambda>r. cqe_client r = client \<and> cutoff \<le> cqe_created_at r) t)))))"

lemma query_event_buffer:
  "qeb_events (fold qe_add args (QueryEventBuffer_init secs n)) = drop (length args - n) (map event_of args)"
proof -
  let ?s = "\<lambda>args. fold qe_add args (QueryEventBuffer_init secs n)"
  have "qeb_events (?s args) = drop (length args - n) (map event_of args) \<and> qeb_maxlen (?s args) = n"
  proof (induction args rule: rev_induct)
    case (snoc a args)
    then have "qeb_events (?s (args @ [a])) = deque_append n (event_of a) (drop (length args - n) (map event_of args))"
      by (simp add: qe_add_events)
    moreover have "qeb_maxlen (qe_add a b) = qeb_maxlen b" for b by (simp add: qe_add_def Let_def split_def)
    then have "qeb_maxlen (?s (args @ [a])) = n" using snoc by simp
    ultimately show ?case by (cases "n \<le> length args") (auto simp: deque_append_def Suc_diff_le)
  qed (simp add: QueryEventBuffer_init_def)
  then show ?thesis ..
qed

lemma list_recent_pruned:
  assumes "cutoff \<le> seconds_ago seconds now"
  shows "list_recent_queries client seconds limit now (delete_where (\<lambda>r. cqe_created_at r < cutoff) t)
    = list_recent_queries client seconds limit now t"
proof -
  have "filter (\<lambda>r. cqe_client r = client \<and> seconds_ago seconds now \<le> cqe_created_at r)
        (delete_where (\<lambda>r. cqe_created_at r < cutoff) t)
      = filter (\<lambda>r. cqe_client r = client \<and> seconds_ago seconds now \<le> cqe_created_at r) t"
    using assms by (induction t) (auto simp: delete_where_def)
  then show ?thesis by (simp add: list_recent_queries_def Let_def)
qed

text \<open>After a flush that commits, a client's recent queries over a window of at most an hour are those of the
  events stored before together with the newest events the buffer could hold: neither the pruning of the
  table nor the flush hides or invents one.\<close>

theorem recent_queries_complete:
  assumes "we_commits E" "seconds \<le> EVENT_RETENTION_SECONDS" "we_now E \<le> now"
  shows "list_recent_queries client seconds limit now
      (snd (qe_flush (record_query_events E) (fold qe_add args (QueryEventBuffer_init secs n), t)))
    = list_recent_queries client seconds limit now (insert_events (drop (length args - n) (map event_of args)) t)"
proof -
  have "seconds_ago EVENT_RETENTION_SECONDS (we_now E) \<le> seconds_ago seconds now" using assms(2,3) by simp
  note pruned = list_recent_pruned [OF this]
  show ?thesis using assms(1)
    by (simp add: qe_flush_def deliver_def record_query_events_def transaction_def query_event_buffer Let_def pruned)
      (simp add: insert_events_def)
qed

theorem recent_queries_complete_witness:
  "list_recent_queries ''c'' 60 None 61000000
      (snd (qe_flush (record_query_events \<lparr>we_clock = (\<lambda>i. 0), we_now = 60000000, we_commits = True\<rparr>)
        (fold qe_add [(50000000, ''c'', ''a.b'', ''A'', ''NOERROR'', ''1.2.3.4''), (51000000, ''c'', ''x.y'', ''A'', ''NXDOMAIN'', [])]
          (QueryEventBuffer_init 5 MAX_EVENTS), [])))
    = [[(''timestamp'', JTime 51000000), (''client'', JStr ''c''), (''domain'', JStr ''x.y''), (''qtype'', JStr ''A''),
        (''rcode'', JStr ''NXDOMAIN''), (''response'', JStr [])],
       [(''timestamp'', JTime 50000000), (''client'', JStr ''c''), (''domain'', JStr ''a.b''), (''qtype'', JStr ''A''),
        (''rcode'', JStr ''NOERROR''), (''response'', JStr ''1.2.3.4'')]]"
  by (subst recent_queries_complete)
    (simp_all add: EVENT_RETENTION_SECONDS_def MAX_EVENTS_def insert_events_def event_of_def event_row_def next_id_def
      list_recent_queries_def order_by_desc_def query_event_dict_def Let_def)

section \<open>Blocklist size\<close>

definition SIZE_RETENTION_HOURS :: int where
  "SIZE_RETENTION_HOURS = 500"

record BlocklistSizeHourly =
  bsh_id :: int
  bsh_hour_start :: datetime
  bsh_domains :: int

definition blocklist_size_dict :: "BlocklistSizeHourly \<Rightarrow> json_dict" where
  "blocklist_size_dict row = [(''hour_start'', JTime (bsh_hour_start row)), (''domains'', JInt (bsh_domains row))]"

text \<open>The clock is read twice.\<close>

definition record_blocklist_size :: "datetime \<Rightarrow> datetime \<Rightarrow> bool \<Rightarrow> int \<Rightarrow> BlocklistSizeHourly list \<Rightarrow> BlocklistSizeHourly list option" where
  "record_blocklist_size now now' commits domains t =
     (let hour = floor_hour now in
      transaction commits (\<lambda>t.
        let t = upsert (\<lambda>r. bsh_hour_start r = hour)
              \<lparr>bsh_id = next_id (map bsh_id t), bsh_hour_start = hour, bsh_domains = domains\<rparr>
              (\<lambda>r. r\<lparr>bsh_domains := domains\<rparr>) t;
            cutoff = hours_ago SIZE_RETENTION_HOURS now'
        in delete_where (\<lambda>r. bsh_hour_start r < cutoff) t) t)"

definition list_blocklist_size :: "int option \<Rightarrow> int \<Rightarrow> int option \<Rightarrow> datetime \<Rightarrow> BlocklistSizeHourly list \<Rightarrow> json_dict list" where
  "list_blocklist_size limit offset hours now t =
     map blocklist_size_dict (sql_page limit offset
       (order_by_desc bsh_hour_start (filter (\<lambda>r. within_hours hours now (bsh_hour_start r)) t)))"

definition count_blocklist_size :: "int option \<Rightarrow> datetime \<Rightarrow> BlocklistSizeHourly list \<Rightarrow> nat" where
  "count_blocklist_size hours now t = length (filter (\<lambda>r. within_hours hours now (bsh_hour_start r)) t)"

text \<open>A row is the latest sample of its hour: the rows as a map from hours to sizes.\<close>

definition sizes :: "BlocklistSizeHourly list \<Rightarrow> datetime \<Rightarrow> int option" where
  "sizes t h = map_option bsh_domains (List.find (\<lambda>r. bsh_hour_start r = h) t)"

lemma sizes_prune: "sizes (delete_where (\<lambda>r. bsh_hour_start r < cutoff) t) h = (if h < cutoff then None else sizes t h)"
  using find_delete_where [of bsh_hour_start h "\<lambda>h. h < cutoff" t] by (simp add: sizes_def)

lemma sizes_upsert:
  "sizes (upsert (\<lambda>r. bsh_hour_start r = hour) \<lparr>bsh_id = i, bsh_hour_start = hour, bsh_domains = d\<rparr>
     (\<lambda>r. r\<lparr>bsh_domains := d\<rparr>) t) h = (if h = hour then Some d else sizes t h)"
  unfolding sizes_def by (subst find_upsert) (simp_all split: option.split)

text \<open>A committed sample replaces the value of its hour, drops the hours beyond the retention and changes no other
  hour: the series is a gauge.\<close>

theorem blocklist_size_gauge:
  assumes "record_blocklist_size now now' commits d t = Some t'"
  shows "sizes t' = (\<lambda>h. if h < hours_ago SIZE_RETENTION_HOURS now' then None
    else if h = floor_hour now then Some d else sizes t h)"
  using assms by (auto simp: record_blocklist_size_def transaction_def Let_def sizes_prune sizes_upsert split: if_splits)

theorem blocklist_size_gauge_witness:
  "\<exists>t t'. record_blocklist_size 5 6 True 10 [] = Some t \<and> record_blocklist_size 7 8 True 12 t = Some t' \<and> sizes t' 0 = Some 12"
proof -
  obtain t where t: "record_blocklist_size 5 6 True 10 [] = Some t"
    by (simp add: record_blocklist_size_def transaction_def Let_def)
  obtain t' where t': "record_blocklist_size 7 8 True 12 t = Some t'"
    by (simp add: record_blocklist_size_def transaction_def Let_def)
  have "sizes t' 0 = Some 12"
    unfolding blocklist_size_gauge [OF t'] by (simp add: floor_hour_def hours_ago_def SIZE_RETENTION_HOURS_def)
  with t t' show ?thesis by blast
qed

section \<open>Runtime gauges\<close>

record RuntimeStat =
  rst_key :: string
  rst_value :: int
  rst_updated_at :: datetime

definition record_runtime_stats :: "(nat \<Rightarrow> datetime) \<Rightarrow> bool \<Rightarrow> (string, int) dict \<Rightarrow> RuntimeStat list \<Rightarrow> RuntimeStat list option" where
  "record_runtime_stats clock commits vals t =
     (if vals = [] then Some t
      else transaction commits (\<lambda>t.
        fold (\<lambda>(i, (key, v)). upsert (\<lambda>r. rst_key r = key)
            \<lparr>rst_key = key, rst_value = v, rst_updated_at = clock i\<rparr>
            (\<lambda>r. r\<lparr>rst_value := v, rst_updated_at := clock i\<rparr>)) (enumerate 0 vals) t) t)"

definition load_runtime_stats :: "RuntimeStat list \<Rightarrow> (string, int) dict \<times> datetime option" where
  "load_runtime_stats t =
     (fold (\<lambda>row. dict_set (rst_key row) (rst_value row)) t [],
      if t = [] then None else Some (Max (set (map rst_updated_at t))))"

lemma stats_fold: "map_of (fold (\<lambda>row. dict_set (rst_key row) (rst_value row)) t d) k =
    (case List.find (\<lambda>r. rst_key r = k) (rev t) of None \<Rightarrow> map_of d k | Some r \<Rightarrow> Some (rst_value r))"
  by (induction t rule: rev_induct) (auto split: option.splits)

lemma upsert_stat:
  "map_of (fst (load_runtime_stats (upsert (\<lambda>r. rst_key r = key) \<lparr>rst_key = key, rst_value = v, rst_updated_at = now\<rparr>
     (\<lambda>r. r\<lparr>rst_value := v, rst_updated_at := now\<rparr>) t))) = (map_of (fst (load_runtime_stats t)))(key \<mapsto> v)"
proof (cases "list_ex (\<lambda>r. rst_key r = key) t")
  case True
  have "map_of (fold (\<lambda>row. dict_set (rst_key row) (rst_value row))
      (map (\<lambda>r. if rst_key r = key then r\<lparr>rst_value := v, rst_updated_at := now\<rparr> else r) t) []) k
    = (if k = key \<and> list_ex (\<lambda>r. rst_key r = key) t then Some v
       else map_of (fold (\<lambda>row. dict_set (rst_key row) (rst_value row)) t []) k)" for k
    by (induction t rule: rev_induct) auto
  with True show ?thesis by (auto simp: load_runtime_stats_def upsert_def)
next
  case False
  then show ?thesis by (simp add: load_runtime_stats_def upsert_def)
qed

text \<open>The gauges that are read back are those of the last sample, over the earlier ones.\<close>

theorem runtime_stats_latest:
  assumes "record_runtime_stats clock commits vals t = Some t'" "dict_wf vals"
  shows "map_of (fst (load_runtime_stats t')) = map_of (fst (load_runtime_stats t)) ++ map_of vals"
proof -
  have "map_of (fst (load_runtime_stats (fold (\<lambda>(i, (key, v)). upsert (\<lambda>r. rst_key r = key)
            \<lparr>rst_key = key, rst_value = v, rst_updated_at = clock i\<rparr>
            (\<lambda>r. r\<lparr>rst_value := v, rst_updated_at := clock i\<rparr>)) (enumerate n vals) t)))
      = map_of (fst (load_runtime_stats t)) ++ map_of vals" for n
    using assms(2)
  proof (induction vals arbitrary: n t)
    case (Cons p vals)
    obtain key v where p: "p = (key, v)" by (cases p)
    from Cons.prems p have "map_of vals key = None" "dict_wf vals" by (simp_all add: dict_wf_def map_of_eq_None_iff)
    then show ?case by (auto simp: p Cons.IH upsert_stat map_add_def fun_eq_iff split: option.splits)
  qed simp
  from this [of 0] assms(1) show ?thesis by (auto simp: record_runtime_stats_def transaction_def split: if_splits)
qed

theorem runtime_stats_latest_witness:
  "\<exists>t. record_runtime_stats (\<lambda>i. 7) True [(''cache_size'', 3), (''policies'', 1)] [] = Some t
     \<and> map_of (fst (load_runtime_stats t)) ''cache_size'' = Some 3"
proof -
  obtain t where t: "record_runtime_stats (\<lambda>i. 7) True [(''cache_size'', 3), (''policies'', 1)] [] = Some t"
    by (simp add: record_runtime_stats_def transaction_def)
  from runtime_stats_latest [OF this] t show ?thesis by (simp add: dict_wf_def)
qed

end
