(* ===== verification/QueryLogTable.thy ===== *)
theory QueryLogTable
  imports CounterTables SearchText
begin

text \<open>
  The query log: \<open>repository/query_log.py\<close> over the rows of the buffer in \<open>domain/querybuffer.py\<close>, with
  its search, its totals by domain and the clients behind each domain.
\<close>

definition DOMAIN_CHUNK :: nat where
  "DOMAIN_CHUNK = 500"

record QueryLog =
  ql_id :: int
  ql_client :: string
  ql_domain :: string
  ql_qtype :: string
  ql_count :: int
  ql_last_action :: "string option"
  ql_last_response :: "string option"
  ql_first_seen :: datetime
  ql_last_seen :: datetime

definition query_log_dict :: "QueryLog \<Rightarrow> json_dict" where
  "query_log_dict row =
     [(''id'', JInt (ql_id row)), (''client'', JStr (ql_client row)), (''domain'', JStr (ql_domain row)),
      (''qtype'', JStr (ql_qtype row)), (''count'', JInt (ql_count row)),
      (''last_action'', json_opt JStr (ql_last_action row)), (''last_response'', json_opt JStr (ql_last_response row)),
      (''first_seen'', JTime (ql_first_seen row)), (''last_seen'', JTime (ql_last_seen row))]"

definition ql_key :: "QueryLog \<Rightarrow> string \<times> string \<times> string" where
  "ql_key r = (ql_client r, ql_domain r, ql_qtype r)"

definition put_query :: "datetime \<Rightarrow> QueryAgg \<Rightarrow> QueryLog list \<Rightarrow> QueryLog list" where
  "put_query now row t =
     upsert (\<lambda>r. ql_client r = qa_client row \<and> ql_domain r = qa_domain row \<and> ql_qtype r = qa_qtype row)
       \<lparr>ql_id = next_id (map ql_id t), ql_client = qa_client row, ql_domain = qa_domain row, ql_qtype = qa_qtype row,
        ql_count = qa_count row, ql_last_action = Some (qa_last_action row), ql_last_response = Some (qa_last_response row),
        ql_first_seen = now, ql_last_seen = now\<rparr>
       (\<lambda>r. r\<lparr>ql_count := ql_count r + qa_count row, ql_last_action := Some (qa_last_action row),
          ql_last_response := Some (qa_last_response row), ql_last_seen := now\<rparr>) t"

definition record_queries :: "write_env \<Rightarrow> QueryAgg list \<Rightarrow> QueryLog list \<Rightarrow> QueryLog list option" where
  "record_queries = write_rows put_query (\<lambda>now t. t)"

text \<open>\<open>_filters\<close>: an absent or empty client does not filter.\<close>

definition query_filters :: "string option \<Rightarrow> string option \<Rightarrow> QueryLog \<Rightarrow> bool" where
  "query_filters search client r \<longleftrightarrow>
     (case client of None \<Rightarrow> True | Some c \<Rightarrow> c = [] \<or> ql_client r = c)
     \<and> search_filter search [ql_client r, ql_domain r]"

definition list_queries :: "int option \<Rightarrow> int \<Rightarrow> string option \<Rightarrow> string option \<Rightarrow> QueryLog list \<Rightarrow> json_dict list" where
  "list_queries limit offset search client t =
     map query_log_dict (sql_page limit offset
       (order_by_desc ql_last_seen (order_by ql_id (filter (query_filters search client) t))))"

definition count_queries :: "string option \<Rightarrow> string option \<Rightarrow> QueryLog list \<Rightarrow> nat" where
  "count_queries search client t = length (filter (query_filters search client) t)"

definition reset_queries :: "QueryLog list \<Rightarrow> nat \<times> QueryLog list" where
  "reset_queries t = (length t, [])"

text \<open>\<open>GROUP BY domain ORDER BY sum(count) DESC, domain\<close>.\<close>

definition aggregate_domain_totals :: "QueryLog list \<Rightarrow> json_dict list" where
  "aggregate_domain_totals t =
     map (\<lambda>d. let rows = filter (\<lambda>r. ql_domain r = d) t in
         [(''domain'', JStr d), (''count'', JInt (sum_by ql_domain ql_count d t)),
          (''first_seen'', JTime (Min (ql_first_seen ` set rows))), (''last_seen'', JTime (Max (ql_last_seen ` set rows)))])
       (order_by_desc (\<lambda>d. sum_by ql_domain ql_count d t) (sort (remdups (map ql_domain t))))"

text \<open>One chunk of domains: \<open>GROUP BY domain, client ORDER BY domain, sum(count) DESC, client\<close>.\<close>

definition chunk_clients :: "string list \<Rightarrow> QueryLog list \<Rightarrow> (string \<times> string \<times> int) list" where
  "chunk_clients chunk t =
     (let rows = filter (\<lambda>r. ql_domain r \<in> set chunk) t;
          key = (\<lambda>r. (ql_domain r, ql_client r));
          total = (\<lambda>k. sum_by key ql_count k rows) in
      map (\<lambda>k. (fst k, snd k, total k))
        (order_by fst (order_by_desc total (order_by snd (remdups (map key rows))))))"

definition clients_for_domains :: "string list \<Rightarrow> QueryLog list \<Rightarrow> (string, (string \<times> int) list) dict" where
  "clients_for_domains domains t =
     fold (\<lambda>chunk. fold (\<lambda>(d, client, n) result. dict_set d (dict_get result d [] @ [(client, n)]) result)
         (chunk_clients chunk t))
       (chunks DOMAIN_CHUNK domains) []"

interpretation qlt: counter_table put_query "\<lambda>now t. t" ql_id ql_key ql_count qa_key qa_count "\<lambda>now k. True"
  by (rule counter_table_upsert [OF put_query_def])
    (auto simp: ql_key_def qa_key_def intro: exI [of _ "\<lambda>r. True"])

interpretation qlp: exact_pipeline qb_add qb_rows qb_cleared qb_flush qb_inv fst qa_key qa_count
  record_queries "\<lambda>t k. sum_by ql_key ql_count k t" "table_ok ql_id ql_key ql_count" "\<lambda>E k. we_commits E \<and> True"
  unfolding record_queries_def ..

section \<open>The clients behind the domains\<close>

text \<open>The loop over one chunk appends, for each domain, the clients of its rows.\<close>

lemma dict_get_fold_append:
  "dict_get (fold (\<lambda>(d, client, n) result. dict_set d (dict_get result d [] @ [(client, n)]) result) xs r) d []
     = dict_get r d [] @ map snd (filter (\<lambda>x. fst x = d) xs)"
proof (induction xs arbitrary: r)
  case (Cons x xs)
  then show ?case by (cases x) simp
qed simp

lemma dict_get_fold_chunks:
  "dict_get (fold (\<lambda>chunk. fold (\<lambda>(d, client, n) result. dict_set d (dict_get result d [] @ [(client, n)]) result) (f chunk)) cs r) d []
     = dict_get r d [] @ concat (map (\<lambda>chunk. map snd (filter (\<lambda>x. fst x = d) (f chunk))) cs)"
  by (induction cs arbitrary: r) (simp_all add: dict_get_fold_append)

lemma chunk_clients_notin: "d \<notin> set chunk \<Longrightarrow> filter (\<lambda>x. fst x = d) (chunk_clients chunk t) = []"
  by (auto simp: chunk_clients_def Let_def filter_empty_conv)

lemma chunk_once:
  assumes "distinct (concat cs)" "\<And>c. c \<in> set cs \<Longrightarrow> d \<notin> set c \<Longrightarrow> g c = []" "d \<in> set (concat cs)"
  shows "\<exists>c \<in> set cs. d \<in> set c \<and> concat (map g cs) = g c"
  using assms
proof (induction cs)
  case (Cons c cs)
  show ?case
  proof (cases "d \<in> set c")
    case True
    then have "\<forall>c' \<in> set cs. g c' = []" using Cons.prems(1,2) by auto
    with True show ?thesis by (auto simp: concat_eq_Nil_conv)
  next
    case False
    with Cons show ?thesis by auto
  qed
qed simp

lemma chunk_clients_domain:
  fixes t :: "QueryLog list" and d :: string
  assumes "d \<in> set chunk"
  defines "tot \<equiv> \<lambda>c. sum_by (\<lambda>r. (ql_domain r, ql_client r)) ql_count (d, c) t"
    and "l \<equiv> map snd (filter (\<lambda>x. fst x = d) (chunk_clients chunk t))"
  shows "set l = {(c, tot c) |c. \<exists>r \<in> set t. ql_domain r = d \<and> ql_client r = c}"
    and "sorted_wrt (\<lambda>a b. snd b < snd a \<or> snd a = snd b \<and> fst a < fst b) l"
proof -
  let ?rows = "filter (\<lambda>r. ql_domain r \<in> set chunk) t"
  let ?key = "\<lambda>r. (ql_domain r, ql_client r)"
  let ?total = "\<lambda>k. sum_by ?key ql_count k ?rows"
  let ?ks = "order_by fst (order_by_desc ?total (order_by snd (remdups (map ?key ?rows))))"
  have tot: "?total (d, c) = tot c" for c
    unfolding tot_def using assms(1) by (induction t) auto
  have l: "l = map (\<lambda>k. (snd k, tot (snd k))) (filter (\<lambda>k. fst k = d) ?ks)"
    unfolding l_def chunk_clients_def Let_def
    by (simp add: filter_map comp_def) (auto simp: tot [symmetric] intro!: map_cong)
  have "set ?ks = ?key ` set ?rows" by simp
  then show "set l = {(c, tot c) |c. \<exists>r \<in> set t. ql_domain r = d \<and> ql_client r = c}"
    unfolding l using assms(1) by (auto simp: image_iff)
  have "sorted_wrt (\<lambda>a b. a \<noteq> b) (remdups (map ?key ?rows))"
    using distinct_remdups [of "map ?key ?rows"] by (simp only: distinct_conv_nth sorted_wrt_iff_nth_less) simp
  from order_by_refines [OF order_by_desc_refines [OF order_by_refines [OF this, of snd], of ?total], of fst]
  have "sorted_wrt (\<lambda>a b. ?total b < ?total a \<or> ?total a = ?total b \<and> snd a < snd b) (filter (\<lambda>k. fst k = d) ?ks)"
    by (intro sorted_wrt_mono_rel [OF _ sorted_wrt_filter]) (auto simp: prod_eq_iff)
  then have "sorted_wrt (\<lambda>a b. tot (snd b) < tot (snd a) \<or> tot (snd a) = tot (snd b) \<and> snd a < snd b)
      (filter (\<lambda>k. fst k = d) ?ks)"
    by (rule sorted_wrt_mono_rel [rotated]) (auto simp: tot [symmetric] prod_eq_iff)
  then show "sorted_wrt (\<lambda>a b. snd b < snd a \<or> snd a = snd b \<and> fst a < fst b) l"
    unfolding l by (simp add: sorted_wrt_map)
qed

text \<open>For distinct domains, whatever the number of chunks, each domain gets every client with a row for it
  once, with the sum of its counts over the query types, the most active first and ties in
  the order of the names.\<close>

theorem clients_for_domains_exact:
  assumes "distinct domains" "d \<in> set domains"
  shows "set (dict_get (clients_for_domains domains t) d [])
      = {(c, sum_by (\<lambda>r. (ql_domain r, ql_client r)) ql_count (d, c) t) |c. \<exists>r \<in> set t. ql_domain r = d \<and> ql_client r = c}
    \<and> sorted_wrt (\<lambda>a b. snd b < snd a \<or> snd a = snd b \<and> fst a < fst b) (dict_get (clients_for_domains domains t) d [])"
proof -
  let ?g = "\<lambda>chunk. map snd (filter (\<lambda>x. fst x = d) (chunk_clients chunk t))"
  have cs: "concat (chunks DOMAIN_CHUNK domains) = domains" by (rule concat_chunks) (simp add: DOMAIN_CHUNK_def)
  have "\<exists>c \<in> set (chunks DOMAIN_CHUNK domains). d \<in> set c \<and> concat (map ?g (chunks DOMAIN_CHUNK domains)) = ?g c"
    by (rule chunk_once) (use assms cs in \<open>auto simp: chunk_clients_notin\<close>)
  then obtain c where c: "d \<in> set c" "concat (map ?g (chunks DOMAIN_CHUNK domains)) = ?g c" by blast
  have nil: "dict_get [] d [] = []" by (simp add: dict_get_def)
  have l: "dict_get (clients_for_domains domains t) d [] = ?g c"
    unfolding clients_for_domains_def dict_get_fold_chunks nil using c(2) by simp
  from chunk_clients_domain [OF c(1), of t] show ?thesis unfolding l by blast
qed

theorem clients_for_domains_exact_witness:
  "let row = (\<lambda>i c q n. \<lparr>ql_id = i, ql_client = c, ql_domain = ''a.b'', ql_qtype = q, ql_count = n, ql_last_action = None,
         ql_last_response = None, ql_first_seen = 0, ql_last_seen = 0\<rparr>);
       t = [row 1 ''c'' ''A'' 2, row 2 ''d'' ''A'' 7, row 3 ''c'' ''AAAA'' 1]
   in set (dict_get (clients_for_domains [''x.y'', ''a.b''] t) ''a.b'' []) = {(''c'', 3), (''d'', 7)}"
proof -
  let ?row = "\<lambda>i c q n. \<lparr>ql_id = i, ql_client = c, ql_domain = ''a.b'', ql_qtype = q, ql_count = n, ql_last_action = None,
         ql_last_response = None, ql_first_seen = 0, ql_last_seen = 0\<rparr>"
  let ?t = "[?row 1 ''c'' ''A'' 2, ?row 2 ''d'' ''A'' 7, ?row 3 ''c'' ''AAAA'' 1]"
  have image: "{(c, f c) |c. \<exists>r \<in> set t. ql_domain r = d \<and> ql_client r = c}
      = (\<lambda>r. (ql_client r, f (ql_client r))) ` set (filter (\<lambda>r. ql_domain r = d) t)" for f d and t :: "QueryLog list"
    by auto
  have "set (dict_get (clients_for_domains [''x.y'', ''a.b''] ?t) ''a.b'' []) = {(''c'', 3), (''d'', 7)}"
    using conjunct1 [OF clients_for_domains_exact [of "[''x.y'', ''a.b'']" "''a.b''" ?t]]
    unfolding image by (simp add: sum_by_def insert_commute)
  then show ?thesis by (simp only: Let_def)
qed

end
