(* ===== verification/NewDomains.thy ===== *)
theory NewDomains
  imports QueryLogTable "HOL-Library.Product_Lexorder"
begin

text \<open>
  The new domains of the clients: the rest of \<open>repository/client_requests.py\<close>. The dense hourly series is
  rebuilt from the client requests, and the feed of the newest pairs takes their last action from the
  query log. The order in which the source runs through the set of known clients is the parameter
  \<open>listing\<close>.
\<close>

definition NEW_DOMAIN_WINDOW_HOURS :: nat where
  "NEW_DOMAIN_WINDOW_HOURS = 20"

record ClientNewDomainStat =
  nds_id :: int
  nds_hour_start :: datetime
  nds_client :: string
  nds_new_domains :: int

text \<open>\<open>SELECT client, domain, min(first_seen) GROUP BY client, domain\<close>.\<close>

definition first_seens :: "ClientRequest list \<Rightarrow> ((string \<times> string) \<times> datetime) list" where
  "first_seens t =
     (let key = (\<lambda>r. (crq_client r, crq_domain r)) in
      map (\<lambda>k. (k, Min (crq_first_seen ` set (filter (\<lambda>r. key r = k) t)))) (sort (remdups (map key t))))"

definition put_new_domains :: "(datetime \<times> string) \<Rightarrow> int \<Rightarrow> ClientNewDomainStat list \<Rightarrow> ClientNewDomainStat list" where
  "put_new_domains key n t =
     upsert (\<lambda>r. (nds_hour_start r, nds_client r) = key)
       \<lparr>nds_id = next_id (map nds_id t), nds_hour_start = fst key, nds_client = snd key, nds_new_domains = n\<rparr>
       (\<lambda>r. r\<lparr>nds_new_domains := n\<rparr>) t"

text \<open>The loop over the groups: the known clients, and the counts of the buckets inside the window.\<close>

definition count_group :: "datetime \<Rightarrow> datetime \<Rightarrow> (string \<times> string) \<times> datetime
    \<Rightarrow> string set \<times> (datetime \<times> string, int) dict \<Rightarrow> string set \<times> (datetime \<times> string, int) dict" where
  "count_group window_start current_hour row st =
     (case row of ((client, domain), first_seen) \<Rightarrow> case st of (known, counts) \<Rightarrow>
       let bucket = floor_hour first_seen in
       (insert client known,
        if window_start \<le> bucket \<and> bucket \<le> current_hour
        then dict_set (bucket, client) (dict_get counts (bucket, client) 0 + 1) counts else counts))"

definition window_hours :: "datetime \<Rightarrow> datetime list" where
  "window_hours window_start = map (\<lambda>i. window_start + int i * usec_per_hour) [0..<NEW_DOMAIN_WINDOW_HOURS]"

definition materialize_new_domains :: "(string set \<Rightarrow> string list) \<Rightarrow> datetime \<Rightarrow> bool \<Rightarrow> ClientRequest list
    \<Rightarrow> ClientNewDomainStat list \<Rightarrow> ClientNewDomainStat list option" where
  "materialize_new_domains listing now commits requests t =
     (let current_hour = floor_hour now;
          window_start = current_hour - (int NEW_DOMAIN_WINDOW_HOURS - 1) * usec_per_hour;
          (known, counts) = fold (count_group window_start current_hour) (first_seens requests) ({}, []);
          keys = concat (map (\<lambda>hour. map (\<lambda>client. (hour, client)) (listing known)) (window_hours window_start)) in
      transaction commits (\<lambda>t.
        delete_where (\<lambda>r. nds_hour_start r < window_start)
          (fold (\<lambda>key. put_new_domains key (dict_get counts key 0)) keys t)) t)"

definition list_new_domain_counts :: "string option \<Rightarrow> ClientNewDomainStat list \<Rightarrow> json_dict list" where
  "list_new_domain_counts client t =
     map (\<lambda>r. [(''hour_start'', JTime (nds_hour_start r)), (''client'', JStr (nds_client r)), (''new_domains'', JInt (nds_new_domains r))])
       (order_by_desc nds_hour_start (order_by nds_client (filter (\<lambda>r. matches_opt client (nds_client r)) t)))"

text \<open>\<open>setdefault\<close> keeps the first row of a pair.\<close>

definition last_actions_for :: "(string \<times> string) list \<Rightarrow> QueryLog list \<Rightarrow> (string \<times> string, string option \<times> string) dict" where
  "last_actions_for pairs qlog =
     (if pairs = [] then []
      else fold (\<lambda>r actions. let k = (ql_client r, ql_domain r) in
             if k \<in> set (dict_keys actions) then actions else dict_set k (ql_last_action r, ql_qtype r) actions)
        (order_by_desc ql_last_seen (order_by_desc ql_id (filter (\<lambda>r. (ql_client r, ql_domain r) \<in> set pairs) qlog))) [])"

definition list_recent_new_domains :: "int \<Rightarrow> string set \<Rightarrow> ClientRequest list \<Rightarrow> QueryLog list \<Rightarrow> json_dict list" where
  "list_recent_new_domains limit exclude_clients requests qlog =
     (let groups = first_seens (filter (\<lambda>r. crq_client r \<notin> exclude_clients) requests);
          rows = sql_page (Some limit) 0 (order_by_desc snd groups);
          actions = last_actions_for (map fst rows) qlog in
      map (\<lambda>(k, first_seen). [(''client'', JStr (fst k)), (''domain'', JStr (snd k)), (''first_seen'', JTime first_seen),
          (''last_action'', json_opt JStr (Option.bind (map_of actions k) fst)),
          (''last_qtype'', json_opt JStr (map_option snd (map_of actions k)))]) rows)"

section \<open>Lemmas\<close>

definition nds_key :: "ClientNewDomainStat \<Rightarrow> datetime \<times> string" where
  "nds_key r = (nds_hour_start r, nds_client r)"

definition new_domain_count :: "ClientNewDomainStat list \<Rightarrow> datetime \<times> string \<Rightarrow> int option" where
  "new_domain_count t k = map_option nds_new_domains (List.find (\<lambda>r. nds_key r = k) t)"

lemma put_new_domains_count:
  "new_domain_count (put_new_domains k n t) j = (if j = k then Some n else new_domain_count t j)"
proof -
  have same: "(nds_hour_start r, nds_client r) = k \<longleftrightarrow> nds_key r = k" for r by (simp add: nds_key_def)
  show ?thesis unfolding new_domain_count_def put_new_domains_def same
    by (subst find_upsert [where key = nds_key]) (simp_all add: nds_key_def split: option.split)
qed

lemma put_all_counts:
  "new_domain_count (fold (\<lambda>k. put_new_domains k (f k)) ks t) j = (if j \<in> set ks then Some (f j) else new_domain_count t j)"
  by (induction ks arbitrary: t) (auto simp: put_new_domains_count)

lemma prune_counts:
  "new_domain_count (delete_where (\<lambda>r. nds_hour_start r < w) t) j = (if fst j < w then None else new_domain_count t j)"
  using find_delete_where [of nds_key j "\<lambda>k. fst k < w" t] by (simp add: new_domain_count_def nds_key_def)

text \<open>The number of domains that a client saw first in an hour.\<close>

definition domains_first_seen_in :: "ClientRequest list \<Rightarrow> datetime \<Rightarrow> string \<Rightarrow> int" where
  "domains_first_seen_in t hour client =
     int (card {d. \<exists>r \<in> set t. crq_client r = client \<and> crq_domain r = d
        \<and> floor_hour (Min {crq_first_seen q |q. q \<in> set t \<and> crq_client q = client \<and> crq_domain q = d}) = hour})"

lemma count_groups:
  "fst (fold (count_group w c) gs st) = fst st \<union> (fst \<circ> fst) ` set gs"
  "dict_get (snd (fold (count_group w c) gs st)) (h, cl) 0 = dict_get (snd st) (h, cl) 0 +
     (if w \<le> h \<and> h \<le> c then int (length (filter (\<lambda>g. fst (fst g) = cl \<and> floor_hour (snd g) = h) gs)) else 0)"
  by (induction gs arbitrary: st) (auto simp: count_group_def Let_def split: prod.split)

lemma first_seens_count:
  "int (length (filter (\<lambda>g. fst (fst g) = cl \<and> floor_hour (snd g) = h) (first_seens t))) = domains_first_seen_in t h cl"
proof -
  let ?key = "\<lambda>r. (crq_client r, crq_domain r)"
  let ?first = "\<lambda>k. Min (crq_first_seen ` set (filter (\<lambda>r. ?key r = k) t))"
  let ?ks = "filter (\<lambda>k. fst k = cl \<and> floor_hour (?first k) = h) (sort (remdups (map ?key t)))"
  have "length (filter (\<lambda>g. fst (fst g) = cl \<and> floor_hour (snd g) = h) (first_seens t)) = length ?ks"
    by (simp add: first_seens_def Let_def filter_map comp_def)
  also have "\<dots> = card (set ?ks)" by (rule distinct_card [symmetric]) simp
  also have "\<dots> = card (snd ` set ?ks)" by (rule card_image [symmetric]) (auto simp: inj_on_def)
  also have "snd ` set ?ks = {d. \<exists>r \<in> set t. crq_client r = cl \<and> crq_domain r = d
        \<and> floor_hour (Min {crq_first_seen q |q. q \<in> set t \<and> crq_client q = cl \<and> crq_domain q = d}) = h}"
    (is "?l = ?r")
  proof -
    have first: "crq_first_seen ` set (filter (\<lambda>r. ?key r = (cl, d)) t)
        = {crq_first_seen q |q. q \<in> set t \<and> crq_client q = cl \<and> crq_domain q = d}" for d by auto
    have "?l = {d. (cl, d) \<in> ?key ` set t \<and> floor_hour (?first (cl, d)) = h}" by force
    also have "\<dots> = ?r" unfolding first by (auto simp: image_iff)
    finally show ?thesis .
  qed
  finally show ?thesis by (simp add: domains_first_seen_in_def)
qed

lemma known_first_seens: "(fst \<circ> fst) ` set (first_seens t) = crq_client ` set t"
  by (force simp: first_seens_def Let_def)

lemma set_window_hours:
  assumes "usec_per_hour dvd c" "w = c - (int NEW_DOMAIN_WINDOW_HOURS - 1) * usec_per_hour"
  shows "h \<in> set (window_hours w) \<longleftrightarrow> usec_per_hour dvd h \<and> w \<le> h \<and> h \<le> c"
proof
  assume "h \<in> set (window_hours w)"
  then obtain i where "i < NEW_DOMAIN_WINDOW_HOURS" "h = w + int i * usec_per_hour" by (auto simp: window_hours_def)
  with assms show "usec_per_hour dvd h \<and> w \<le> h \<and> h \<le> c" by (auto simp: NEW_DOMAIN_WINDOW_HOURS_def)
next
  assume h: "usec_per_hour dvd h \<and> w \<le> h \<and> h \<le> c"
  have "usec_per_hour dvd w" using assms by simp
  with h have "usec_per_hour dvd h - w" by (intro dvd_diff) simp_all
  then obtain k where k: "h - w = usec_per_hour * k" ..
  then have "0 \<le> k" "k < int NEW_DOMAIN_WINDOW_HOURS"
    using h assms by (auto simp: NEW_DOMAIN_WINDOW_HOURS_def zero_le_mult_iff)
  with k show "h \<in> set (window_hours w)"
    by (auto simp: window_hours_def intro!: image_eqI [of _ _ "nat k"])
qed

section \<open>Properties\<close>

text \<open>C29: The rebuilt series has for every known client and every one of the 20 hours of the window the number of
  domains the client saw first in that hour, zeros included, whatever the table held and in whatever order the
  clients are visited; it keeps nothing older than the window.\<close>

theorem new_domains_dense:
  assumes "materialize_new_domains listing now commits requests t = Some t'"
    and "\<forall>S. finite S \<longrightarrow> set (listing S) = S"
  shows "new_domain_count t' (hour, client) =
    (if hour < floor_hour now - 19 * usec_per_hour then None
     else if client \<in> crq_client ` set requests \<and> usec_per_hour dvd hour \<and> hour \<le> floor_hour now
     then Some (domains_first_seen_in requests hour client)
     else new_domain_count t (hour, client))"
proof -
  let ?c = "floor_hour now"
  let ?w = "?c - (int NEW_DOMAIN_WINDOW_HOURS - 1) * usec_per_hour"
  obtain known counts where st: "fold (count_group ?w ?c) (first_seens requests) ({}, []) = (known, counts)" by (cases "fold (count_group ?w ?c) (first_seens requests) ({}, [])")
  have known: "known = crq_client ` set requests"
    using count_groups(1) [of ?w ?c "first_seens requests" "({}, [])"] unfolding st fst_conv known_first_seens by simp
  have counts: "dict_get counts (h, cl) 0 = (if ?w \<le> h \<and> h \<le> ?c then domains_first_seen_in requests h cl else 0)" for h cl
    using count_groups(2) [of ?w ?c "first_seens requests" "({}, [])" h cl] unfolding st snd_conv first_seens_count by (simp add: dict_get_def)
  let ?keys = "concat (map (\<lambda>hour. map (\<lambda>client. (hour, client)) (listing known)) (window_hours ?w))"
  have "set (listing known) = known" using assms(2) by (simp add: known)
  then have keys: "(h, cl) \<in> set ?keys \<longleftrightarrow> cl \<in> crq_client ` set requests \<and> usec_per_hour dvd h \<and> ?w \<le> h \<and> h \<le> ?c" for h cl
    using set_window_hours [of ?c ?w h] by (auto simp: known)
  have t': "t' = delete_where (\<lambda>r. nds_hour_start r < ?w) (fold (\<lambda>key. put_new_domains key (dict_get counts key 0)) ?keys t)"
    using assms(1) unfolding materialize_new_domains_def Let_def st prod.case transaction_def
    by (simp split: if_splits)
  have w: "?w = ?c - 19 * usec_per_hour" by (simp add: NEW_DOMAIN_WINDOW_HOURS_def)
  show ?thesis
    unfolding t' prune_counts fst_conv put_all_counts keys counts unfolding w by auto
qed

theorem new_domains_dense_witness:
  "\<exists>t'. materialize_new_domains sorted_list_of_set 3600000000 True
      [\<lparr>crq_id = 1, crq_client = ''c'', crq_domain = ''a.b'', crq_qtype = ''A'', crq_hits = 1, crq_first_seen = 5, crq_last_seen = 5\<rparr>] [] = Some t'
    \<and> new_domain_count t' (0, ''c'') = Some 1 \<and> new_domain_count t' (3600000000, ''c'') = Some 0"
proof -
  let ?r = "[\<lparr>crq_id = 1, crq_client = ''c'', crq_domain = ''a.b'', crq_qtype = ''A'', crq_hits = 1, crq_first_seen = 5, crq_last_seen = 5\<rparr>]"
  obtain t' where t': "materialize_new_domains sorted_list_of_set 3600000000 True ?r [] = Some t'"
    by (simp add: materialize_new_domains_def transaction_def Let_def split_def)
  have "{crq_first_seen q |q. q \<in> set ?r \<and> crq_client q = ''c'' \<and> crq_domain q = ''a.b''} = {5}" by auto
  then have "{d. \<exists>r \<in> set ?r. crq_client r = ''c'' \<and> crq_domain r = d
      \<and> floor_hour (Min {crq_first_seen q |q. q \<in> set ?r \<and> crq_client q = ''c'' \<and> crq_domain q = d}) = h}
    = (if h = 0 then {''a.b''} else {})" for h by (auto simp: floor_hour_def)
  then have "domains_first_seen_in ?r h ''c'' = (if h = 0 then 1 else 0)" for h
    unfolding domains_first_seen_in_def by simp
  then have "new_domain_count t' (0, ''c'') = Some 1 \<and> new_domain_count t' (3600000000, ''c'') = Some 0"
    using new_domains_dense [OF t', of 0 "''c''"] new_domains_dense [OF t', of 3600000000 "''c''"]
    by (simp add: floor_hour_def)
  with t' show ?thesis by blast
qed

end
