(* ===== verification/PyFloat.thy ===== *)
theory PyFloat
  imports Complex_Main PyText
begin

text \<open>
  Decimal texts of floating-point numbers, as \<open>float(text)\<close> reads and \<open>str(number)\<close> writes them. A number is
  the rational its shortest decimal text denotes; numbers that are written with an exponent
  (below 1e-4, from 1e16), infinities and not-a-number are not produced by \<open>float_str\<close>, and the
  texts of the latter two are not read by \<open>py_float\<close>.
\<close>

definition frac_val :: "string \<Rightarrow> rat" where
  "frac_val s = of_nat (base_val 10 s) / 10 ^ length s"

definition opt_digits :: "string \<Rightarrow> string option" where
  "opt_digits s = (if s = [] then Some [] else int_digits s)"

definition float_mantissa :: "string \<Rightarrow> rat option" where
  "float_mantissa s =
     (case py_split dot s of
        [i] \<Rightarrow> map_option (\<lambda>ds. of_nat (base_val 10 ds)) (int_digits i)
      | [i, f] \<Rightarrow>
          if i = [] \<and> f = [] then None
          else Option.bind (opt_digits i) (\<lambda>is. map_option (\<lambda>fs. of_nat (base_val 10 is) + frac_val fs) (opt_digits f))
      | _ \<Rightarrow> None)"

definition split_sign :: "string \<Rightarrow> bool \<times> string" where
  "split_sign s =
     (if s \<noteq> [] \<and> hd s = CHR ''-'' then (True, tl s)
      else if s \<noteq> [] \<and> hd s = CHR ''+'' then (False, tl s) else (False, s))"

definition is_exp_char :: "char \<Rightarrow> bool" where
  "is_exp_char c \<longleftrightarrow> c = CHR ''e'' \<or> c = CHR ''E''"

definition py_float :: "string \<Rightarrow> rat option" where
  "py_float raw =
     (let (neg, body) = split_sign (py_strip raw);
          mant = takeWhile (\<lambda>c. \<not> is_exp_char c) body;
          ex = dropWhile (\<lambda>c. \<not> is_exp_char c) body in
      Option.bind (float_mantissa mant) (\<lambda>m.
      Option.bind
        (if ex = [] then Some 1
         else let (eneg, digits) = split_sign (tl ex) in
           map_option (\<lambda>ds. if eneg then 1 / 10 ^ base_val 10 ds else 10 ^ base_val 10 ds) (int_digits digits)) (\<lambda>e.
        Some (if neg then - (m * e) else m * e))))"

text \<open>The digits after the point, at most \<open>n\<close>, at least one.\<close>

fun frac_digits :: "nat \<Rightarrow> rat \<Rightarrow> string" where
  "frac_digits 0 r = []"
| "frac_digits (Suc n) r =
     (let d = floor (10 * r); rest = 10 * r - of_int d in
      digit_char (nat d) # (if rest = 0 then [] else frac_digits n rest))"

definition float_str :: "rat \<Rightarrow> string" where
  "float_str x =
     (let a = \<bar>x\<bar>; i = floor a in
      (if x < 0 then [CHR ''-''] else []) @ nat_str (nat i) @ [dot] @ frac_digits 17 (a - of_int i))"

text \<open>A number with at most \<open>n\<close> decimals.\<close>

definition decimals :: "nat \<Rightarrow> rat \<Rightarrow> bool" where
  "decimals n x \<longleftrightarrow> x * 10 ^ n \<in> \<int>"

section \<open>Reading back what was written\<close>

lemma base_val_Cons: "base_val 10 (c # s) = digit_val c * 10 ^ length s + base_val 10 s"
proof (induction s rule: rev_induct)
  case (snoc d s)
  have "base_val 10 (c # s @ [d]) = base_val 10 (c # s) * 10 + digit_val d"
    using base_val_snoc [of 10 "c # s" d] by simp
  with snoc show ?case by (simp add: algebra_simps)
qed (simp add: base_val_def)

lemma frac_val_Cons: "frac_val (c # s) = (of_nat (digit_val c) + frac_val s) / 10"
  by (simp add: frac_val_def base_val_Cons field_simps)

lemma tenth_digit:
  fixes r :: rat
  assumes "0 \<le> r" "r < 1"
  obtains k where "floor (10 * r) = int k" "k < 10"
proof -
  have "0 \<le> floor (10 * r)" "floor (10 * r) < 10" using assms by (simp_all add: floor_less_iff)
  then have "floor (10 * r) = int (nat (floor (10 * r)))" "nat (floor (10 * r)) < 10" by linarith+
  then show ?thesis by (rule that)
qed

lemma frac_digits_digits: "0 \<le> r \<Longrightarrow> r < 1 \<Longrightarrow> c \<in> set (frac_digits n r) \<Longrightarrow> is_digit c"
proof (induction n arbitrary: r)
  case (Suc n)
  let ?d = "floor (10 * r)"
  obtain k where k: "?d = int k" "k < 10" using tenth_digit Suc.prems(1,2) by blast
  then have "is_digit (digit_char (nat ?d))" unfolding k(1) by (auto simp: is_digit_def code_digit_char)
  moreover have "0 \<le> 10 * r - of_int ?d" "10 * r - of_int ?d < 1" by linarith+
  ultimately show ?case using Suc.prems(3) Suc.IH [of "10 * r - of_int ?d"] by (auto simp: Let_def split: if_splits)
qed simp

lemma frac_val_digits: "0 \<le> r \<Longrightarrow> r < 1 \<Longrightarrow> decimals n r \<Longrightarrow> frac_val (frac_digits n r) = r"
proof (induction n arbitrary: r)
  case 0
  then obtain k where "r = of_int k" by (auto simp: decimals_def Ints_def)
  with 0 show ?case by (simp add: frac_val_def base_val_def)
next
  case (Suc n)
  let ?d = "floor (10 * r)" and ?rest = "10 * r - of_int (floor (10 * r))"
  obtain k where k: "?d = int k" "k < 10" using tenth_digit Suc.prems(1,2) by blast
  have rest: "0 \<le> ?rest" "?rest < 1" by linarith+
  have "?rest * 10 ^ n = r * 10 ^ Suc n - of_int (?d * 10 ^ n)" by (simp add: algebra_simps)
  with Suc.prems(3) have "decimals n ?rest" unfolding decimals_def by (metis Ints_diff Ints_of_int)
  with Suc.IH rest have IH: "frac_val (frac_digits n ?rest) = ?rest" by blast
  have "of_nat (digit_val (digit_char (nat ?d))) = (of_int ?d :: rat)" unfolding k(1) using k(2) by simp
  with IH show ?case
    by (cases "?rest = 0") (simp_all add: Let_def frac_val_Cons, simp add: frac_val_def base_val_def)
qed

lemma frac_digits_not_Nil [simp]: "frac_digits (Suc n) r \<noteq> []"
  by (simp add: Let_def)

lemma py_float_str:
  assumes "decimals 17 x"
  shows "py_float (float_str x) = Some x"
proof -
  define a where "a = \<bar>x\<bar>"
  define i where "i = floor a"
  define f where "f = frac_digits 17 (a - of_int i)"
  have i: "0 \<le> i" by (simp add: i_def a_def)
  have r: "0 \<le> a - of_int i" "a - of_int i < 1" unfolding i_def by linarith+
  have "decimals 17 a" using assms by (auto simp: a_def decimals_def abs_if simp flip: minus_mult_left)
  then have "decimals 17 (a - of_int i)"
    by (simp add: decimals_def left_diff_distrib)
  then have val: "frac_val f = a - of_int i" using r frac_val_digits f_def by blast
  have fd: "\<forall>c \<in> set f. is_digit c" "f \<noteq> []"
    using frac_digits_digits [OF r] frac_digits_not_Nil [of 16] by (simp_all add: f_def del: frac_digits.simps)
  have id: "\<forall>c \<in> set (nat_str (nat i)). is_digit c" by (auto dest: nat_str_digits)
  have nodot: "\<not> is_digit dot" "\<not> is_digit (CHR ''-'')" "\<not> is_digit (CHR ''+'')" by (simp_all add: is_digit_def code_def)
  have noexp: "\<not> is_exp_char c" if "is_digit c" for c
    using that by (auto simp: is_exp_char_def is_digit_def code_def)
  have "py_split dot (nat_str (nat i) @ dot # f) = [nat_str (nat i), f]"
  proof -
    have "dot \<notin> set (nat_str (nat i))" "dot \<notin> set f" using id fd(1) nodot(1) by blast+
    then show ?thesis by (simp add: py_split_append py_split_single)
  qed
  moreover have "int_digits f = Some f" "int_digits (nat_str (nat i)) = Some (nat_str (nat i))"
    using id fd by (simp_all add: int_digits_all)
  ultimately have m: "float_mantissa (nat_str (nat i) @ dot # f) = Some a"
    using fd(2) i by (simp add: float_mantissa_def opt_digits_def val base_val_str)
  let ?body = "nat_str (nat i) @ dot # f"
  have body: "takeWhile (\<lambda>c. \<not> is_exp_char c) ?body = ?body" "dropWhile (\<lambda>c. \<not> is_exp_char c) ?body = []"
    using id fd noexp by (auto simp: is_exp_char_def)
  have str: "float_str x = (if x < 0 then CHR ''-'' # ?body else ?body)"
    by (simp add: float_str_def Let_def a_def i_def f_def)
  have "\<not> is_space (last ?body)" using fd is_digit_space by simp
  moreover have hd: "is_digit (hd ?body)" using id by (simp add: hd_in_set hd_append)
  ultimately have strip: "py_strip (float_str x) = float_str x"
    unfolding str by (intro py_strip_id) (auto simp: is_space_def code_def dest: is_digit_space)
  have sign: "split_sign (float_str x) = (x < 0, ?body)"
    using hd nodot unfolding str by (auto simp: split_sign_def)
  have "py_float (float_str x) = Some (if x < 0 then - a else a)"
    by (simp only: py_float_def strip sign body m Let_def prod.case bind.simps if_True mult_1_right refl simp_thms)
  then show ?thesis by (simp add: a_def)
qed

end
