(* ===== verification/SettingsTable.thy ===== *)
theory SettingsTable
  imports Tables RuntimeState PyFloat
begin

text \<open>
  The tunable settings: \<open>repository/settings.py\<close> over the key/value table \<open>app_settings\<close>, and the cache-flush
  signal that \<open>repository/cache_control.py\<close> keeps in the same table. Stored texts are merged over the
  defaults; the values of an update are those a JSON body can hold.
\<close>

record AppSetting =
  app_key :: string
  app_value :: string
  app_updated_at :: datetime

datatype setting_value = SNone | SBool bool | SInt int | SFloat rat | SStr string

definition BOOL_KEYS :: "string list" where
  "BOOL_KEYS = [''cache_enabled'', ''log_queries'', ''ipv6_enabled'', ''drop_private_ptr'']"

definition INT_KEYS :: "string list" where
  "INT_KEYS = [''cache_max_ttl'', ''cache_min_ttl'', ''cache_max_entries'', ''refresh_seconds'', ''query_flush_seconds'']"

definition FLOAT_KEYS :: "string list" where
  "FLOAT_KEYS = [''forward_timeout'']"

definition STR_KEYS :: "string list" where
  "STR_KEYS = [''default_action'']"

definition KNOWN_KEYS :: "string list" where
  "KNOWN_KEYS = BOOL_KEYS @ INT_KEYS @ FLOAT_KEYS @ STR_KEYS"

section \<open>Reading and writing values\<close>

definition coerce :: "string \<Rightarrow> string \<Rightarrow> setting_value \<Rightarrow> setting_value" where
  "coerce key raw dflt =
     (if key \<in> set BOOL_KEYS then SBool (py_lower (py_strip raw) \<in> {''1'', ''true'', ''yes'', ''on''})
      else if key \<in> set INT_KEYS then (case py_int raw of None \<Rightarrow> dflt | Some i \<Rightarrow> SInt i)
      else if key \<in> set FLOAT_KEYS then (case py_float raw of None \<Rightarrow> dflt | Some x \<Rightarrow> SFloat x)
      else SStr raw)"

definition serialize :: "setting_value \<Rightarrow> string" where
  "serialize v = (case v of SNone \<Rightarrow> ''None'' | SBool b \<Rightarrow> (if b then ''true'' else ''false'') | SInt i \<Rightarrow> int_str i
     | SFloat x \<Rightarrow> float_str x | SStr s \<Rightarrow> s)"

text \<open>\<open>asdict\<close>: the fields in the order of the data class.\<close>

definition settings_dict :: "RuntimeSettings \<Rightarrow> (string, setting_value) dict" where
  "settings_dict s =
     [(''cache_enabled'', SBool (cache_enabled s)), (''cache_max_ttl'', SInt (cache_max_ttl s)),
      (''cache_min_ttl'', SInt (cache_min_ttl s)), (''cache_max_entries'', SInt (cache_max_entries s)),
      (''forward_timeout'', SFloat (forward_timeout s)), (''default_action'', SStr (default_action s)),
      (''refresh_seconds'', SInt (refresh_seconds s)), (''query_flush_seconds'', SInt (query_flush_seconds s)),
      (''log_queries'', SBool (log_queries s)), (''ipv6_enabled'', SBool (ipv6_enabled s)),
      (''drop_private_ptr'', SBool (drop_private_ptr s))]"

fun as_bool :: "setting_value \<Rightarrow> bool" where "as_bool (SBool b) = b" | "as_bool v = False"
fun as_int :: "setting_value \<Rightarrow> int" where "as_int (SInt i) = i" | "as_int v = 0"
fun as_float :: "setting_value \<Rightarrow> rat" where "as_float (SFloat x) = x" | "as_float v = 0"
fun as_str :: "setting_value \<Rightarrow> string" where "as_str (SStr s) = s" | "as_str v = []"

text \<open>\<open>RuntimeSettings(**merged)\<close>; \<open>coerce\<close> gives every field a value of its type.\<close>

definition settings_of :: "(string \<Rightarrow> setting_value) \<Rightarrow> RuntimeSettings" where
  "settings_of f =
     \<lparr>cache_enabled = as_bool (f ''cache_enabled''), cache_max_ttl = as_int (f ''cache_max_ttl''),
      cache_min_ttl = as_int (f ''cache_min_ttl''), cache_max_entries = as_int (f ''cache_max_entries''),
      forward_timeout = as_float (f ''forward_timeout''), default_action = as_str (f ''default_action''),
      refresh_seconds = as_int (f ''refresh_seconds''), query_flush_seconds = as_int (f ''query_flush_seconds''),
      log_queries = as_bool (f ''log_queries''), ipv6_enabled = as_bool (f ''ipv6_enabled''),
      drop_private_ptr = as_bool (f ''drop_private_ptr'')\<rparr>"

definition stored_settings :: "AppSetting list \<Rightarrow> (string, string) dict" where
  "stored_settings t = fold (\<lambda>row. dict_set (app_key row) (app_value row)) t []"

definition merged_setting :: "AppSetting list \<Rightarrow> string \<Rightarrow> setting_value" where
  "merged_setting t key =
     (let dflt = dict_get (settings_dict RuntimeSettings_default) key SNone in
      case map_of (stored_settings t) key of None \<Rightarrow> dflt | Some raw \<Rightarrow> coerce key raw dflt)"

definition load_runtime_settings :: "AppSetting list \<Rightarrow> RuntimeSettings" where
  "load_runtime_settings t = settings_of (merged_setting t)"

definition get_all_settings :: "AppSetting list \<Rightarrow> (string, setting_value) dict" where
  "get_all_settings t = settings_dict (load_runtime_settings t)"

definition put_setting :: "datetime \<Rightarrow> string \<Rightarrow> string \<Rightarrow> AppSetting list \<Rightarrow> AppSetting list" where
  "put_setting now key val t =
     upsert (\<lambda>r. app_key r = key) \<lparr>app_key = key, app_value = val, app_updated_at = now\<rparr> (\<lambda>r. r\<lparr>app_value := val\<rparr>) t"

definition update_settings :: "datetime \<Rightarrow> (string, setting_value) dict \<Rightarrow> AppSetting list
    \<Rightarrow> (string, setting_value) dict \<times> AppSetting list" where
  "update_settings now data t =
     (let t' = fold (\<lambda>(key, v) t. if key \<notin> set KNOWN_KEYS then t else put_setting now key (serialize v) t) data t in
      (get_all_settings t', t'))"

section \<open>The flush signal\<close>

definition FLUSH_KEY :: string where
  "FLUSH_KEY = ''cache_flush_requested_at''"

text \<open>The stamp is the local time in whole seconds; \<open>fmt\<close> is \<open>isoformat(timespec="seconds")\<close>.\<close>

definition request_cache_flush :: "(int \<Rightarrow> string) \<Rightarrow> datetime \<Rightarrow> AppSetting list \<Rightarrow> string \<times> AppSetting list" where
  "request_cache_flush fmt now t =
     (let requested_at = fmt (now div 1000000) in (requested_at, put_setting now FLUSH_KEY requested_at t))"

definition get_cache_flush_request :: "AppSetting list \<Rightarrow> string option" where
  "get_cache_flush_request t = map_option app_value (List.find (\<lambda>r. app_key r = FLUSH_KEY) t)"

section \<open>Lemmas\<close>

lemma map_of_stored_fold:
  "map_of (fold (\<lambda>row. dict_set (app_key row) (app_value row)) t d) k =
     (case List.find (\<lambda>r. app_key r = k) (rev t) of None \<Rightarrow> map_of d k | Some r \<Rightarrow> Some (app_value r))"
  by (induction t rule: rev_induct) (auto split: option.splits)

definition settings_ok :: "AppSetting list \<Rightarrow> bool" where
  "settings_ok t \<longleftrightarrow> distinct (map app_key t)"

lemma map_of_stored: "settings_ok t \<Longrightarrow> map_of (stored_settings t) k = map_option app_value (List.find (\<lambda>r. app_key r = k) t)"
proof -
  assume ok: "settings_ok t"
  then have "List.find (\<lambda>r. app_key r = k) (rev t) = List.find (\<lambda>r. app_key r = k) t"
  proof (induction t)
    case (Cons r t)
    have app: "List.find P (xs @ ys) = (case List.find P xs of None \<Rightarrow> List.find P ys | Some x \<Rightarrow> Some x)"
      for P xs and ys :: "AppSetting list" by (induction xs) simp_all
    have "List.find (\<lambda>r. app_key r = k) t = None" if "app_key r = k"
      using Cons.prems that by (simp add: settings_ok_def find_None_iff) (metis imageI)
    with Cons show ?case by (auto simp: app settings_ok_def split: option.split)
  qed simp
  then show ?thesis by (simp add: stored_settings_def map_of_stored_fold split: option.split)
qed

lemma keys_put_setting:
  "map app_key (put_setting now k v t) = (if k \<in> app_key ` set t then map app_key t else map app_key t @ [k])"
  by (auto simp: put_setting_def upsert_def list_ex_iff)

lemma put_setting_ok: "settings_ok t \<Longrightarrow> settings_ok (put_setting now k v t)"
  by (simp add: settings_ok_def keys_put_setting)

lemma find_put_setting:
  "List.find (\<lambda>r. app_key r = j) (put_setting now k v t) =
     (if j = k
      then Some (case List.find (\<lambda>r. app_key r = k) t of
          None \<Rightarrow> \<lparr>app_key = k, app_value = v, app_updated_at = now\<rparr> | Some r \<Rightarrow> r\<lparr>app_value := v\<rparr>)
      else List.find (\<lambda>r. app_key r = j) t)"
  unfolding put_setting_def by (subst find_upsert) auto

lemma map_of_put_setting:
  "settings_ok t \<Longrightarrow> map_of (stored_settings (put_setting now k v t)) = (map_of (stored_settings t))(k \<mapsto> v)"
  by (rule ext) (simp add: map_of_stored put_setting_ok find_put_setting split: option.split)

lemma update_settings_stored:
  assumes "settings_ok t" "dict_wf data"
  shows "settings_ok (snd (update_settings now data t)) \<and>
    (k \<in> set KNOWN_KEYS \<longrightarrow> map_of (stored_settings (snd (update_settings now data t))) k =
      (case map_of data k of None \<Rightarrow> map_of (stored_settings t) k | Some v \<Rightarrow> Some (serialize v)))"
proof -
  let ?step = "\<lambda>(key, v) t. if key \<notin> set KNOWN_KEYS then t else put_setting now key (serialize v) t"
  have "settings_ok (fold ?step data t) \<and> (k \<in> set KNOWN_KEYS \<longrightarrow> map_of (stored_settings (fold ?step data t)) k =
      (case map_of data k of None \<Rightarrow> map_of (stored_settings t) k | Some v \<Rightarrow> Some (serialize v)))"
    using assms
  proof (induction data arbitrary: t)
    case (Cons p data)
    obtain key v where p: "p = (key, v)" by (cases p)
    from Cons.prems p have "map_of data key = None" "dict_wf data" by (simp_all add: dict_wf_def map_of_eq_None_iff)
    moreover have "settings_ok (?step p t)" using Cons.prems(1) by (simp add: p put_setting_ok)
    ultimately show ?case using Cons.IH [of "?step p t"] Cons.prems(1)
      by (auto simp: p map_of_put_setting split: option.splits)
  qed simp
  then show ?thesis by (simp add: update_settings_def Let_def)
qed

section \<open>Properties\<close>

text \<open>A value that the field of a key can hold.\<close>

definition value_fits :: "string \<Rightarrow> setting_value \<Rightarrow> bool" where
  "value_fits key v \<longleftrightarrow>
     (case v of
        SNone \<Rightarrow> False
      | SBool b \<Rightarrow> key \<in> set BOOL_KEYS
      | SInt i \<Rightarrow> key \<in> set INT_KEYS \<and> length (nat_str (nat \<bar>i\<bar>)) \<le> max_str_digits
      | SFloat x \<Rightarrow> key \<in> set FLOAT_KEYS \<and> decimals 17 x
      | SStr s \<Rightarrow> key \<in> set STR_KEYS)"

text \<open>Every merged value has the type of its key, so that building the record loses nothing.\<close>

lemma typed_defaults:
  "\<forall>key \<in> set BOOL_KEYS. SBool (as_bool (dict_get (settings_dict s) key SNone)) = dict_get (settings_dict s) key SNone"
  "\<forall>key \<in> set INT_KEYS. SInt (as_int (dict_get (settings_dict s) key SNone)) = dict_get (settings_dict s) key SNone"
  "\<forall>key \<in> set FLOAT_KEYS. SFloat (as_float (dict_get (settings_dict s) key SNone)) = dict_get (settings_dict s) key SNone"
  "\<forall>key \<in> set STR_KEYS. SStr (as_str (dict_get (settings_dict s) key SNone)) = dict_get (settings_dict s) key SNone"
  by (simp_all add: BOOL_KEYS_def INT_KEYS_def FLOAT_KEYS_def STR_KEYS_def settings_dict_def dict_get_def)

lemma keys_disjoint:
  "\<forall>key \<in> set INT_KEYS. key \<notin> set BOOL_KEYS"
  "\<forall>key \<in> set FLOAT_KEYS. key \<notin> set BOOL_KEYS \<and> key \<notin> set INT_KEYS"
  "\<forall>key \<in> set STR_KEYS. key \<notin> set BOOL_KEYS \<and> key \<notin> set INT_KEYS \<and> key \<notin> set FLOAT_KEYS"
  by (simp_all add: BOOL_KEYS_def INT_KEYS_def FLOAT_KEYS_def STR_KEYS_def)

lemma coerce_bool: "key \<in> set BOOL_KEYS \<Longrightarrow> coerce key raw d = SBool (py_lower (py_strip raw) \<in> {''1'', ''true'', ''yes'', ''on''})"
  and coerce_int: "key \<in> set INT_KEYS \<Longrightarrow> coerce key raw d = (case py_int raw of None \<Rightarrow> d | Some i \<Rightarrow> SInt i)"
  and coerce_float: "key \<in> set FLOAT_KEYS \<Longrightarrow> coerce key raw d = (case py_float raw of None \<Rightarrow> d | Some x \<Rightarrow> SFloat x)"
  and coerce_str: "key \<in> set STR_KEYS \<Longrightarrow> coerce key raw d = SStr raw"
  using keys_disjoint by (simp_all add: coerce_def)

lemma merged_setting_typed:
  "key \<in> set BOOL_KEYS \<Longrightarrow> SBool (as_bool (merged_setting t key)) = merged_setting t key"
  "key \<in> set INT_KEYS \<Longrightarrow> SInt (as_int (merged_setting t key)) = merged_setting t key"
  "key \<in> set FLOAT_KEYS \<Longrightarrow> SFloat (as_float (merged_setting t key)) = merged_setting t key"
  "key \<in> set STR_KEYS \<Longrightarrow> SStr (as_str (merged_setting t key)) = merged_setting t key"
  using typed_defaults [of RuntimeSettings_default]
  by (simp_all add: merged_setting_def Let_def coerce_bool coerce_int coerce_float coerce_str split: option.split)

lemma all_settings_fields:
  "\<forall>key \<in> set BOOL_KEYS. dict_get (settings_dict (settings_of f)) key SNone = SBool (as_bool (f key))"
  "\<forall>key \<in> set INT_KEYS. dict_get (settings_dict (settings_of f)) key SNone = SInt (as_int (f key))"
  "\<forall>key \<in> set FLOAT_KEYS. dict_get (settings_dict (settings_of f)) key SNone = SFloat (as_float (f key))"
  "\<forall>key \<in> set STR_KEYS. dict_get (settings_dict (settings_of f)) key SNone = SStr (as_str (f key))"
  by (simp_all add: BOOL_KEYS_def INT_KEYS_def FLOAT_KEYS_def STR_KEYS_def settings_of_def settings_dict_def dict_get_def)

lemma all_settings_merged:
  assumes "key \<in> set KNOWN_KEYS"
  shows "dict_get (get_all_settings t) key SNone = merged_setting t key"
proof -
  from assms consider "key \<in> set BOOL_KEYS" | "key \<in> set INT_KEYS" | "key \<in> set FLOAT_KEYS" | "key \<in> set STR_KEYS"
    unfolding KNOWN_KEYS_def by (simp only: set_append Un_iff) blast
  then show ?thesis
    by cases (simp_all add: get_all_settings_def load_runtime_settings_def all_settings_fields merged_setting_typed)
qed

lemma coerce_serialize: "value_fits key v \<Longrightarrow> coerce key (serialize v) d = v"
proof (cases v)
  case (SBool b)
  assume "value_fits key v"
  moreover have "py_lower (py_strip ''true'') = ''true''" "py_lower (py_strip ''false'') = ''false''" by code_simp+
  ultimately show ?thesis using SBool by (simp add: value_fits_def coerce_bool serialize_def)
qed (simp_all add: value_fits_def serialize_def coerce_int coerce_float coerce_str py_int_str py_float_str)

text \<open>C36: After an update, reading a known setting gives the value that was written when it fits its field, and
  the earlier value when the update did not name it.\<close>

theorem settings_roundtrip:
  assumes "settings_ok t" "dict_wf data" "key \<in> set KNOWN_KEYS" "\<forall>v. map_of data key = Some v \<longrightarrow> value_fits key v"
  shows "dict_get (get_all_settings (snd (update_settings now data t))) key SNone =
    (case map_of data key of None \<Rightarrow> dict_get (get_all_settings t) key SNone | Some v \<Rightarrow> v)"
  using update_settings_stored [OF assms(1,2), of now key] assms(3,4)
  by (auto simp: all_settings_merged merged_setting_def [of _ key] Let_def coerce_serialize split: option.split)

theorem settings_roundtrip_witness:
  "dict_get (get_all_settings (snd (update_settings 0 [(''cache_max_ttl'', SInt 60)] []))) ''cache_max_ttl'' SNone = SInt 60"
proof -
  have "\<forall>v. map_of [(''cache_max_ttl'', SInt 60)] ''cache_max_ttl'' = Some v \<longrightarrow> value_fits ''cache_max_ttl'' v"
    by (simp add: value_fits_def INT_KEYS_def BOOL_KEYS_def base_str.simps max_str_digits_def)
  moreover have "''cache_max_ttl'' \<in> set KNOWN_KEYS" by (simp add: KNOWN_KEYS_def INT_KEYS_def)
  ultimately show ?thesis
    using settings_roundtrip [of "[]" "[(''cache_max_ttl'', SInt 60)]" "''cache_max_ttl''" 0] by (simp add: settings_ok_def dict_wf_def)
qed

text \<open>A null in an update is stored as the text \<open>None\<close>: it switches a boolean setting off, whatever its
  default, puts a number back to its default and makes \<open>None\<close> the default action.\<close>

theorem settings_null:
  assumes "settings_ok t" "dict_wf data" "key \<in> set KNOWN_KEYS" "map_of data key = Some SNone"
  shows "dict_get (get_all_settings (snd (update_settings now data t))) key SNone =
    (if key \<in> set BOOL_KEYS then SBool False
     else if key \<in> set STR_KEYS then SStr ''None''
     else dict_get (settings_dict RuntimeSettings_default) key SNone)"
proof -
  have none: "py_lower (py_strip ''None'') = ''none''" "py_int ''None'' = None" "py_float ''None'' = None" by code_simp+
  have "map_of (stored_settings (snd (update_settings now data t))) key = Some ''None''"
    using update_settings_stored [OF assms(1,2), of now key] assms(3,4) by (simp add: serialize_def)
  then have "merged_setting (snd (update_settings now data t)) key
      = coerce key ''None'' (dict_get (settings_dict RuntimeSettings_default) key SNone)"
    by (simp add: merged_setting_def)
  then show ?thesis using assms(3)
    using keys_disjoint by (auto simp: all_settings_merged none coerce_bool coerce_int coerce_float coerce_str KNOWN_KEYS_def)
qed

theorem settings_null_witness:
  "dict_get (get_all_settings (snd (update_settings 0 [(''log_queries'', SNone)] []))) ''log_queries'' SNone = SBool False"
proof -
  have "''log_queries'' \<in> set KNOWN_KEYS" "''log_queries'' \<in> set BOOL_KEYS" by (simp_all add: KNOWN_KEYS_def BOOL_KEYS_def)
  then show ?thesis
    using settings_null [of "[]" "[(''log_queries'', SNone)]" "''log_queries''" 0] by (simp add: settings_ok_def dict_wf_def)
qed

end
