(* ===== verification/StatTables.thy ===== *)
theory StatTables
  imports CounterTables
begin

text \<open>
  The hourly statistics: \<open>repository/client_stats.py\<close> (per client and for the site) and
  \<open>repository/upstream_stats.py\<close>. The aggregate queries group their rows in Python's order of
  the keys they are ordered by; a table only holds rows of hours within the retention.
\<close>

section \<open>Client statistics\<close>

definition STAT_RETENTION_HOURS :: int where
  "STAT_RETENTION_HOURS = 500"

record ClientHourlyStat =
  chs_id :: int
  chs_hour_start :: datetime
  chs_client :: string
  chs_total :: int
  chs_forwarded :: int
  chs_cached :: int
  chs_overridden :: int
  chs_local :: int
  chs_denied :: int
  chs_blocked :: int
  chs_servfail :: int
  chs_foreign :: int

definition client_stat_dict :: "ClientHourlyStat \<Rightarrow> json_dict" where
  "client_stat_dict row =
     [(''id'', JInt (chs_id row)), (''hour_start'', JTime (chs_hour_start row)), (''client'', JStr (chs_client row)),
      (''total'', JInt (chs_total row)), (''forwarded'', JInt (chs_forwarded row)), (''cached'', JInt (chs_cached row)),
      (''overridden'', JInt (chs_overridden row)), (''local'', JInt (chs_local row)), (''denied'', JInt (chs_denied row)),
      (''blocked'', JInt (chs_blocked row)), (''servfail'', JInt (chs_servfail row)), (''foreign'', JInt (chs_foreign row))]"

definition zero_client_row :: "datetime \<Rightarrow> string \<Rightarrow> json_dict" where
  "zero_client_row hour client =
     [(''id'', JNull), (''hour_start'', JTime hour), (''client'', JStr client),
      (''total'', JInt 0), (''forwarded'', JInt 0), (''cached'', JInt 0),
      (''overridden'', JInt 0), (''local'', JInt 0), (''denied'', JInt 0),
      (''blocked'', JInt 0), (''servfail'', JInt 0), (''foreign'', JInt 0)]"

definition put_client_stat :: "datetime \<Rightarrow> ClientStatAgg \<Rightarrow> ClientHourlyStat list \<Rightarrow> ClientHourlyStat list" where
  "put_client_stat now row t =
     upsert (\<lambda>r. chs_hour_start r = csa_hour_start row \<and> chs_client r = csa_client row)
       \<lparr>chs_id = next_id (map chs_id t), chs_hour_start = csa_hour_start row, chs_client = csa_client row,
        chs_total = csa_total row, chs_forwarded = csa_forwarded row, chs_cached = csa_cached row,
        chs_overridden = csa_overridden row, chs_local = csa_local row, chs_denied = csa_denied row,
        chs_blocked = csa_blocked row, chs_servfail = csa_servfail row, chs_foreign = csa_foreign row\<rparr>
       (\<lambda>r. r\<lparr>chs_total := chs_total r + csa_total row, chs_forwarded := chs_forwarded r + csa_forwarded row,
          chs_cached := chs_cached r + csa_cached row, chs_overridden := chs_overridden r + csa_overridden row,
          chs_local := chs_local r + csa_local row, chs_denied := chs_denied r + csa_denied row,
          chs_blocked := chs_blocked r + csa_blocked row, chs_servfail := chs_servfail r + csa_servfail row,
          chs_foreign := chs_foreign r + csa_foreign row\<rparr>) t"

definition prune_client_stats :: "datetime \<Rightarrow> ClientHourlyStat list \<Rightarrow> ClientHourlyStat list" where
  "prune_client_stats now = delete_where (\<lambda>r. chs_hour_start r < hours_ago STAT_RETENTION_HOURS now)"

definition record_client_stats :: "write_env \<Rightarrow> ClientStatAgg list \<Rightarrow> ClientHourlyStat list \<Rightarrow> ClientHourlyStat list option" where
  "record_client_stats = write_rows put_client_stat prune_client_stats"

text \<open>\<open>_fill_hours\<close> looks rows up by their hour alone.\<close>

definition fill_stat_hours :: "json_dict list \<Rightarrow> int \<Rightarrow> datetime \<Rightarrow> (datetime \<Rightarrow> json_dict) \<Rightarrow> json_dict list" where
  "fill_stat_hours rows hours now make_zero =
     (let d = by_key (\<lambda>row. dict_get row ''hour_start'' JNull) rows;
          cutoff = hours_ago (min hours STAT_RETENTION_HOURS) now in
      map (\<lambda>bucket. filled d (JTime bucket) (make_zero bucket)) (hour_buckets cutoff (floor_hour now)))"

definition list_client_stats :: "int option \<Rightarrow> int \<Rightarrow> string option \<Rightarrow> int option \<Rightarrow> bool \<Rightarrow> datetime
    \<Rightarrow> ClientHourlyStat list \<Rightarrow> json_dict list" where
  "list_client_stats limit offset client hours fill now t =
     (let rows = order_by_desc chs_hour_start (order_by chs_client
            (filter (\<lambda>r. matches_opt client (chs_client r) \<and> within_hours hours now (chs_hour_start r)) t));
          dicts = map client_stat_dict (if limit \<noteq> None \<and> \<not> fill then sql_page limit offset rows else rows) in
      case (hours, client) of
        (Some h, Some c) \<Rightarrow> if fill then fill_stat_hours dicts h now (\<lambda>hour. zero_client_row hour c) else dicts
      | _ \<Rightarrow> dicts)"

definition count_client_stats :: "string option \<Rightarrow> int option \<Rightarrow> datetime \<Rightarrow> ClientHourlyStat list \<Rightarrow> nat" where
  "count_client_stats client hours now t =
     length (filter (\<lambda>r. matches_opt client (chs_client r) \<and> within_hours hours now (chs_hour_start r)) t)"

text \<open>\<open>GROUP BY client\<close>: one entry for every client with a row in the window.\<close>

definition sum_total_by_client :: "string list option \<Rightarrow> int \<Rightarrow> datetime \<Rightarrow> ClientHourlyStat list \<Rightarrow> (string, int) dict" where
  "sum_total_by_client clients hours now t =
     (let cutoff = hours_ago (min hours STAT_RETENTION_HOURS) now;
          rows = filter (\<lambda>r. cutoff \<le> chs_hour_start r
            \<and> (case clients of None \<Rightarrow> True | Some cs \<Rightarrow> chs_client r \<in> set cs)) t in
      map (\<lambda>c. (c, sum_by chs_client chs_total c rows)) (sort (remdups (map chs_client rows))))"

definition site_dict :: "datetime \<Rightarrow> ClientHourlyStat list \<Rightarrow> json_dict" where
  "site_dict hour rows =
     (let col = (\<lambda>f. JInt (sum_by chs_hour_start f hour rows)) in
      [(''hour_start'', JTime hour), (''total'', col chs_total), (''forwarded'', col chs_forwarded),
       (''cached'', col chs_cached), (''overridden'', col chs_overridden), (''local'', col chs_local),
       (''denied'', col chs_denied), (''blocked'', col chs_blocked), (''servfail'', col chs_servfail),
       (''foreign'', col chs_foreign),
       (''clients'', JInt (int (card (chs_client ` set (filter (\<lambda>r. chs_hour_start r = hour) rows)))))])"

definition zero_site_row :: "datetime \<Rightarrow> json_dict" where
  "zero_site_row hour =
     [(''hour_start'', JTime hour), (''total'', JInt 0), (''forwarded'', JInt 0), (''cached'', JInt 0),
      (''overridden'', JInt 0), (''local'', JInt 0), (''denied'', JInt 0), (''blocked'', JInt 0),
      (''servfail'', JInt 0), (''foreign'', JInt 0), (''clients'', JInt 0)]"

definition list_site_hourly_stats :: "int option \<Rightarrow> int \<Rightarrow> int option \<Rightarrow> bool \<Rightarrow> datetime
    \<Rightarrow> ClientHourlyStat list \<Rightarrow> json_dict list" where
  "list_site_hourly_stats limit offset hours fill now t =
     (let rows = filter (\<lambda>r. within_hours hours now (chs_hour_start r)) t;
          groups = order_by_desc (\<lambda>h. h) (remdups (map chs_hour_start rows));
          dicts = map (\<lambda>h. site_dict h rows)
            (if limit \<noteq> None \<and> \<not> fill then sql_page limit offset groups else groups) in
      case hours of
        Some h \<Rightarrow> if fill then fill_stat_hours dicts h now zero_site_row else dicts
      | None \<Rightarrow> dicts)"

definition count_site_hourly_stats :: "int option \<Rightarrow> datetime \<Rightarrow> ClientHourlyStat list \<Rightarrow> nat" where
  "count_site_hourly_stats hours now t =
     card (chs_hour_start ` set (filter (\<lambda>r. within_hours hours now (chs_hour_start r)) t))"

definition chs_key :: "ClientHourlyStat \<Rightarrow> datetime \<times> string" where
  "chs_key r = (chs_hour_start r, chs_client r)"

interpretation cst: counter_table put_client_stat prune_client_stats chs_id chs_key chs_total csa_key csa_total
  "\<lambda>now k. hours_ago STAT_RETENTION_HOURS now \<le> fst k"
  by (rule counter_table_upsert [OF put_client_stat_def]) (auto simp: chs_key_def csa_key_def prune_client_stats_def delete_where_def)

interpretation csp: exact_pipeline cs_add cs_rows cs_cleared cs_flush cs_inv cs_event_key csa_key csa_total
  record_client_stats "\<lambda>t k. sum_by chs_key chs_total k t" "table_ok chs_id chs_key chs_total"
  "\<lambda>E k. we_commits E \<and> hours_ago STAT_RETENTION_HOURS (we_now E) \<le> fst k"
  unfolding record_client_stats_def ..

section \<open>Round-trip times\<close>

definition RTT_RETENTION_HOURS :: int where
  "RTT_RETENTION_HOURS = 500"

text \<open>Python's \<open>round(x, 1)\<close>: the nearest multiple of a tenth, a tie to the even one.\<close>

definition round_half_even :: "rat \<Rightarrow> int" where
  "round_half_even x =
     (let f = floor x; r = x - of_int f in
      if r < 1 / 2 then f else if 1 / 2 < r then f + 1 else if even f then f else f + 1)"

definition round1 :: "rat \<Rightarrow> rat" where
  "round1 x = of_int (round_half_even (x * 10)) / 10"

record UpstreamHourlyRtt =
  uhr_id :: int
  uhr_hour_start :: datetime
  uhr_address :: string
  uhr_samples :: int
  uhr_total_ms :: rat
  uhr_max_ms :: rat

definition rtt_dict :: "UpstreamHourlyRtt \<Rightarrow> json_dict" where
  "rtt_dict row =
     [(''hour_start'', JTime (uhr_hour_start row)), (''address'', JStr (uhr_address row)), (''samples'', JInt (uhr_samples row)),
      (''avg_ms'', if uhr_samples row \<noteq> 0 then JNum (round1 (uhr_total_ms row / of_int (uhr_samples row))) else JNull),
      (''max_ms'', if uhr_samples row \<noteq> 0 then JNum (round1 (uhr_max_ms row)) else JNull)]"

definition zero_rtt_row :: "datetime \<Rightarrow> string \<Rightarrow> json_dict" where
  "zero_rtt_row hour address =
     [(''hour_start'', JTime hour), (''address'', JStr address), (''samples'', JInt 0), (''avg_ms'', JNull), (''max_ms'', JNull)]"

definition put_upstream_rtt :: "datetime \<Rightarrow> UpstreamRttAgg \<Rightarrow> UpstreamHourlyRtt list \<Rightarrow> UpstreamHourlyRtt list" where
  "put_upstream_rtt now row t =
     upsert (\<lambda>r. uhr_hour_start r = ura_hour_start row \<and> uhr_address r = ura_address row)
       \<lparr>uhr_id = next_id (map uhr_id t), uhr_hour_start = ura_hour_start row, uhr_address = ura_address row,
        uhr_samples = ura_samples row, uhr_total_ms = ura_total_ms row, uhr_max_ms = ura_max_ms row\<rparr>
       (\<lambda>r. r\<lparr>uhr_samples := uhr_samples r + ura_samples row, uhr_total_ms := uhr_total_ms r + ura_total_ms row,
          uhr_max_ms := max (uhr_max_ms r) (ura_max_ms row)\<rparr>) t"

definition prune_upstream_rtt :: "datetime \<Rightarrow> UpstreamHourlyRtt list \<Rightarrow> UpstreamHourlyRtt list" where
  "prune_upstream_rtt now = delete_where (\<lambda>r. uhr_hour_start r < hours_ago RTT_RETENTION_HOURS now)"

definition record_upstream_rtt :: "write_env \<Rightarrow> UpstreamRttAgg list \<Rightarrow> UpstreamHourlyRtt list \<Rightarrow> UpstreamHourlyRtt list option" where
  "record_upstream_rtt = write_rows put_upstream_rtt prune_upstream_rtt"

definition fill_rtt_hours :: "json_dict list \<Rightarrow> int \<Rightarrow> datetime \<Rightarrow> string list \<Rightarrow> json_dict list" where
  "fill_rtt_hours rows hours now addresses =
     (let d = by_key (\<lambda>row. (dict_get row ''hour_start'' JNull, dict_get row ''address'' JNull)) rows;
          cutoff = hours_ago (min hours RTT_RETENTION_HOURS) now in
      concat (map (\<lambda>bucket. map (\<lambda>address. filled d (JTime bucket, JStr address) (zero_rtt_row bucket address)) addresses)
        (hour_buckets cutoff (floor_hour now))))"

definition list_upstream_rtt :: "int option \<Rightarrow> int \<Rightarrow> string option \<Rightarrow> int option \<Rightarrow> bool \<Rightarrow> string list option \<Rightarrow> datetime
    \<Rightarrow> UpstreamHourlyRtt list \<Rightarrow> json_dict list" where
  "list_upstream_rtt limit offset address hours fill known_addresses now t =
     (let rows = order_by_desc uhr_hour_start (order_by uhr_address
            (filter (\<lambda>r. matches_opt address (uhr_address r) \<and> within_hours hours now (uhr_hour_start r)) t));
          page = (if limit \<noteq> None \<and> \<not> fill then sql_page limit offset rows else rows);
          dicts = map rtt_dict page in
      case hours of
        Some h \<Rightarrow>
          if fill
          then fill_rtt_hours dicts h now
            (case address of
               Some a \<Rightarrow> [a]
             | None \<Rightarrow> sort (remdups (map uhr_address page @ (case known_addresses of None \<Rightarrow> [] | Some k \<Rightarrow> k))))
          else dicts
      | None \<Rightarrow> dicts)"

definition count_upstream_rtt :: "string option \<Rightarrow> int option \<Rightarrow> datetime \<Rightarrow> UpstreamHourlyRtt list \<Rightarrow> nat" where
  "count_upstream_rtt address hours now t =
     length (filter (\<lambda>r. matches_opt address (uhr_address r) \<and> within_hours hours now (uhr_hour_start r)) t)"

definition uhr_key :: "UpstreamHourlyRtt \<Rightarrow> datetime \<times> string" where
  "uhr_key r = (uhr_hour_start r, uhr_address r)"

interpretation urt: counter_table put_upstream_rtt prune_upstream_rtt uhr_id uhr_key uhr_samples ura_key ura_samples
  "\<lambda>now k. hours_ago RTT_RETENTION_HOURS now \<le> fst k"
  by (rule counter_table_upsert [OF put_upstream_rtt_def]) (auto simp: uhr_key_def ura_key_def prune_upstream_rtt_def delete_where_def)

interpretation urp: exact_pipeline rtt_add rtt_rows rtt_cleared rtt_flush rtt_inv rtt_event_key ura_key ura_samples
  record_upstream_rtt "\<lambda>t k. sum_by uhr_key uhr_samples k t" "table_ok uhr_id uhr_key uhr_samples"
  "\<lambda>E k. we_commits E \<and> hours_ago RTT_RETENTION_HOURS (we_now E) \<le> fst k"
  unfolding record_upstream_rtt_def ..

end
