(* ===== verification/PolicyTable.thy ===== *)
theory PolicyTable
  imports Tables Policy RuntimeState
begin

text \<open>
  The screening policies as stored: \<open>repository/policies.py\<close> over the table \<open>policies\<close>, whose pairs of client
  and domain are unique. The rules the DNS server loads are the enabled rows. A function that may
  violate a constraint gives \<open>Inl IntegrityError\<close> and leaves the table as it was.
\<close>

record PolicyRow =
  pol_id :: int
  pol_client :: string
  pol_domain :: string
  pol_action :: string
  pol_override_response :: "string option"
  pol_override_ttl :: int
  pol_enabled :: bool
  pol_description :: "string option"
  pol_created_at :: datetime
  pol_updated_at :: datetime

definition policy_dict :: "PolicyRow \<Rightarrow> json_dict" where
  "policy_dict policy =
     [(''id'', JInt (pol_id policy)), (''client'', JStr (pol_client policy)), (''domain'', JStr (pol_domain policy)),
      (''action'', JStr (pol_action policy)), (''override_response'', json_opt JStr (pol_override_response policy)),
      (''override_ttl'', JInt (pol_override_ttl policy)), (''enabled'', JBool (pol_enabled policy)),
      (''description'', json_opt JStr (pol_description policy)),
      (''created_at'', JTime (pol_created_at policy)), (''updated_at'', JTime (pol_updated_at policy))]"

definition policy_conflict :: "PolicyRow \<Rightarrow> PolicyRow list \<Rightarrow> bool" where
  "policy_conflict policy t \<longleftrightarrow>
     list_ex (\<lambda>r. pol_id r \<noteq> pol_id policy \<and> pol_client r = pol_client policy \<and> pol_domain r = pol_domain policy) t"

text \<open>\<open>session.add\<close> and \<open>flush\<close>: the row with its new identifier and the defaults of the server.\<close>

definition insert_policy :: "datetime \<Rightarrow> PolicyRow \<Rightarrow> PolicyRow list \<Rightarrow> repo_error + PolicyRow \<times> PolicyRow list" where
  "insert_policy now policy t =
     (let row = policy\<lparr>pol_id := next_id (map pol_id t), pol_created_at := now, pol_updated_at := now\<rparr> in
      if policy_conflict row t then Inl IntegrityError else Inr (row, t @ [row]))"

definition list_policies :: "int option \<Rightarrow> int \<Rightarrow> PolicyRow list \<Rightarrow> json_dict list" where
  "list_policies limit offset t = map policy_dict (sql_page limit offset (order_by pol_id t))"

definition count_policies :: "PolicyRow list \<Rightarrow> nat" where
  "count_policies t = length t"

definition get_policy :: "int \<Rightarrow> PolicyRow list \<Rightarrow> json_dict option" where
  "get_policy policy_id t = map_option policy_dict (get_row pol_id policy_id t)"

text \<open>What a validated creation holds; the optional entries default.\<close>

record PolicyData =
  pd_client :: string
  pd_domain :: string
  pd_action :: string
  pd_override_response :: "string option"
  pd_override_ttl :: int
  pd_enabled :: bool
  pd_description :: "string option"

definition create_policy :: "datetime \<Rightarrow> PolicyData \<Rightarrow> PolicyRow list \<Rightarrow> repo_error + json_dict \<times> PolicyRow list" where
  "create_policy now data t =
     (case insert_policy now
         \<lparr>pol_id = 0, pol_client = pd_client data, pol_domain = pd_domain data, pol_action = pd_action data,
          pol_override_response = pd_override_response data, pol_override_ttl = pd_override_ttl data,
          pol_enabled = pd_enabled data, pol_description = pd_description data,
          pol_created_at = now, pol_updated_at = now\<rparr> t of
        Inl e \<Rightarrow> Inl e
      | Inr (row, t) \<Rightarrow> Inr (policy_dict row, t))"

record PolicyPatch =
  pp_client :: "string patch"
  pp_domain :: "string patch"
  pp_action :: "string patch"
  pp_override_response :: "string patch"
  pp_override_ttl :: "int patch"
  pp_enabled :: "bool patch"
  pp_description :: "string patch"

definition patch_policy :: "PolicyPatch \<Rightarrow> PolicyRow \<Rightarrow> PolicyRow option" where
  "patch_policy data policy =
     Option.bind (patch_req (pp_client data) (pol_client policy)) (\<lambda>client.
     Option.bind (patch_req (pp_domain data) (pol_domain policy)) (\<lambda>domain.
     Option.bind (patch_req (pp_action data) (pol_action policy)) (\<lambda>action.
     Option.bind (patch_req (pp_override_ttl data) (pol_override_ttl policy)) (\<lambda>ttl.
     Option.bind (patch_req (pp_enabled data) (pol_enabled policy)) (\<lambda>enabled.
       Some (policy\<lparr>pol_client := client, pol_domain := domain, pol_action := action,
         pol_override_response := patch_opt (pp_override_response data) (pol_override_response policy),
         pol_override_ttl := ttl, pol_enabled := enabled,
         pol_description := patch_opt (pp_description data) (pol_description policy)\<rparr>))))))"

text \<open>An update statement is only sent for a row that changed, and then sets \<open>updated_at\<close>.\<close>

definition touch_policy :: "datetime \<Rightarrow> PolicyRow \<Rightarrow> PolicyRow \<Rightarrow> PolicyRow" where
  "touch_policy now old new = (if new = old then old else new\<lparr>pol_updated_at := now\<rparr>)"

definition update_policy :: "datetime \<Rightarrow> int \<Rightarrow> PolicyPatch \<Rightarrow> PolicyRow list
    \<Rightarrow> repo_error + json_dict option \<times> PolicyRow list" where
  "update_policy now policy_id data t =
     (case get_row pol_id policy_id t of
        None \<Rightarrow> Inr (None, t)
      | Some policy \<Rightarrow>
          (case patch_policy data policy of
             None \<Rightarrow> Inl IntegrityError
           | Some new \<Rightarrow>
               if policy_conflict new t then Inl IntegrityError
               else let row = touch_policy now policy new in Inr (Some (policy_dict row), replace_row pol_id row t)))"

definition delete_policy :: "int \<Rightarrow> PolicyRow list \<Rightarrow> bool \<times> PolicyRow list" where
  "delete_policy policy_id t = delete_row pol_id policy_id t"

definition client_row :: "string \<Rightarrow> PolicyRow list \<Rightarrow> PolicyRow option" where
  "client_row client t = List.find (\<lambda>r. pol_client r = client \<and> pol_domain r = WILDCARD) t"

definition get_client_mode :: "string \<Rightarrow> RuntimeSettings \<Rightarrow> PolicyRow list \<Rightarrow> json_dict" where
  "get_client_mode client settings t =
     (case client_row client t of
        None \<Rightarrow> [(''client'', JStr client), (''mode'', JStr (default_action settings)), (''policy_id'', JNull)]
      | Some row \<Rightarrow> [(''client'', JStr client), (''mode'', JStr (pol_action row)), (''policy_id'', JInt (pol_id row))])"

definition wildcard_policy :: "datetime \<Rightarrow> string \<Rightarrow> string \<Rightarrow> PolicyRow" where
  "wildcard_policy now client action =
     \<lparr>pol_id = 0, pol_client = client, pol_domain = WILDCARD, pol_action = action, pol_override_response = None,
      pol_override_ttl = 300, pol_enabled = True, pol_description = None, pol_created_at = now, pol_updated_at = now\<rparr>"

definition set_client_mode :: "datetime \<Rightarrow> string \<Rightarrow> string \<Rightarrow> PolicyRow list
    \<Rightarrow> repo_error + json_dict \<times> PolicyRow list" where
  "set_client_mode now client mode t =
     (let answer = (\<lambda>row. [(''client'', JStr client), (''mode'', JStr (pol_action row)), (''policy_id'', JInt (pol_id row))]) in
      case client_row client t of
        None \<Rightarrow>
          (case insert_policy now (wildcard_policy now client mode) t of
             Inl e \<Rightarrow> Inl e
           | Inr (row, t) \<Rightarrow> Inr (answer row, t))
      | Some row \<Rightarrow>
          let row = touch_policy now row (row\<lparr>pol_action := mode\<rparr>) in Inr (answer row, replace_row pol_id row t))"

definition ensure_client_policy :: "datetime \<Rightarrow> string \<Rightarrow> string \<Rightarrow> PolicyRow list \<Rightarrow> repo_error + PolicyRow list" where
  "ensure_client_policy now client action t =
     (case client_row client t of
        Some row \<Rightarrow> Inr t
      | None \<Rightarrow>
          (case insert_policy now (wildcard_policy now client action) t of
             Inl e \<Rightarrow> Inl e
           | Inr (row, t) \<Rightarrow> Inr t))"

definition policy_rule :: "PolicyRow \<Rightarrow> PolicyRule" where
  "policy_rule row = \<lparr>rule_client = pol_client row, rule_domain = pol_domain row, rule_action = pol_action row,
     override_response = pol_override_response row, override_ttl = pol_override_ttl row\<rparr>"

definition load_rules :: "PolicyRow list \<Rightarrow> PolicyRule list" where
  "load_rules t = map policy_rule (filter pol_enabled t)"

section \<open>The invariant\<close>

definition pol_key :: "PolicyRow \<Rightarrow> string \<times> string" where
  "pol_key r = (pol_client r, pol_domain r)"

definition policies_ok :: "PolicyRow list \<Rightarrow> bool" where
  "policies_ok t \<longleftrightarrow> sorted_wrt (<) (map pol_id t) \<and> distinct (map pol_key t)"

lemma policies_ok_ids: "policies_ok t \<Longrightarrow> distinct (map pol_id t)"
  by (simp add: policies_ok_def strict_sorted_iff)

lemma insert_policy_ok: "policies_ok t \<Longrightarrow> insert_policy now p t = Inr (row, t') \<Longrightarrow> policies_ok t'"
proof -
  assume ok: "policies_ok t" and ins: "insert_policy now p t = Inr (row, t')"
  have fresh: "\<forall>r \<in> set t. pol_id r < next_id (map pol_id t)" using next_id_gt [of _ "map pol_id t"] by auto
  then have "\<forall>r \<in> set t. pol_id r \<noteq> next_id (map pol_id t)" by auto
  with ins have "t' = t @ [row]" "pol_id row = next_id (map pol_id t)" "pol_key row \<notin> pol_key ` set t"
    by (auto simp: insert_policy_def Let_def policy_conflict_def list_ex_iff pol_key_def split: if_splits)
  with ok fresh show ?thesis by (auto simp: policies_ok_def sorted_wrt_append)
qed

lemma replace_policy_ok:
  assumes "policies_ok t" "\<not> policy_conflict new t"
  shows "policies_ok (replace_row pol_id new t)"
proof -
  have "distinct (map pol_key (replace_row pol_id new t))"
    using assms by (intro distinct_replace_row policies_ok_ids)
      (auto simp: policies_ok_def policy_conflict_def list_ex_iff pol_key_def)
  with assms(1) show ?thesis by (simp add: policies_ok_def)
qed

lemma touch_policy_simps [simp]:
  "policy_conflict (touch_policy now old new) t = policy_conflict new t"
  "pol_id (touch_policy now old new) = pol_id new" "pol_action (touch_policy now old new) = pol_action new"
  "pol_key (touch_policy now old new) = pol_key new" "pol_enabled (touch_policy now old new) = pol_enabled new"
  "pol_domain (touch_policy now old new) = pol_domain new" "pol_client (touch_policy now old new) = pol_client new"
  by (auto simp: touch_policy_def policy_conflict_def pol_key_def)

lemma filter_policies_ok: "policies_ok t \<Longrightarrow> policies_ok (filter P t)"
  by (auto simp: policies_ok_def sorted_wrt_map distinct_map_filter intro: sorted_wrt_filter)

lemma client_row_Some: "client_row c t = Some r \<Longrightarrow> r \<in> set t \<and> pol_client r = c \<and> pol_domain r = WILDCARD"
  using find_Some_mem unfolding client_row_def by fast

lemma client_row_None: "client_row c t = None \<longleftrightarrow> (\<forall>r \<in> set t. \<not> (pol_client r = c \<and> pol_domain r = WILDCARD))"
  by (auto simp: client_row_def find_None_iff)

lemma client_row_unique:
  assumes "policies_ok t" "r \<in> set t" "pol_client r = c" "pol_domain r = WILDCARD"
  shows "client_row c t = Some r"
proof (cases "client_row c t")
  case None
  with assms show ?thesis by (auto simp: client_row_None)
next
  case (Some q)
  from client_row_Some [OF this] assms have "pol_key q = pol_key r" "q \<in> set t" by (simp_all add: pol_key_def)
  with assms(1,2) have "q = r" by (auto simp: policies_ok_def distinct_map dest: inj_onD)
  with Some show ?thesis by simp
qed

lemma action_no_conflict:
  assumes "policies_ok t" "r \<in> set t"
  shows "\<not> policy_conflict (r\<lparr>pol_action := a\<rparr>) t"
proof -
  have "pol_id q = pol_id r" if "q \<in> set t" "pol_key q = pol_key r" for q
    using assms that by (auto simp: policies_ok_def distinct_map dest: inj_onD)
  then show ?thesis by (auto simp: policy_conflict_def list_ex_iff pol_key_def)
qed

lemma set_mode_ok:
  "policies_ok t \<Longrightarrow> client_row c t = Some r \<Longrightarrow>
     policies_ok (replace_row pol_id (touch_policy now r (r\<lparr>pol_action := a\<rparr>)) t)"
  by (rule replace_policy_ok) (simp_all add: action_no_conflict client_row_Some)

lemma client_row_append:
  "client_row d (t @ u) = (case client_row d t of None \<Rightarrow> client_row d u | Some r \<Rightarrow> Some r)"
  by (induction t) (simp_all add: client_row_def)

text \<open>The operations of the API and of the DNS server on the table; a failing one changes nothing.\<close>

datatype policy_op = CreatePolicy PolicyData | UpdatePolicy int PolicyPatch | DeletePolicy int
  | SetClientMode string string | EnsureClientPolicy string string

fun policy_step :: "datetime \<times> policy_op \<Rightarrow> PolicyRow list \<Rightarrow> PolicyRow list" where
  "policy_step (now, CreatePolicy data) t = (case create_policy now data t of Inl e \<Rightarrow> t | Inr (d, t') \<Rightarrow> t')"
| "policy_step (now, UpdatePolicy i data) t = (case update_policy now i data t of Inl e \<Rightarrow> t | Inr (d, t') \<Rightarrow> t')"
| "policy_step (now, DeletePolicy i) t = snd (delete_policy i t)"
| "policy_step (now, SetClientMode c mode) t = (case set_client_mode now c mode t of Inl e \<Rightarrow> t | Inr (d, t') \<Rightarrow> t')"
| "policy_step (now, EnsureClientPolicy c a) t = (case ensure_client_policy now c a t of Inl e \<Rightarrow> t | Inr t' \<Rightarrow> t')"

lemma policy_step_ok: "policies_ok t \<Longrightarrow> policies_ok (policy_step (now, op) t)"
proof (cases op)
  case (UpdatePolicy i data)
  assume "policies_ok t"
  with UpdatePolicy show ?thesis
    by (auto simp: update_policy_def Let_def intro: replace_policy_ok split: option.split)
next
  case (SetClientMode c mode)
  assume "policies_ok t"
  with SetClientMode show ?thesis
    by (auto simp: set_client_mode_def Let_def intro: set_mode_ok insert_policy_ok split: option.split sum.split)
qed (auto simp: create_policy_def delete_policy_def delete_row_spec ensure_client_policy_def filter_policies_ok
    intro: insert_policy_ok split: sum.split option.split)

text \<open>Whatever the sequence of policy operations on an empty table, including rejected ones, identifiers
  increase along the table and no client has two rows with the same domain.\<close>

theorem policies_unique:
  "policies_ok (fold policy_step ops [])"
  by (rule fold_invariant_set) (auto simp: policies_ok_def [of "[]"] intro: policy_step_ok)

section \<open>Client modes\<close>

lemma client_row_replace:
  assumes ok: "policies_ok t" and r: "client_row c t = Some r" and new: "pol_id new = pol_id r" "pol_key new = pol_key r"
  shows "client_row d (replace_row pol_id new t) = (if d = c then Some new else client_row d t)"
proof -
  have same: "pol_key q = pol_key r \<longleftrightarrow> q = r" if "q \<in> set t" for q
    using ok client_row_Some [OF r] that by (auto simp: policies_ok_def distinct_map dest: inj_onD)
  have ids: "pol_id q = pol_id r \<longleftrightarrow> q = r" if "q \<in> set t" for q
    using policies_ok_ids [OF ok] client_row_Some [OF r] that by (auto simp: distinct_map dest: inj_onD)
  have P: "pol_client r = c \<and> pol_domain r = WILDCARD" "pol_client new = pol_client r \<and> pol_domain new = pol_domain r"
    using client_row_Some [OF r] new by (simp_all add: pol_key_def)
  have "client_row d (replace_row pol_id new u) = (if d = c \<and> r \<in> set u then Some new else client_row d u)"
    if "set u \<subseteq> set t" for u
    using that
  proof (induction u)
    case (Cons q u)
    show ?case
    proof (cases "q = r")
      case True
      with Cons P new show ?thesis by (auto simp: client_row_def replace_row_def)
    next
      case False
      with Cons.prems same [of q] ids [of q] P have "\<not> (pol_client q = c \<and> pol_domain q = WILDCARD)" "pol_id q \<noteq> pol_id r"
        by (auto simp: pol_key_def)
      with False Cons new show ?thesis by (auto simp: client_row_def replace_row_def)
    qed
  qed (simp add: client_row_def replace_row_def)
  from this [of t] client_row_Some [OF r] show ?thesis by simp
qed

lemma ensure_client_policy_row:
  assumes "policies_ok t"
  shows "\<exists>t'. ensure_client_policy now c action t = Inr t' \<and> policies_ok t'
    \<and> (\<forall>d. client_row d t' = (if d = c \<and> client_row c t = None
          then Some ((wildcard_policy now c action)\<lparr>pol_id := next_id (map pol_id t)\<rparr>) else client_row d t))"
proof (cases "client_row c t")
  case None
  let ?row = "(wildcard_policy now c action)\<lparr>pol_id := next_id (map pol_id t)\<rparr>"
  from None have "\<not> policy_conflict ?row t"
    by (auto simp: client_row_None policy_conflict_def list_ex_iff wildcard_policy_def)
  then have ins: "insert_policy now (wildcard_policy now c action) t = Inr (?row, t @ [?row])"
    by (simp add: insert_policy_def Let_def wildcard_policy_def)
  have "client_row d (t @ [?row]) = (if d = c then Some ?row else client_row d t)" for d
    unfolding client_row_append using None by (auto simp: client_row_def wildcard_policy_def split: option.split)
  with None ins insert_policy_ok [OF assms ins] show ?thesis by (simp add: ensure_client_policy_def)
qed (use assms in \<open>auto simp: ensure_client_policy_def\<close>)

text \<open>The rows for all names of a client.\<close>

abbreviation wildcard_rows :: "string \<Rightarrow> PolicyRow list \<Rightarrow> PolicyRow list" where
  "wildcard_rows c t \<equiv> filter (\<lambda>r. pol_client r = c \<and> pol_domain r = WILDCARD) t"

lemma wildcard_rows_client:
  assumes "policies_ok t"
  shows "wildcard_rows c t = (case client_row c t of None \<Rightarrow> [] | Some r \<Rightarrow> [r])"
proof (cases "client_row c t")
  case None
  then have "wildcard_rows c t = []" by (auto simp: client_row_None filter_empty_conv)
  with None show ?thesis by simp
next
  case (Some r)
  have "q = r" if "q \<in> set t" "pol_client q = c" "pol_domain q = WILDCARD" for q
    using client_row_unique [OF assms that] Some by simp
  then have "set (wildcard_rows c t) \<subseteq> {r}" by auto
  moreover have "r \<in> set (wildcard_rows c t)" using client_row_Some [OF Some] by simp
  moreover have "distinct (wildcard_rows c t)" using assms by (simp add: policies_ok_def distinct_map)
  ultimately have "wildcard_rows c t = [r]" by (cases "wildcard_rows c t"; cases "tl (wildcard_rows c t)") auto
  with Some show ?thesis by simp
qed

lemma set_client_mode_row:
  assumes "policies_ok t"
  shows "\<exists>answer t' row. set_client_mode now c mode t = Inr (answer, t') \<and> policies_ok t' \<and> client_row c t' = Some row \<and> pol_action row = mode"
proof (cases "client_row c t")
  case None
  let ?row = "(wildcard_policy now c mode)\<lparr>pol_id := next_id (map pol_id t)\<rparr>"
  from ensure_client_policy_row [OF assms, of now c mode] None obtain t' where t': "ensure_client_policy now c mode t = Inr t'"
    "policies_ok t'" "client_row c t' = Some ?row" by auto
  then obtain row where "insert_policy now (wildcard_policy now c mode) t = Inr (row, t')"
    using None by (auto simp: ensure_client_policy_def split: sum.splits)
  with None t' show ?thesis by (simp add: set_client_mode_def) (simp add: wildcard_policy_def)
next
  case (Some r)
  let ?new = "touch_policy now r (r\<lparr>pol_action := mode\<rparr>)"
  have "client_row c (replace_row pol_id ?new t) = Some ?new"
    using client_row_replace [OF assms Some, of ?new c] by (simp add: pol_key_def)
  with Some set_mode_ok [OF assms Some] show ?thesis by (simp add: set_client_mode_def Let_def)
qed

text \<open>C34: Whatever the sequence of policy operations on an empty table, including rejected ones, no client has two rows
  with one domain, and seeding a client or setting its mode never meets the constraint: seeding leaves a client that
  has a row for all names as it is and gives another exactly one, with the given action; setting the mode leaves
  the client with exactly one such row, of that mode.\<close>

theorem client_rows_unique:
  "let t = fold policy_step ops [] in
     distinct (map pol_key t) \<and> length (wildcard_rows c t) \<le> 1
   \<and> (\<exists>t'. ensure_client_policy now c action t = Inr t'
        \<and> (if wildcard_rows c t = [] then map pol_action (wildcard_rows c t') = [action] else t' = t))
   \<and> (\<exists>answer t'. set_client_mode now c mode t = Inr (answer, t') \<and> map pol_action (wildcard_rows c t') = [mode])"
proof -
  define t where "t = fold policy_step ops []"
  have ok: "policies_ok t" unfolding t_def by (rule policies_unique)
  note rows = wildcard_rows_client [OF ok, of c]
  from ensure_client_policy_row [OF ok, of now c action] obtain t' where t': "ensure_client_policy now c action t = Inr t'" "policies_ok t'"
    "client_row c t' = (if client_row c t = None then Some ((wildcard_policy now c action)\<lparr>pol_id := next_id (map pol_id t)\<rparr>) else client_row c t)"
    by auto
  have seed: "if wildcard_rows c t = [] then map pol_action (wildcard_rows c t') = [action] else t' = t"
  proof (cases "client_row c t")
    case None
    with rows wildcard_rows_client [OF t'(2), of c] t'(3) show ?thesis by (simp add: wildcard_policy_def)
  next
    case (Some r)
    with rows t'(1) show ?thesis by (simp add: ensure_client_policy_def)
  qed
  from set_client_mode_row [OF ok, of now c mode] obtain answer u row where
    u: "set_client_mode now c mode t = Inr (answer, u)" "policies_ok u" "client_row c u = Some row" "pol_action row = mode" by blast
  have "map pol_action (wildcard_rows c u) = [mode]" using wildcard_rows_client [OF u(2), of c] u(3,4) by simp
  moreover have "length (wildcard_rows c t) \<le> 1" unfolding rows by (simp split: option.split)
  moreover have "distinct (map pol_key t)" using ok by (simp add: policies_ok_def)
  ultimately show ?thesis
    unfolding Let_def t_def [symmetric] by (intro conjI exI [of _ t'] exI [of _ answer] exI [of _ u] t'(1) seed u(1))
qed

text \<open>Setting the mode of a client never fails; it is then the mode reported for the client, the rows of
  other clients and of other domains stay, and so do the modes of all other clients.\<close>

theorem client_mode_set:
  assumes "policies_ok t"
  shows "\<exists>answer t'. set_client_mode now c mode t = Inr (answer, t') \<and> get_client_mode c settings t' = answer
    \<and> dict_get answer ''mode'' JNull = JStr mode
    \<and> (\<forall>d. d \<noteq> c \<longrightarrow> get_client_mode d settings t' = get_client_mode d settings t)
    \<and> filter (\<lambda>r. \<not> (pol_client r = c \<and> pol_domain r = WILDCARD)) t' = filter (\<lambda>r. \<not> (pol_client r = c \<and> pol_domain r = WILDCARD)) t"
proof (cases "client_row c t")
  case None
  let ?row = "(wildcard_policy now c mode)\<lparr>pol_id := next_id (map pol_id t)\<rparr>"
  from None have "\<not> policy_conflict ?row t"
    by (auto simp: client_row_None policy_conflict_def list_ex_iff wildcard_policy_def)
  then have ins: "insert_policy now (wildcard_policy now c mode) t = Inr (?row, t @ [?row])"
    by (simp add: insert_policy_def Let_def wildcard_policy_def)
  have find: "client_row d (t @ [?row]) = (if d = c then Some ?row else client_row d t)" for d
    unfolding client_row_append using None by (auto simp: client_row_def wildcard_policy_def split: option.split)
  show ?thesis
    using None by (simp add: set_client_mode_def ins get_client_mode_def find dict_get_def)
      (simp add: wildcard_policy_def)
next
  case (Some r)
  let ?new = "touch_policy now r (r\<lparr>pol_action := mode\<rparr>)"
  have key: "pol_key ?new = pol_key r" by (simp add: pol_key_def)
  have find: "client_row d (replace_row pol_id ?new t) = (if d = c then Some ?new else client_row d t)" for d
    by (rule client_row_replace [OF assms Some _ key]) simp
  have P: "pol_client r = c" "pol_domain r = WILDCARD" using client_row_Some [OF Some] by simp_all
  have "pol_id q = pol_id r \<longrightarrow> q = r" if "q \<in> set t" for q
    using policies_ok_ids [OF assms] client_row_Some [OF Some] that by (auto simp: distinct_map dest: inj_onD)
  then have "filter (\<lambda>r. \<not> (pol_client r = c \<and> pol_domain r = WILDCARD)) (replace_row pol_id ?new u)
      = filter (\<lambda>r. \<not> (pol_client r = c \<and> pol_domain r = WILDCARD)) u" if "set u \<subseteq> set t" for u
    using that P by (induction u) (auto simp: replace_row_def)
  with Some show ?thesis by (simp add: set_client_mode_def Let_def get_client_mode_def find dict_get_def)
qed

theorem client_mode_set_witness:
  "\<exists>answer t'. set_client_mode 9 ''10.0.0.7'' ''deny'' [(wildcard_policy 5 ''10.0.0.7'' ''forward'')\<lparr>pol_id := 1\<rparr>] = Inr (answer, t')
    \<and> get_client_mode ''10.0.0.7'' RuntimeSettings_default t' = answer \<and> dict_get answer ''mode'' JNull = JStr ''deny''"
proof -
  have "policies_ok [(wildcard_policy 5 ''10.0.0.7'' ''forward'')\<lparr>pol_id := 1\<rparr>]" by (simp add: policies_ok_def)
  from client_mode_set [OF this, of 9 "''10.0.0.7''" "''deny''" RuntimeSettings_default] show ?thesis by blast
qed

text \<open>Setting the mode of a client whose wildcard row is disabled reports the new mode but does not change
  any rule that the DNS server loads.\<close>

theorem client_mode_disabled:
  assumes "policies_ok t" "client_row c t = Some row" "\<not> pol_enabled row"
  shows "\<exists>answer t'. set_client_mode now c mode t = Inr (answer, t') \<and> dict_get answer ''mode'' JNull = JStr mode
    \<and> load_rules t' = load_rules t"
proof -
  let ?new = "touch_policy now row (row\<lparr>pol_action := mode\<rparr>)"
  have "pol_id q = pol_id row \<longrightarrow> q = row" if "q \<in> set t" for q
    using policies_ok_ids [OF assms(1)] client_row_Some [OF assms(2)] that by (auto simp: distinct_map dest: inj_onD)
  then have "filter pol_enabled (replace_row pol_id ?new u) = filter pol_enabled u" if "set u \<subseteq> set t" for u
    using that assms(3) by (induction u) (auto simp: replace_row_def)
  with assms(2) show ?thesis by (simp add: set_client_mode_def Let_def load_rules_def dict_get_def)
qed

theorem client_mode_disabled_witness:
  "let t = [(wildcard_policy 5 ''10.0.0.7'' ''forward'')\<lparr>pol_id := 1, pol_enabled := False\<rparr>]
   in \<exists>answer t'. set_client_mode 9 ''10.0.0.7'' ''deny'' t = Inr (answer, t') \<and> dict_get answer ''mode'' JNull = JStr ''deny''
    \<and> load_rules t' = []"
proof -
  let ?row = "(wildcard_policy 5 ''10.0.0.7'' ''forward'')\<lparr>pol_id := 1, pol_enabled := False\<rparr>"
  have ok: "policies_ok [?row]" by (simp add: policies_ok_def)
  have row: "client_row ''10.0.0.7'' [?row] = Some ?row" "\<not> pol_enabled ?row" and rules: "load_rules [?row] = []"
    by (simp_all add: client_row_def wildcard_policy_def load_rules_def)
  show ?thesis using client_mode_disabled [OF ok row, of 9 "''deny''"] unfolding Let_def rules .
qed

end
