(* ===== verification/HostTable.thy ===== *)
theory HostTable
  imports Hosts StatTables QueryLogTable PolicyTable
begin

text \<open>
  The client hosts as stored: \<open>repository/hosts.py\<close> over the table \<open>hosts\<close> of its own database, filled by the
  tracker of \<open>domain/hosts.py\<close>. The table is a \<open>counter_table\<close>, so the stored counts are the recorded queries;
  deleting a host removes its rows from four other tables.
\<close>

record Host =
  hst_id :: int
  hst_ip :: string
  hst_device_name :: "string option"
  hst_icon :: "string option"
  hst_mac_address :: "string option"
  hst_excluded_from_blocklist :: bool
  hst_flag_new_domains :: bool
  hst_query_count :: int
  hst_first_seen :: datetime
  hst_last_seen :: datetime

definition host_dict :: "Host \<Rightarrow> json_dict" where
  "host_dict host =
     [(''id'', JInt (hst_id host)), (''ip'', JStr (hst_ip host)), (''device_name'', json_opt JStr (hst_device_name host)),
      (''icon'', json_opt JStr (hst_icon host)), (''mac_address'', json_opt JStr (hst_mac_address host)),
      (''excluded_from_blocklist'', JBool (hst_excluded_from_blocklist host)),
      (''flag_new_domains'', JBool (hst_flag_new_domains host)), (''query_count'', JInt (hst_query_count host)),
      (''first_seen'', JTime (hst_first_seen host)), (''last_seen'', JTime (hst_last_seen host))]"

text \<open>The dictionaries come from \<open>host_dict\<close>, so their address is a text.\<close>

definition attach_recent_totals :: "datetime \<Rightarrow> ClientHourlyStat list \<Rightarrow> Host list \<Rightarrow> json_dict list" where
  "attach_recent_totals now stats hosts =
     (if hosts = [] then []
      else (let totals = sum_total_by_client (Some (map hst_ip hosts)) STAT_RETENTION_HOURS now stats in
        map (\<lambda>host. dict_set ''500h_queries'' (JInt (dict_get totals (hst_ip host) 0)) (host_dict host)) hosts))"

definition load_known_hosts :: "Host list \<Rightarrow> string set" where
  "load_known_hosts t = hst_ip ` set t"

definition load_blocklist_excluded :: "Host list \<Rightarrow> string set" where
  "load_blocklist_excluded t = hst_ip ` set (filter hst_excluded_from_blocklist t)"

definition load_new_domain_unmonitored :: "Host list \<Rightarrow> string set" where
  "load_new_domain_unmonitored t = hst_ip ` set (filter (\<lambda>h. \<not> hst_flag_new_domains h) t)"

definition put_host :: "datetime \<Rightarrow> string \<times> int \<Rightarrow> Host list \<Rightarrow> Host list" where
  "put_host now entry t =
     upsert (\<lambda>h. hst_ip h = fst entry)
       \<lparr>hst_id = next_id (map hst_id t), hst_ip = fst entry, hst_device_name = None, hst_icon = None, hst_mac_address = None,
        hst_excluded_from_blocklist = False, hst_flag_new_domains = True, hst_query_count = snd entry,
        hst_first_seen = now, hst_last_seen = now\<rparr>
       (\<lambda>h. h\<lparr>hst_query_count := hst_query_count h + snd entry, hst_last_seen := now\<rparr>) t"

definition record_hosts :: "write_env \<Rightarrow> (string, int) dict \<Rightarrow> Host list \<Rightarrow> Host list option" where
  "record_hosts = write_rows put_host (\<lambda>now t. t)"

definition list_hosts :: "int option \<Rightarrow> int \<Rightarrow> datetime \<Rightarrow> ClientHourlyStat list \<Rightarrow> Host list \<Rightarrow> json_dict list" where
  "list_hosts limit offset now stats t =
     attach_recent_totals now stats (sql_page limit offset (order_by_desc hst_last_seen (order_by hst_id t)))"

definition count_hosts :: "Host list \<Rightarrow> nat" where
  "count_hosts t = length t"

definition get_host :: "int \<Rightarrow> datetime \<Rightarrow> ClientHourlyStat list \<Rightarrow> Host list \<Rightarrow> json_dict option" where
  "get_host host_id now stats t =
     map_option (\<lambda>host. hd (attach_recent_totals now stats [host])) (get_row hst_id host_id t)"

text \<open>The two flags are only set by a value that is not null.\<close>

record HostPatch =
  hp_device_name :: "string patch"
  hp_icon :: "string patch"
  hp_excluded_from_blocklist :: "bool patch"
  hp_flag_new_domains :: "bool patch"

definition patch_flag :: "bool patch \<Rightarrow> bool \<Rightarrow> bool" where
  "patch_flag p old = (case p of Put v \<Rightarrow> v | _ \<Rightarrow> old)"

definition update_host :: "int \<Rightarrow> HostPatch \<Rightarrow> datetime \<Rightarrow> ClientHourlyStat list \<Rightarrow> Host list \<Rightarrow> json_dict option \<times> Host list" where
  "update_host host_id data now stats t =
     (case get_row hst_id host_id t of
        None \<Rightarrow> (None, t)
      | Some host \<Rightarrow>
          (let host = host\<lparr>hst_device_name := patch_opt (hp_device_name data) (hst_device_name host),
                 hst_icon := patch_opt (hp_icon data) (hst_icon host),
                 hst_excluded_from_blocklist := patch_flag (hp_excluded_from_blocklist data) (hst_excluded_from_blocklist host),
                 hst_flag_new_domains := patch_flag (hp_flag_new_domains data) (hst_flag_new_domains host)\<rparr>
           in (Some (hd (attach_recent_totals now stats [host])), replace_row hst_id host t)))"

record HostSync =
  hy_device_name :: "string patch"
  hy_icon :: "string patch"
  hy_mac_address :: "string patch"

definition update_host_by_ip :: "string \<Rightarrow> HostSync \<Rightarrow> datetime \<Rightarrow> ClientHourlyStat list \<Rightarrow> Host list \<Rightarrow> json_dict option \<times> Host list" where
  "update_host_by_ip ip data now stats t =
     (case List.find (\<lambda>h. hst_ip h = ip) t of
        None \<Rightarrow> (None, t)
      | Some host \<Rightarrow>
          (let host = host\<lparr>hst_device_name := patch_opt (hy_device_name data) (hst_device_name host),
                 hst_icon := patch_opt (hy_icon data) (hst_icon host),
                 hst_mac_address := patch_opt (hy_mac_address data) (hst_mac_address host)\<rparr>
           in (Some (hd (attach_recent_totals now stats [host])), replace_row hst_id host t)))"

text \<open>What a deletion touches. The hosts are committed first, in a session of their own.\<close>

record host_db =
  hd_hosts :: "Host list"
  hd_stats :: "ClientHourlyStat list"
  hd_requests :: "ClientRequest list"
  hd_queries :: "QueryLog list"
  hd_policies :: "PolicyRow list"

definition delete_host :: "int \<Rightarrow> bool \<Rightarrow> host_db \<Rightarrow> bool option \<times> host_db" where
  "delete_host host_id commits db =
     (case get_row hst_id host_id (hd_hosts db) of
        None \<Rightarrow> (Some False, db)
      | Some host \<Rightarrow>
          (let ip = hst_ip host;
               db = db\<lparr>hd_hosts := delete_where (\<lambda>h. hst_id h = host_id) (hd_hosts db)\<rparr>;
               cleared = db\<lparr>hd_stats := delete_where (\<lambda>r. chs_client r = ip) (hd_stats db),
                 hd_requests := delete_where (\<lambda>r. crq_client r = ip) (hd_requests db),
                 hd_queries := delete_where (\<lambda>r. ql_client r = ip) (hd_queries db),
                 hd_policies := delete_where (\<lambda>r. pol_client r = ip) (hd_policies db)\<rparr>
           in if commits then (Some True, cleared) else (None, db)))"

section \<open>Lemmas\<close>

interpretation hst: counter_table put_host "\<lambda>now t. t" hst_id hst_ip hst_query_count fst snd "\<lambda>now k. True"
  by (rule counter_table_upsert [OF put_host_def]) (auto intro: exI [of _ "\<lambda>r. True"])

text \<open>What the tracker has pending are the counts of the recorded addresses.\<close>

lemma ht_fold_pending:
  "dict_wf (ht_pending s) \<Longrightarrow> \<forall>e \<in> set (ht_pending s). 0 \<le> snd e \<Longrightarrow>
   dict_wf (ht_pending (fold ht_record ips s)) \<and> (\<forall>e \<in> set (ht_pending (fold ht_record ips s)). 0 \<le> snd e)
   \<and> dict_get (ht_pending (fold ht_record ips s)) ip 0 = dict_get (ht_pending s) ip 0 + int (count_list ips ip)"
proof (induction ips arbitrary: s)
  case (Cons i ips)
  have p: "ht_pending (ht_record i s) = dict_set i (dict_get (ht_pending s) i 0 + 1) (ht_pending s)"
    by (simp add: ht_record_def Let_def)
  have "0 \<le> dict_get (ht_pending s) i 0"
    using Cons.prems(2) by (force simp: dict_get_def split: option.split dest: map_of_SomeD)
  moreover have "set (dict_set i v d) \<subseteq> insert (i, v) (set d)" for v and d :: "(string, int) dict" by (induction d) auto
  ultimately have "\<forall>e \<in> set (ht_pending (ht_record i s)). 0 \<le> snd e" unfolding p using Cons.prems(2) by fastforce
  moreover have "dict_wf (ht_pending (ht_record i s))" unfolding p using Cons.prems(1) by simp
  ultimately show ?case using Cons.IH [of "ht_record i s"] by (simp add: p)
qed simp

section \<open>Properties\<close>

text \<open>A committed flush of the tracker adds to the stored count of every address the number of times it was
  recorded since the last flush, and to no other count; a flush that fails changes no count.\<close>

theorem host_counts_exact:
  assumes "table_ok hst_id hst_ip hst_query_count t" "ht_pending s = []"
  shows "sum_by hst_ip hst_query_count ip (snd (ht_flush (record_hosts E) None (fold ht_record ips s, t)))
    = sum_by hst_ip hst_query_count ip t + (if we_commits E then int (count_list ips ip) else 0)"
proof -
  let ?s = "fold ht_record ips s"
  have pend: "dict_wf (ht_pending ?s)" "\<forall>e \<in> set (ht_pending ?s). 0 \<le> snd e"
    "dict_get (ht_pending ?s) ip 0 = int (count_list ips ip)"
    using ht_fold_pending [of s ips ip] assms(2) by (simp_all add: dict_get_def)
  then have total: "sum_by fst snd ip (ht_pending ?s) = int (count_list ips ip)" by (simp add: sum_by_counts)
  show ?thesis
  proof (cases "we_commits E")
    case True
    then obtain t' where "record_hosts E (ht_pending ?s) t = Some t'"
      "sum_by hst_ip hst_query_count ip t' = sum_by hst_ip hst_query_count ip t + sum_by fst snd ip (ht_pending ?s)"
      using hst.save_kept [OF assms(1) pend(2), of E ip] by (auto simp: record_hosts_def)
    with True total show ?thesis by (auto simp: ht_flush_def ht_take_def deliver_def Let_def)
  next
    case False
    then show ?thesis
      by (simp add: ht_flush_def ht_take_def deliver_def record_hosts_def write_rows_def transaction_def Let_def)
  qed
qed

theorem host_counts_exact_witness:
  "sum_by hst_ip hst_query_count ''10.0.0.2'' (snd (ht_flush (record_hosts \<lparr>we_clock = (\<lambda>i. 0), we_now = 0, we_commits = True\<rparr>) None
     (fold ht_record [''10.0.0.2'', ''10.0.0.3'', ''10.0.0.2''] (HostTracker_init 5 10), []))) = 2"
  by (subst host_counts_exact) (simp_all add: HostTracker_init_def)

end
