(* ===== verification/UrlText.thy ===== *)
theory UrlText
  imports IpAddr
begin

text \<open>
  \<open>urllib.parse.urlparse\<close>, as far as the source looks at it: the scheme and the network location of a URL.
  \<open>None\<close> is the \<open>ValueError\<close> for malformed brackets. (The check of the location under NFKC normalisation
  concerns code points beyond those of the model.)
\<close>

definition c0_or_space :: "char \<Rightarrow> bool" where
  "c0_or_space c \<longleftrightarrow> code c \<le> 32"

definition scheme_char :: "char \<Rightarrow> bool" where
  "scheme_char c \<longleftrightarrow> (let n = code c in 97 \<le> n \<and> n \<le> 122 \<or> 65 \<le> n \<and> n \<le> 90 \<or> 48 \<le> n \<and> n \<le> 57 \<or> n = 43 \<or> n = 45 \<or> n = 46)"

definition ascii_alpha :: "char \<Rightarrow> bool" where
  "ascii_alpha c \<longleftrightarrow> (let n = code c in 97 \<le> n \<and> n \<le> 122 \<or> 65 \<le> n \<and> n \<le> 90)"

definition clean_url :: "string \<Rightarrow> string" where
  "clean_url url = filter (\<lambda>c. code c \<noteq> 9 \<and> code c \<noteq> 13 \<and> code c \<noteq> 10) (dropWhile c0_or_space url)"

definition split_scheme :: "string \<Rightarrow> string \<times> string" where
  "split_scheme url =
     (case py_find (CHR '':'') url of
        None \<Rightarrow> ([], url)
      | Some i \<Rightarrow>
          if 0 < i \<and> ascii_alpha (hd url) \<and> list_all scheme_char (take i url)
          then (py_lower (take i url), drop (Suc i) url) else ([], url))"

definition ipv_future :: "string \<Rightarrow> bool" where
  "ipv_future host \<longleftrightarrow>
     (let digits = takeWhile is_hex_digit (tl host); rest = dropWhile is_hex_digit (tl host) in
      digits \<noteq> [] \<and> 2 \<le> length rest \<and> hd rest = CHR ''.'')"

definition bracketed_host_ok :: "string \<Rightarrow> bool" where
  "bracketed_host_ok host \<longleftrightarrow>
     (if starts_with ''v'' host then ipv_future host
      else (case ip_address host of Some (IPv6 a scope) \<Rightarrow> True | _ \<Rightarrow> False))"

text \<open>\<open>s.partition(c)\<close>: what is before and after the first separator.\<close>

definition py_after :: "char \<Rightarrow> string \<Rightarrow> string" where
  "py_after c s = (case py_find c s of None \<Rightarrow> [] | Some i \<Rightarrow> drop (Suc i) s)"

definition bracketed_netloc_ok :: "string \<Rightarrow> bool" where
  "bracketed_netloc_ok netloc \<longleftrightarrow>
     (let hostport = last (py_split (CHR ''@'') netloc) in
      if CHR ''['' \<in> set hostport then
        (let bracketed = py_after (CHR ''['') hostport; port = py_after (CHR '']'') bracketed in
         py_before (CHR ''['') hostport = [] \<and> (port = [] \<or> hd port = CHR '':'') \<and> bracketed_host_ok (py_before (CHR '']'') bracketed))
      else bracketed_host_ok (py_before (CHR '':'') hostport))"

definition netloc_of :: "string \<Rightarrow> string" where
  "netloc_of rest =
     (if starts_with ''//'' rest
      then takeWhile (\<lambda>c. c \<noteq> CHR ''/'' \<and> c \<noteq> CHR ''?'' \<and> c \<noteq> CHR ''#'') (drop 2 rest) else [])"

definition url_parts :: "string \<Rightarrow> (string \<times> string) option" where
  "url_parts url =
     (case split_scheme (clean_url url) of (scheme, rest) \<Rightarrow>
        let netloc = netloc_of rest; l = CHR ''['' \<in> set netloc; r = CHR '']'' \<in> set netloc in
        if l \<noteq> r then None
        else if l \<and> r \<and> \<not> bracketed_netloc_ok netloc then None
        else Some (scheme, netloc))"

lemma url_parts_examples:
  "url_parts ''https://example.com/x'' = Some (''https'', ''example.com'')"
  "url_parts ''HTTP:example.com'' = Some (''http'', [])"
  "url_parts ''ftp://[x'' = None"
  by code_simp+

end
