(* ===== verification/BlocklistStore.thy ===== *)
theory BlocklistStore
  imports Tables Blocklist SearchText "HOL-Library.Char_ord" "HOL-Library.List_Lexorder" "HOL-Library.Product_Lexorder"
begin

text \<open>
  The blocklists as stored: \<open>repository/blocklists.py\<close> over the table \<open>blocklists\<close> of the configuration database
  and the table \<open>blocklist_domains\<close> of the blocklist database. Where the source iterates over a
  set, the order is the parameter \<open>listing\<close>, of which the lemmas use \<open>listing_ok\<close> only. The lemmas
  show that a download keeps the dates of the names that stay, and that the API annotates names
  exactly as the resolver blocks them.
\<close>

section \<open>Rows\<close>

record BlocklistRow =
  bl_id :: int
  bl_name :: string
  bl_url :: string
  bl_update_interval_hours :: int
  bl_enabled :: bool
  bl_domain_count :: int
  bl_last_downloaded_at :: "datetime option"
  bl_last_status :: "string option"
  bl_format :: "string option"
  bl_created_at :: datetime
  bl_updated_at :: datetime

record BlocklistDomain =
  bd_id :: int
  bd_blocklist_id :: int
  bd_domain :: string
  bd_first_seen :: datetime

definition blocklist_dict :: "BlocklistRow \<Rightarrow> json_dict" where
  "blocklist_dict blocklist =
     [(''id'', JInt (bl_id blocklist)), (''name'', JStr (bl_name blocklist)), (''url'', JStr (bl_url blocklist)),
      (''update_interval_hours'', JInt (bl_update_interval_hours blocklist)), (''enabled'', JBool (bl_enabled blocklist)),
      (''domain_count'', JInt (bl_domain_count blocklist)),
      (''last_downloaded_at'', json_opt JTime (bl_last_downloaded_at blocklist)),
      (''last_status'', json_opt JStr (bl_last_status blocklist)), (''format'', json_opt JStr (bl_format blocklist)),
      (''created_at'', JTime (bl_created_at blocklist)), (''updated_at'', JTime (bl_updated_at blocklist))]"

section \<open>The configuration\<close>

definition list_blocklists :: "int option \<Rightarrow> int \<Rightarrow> BlocklistRow list \<Rightarrow> json_dict list" where
  "list_blocklists limit offset t = map blocklist_dict (sql_page limit offset (order_by bl_id t))"

definition count_blocklists :: "BlocklistRow list \<Rightarrow> nat" where
  "count_blocklists t = length t"

definition get_blocklist :: "int \<Rightarrow> BlocklistRow list \<Rightarrow> json_dict option" where
  "get_blocklist blocklist_id t = map_option blocklist_dict (get_row bl_id blocklist_id t)"

record BlocklistData =
  bld_name :: string
  bld_url :: string
  bld_update_interval_hours :: int
  bld_enabled :: bool

definition new_blocklist :: "datetime \<Rightarrow> BlocklistData \<Rightarrow> BlocklistRow list \<Rightarrow> BlocklistRow" where
  "new_blocklist now data t =
     \<lparr>bl_id = next_id (map bl_id t), bl_name = bld_name data, bl_url = bld_url data,
      bl_update_interval_hours = bld_update_interval_hours data, bl_enabled = bld_enabled data, bl_domain_count = 0,
      bl_last_downloaded_at = None, bl_last_status = None, bl_format = None, bl_created_at = now, bl_updated_at = now\<rparr>"

definition create_blocklist :: "datetime \<Rightarrow> BlocklistData \<Rightarrow> BlocklistRow list \<Rightarrow> repo_error + json_dict \<times> BlocklistRow list" where
  "create_blocklist now data t =
     (let row = new_blocklist now data t in
      if list_ex (\<lambda>r. bl_name r = bl_name row) t then Inl IntegrityError else Inr (blocklist_dict row, t @ [row]))"

record BlocklistPatch =
  bp_name :: "string patch"
  bp_url :: "string patch"
  bp_update_interval_hours :: "int patch"
  bp_enabled :: "bool patch"

definition patch_blocklist :: "BlocklistPatch \<Rightarrow> BlocklistRow \<Rightarrow> BlocklistRow option" where
  "patch_blocklist data blocklist =
     Option.bind (patch_req (bp_name data) (bl_name blocklist)) (\<lambda>name.
     Option.bind (patch_req (bp_url data) (bl_url blocklist)) (\<lambda>url.
     Option.bind (patch_req (bp_update_interval_hours data) (bl_update_interval_hours blocklist)) (\<lambda>hours.
     Option.bind (patch_req (bp_enabled data) (bl_enabled blocklist)) (\<lambda>enabled.
       Some (blocklist\<lparr>bl_name := name, bl_url := url, bl_update_interval_hours := hours, bl_enabled := enabled\<rparr>)))))"

definition touch_blocklist :: "datetime \<Rightarrow> BlocklistRow \<Rightarrow> BlocklistRow \<Rightarrow> BlocklistRow" where
  "touch_blocklist now old new = (if new = old then old else new\<lparr>bl_updated_at := now\<rparr>)"

definition update_blocklist :: "datetime \<Rightarrow> int \<Rightarrow> BlocklistPatch \<Rightarrow> BlocklistRow list
    \<Rightarrow> repo_error + json_dict option \<times> BlocklistRow list" where
  "update_blocklist now blocklist_id data t =
     (case get_row bl_id blocklist_id t of
        None \<Rightarrow> Inr (None, t)
      | Some blocklist \<Rightarrow>
          (case patch_blocklist data blocklist of
             None \<Rightarrow> Inl IntegrityError
           | Some new \<Rightarrow>
               if list_ex (\<lambda>r. bl_id r \<noteq> bl_id new \<and> bl_name r = bl_name new) t then Inl IntegrityError
               else let row = touch_blocklist now blocklist new in
                 Inr (Some (blocklist_dict row), replace_row bl_id row t)))"

definition delete_domains :: "int \<Rightarrow> BlocklistDomain list \<Rightarrow> BlocklistDomain list" where
  "delete_domains blocklist_id d = delete_where (\<lambda>r. bd_blocklist_id r = blocklist_id) d"

definition delete_blocklist :: "int \<Rightarrow> BlocklistRow list \<Rightarrow> BlocklistDomain list \<Rightarrow> bool \<times> BlocklistRow list \<times> BlocklistDomain list" where
  "delete_blocklist blocklist_id t d =
     (case delete_row bl_id blocklist_id t of (found, t') \<Rightarrow>
        if found then (True, t', delete_domains blocklist_id d) else (False, t, d))"

text \<open>The outcome of a download: \<open>now\<close> is the clock of the worker, \<open>stamp\<close> that of the update statement.\<close>

definition record_success :: "datetime \<Rightarrow> datetime \<Rightarrow> int \<Rightarrow> int \<Rightarrow> string \<Rightarrow> BlocklistRow list \<Rightarrow> BlocklistRow list" where
  "record_success now stamp blocklist_id domain_count source_format t =
     (case get_row bl_id blocklist_id t of
        None \<Rightarrow> t
      | Some blocklist \<Rightarrow>
          replace_row bl_id (touch_blocklist stamp blocklist (blocklist\<lparr>bl_domain_count := domain_count,
            bl_format := Some source_format, bl_last_status := Some (''ok: '' @ int_str domain_count @ '' domains''),
            bl_last_downloaded_at := Some now\<rparr>)) t)"

definition record_failure :: "datetime \<Rightarrow> datetime \<Rightarrow> int \<Rightarrow> string \<Rightarrow> BlocklistRow list \<Rightarrow> BlocklistRow list" where
  "record_failure now stamp blocklist_id message t =
     (case get_row bl_id blocklist_id t of
        None \<Rightarrow> t
      | Some blocklist \<Rightarrow>
          replace_row bl_id (touch_blocklist stamp blocklist (blocklist\<lparr>
            bl_last_status := Some (take 255 (''error: '' @ message)), bl_last_downloaded_at := Some now\<rparr>)) t)"

definition total_enabled_domain_count :: "BlocklistRow list \<Rightarrow> int" where
  "total_enabled_domain_count t = sum_list (map bl_domain_count (filter bl_enabled t))"

definition ensure_default_blocklist :: "datetime \<Rightarrow> BlocklistRow list \<Rightarrow> BlocklistRow list" where
  "ensure_default_blocklist now t =
     (if t \<noteq> [] then t
      else t @ [new_blocklist now \<lparr>bld_name = ''HaGeZi Multi PRO'',
          bld_url = ''https://raw.githubusercontent.com/hagezi/dns-blocklists/main/adblock/pro.txt'',
          bld_update_interval_hours = 24, bld_enabled = False\<rparr> t])"

section \<open>The domains\<close>

definition MATCH_CHUNK :: nat where
  "MATCH_CHUNK = 500"

definition insert_domain :: "int \<Rightarrow> datetime \<Rightarrow> string \<Rightarrow> BlocklistDomain list \<Rightarrow> BlocklistDomain list" where
  "insert_domain blocklist_id now domain d =
     d @ [\<lparr>bd_id = next_id (map bd_id d), bd_blocklist_id = blocklist_id, bd_domain = domain, bd_first_seen = now\<rparr>]"

definition replace_domains :: "(string set \<Rightarrow> string list) \<Rightarrow> datetime \<Rightarrow> int \<Rightarrow> string list \<Rightarrow> BlocklistDomain list \<Rightarrow> BlocklistDomain list" where
  "replace_domains listing now blocklist_id domains d =
     (let desired = set domains;
          existing = bd_domain ` set (filter (\<lambda>r. bd_blocklist_id r = blocklist_id) d);
          removed = listing (existing - desired);
          added = listing (desired - existing);
          d = fold (\<lambda>chunk. delete_where (\<lambda>r. bd_blocklist_id r = blocklist_id \<and> bd_domain r \<in> set chunk)) (chunks MATCH_CHUNK removed) d
      in if added = [] then d else fold (insert_domain blocklist_id now) added d)"

definition list_domains :: "int \<Rightarrow> int option \<Rightarrow> int \<Rightarrow> BlocklistDomain list \<Rightarrow> string list" where
  "list_domains blocklist_id limit offset d =
     sql_page limit offset (sort (map bd_domain (filter (\<lambda>r. bd_blocklist_id r = blocklist_id) d)))"

definition count_domains :: "int \<Rightarrow> BlocklistDomain list \<Rightarrow> nat" where
  "count_domains blocklist_id d = length (filter (\<lambda>r. bd_blocklist_id r = blocklist_id) d)"

definition blocklist_names :: "int set \<Rightarrow> BlocklistRow list \<Rightarrow> (int, string) dict" where
  "blocklist_names ids t = (if ids = {} then [] else map (\<lambda>r. (bl_id r, bl_name r)) (filter (\<lambda>r. bl_id r \<in> ids) t))"

definition of_list :: "int option \<Rightarrow> BlocklistDomain \<Rightarrow> bool" where
  "of_list blocklist_id r = (case blocklist_id of None \<Rightarrow> True | Some i \<Rightarrow> bd_blocklist_id r = i)"

definition list_new_domains :: "int option \<Rightarrow> int \<Rightarrow> int option \<Rightarrow> BlocklistRow list \<Rightarrow> BlocklistDomain list \<Rightarrow> json_dict list" where
  "list_new_domains limit offset blocklist_id t d =
     (let rows = sql_page limit offset (order_by_desc bd_first_seen (order_by_desc bd_id (filter (of_list blocklist_id) d)));
          names = blocklist_names (bd_blocklist_id ` set rows) t
      in map (\<lambda>r. [(''domain'', JStr (bd_domain r)), (''blocklist_id'', JInt (bd_blocklist_id r)),
           (''blocklist_name'', json_opt JStr (map_of names (bd_blocklist_id r))), (''first_seen'', JTime (bd_first_seen r))]) rows)"

definition count_new_domains :: "int option \<Rightarrow> BlocklistDomain list \<Rightarrow> nat" where
  "count_new_domains blocklist_id d = length (filter (of_list blocklist_id) d)"

definition search_domains :: "string \<Rightarrow> int option \<Rightarrow> int \<Rightarrow> BlocklistRow list \<Rightarrow> BlocklistDomain list \<Rightarrow> json_dict list" where
  "search_domains search limit offset t d =
     (let rows = sql_page limit offset (order_by bd_domain (order_by bd_blocklist_id
            (filter (\<lambda>r. ilike (bd_domain r) (search_term search)) d)));
          names = blocklist_names (bd_blocklist_id ` set rows) t
      in map (\<lambda>r. [(''domain'', JStr (bd_domain r)), (''blocklist_id'', JInt (bd_blocklist_id r)),
           (''blocklist_name'', json_opt JStr (map_of names (bd_blocklist_id r)))]) rows)"

definition count_domain_matches :: "string \<Rightarrow> BlocklistDomain list \<Rightarrow> nat" where
  "count_domain_matches search d = length (filter (\<lambda>r. ilike (bd_domain r) (search_term search)) d)"

section \<open>What is blocked\<close>

definition enabled_ids :: "BlocklistRow list \<Rightarrow> int set" where
  "enabled_ids t = bl_id ` set (filter bl_enabled t)"

definition load_blocklist_domains :: "BlocklistRow list \<Rightarrow> BlocklistDomain list \<Rightarrow> string set" where
  "load_blocklist_domains t d =
     (if enabled_ids t = {} then {} else bd_domain ` set (filter (\<lambda>r. bd_blocklist_id r \<in> enabled_ids t) d))"

definition find_blocked_domains :: "(string set \<Rightarrow> string list) \<Rightarrow> string list \<Rightarrow> BlocklistRow list \<Rightarrow> BlocklistDomain list \<Rightarrow> string set" where
  "find_blocked_domains listing candidates t d =
     (let unique = set (filter (\<lambda>c. c \<noteq> []) candidates) in
      if unique = {} then {}
      else if enabled_ids t = {} then {}
      else fold (\<lambda>chunk matched. matched \<union> bd_domain ` set (filter (\<lambda>r. bd_blocklist_id r \<in> enabled_ids t \<and> bd_domain r \<in> set chunk) d))
        (chunks MATCH_CHUNK (listing unique)) {})"

definition text_at :: "json_dict \<Rightarrow> string \<Rightarrow> string option" where
  "text_at row key = (case map_of row key of Some (JStr s) \<Rightarrow> Some s | _ \<Rightarrow> None)"

text \<open>A row without a text under the key raises.\<close>

definition annotate_blocked :: "(string set \<Rightarrow> string list) \<Rightarrow> json_dict list \<Rightarrow> string \<Rightarrow> BlocklistRow list \<Rightarrow> BlocklistDomain list
    \<Rightarrow> json_dict list option" where
  "annotate_blocked listing rows key t d =
     (if list_ex (\<lambda>row. text_at row key = None) rows then None
      else (let name = (\<lambda>row. the (text_at row key));
                matched = find_blocked_domains listing (concat (map (\<lambda>row. domain_suffixes (name row)) rows)) t d
            in Some (map (\<lambda>row. dict_set ''blocked'' (JBool (is_blocked matched (name row))) row) rows)))"

text \<open>
  The sources of a block: the suffixes of the candidates, each with the candidates that have it, the rows
  that match, and for each candidate the matches without repetition. The inner sets of the source are lists
  in order of insertion.
\<close>

definition add_candidate :: "string \<Rightarrow> string \<Rightarrow> (string, string list) dict \<Rightarrow> (string, string list) dict" where
  "add_candidate candidate suffix m =
     (let old = dict_get m suffix [] in dict_set suffix (if candidate \<in> set old then old else old @ [candidate]) m)"

definition suffix_candidates :: "string list \<Rightarrow> (string, string list) dict" where
  "suffix_candidates candidates = fold (\<lambda>candidate. fold (add_candidate candidate) (domain_suffixes candidate)) candidates []"

definition add_source :: "int \<times> string \<Rightarrow> string \<Rightarrow> (string, (int \<times> string) list) dict \<Rightarrow> (string, (int \<times> string) list) dict" where
  "add_source key candidate sources =
     (let old = dict_get sources candidate [] in
      if key \<in> set old then sources else dict_set candidate (old @ [key]) sources)"

definition source_dict :: "(int, string) dict \<Rightarrow> int \<times> string \<Rightarrow> json_dict" where
  "source_dict names key =
     [(''blocklist_id'', JInt (fst key)), (''blocklist_name'', json_opt JStr (map_of names (fst key))),
      (''matched_domain'', JStr (snd key))]"

definition domain_matches :: "string list \<Rightarrow> BlocklistRow list \<Rightarrow> BlocklistDomain list \<Rightarrow> (int \<times> string) list" where
  "domain_matches suffixes t d =
     concat (map (\<lambda>chunk. map (\<lambda>r. (bd_blocklist_id r, bd_domain r))
       (filter (\<lambda>r. bd_blocklist_id r \<in> enabled_ids t \<and> bd_domain r \<in> set chunk) d)) (chunks MATCH_CHUNK suffixes))"

definition find_domain_sources :: "string list \<Rightarrow> BlocklistRow list \<Rightarrow> BlocklistDomain list \<Rightarrow> (string, json_dict list) dict" where
  "find_domain_sources candidates t d =
     (let suffixes = suffix_candidates candidates in
      if suffixes = [] \<or> enabled_ids t = {} then []
      else (let matches = domain_matches (dict_keys suffixes) t d;
                names = blocklist_names (fst ` set matches) t;
                sources = fold (\<lambda>key. fold (add_source key) (dict_get suffixes (snd key) [])) matches []
            in map (\<lambda>(candidate, keys). (candidate, map (source_dict names) keys)) sources))"

section \<open>Lemmas\<close>

definition listing_ok :: "(string set \<Rightarrow> string list) \<Rightarrow> bool" where
  "listing_ok listing \<longleftrightarrow> (\<forall>S. finite S \<longrightarrow> set (listing S) = S \<and> distinct (listing S))"

lemma listing_sorted: "listing_ok sorted_list_of_set"
  by (simp add: listing_ok_def)

definition bd_key :: "BlocklistDomain \<Rightarrow> int \<times> string" where
  "bd_key r = (bd_blocklist_id r, bd_domain r)"

definition domains_ok :: "BlocklistDomain list \<Rightarrow> bool" where
  "domains_ok d \<longleftrightarrow> sorted_wrt (<) (map bd_id d) \<and> distinct (map bd_key d)"

definition listed_since :: "BlocklistDomain list \<Rightarrow> int \<times> string \<Rightarrow> datetime option" where
  "listed_since d k = map_option bd_first_seen (List.find (\<lambda>r. bd_key r = k) d)"

lemma find_filter_key: "List.find (\<lambda>r. key r = k) (filter (\<lambda>r. P (key r)) t) = (if P k then List.find (\<lambda>r. key r = k) t else None)"
  by (induction t) auto

lemma fold_delete_where:
  "fold (\<lambda>c. delete_where (P c)) cs d = filter (\<lambda>r. \<forall>c \<in> set cs. \<not> P c r) d"
  by (induction cs arbitrary: d) (auto simp: delete_where_def conj_commute intro!: filter_cong)

lemma insert_domain_since:
  "bd_key ` set d \<inter> {(b, x)} = {} \<Longrightarrow> listed_since (insert_domain b now x d) k = (if k = (b, x) then Some now else listed_since d k)"
proof -
  assume "bd_key ` set d \<inter> {(b, x)} = {}"
  then have "List.find (\<lambda>r. bd_key r = (b, x)) d = None" by (simp add: find_None_iff) (metis imageI)
  moreover have "List.find P (d @ [r]) = (case List.find P d of None \<Rightarrow> if P r then Some r else None | Some y \<Rightarrow> Some y)"
    for P and r :: BlocklistDomain by (induction d) simp_all
  ultimately show ?thesis by (auto simp: listed_since_def insert_domain_def bd_key_def split: option.split)
qed

lemma insert_domain_ok:
  "domains_ok d \<Longrightarrow> (b, x) \<notin> bd_key ` set d \<Longrightarrow> domains_ok (insert_domain b now x d)"
  using next_id_gt [of _ "map bd_id d"] by (auto simp: domains_ok_def insert_domain_def sorted_wrt_append bd_key_def)

lemma insert_domains:
  assumes "distinct xs" "\<forall>x \<in> set xs. (b, x) \<notin> bd_key ` set d" "domains_ok d"
  shows "domains_ok (fold (insert_domain b now) xs d) \<and>
    listed_since (fold (insert_domain b now) xs d) k = (if fst k = b \<and> snd k \<in> set xs then Some now else listed_since d k)"
  using assms
proof (induction xs arbitrary: d)
  case (Cons x xs)
  have key: "bd_key ` set (insert_domain b now x d) = insert (b, x) (bd_key ` set d)"
    by (simp add: insert_domain_def bd_key_def)
  have "domains_ok (insert_domain b now x d)" using Cons.prems by (intro insert_domain_ok) auto
  moreover have "\<forall>y \<in> set xs. (b, y) \<notin> bd_key ` set (insert_domain b now x d)" using Cons.prems(1,2) key by auto
  ultimately have "domains_ok (fold (insert_domain b now) xs (insert_domain b now x d)) \<and>
    listed_since (fold (insert_domain b now) xs (insert_domain b now x d)) k
      = (if fst k = b \<and> snd k \<in> set xs then Some now else listed_since (insert_domain b now x d) k)"
    using Cons.IH [of "insert_domain b now x d"] Cons.prems(1) by simp
  moreover have "listed_since (insert_domain b now x d) k = (if k = (b, x) then Some now else listed_since d k)"
    using Cons.prems(2) by (intro insert_domain_since) auto
  ultimately show ?case by (cases k) auto
qed simp

lemma set_listing: "listing_ok listing \<Longrightarrow> finite S \<Longrightarrow> set (listing S) = S" "listing_ok listing \<Longrightarrow> finite S \<Longrightarrow> distinct (listing S)"
  by (simp_all add: listing_ok_def)

lemma listed_since_None: "listed_since d k = None \<longleftrightarrow> k \<notin> bd_key ` set d"
  by (auto simp: listed_since_def find_None_iff)

lemma set_chunks: "0 < n \<Longrightarrow> (\<Union>c \<in> set (chunks n xs). set c) = set xs"
  using concat_chunks [of n xs] by (metis set_concat)

lemma find_blocked_fold:
  "fold (\<lambda>chunk matched. matched \<union> bd_domain ` {r \<in> set d. P r \<and> bd_domain r \<in> set chunk}) cs M
     = M \<union> bd_domain ` {r \<in> set d. P r \<and> bd_domain r \<in> (\<Union>c \<in> set cs. set c)}"
  by (induction cs arbitrary: M) auto

lemma find_blocked_domains_set:
  assumes "listing_ok listing"
  shows "find_blocked_domains listing cs t d = load_blocklist_domains t d \<inter> {c \<in> set cs. c \<noteq> []}"
proof -
  let ?u = "{c \<in> set cs. c \<noteq> []}"
  have "set (listing ?u) = ?u" using assms by (simp add: set_listing)
  moreover have "0 < MATCH_CHUNK" by (simp add: MATCH_CHUNK_def)
  ultimately have "(\<Union>c \<in> set (chunks MATCH_CHUNK (listing ?u)). set c) = ?u" by (simp add: set_chunks)
  then show ?thesis
    by (auto simp: find_blocked_domains_def load_blocklist_domains_def find_blocked_fold Let_def simp del: UN_iff)
qed

lemma domain_suffix_ne: "s \<in> set (domain_suffixes q) \<Longrightarrow> s \<noteq> []"
proof
  let ?n = "normalize_domain q"
  assume "s \<in> set (domain_suffixes q)" "s = []"
  then obtain labels where n: "?n \<noteq> []" "py_split dot ?n = labels @ [[]]"
    by (auto simp: domain_suffixes_set split: if_splits)
  then have "?n = py_join [dot] (labels @ [[]])" by (metis py_join_split)
  with n(1) have "last ?n = dot" by (cases "labels = []") (simp_all add: py_join_append)
  with normalize_last [OF n(1)] show False ..
qed

text \<open>The three folds of \<open>find_domain_sources\<close>.\<close>

lemma set_add_candidates:
  "set (dict_get (fold (add_candidate c) ss m) s []) = set (dict_get m s []) \<union> (if s \<in> set ss then {c} else {})"
  by (induction ss arbitrary: m) (auto simp: add_candidate_def Let_def)

lemma set_suffix_candidates:
  "set (dict_get (suffix_candidates cs) s []) = {c \<in> set cs. s \<in> set (domain_suffixes c)}"
proof -
  have "set (dict_get (fold (\<lambda>c. fold (add_candidate c) (domain_suffixes c)) cs m) s [])
      = set (dict_get m s []) \<union> {c \<in> set cs. s \<in> set (domain_suffixes c)}" for m
    by (induction cs arbitrary: m) (auto simp: set_add_candidates)
  then show ?thesis by (simp add: suffix_candidates_def dict_get_def)
qed

lemma dict_get_key: "dict_get m s [] \<noteq> [] \<Longrightarrow> s \<in> set (dict_keys m)"
  using map_of_None_keys [of m s] by (auto simp: dict_get_def split: option.splits)

lemma add_sources_distinct:
  "distinct (dict_get m c []) \<Longrightarrow> distinct (dict_get (fold (add_source k) cs m) c [])"
  "set (dict_get (fold (add_source k) cs m) c []) = set (dict_get m c []) \<union> (if c \<in> set cs then {k} else {})"
proof -
  have step: "distinct (dict_get m c []) \<Longrightarrow> distinct (dict_get (add_source k a m) c [])" for a m
    by (cases "a = c") (auto simp: add_source_def Let_def)
  show "distinct (dict_get m c []) \<Longrightarrow> distinct (dict_get (fold (add_source k) cs m) c [])"
    by (induction cs arbitrary: m) (auto intro: step)
qed (induction cs arbitrary: m, auto simp: add_source_def Let_def)

lemma sources_fold:
  "distinct (dict_get m c []) \<Longrightarrow>
     distinct (dict_get (fold (\<lambda>k. fold (add_source k) (f k)) ks m) c []) \<and>
     set (dict_get (fold (\<lambda>k. fold (add_source k) (f k)) ks m) c []) = set (dict_get m c []) \<union> {k \<in> set ks. c \<in> set (f k)}"
proof (induction ks arbitrary: m)
  case (Cons k ks)
  show ?case
    using Cons.IH [of "fold (add_source k) (f k) m"] add_sources_distinct(1) [of m c k "f k"] add_sources_distinct(2) [of k "f k" m c] Cons.prems by auto
qed simp

lemma set_domain_matches:
  "set (domain_matches suffixes t d) = {(i, s). i \<in> enabled_ids t \<and> s \<in> set suffixes \<and> (i, s) \<in> bd_key ` set d}"
proof -
  have "s \<in> set suffixes \<longleftrightarrow> (\<exists>c \<in> set (chunks MATCH_CHUNK suffixes). s \<in> set c)" for s
    using set_chunks [of MATCH_CHUNK suffixes] by (auto simp: MATCH_CHUNK_def)
  then show ?thesis by (force simp: domain_matches_def bd_key_def image_iff)
qed

lemma blocklist_names_get: "i \<in> ids \<Longrightarrow> map_of (blocklist_names ids t) i = map_option bl_name (get_row bl_id i t)"
proof -
  assume i: "i \<in> ids"
  then have "map_of (map (\<lambda>r. (bl_id r, bl_name r)) (filter (\<lambda>r. bl_id r \<in> ids) t)) i = map_option bl_name (List.find (\<lambda>r. bl_id r = i) t)"
    by (induction t) auto
  with i show ?thesis by (auto simp: blocklist_names_def get_row_def)
qed

lemma dict_get_map_values: "dict_get (map (\<lambda>(k, v). (k, map g v)) m) c [] = map g (dict_get m c [])"
  by (induction m) (auto simp: dict_get_def)

lemma load_blocklist_mem: "s \<in> load_blocklist_domains t d \<longleftrightarrow> (\<exists>i \<in> enabled_ids t. (i, s) \<in> bd_key ` set d)"
  by (force simp: load_blocklist_domains_def bd_key_def)

definition source_of :: "BlocklistRow list \<Rightarrow> int \<times> string \<Rightarrow> json_dict" where
  "source_of t key =
     [(''blocklist_id'', JInt (fst key)), (''blocklist_name'', json_opt JStr (map_option bl_name (get_row bl_id (fst key) t))),
      (''matched_domain'', JStr (snd key))]"

lemma replace_domains_since:
  assumes "listing_ok listing" "domains_ok d"
  shows "domains_ok (replace_domains listing now i names d)"
    "\<And>b x. listed_since (replace_domains listing now i names d) (b, x) =
      (if b \<noteq> i then listed_since d (b, x)
        else if x \<notin> set names then None
        else case listed_since d (i, x) of None \<Rightarrow> Some now | Some s \<Rightarrow> Some s)"
proof -
  let ?ex = "bd_domain ` set (filter (\<lambda>r. bd_blocklist_id r = i) d)"
  let ?gone = "listing (?ex - set names)" and ?new = "listing (set names - ?ex)"
  have gone: "set ?gone = ?ex - set names" and new: "set ?new = set names - ?ex" "distinct ?new"
    using assms(1) by (simp_all add: set_listing)
  let ?Q = "\<lambda>k. \<not> (fst k = i \<and> snd k \<in> set ?gone)"
  let ?d = "filter (\<lambda>r. ?Q (bd_key r)) d"
  have "(\<Union>c \<in> set (chunks MATCH_CHUNK ?gone). set c) = set ?gone" by (simp add: set_chunks MATCH_CHUNK_def)
  then have del: "fold (\<lambda>chunk. delete_where (\<lambda>r. bd_blocklist_id r = i \<and> bd_domain r \<in> set chunk)) (chunks MATCH_CHUNK ?gone) d = ?d"
    unfolding fold_delete_where by (intro filter_cong) (auto simp: bd_key_def)
  have ex: "x \<in> ?ex \<longleftrightarrow> (i, x) \<in> bd_key ` set d" for x by (auto simp: bd_key_def)
  have ok: "domains_ok ?d"
    using assms(2) by (auto simp: domains_ok_def sorted_wrt_map distinct_map_filter intro: sorted_wrt_filter)
  have fresh: "\<forall>x \<in> set ?new. (i, x) \<notin> bd_key ` set ?d" using new(1) by (auto simp: bd_key_def)
  have rep: "replace_domains listing now i names d = fold (insert_domain i now) ?new ?d"
    unfolding replace_domains_def Let_def del by (cases "?new = []") simp_all
  have since: "listed_since ?d k = (if ?Q k then listed_since d k else None)" for k
    using find_filter_key [of bd_key k ?Q d] by (simp only: listed_since_def) simp
  have mem: "x \<in> ?ex \<longleftrightarrow> listed_since d (i, x) \<noteq> None" for x unfolding ex listed_since_None by simp
  have g: "x \<in> set ?gone \<longleftrightarrow> listed_since d (i, x) \<noteq> None \<and> x \<notin> set names" for x unfolding gone Diff_iff mem ..
  have n: "x \<in> set ?new \<longleftrightarrow> x \<in> set names \<and> listed_since d (i, x) = None" for x unfolding new(1) Diff_iff mem by simp
  have result: "listed_since (fold (insert_domain i now) ?new ?d) (b, x) =
      (if b = i \<and> x \<in> set names \<and> listed_since d (i, x) = None then Some now
       else if b = i \<and> listed_since d (i, x) \<noteq> None \<and> x \<notin> set names then None else listed_since d (b, x))" for b x
  proof -
    have "listed_since (fold (insert_domain i now) ?new ?d) (b, x) =
        (if b = i \<and> x \<in> set ?new then Some now else if ?Q (b, x) then listed_since d (b, x) else None)"
      using conjunct2 [OF insert_domains [OF new(2) fresh ok, of now "(b, x)"]] unfolding since [of "(b, x)"] fst_conv snd_conv .
    also have "\<dots> = (if b = i \<and> x \<in> set names \<and> listed_since d (i, x) = None then Some now
       else if b = i \<and> listed_since d (i, x) \<noteq> None \<and> x \<notin> set names then None else listed_since d (b, x))"
      unfolding g n fst_conv snd_conv by auto
    finally show ?thesis .
  qed
  show "listed_since (replace_domains listing now i names d) (b, x) =
      (if b \<noteq> i then listed_since d (b, x)
        else if x \<notin> set names then None
        else case listed_since d (i, x) of None \<Rightarrow> Some now | Some s \<Rightarrow> Some s)"
    for b x
    unfolding rep result by (cases "b = i"; cases "listed_since d (i, x)") simp_all
  show "domains_ok (replace_domains listing now i names d)"
    using insert_domains [OF new(2) fresh ok, of now] unfolding rep by simp
qed

lemma find_domain_sources_keys:
  "\<exists>keys. dict_get (find_domain_sources candidates t d) c [] = map (source_of t) keys \<and> distinct keys
     \<and> set keys = {(i, s). c \<in> set candidates \<and> s \<in> set (domain_suffixes c) \<and> i \<in> enabled_ids t \<and> (i, s) \<in> bd_key ` set d}"
proof -
  let ?K = "{(i, s). c \<in> set candidates \<and> s \<in> set (domain_suffixes c) \<and> i \<in> enabled_ids t \<and> (i, s) \<in> bd_key ` set d}"
  let ?suff = "suffix_candidates candidates"
  show ?thesis
  proof (cases "?suff = [] \<or> enabled_ids t = {}")
    case True
    have "?K = {}"
    proof (cases "?suff = []")
      case True
      then have "{c \<in> set candidates. s \<in> set (domain_suffixes c)} = {}" for s
        using set_suffix_candidates [of candidates s] by (simp add: dict_get_def)
      then show ?thesis by blast
    qed (use True in simp)
    with True show ?thesis by (simp add: find_domain_sources_def dict_get_def)
  next
    case False
    let ?matches = "domain_matches (dict_keys ?suff) t d"
    let ?keys = "dict_get (fold (\<lambda>key. fold (add_source key) (dict_get ?suff (snd key) [])) ?matches []) c []"
    have nil: "dict_get [] c [] = []" by (simp add: dict_get_def)
    have keys: "distinct ?keys" "set ?keys = {k \<in> set ?matches. c \<in> set (dict_get ?suff (snd k) [])}"
      using sources_fold [of "[]" c "\<lambda>k. dict_get ?suff (snd k) []" ?matches] by (simp_all add: nil)
    have key: "s \<in> set (dict_keys ?suff)" if "c \<in> set candidates" "s \<in> set (domain_suffixes c)" for s
      by (rule dict_get_key) (use that set_suffix_candidates [of candidates s] in auto)
    have "(i, s) \<in> set ?keys \<longleftrightarrow> (i, s) \<in> ?K" for i s
      unfolding keys(2) set_domain_matches mem_Collect_eq prod.case snd_conv set_suffix_candidates using key [of s] by blast
    then have "set ?keys = ?K" by (simp only: set_eq_iff split_paired_All) simp
    moreover have "source_dict (blocklist_names (fst ` set ?matches) t) k = source_of t k" if "k \<in> set ?keys" for k
      using that by (auto simp: keys(2) source_dict_def source_of_def blocklist_names_get)
    then have "map (source_dict (blocklist_names (fst ` set ?matches) t)) ?keys = map (source_of t) ?keys" by simp
    then have "dict_get (find_domain_sources candidates t d) c [] = map (source_of t) ?keys"
      using False by (simp add: find_domain_sources_def Let_def dict_get_map_values)
    ultimately show ?thesis using keys(1) by blast
  qed
qed

lemma source_keys_blocked:
  "{(i, s). c \<in> set candidates \<and> s \<in> set (domain_suffixes c) \<and> i \<in> enabled_ids t \<and> (i, s) \<in> bd_key ` set d} \<noteq> {}
    \<longleftrightarrow> c \<in> set candidates \<and> is_blocked (load_blocklist_domains t d) c"
  unfolding is_blocked_def list_ex_iff load_blocklist_mem by blast

text \<open>The result has exactly the blocked candidates as keys.\<close>

lemma add_source_ne: "\<forall>p \<in> set m. snd p \<noteq> [] \<Longrightarrow> \<forall>p \<in> set (add_source key c m). snd p \<noteq> []"
  by (auto simp: add_source_def Let_def dest!: set_dict_set)

lemma find_domain_sources_mem:
  "map_of (find_domain_sources candidates t d) c \<noteq> None \<longleftrightarrow> c \<in> set candidates \<and> is_blocked (load_blocklist_domains t d) c"
proof -
  have "\<forall>p \<in> set (fold (\<lambda>key. fold (add_source key) (f key)) ks []). snd p \<noteq> []" for f and ks :: "(int \<times> string) list"
    by (rule fold_invariant_set) (simp, rule fold_invariant_set, simp, rule add_source_ne, simp)
  from this [of "\<lambda>key. dict_get (suffix_candidates candidates) (snd key) []" "domain_matches (dict_keys (suffix_candidates candidates)) t d"]
  have "\<forall>p \<in> set (find_domain_sources candidates t d). snd p \<noteq> []"
    by (auto simp: find_domain_sources_def Let_def dest!: bspec)
  then have "map_of (find_domain_sources candidates t d) c \<noteq> None \<longleftrightarrow> dict_get (find_domain_sources candidates t d) c [] \<noteq> []"
    by (auto simp: dict_get_def split: option.split dest!: map_of_SomeD bspec)
  with find_domain_sources_keys [of candidates t d c] source_keys_blocked [of c candidates t d] show ?thesis
    by (metis map_is_Nil_conv set_empty)
qed

section \<open>Properties\<close>

text \<open>C21: After a download the list holds exactly the downloaded names: the ones it had keep their date, the new ones
  carry the time of the download, whatever the number of chunks and the order of the sets, and no other list changes.\<close>

theorem replace_domains_exact:
  assumes "listing_ok listing" "domains_ok d"
  shows "domains_ok (replace_domains listing now i names d) \<and>
    listed_since (replace_domains listing now i names d) =
      (\<lambda>(b, x). if b \<noteq> i then listed_since d (b, x)
        else if x \<notin> set names then None
        else case listed_since d (i, x) of None \<Rightarrow> Some now | Some s \<Rightarrow> Some s)"
  using replace_domains_since [OF assms, of now i names] by auto

theorem replace_domains_exact_witness:
  "\<exists>d. domains_ok d \<and> listed_since d (1, ''a.b'') = Some 5 \<and> listed_since d (1, ''new.b'') = Some 9 \<and> listed_since d (1, ''x.y'') = None
    \<and> listed_since d (2, ''x.y'') = Some 5"
proof -
  let ?d = "[\<lparr>bd_id = 1, bd_blocklist_id = 1, bd_domain = ''a.b'', bd_first_seen = 5\<rparr>,
    \<lparr>bd_id = 2, bd_blocklist_id = 1, bd_domain = ''x.y'', bd_first_seen = 5\<rparr>,
    \<lparr>bd_id = 3, bd_blocklist_id = 2, bd_domain = ''x.y'', bd_first_seen = 5\<rparr>]"
  have "domains_ok ?d" by (simp add: domains_ok_def bd_key_def)
  from replace_domains_exact [OF listing_sorted this, of 9 1 "[''a.b'', ''new.b'']"] show ?thesis
    by (intro exI [of _ "replace_domains sorted_list_of_set 9 1 [''a.b'', ''new.b''] ?d"])
      (simp add: listed_since_def bd_key_def)
qed

text \<open>The flag the API adds to a row says what the resolver would do with the name on the loaded domains: the
  lookup of the suffixes of a page and the resolver's match on the whole set agree.\<close>

theorem annotate_blocked_agrees:
  assumes "listing_ok listing"
  shows "annotate_blocked listing rows key t d =
    (if \<exists>row \<in> set rows. text_at row key = None then None
     else Some (map (\<lambda>row. dict_set ''blocked'' (JBool (is_blocked (load_blocklist_domains t d) (the (text_at row key)))) row) rows))"
proof (cases "\<exists>row \<in> set rows. text_at row key = None")
  case False
  let ?names = "concat (map (\<lambda>row. domain_suffixes (the (text_at row key))) rows)"
  have ne: "s \<noteq> []" if "s \<in> set (domain_suffixes q)" "s \<in> load_blocklist_domains t d" for s q
    using domain_suffix_ne that by blast
  have "is_blocked (find_blocked_domains listing ?names t d) (the (text_at row key))
      = is_blocked (load_blocklist_domains t d) (the (text_at row key))" if "row \<in> set rows" for row
    using that ne by (auto simp: is_blocked_def list_ex_iff find_blocked_domains_set [OF assms])
  with False show ?thesis by (auto simp: annotate_blocked_def list_ex_iff Let_def)
qed (auto simp: annotate_blocked_def list_ex_iff)

theorem annotate_blocked_agrees_witness:
  "let list = \<lparr>bl_id = 1, bl_name = ''l'', bl_url = [], bl_update_interval_hours = 24, bl_enabled = True, bl_domain_count = 1,
         bl_last_downloaded_at = None, bl_last_status = None, bl_format = None, bl_created_at = 0, bl_updated_at = 0\<rparr>
   in annotate_blocked sorted_list_of_set [[(''domain'', JStr ''x.a.b'')], [(''domain'', JStr ''b'')]] ''domain'' [list]
        [\<lparr>bd_id = 1, bd_blocklist_id = 1, bd_domain = ''a.b'', bd_first_seen = 5\<rparr>]
      = Some [[(''domain'', JStr ''x.a.b''), (''blocked'', JBool True)], [(''domain'', JStr ''b''), (''blocked'', JBool False)]]"
proof -
  have "domain_suffixes ''x.a.b'' = [''x.a.b'', ''a.b'', ''b'']" "domain_suffixes ''b'' = [''b'']" by code_simp+
  then show ?thesis
    unfolding Let_def annotate_blocked_agrees [OF listing_sorted]
    by (simp add: text_at_def is_blocked_def load_blocklist_domains_def enabled_ids_def)
qed

text \<open>C23: The sources of a candidate are exactly the pairs of an enabled list and a suffix of the name that the list
  holds, each once and with the name of its list; a candidate has sources exactly when the resolver blocks it.\<close>

theorem find_domain_sources_exact:
  "\<exists>keys. dict_get (find_domain_sources candidates t d) c [] = map (source_of t) keys \<and> distinct keys
     \<and> set keys = {(i, s). c \<in> set candidates \<and> s \<in> set (domain_suffixes c) \<and> i \<in> enabled_ids t \<and> (i, s) \<in> bd_key ` set d}
     \<and> (keys \<noteq> [] \<longleftrightarrow> c \<in> set candidates \<and> is_blocked (load_blocklist_domains t d) c)"
  using find_domain_sources_keys [of candidates t d c] source_keys_blocked [of c candidates t d] by (metis set_empty)

end
