(* ===== verification/ZoneStore.thy ===== *)
theory ZoneStore
  imports Tables LocalZones SearchText "HOL-Library.Char_ord" "HOL-Library.List_Lexorder"
begin

text \<open>
  The local zones as stored: \<open>repository/local_zones.py\<close> over the tables \<open>local_zones\<close> and
  \<open>local_dns_records\<close>, both in the configuration database. The records of a zone are replaced as a
  whole, and the DNS server loads those of the enabled zones.
\<close>

section \<open>Texts and numbers\<close>

text \<open>
  \<open>s.upper()\<close>. Two letters have a capital beyond the code points of the model; a text with one of
  them gives \<open>None\<close>, since it equals no text.
\<close>

definition upper_char :: "char \<Rightarrow> string" where
  "upper_char c =
     (if code c = 223 then ''SS''
      else if 97 \<le> code c \<and> code c \<le> 122 \<or> 224 \<le> code c \<and> code c \<le> 254 \<and> code c \<noteq> 247 then [char_of (code c - 32)]
      else [c])"

definition py_upper :: "string \<Rightarrow> string option" where
  "py_upper s = (if list_ex (\<lambda>c. code c = 255 \<or> code c = 181) s then None else Some (concat (map upper_char s)))"

definition sqlite_int :: "int \<Rightarrow> bool" where
  "sqlite_int i \<longleftrightarrow> - (2 ^ 63) \<le> i \<and> i < 2 ^ 63"

section \<open>Rows\<close>

record ZoneRow =
  lz_id :: int
  lz_name :: string
  lz_url :: string
  lz_update_interval_seconds :: int
  lz_enabled :: bool
  lz_record_count :: int
  lz_last_downloaded_at :: "datetime option"
  lz_last_status :: "string option"
  lz_created_at :: datetime
  lz_updated_at :: datetime

record ZoneRecord =
  zr_id :: int
  zr_zone_id :: int
  zr_name :: string
  zr_rtype :: string
  zr_value :: string
  zr_ttl :: int

definition zone_dict :: "ZoneRow \<Rightarrow> json_dict" where
  "zone_dict zone =
     [(''id'', JInt (lz_id zone)), (''name'', JStr (lz_name zone)), (''url'', JStr (lz_url zone)),
      (''update_interval_seconds'', JInt (lz_update_interval_seconds zone)), (''enabled'', JBool (lz_enabled zone)),
      (''record_count'', JInt (lz_record_count zone)), (''last_downloaded_at'', json_opt JTime (lz_last_downloaded_at zone)),
      (''last_status'', json_opt JStr (lz_last_status zone)),
      (''created_at'', JTime (lz_created_at zone)), (''updated_at'', JTime (lz_updated_at zone))]"

section \<open>The configuration\<close>

definition list_local_zones :: "int option \<Rightarrow> int \<Rightarrow> ZoneRow list \<Rightarrow> json_dict list" where
  "list_local_zones limit offset t = map zone_dict (sql_page limit offset (order_by lz_id t))"

definition count_local_zones :: "ZoneRow list \<Rightarrow> nat" where
  "count_local_zones t = length t"

definition get_local_zone :: "int \<Rightarrow> ZoneRow list \<Rightarrow> json_dict option" where
  "get_local_zone zone_id t = map_option zone_dict (get_row lz_id zone_id t)"

record ZoneData =
  zd_name :: string
  zd_url :: string
  zd_update_interval_seconds :: int
  zd_enabled :: bool

definition create_local_zone :: "datetime \<Rightarrow> ZoneData \<Rightarrow> ZoneRow list \<Rightarrow> repo_error + json_dict \<times> ZoneRow list" where
  "create_local_zone now data t =
     (let row = \<lparr>lz_id = next_id (map lz_id t), lz_name = zd_name data, lz_url = zd_url data,
            lz_update_interval_seconds = zd_update_interval_seconds data, lz_enabled = zd_enabled data, lz_record_count = 0,
            lz_last_downloaded_at = None, lz_last_status = None, lz_created_at = now, lz_updated_at = now\<rparr> in
      if list_ex (\<lambda>r. lz_name r = lz_name row) t then Inl IntegrityError else Inr (zone_dict row, t @ [row]))"

record ZonePatch =
  zp_name :: "string patch"
  zp_url :: "string patch"
  zp_update_interval_seconds :: "int patch"
  zp_enabled :: "bool patch"

definition patch_zone :: "ZonePatch \<Rightarrow> ZoneRow \<Rightarrow> ZoneRow option" where
  "patch_zone data zone =
     Option.bind (patch_req (zp_name data) (lz_name zone)) (\<lambda>name.
     Option.bind (patch_req (zp_url data) (lz_url zone)) (\<lambda>url.
     Option.bind (patch_req (zp_update_interval_seconds data) (lz_update_interval_seconds zone)) (\<lambda>seconds.
     Option.bind (patch_req (zp_enabled data) (lz_enabled zone)) (\<lambda>enabled.
       Some (zone\<lparr>lz_name := name, lz_url := url, lz_update_interval_seconds := seconds, lz_enabled := enabled\<rparr>)))))"

definition touch_zone :: "datetime \<Rightarrow> ZoneRow \<Rightarrow> ZoneRow \<Rightarrow> ZoneRow" where
  "touch_zone now old new = (if new = old then old else new\<lparr>lz_updated_at := now\<rparr>)"

definition update_local_zone :: "datetime \<Rightarrow> int \<Rightarrow> ZonePatch \<Rightarrow> ZoneRow list \<Rightarrow> repo_error + json_dict option \<times> ZoneRow list" where
  "update_local_zone now zone_id data t =
     (case get_row lz_id zone_id t of
        None \<Rightarrow> Inr (None, t)
      | Some zone \<Rightarrow>
          (case patch_zone data zone of
             None \<Rightarrow> Inl IntegrityError
           | Some new \<Rightarrow>
               if list_ex (\<lambda>r. lz_id r \<noteq> lz_id new \<and> lz_name r = lz_name new) t then Inl IntegrityError
               else let row = touch_zone now zone new in Inr (Some (zone_dict row), replace_row lz_id row t)))"

definition delete_local_zone :: "int \<Rightarrow> ZoneRow list \<Rightarrow> ZoneRecord list \<Rightarrow> bool \<times> ZoneRow list \<times> ZoneRecord list" where
  "delete_local_zone zone_id t d =
     (case delete_row lz_id zone_id t of (found, t') \<Rightarrow>
        if found then (True, t', delete_where (\<lambda>r. zr_zone_id r = zone_id) d) else (False, t, d))"

definition zone_success :: "datetime \<Rightarrow> datetime \<Rightarrow> int \<Rightarrow> int \<Rightarrow> ZoneRow list \<Rightarrow> ZoneRow list" where
  "zone_success now stamp zone_id record_count t =
     (case get_row lz_id zone_id t of
        None \<Rightarrow> t
      | Some zone \<Rightarrow>
          replace_row lz_id (touch_zone stamp zone (zone\<lparr>lz_record_count := record_count,
            lz_last_status := Some (''ok: '' @ int_str record_count @ '' records''), lz_last_downloaded_at := Some now\<rparr>)) t)"

definition zone_failure :: "datetime \<Rightarrow> datetime \<Rightarrow> int \<Rightarrow> string \<Rightarrow> ZoneRow list \<Rightarrow> ZoneRow list" where
  "zone_failure now stamp zone_id message t =
     (case get_row lz_id zone_id t of
        None \<Rightarrow> t
      | Some zone \<Rightarrow>
          replace_row lz_id (touch_zone stamp zone (zone\<lparr>
            lz_last_status := Some (take 255 (''error: '' @ message)), lz_last_downloaded_at := Some now\<rparr>)) t)"

section \<open>The records\<close>

definition zone_record :: "int \<Rightarrow> int \<Rightarrow> LocalRecord \<Rightarrow> ZoneRecord" where
  "zone_record i zone_id r =
     \<lparr>zr_id = i, zr_zone_id = zone_id, zr_name = rec_name r, zr_rtype = rec_rtype r, zr_value = rec_value r, zr_ttl = rec_ttl r\<rparr>"

definition zr_key :: "ZoneRecord \<Rightarrow> int \<times> string \<times> string \<times> string" where
  "zr_key r = (zr_zone_id r, zr_name r, zr_rtype r, zr_value r)"

text \<open>
  A duplicate key, or a TTL beyond the 64 bits of an SQLite integer, rolls the whole transaction back.
\<close>

definition insert_zone_record :: "int \<Rightarrow> LocalRecord \<Rightarrow> repo_error + ZoneRecord list \<Rightarrow> repo_error + ZoneRecord list" where
  "insert_zone_record zone_id r res =
     (case res of
        Inl e \<Rightarrow> Inl e
      | Inr d \<Rightarrow>
          let row = zone_record (next_id (map zr_id d)) zone_id r in
          if \<not> sqlite_int (zr_ttl row) then Inl OverflowError
          else if list_ex (\<lambda>q. zr_key q = zr_key row) d then Inl IntegrityError
          else Inr (d @ [row]))"

definition replace_records :: "int \<Rightarrow> LocalRecord list \<Rightarrow> ZoneRecord list \<Rightarrow> repo_error + ZoneRecord list" where
  "replace_records zone_id records d =
     (let d = delete_where (\<lambda>r. zr_zone_id r = zone_id) d in
      if records = [] then Inr d
      else fold (insert_zone_record zone_id) records (Inr d))"

definition zone_record_dict :: "ZoneRecord \<Rightarrow> json_dict" where
  "zone_record_dict r =
     [(''id'', JInt (zr_id r)), (''zone_id'', JInt (zr_zone_id r)), (''name'', JStr (zr_name r)), (''type'', JStr (zr_rtype r)),
      (''value'', JStr (zr_value r)), (''ttl'', JInt (zr_ttl r))]"

definition order_records :: "ZoneRecord list \<Rightarrow> ZoneRecord list" where
  "order_records d = order_by zr_name (order_by zr_rtype (order_by zr_value d))"

definition list_records :: "int \<Rightarrow> int option \<Rightarrow> int \<Rightarrow> ZoneRecord list \<Rightarrow> json_dict list" where
  "list_records zone_id limit offset d =
     map zone_record_dict (sql_page limit offset (order_records (filter (\<lambda>r. zr_zone_id r = zone_id) d)))"

definition count_records :: "int \<Rightarrow> ZoneRecord list \<Rightarrow> nat" where
  "count_records zone_id d = length (filter (\<lambda>r. zr_zone_id r = zone_id) d)"

definition records_filter :: "string option \<Rightarrow> string option \<Rightarrow> ZoneRecord \<Rightarrow> bool" where
  "records_filter search rtype r \<longleftrightarrow>
     search_filter search [zr_name r, zr_value r]
     \<and> (case rtype of None \<Rightarrow> True | Some ty \<Rightarrow> ty = [] \<or> py_upper ty = Some (zr_rtype r))"

text \<open>The join keeps the records whose zone exists.\<close>

definition list_all_records :: "int option \<Rightarrow> int \<Rightarrow> string option \<Rightarrow> string option \<Rightarrow> ZoneRow list \<Rightarrow> ZoneRecord list \<Rightarrow> json_dict list" where
  "list_all_records limit offset search rtype t d =
     map (\<lambda>r. dict_set ''zone_name'' (json_opt JStr (map_option lz_name (get_row lz_id (zr_zone_id r) t))) (zone_record_dict r))
       (sql_page limit offset (order_records
         (filter (\<lambda>r. get_row lz_id (zr_zone_id r) t \<noteq> None \<and> records_filter search rtype r) d)))"

definition count_all_records :: "string option \<Rightarrow> string option \<Rightarrow> ZoneRecord list \<Rightarrow> nat" where
  "count_all_records search rtype d = length (filter (records_filter search rtype) d)"

definition load_local_records :: "ZoneRow list \<Rightarrow> ZoneRecord list \<Rightarrow> LocalRecord list" where
  "load_local_records t d =
     (let enabled = lz_id ` set (filter lz_enabled t) in
      if enabled = {} then []
      else map (\<lambda>r. \<lparr>rec_name = zr_name r, rec_rtype = zr_rtype r, rec_value = zr_value r, rec_ttl = zr_ttl r\<rparr>)
        (filter (\<lambda>r. zr_zone_id r \<in> enabled) d))"

section \<open>Lemmas\<close>

definition local_of :: "ZoneRecord \<Rightarrow> LocalRecord" where
  "local_of r = \<lparr>rec_name = zr_name r, rec_rtype = zr_rtype r, rec_value = zr_value r, rec_ttl = zr_ttl r\<rparr>"

lemma local_of_zone_record [simp]: "local_of (zone_record i z r) = r" "zr_zone_id (zone_record i z r) = z" "zr_ttl (zone_record i z r) = rec_ttl r"
  by (simp_all add: local_of_def zone_record_def)

lemma zr_key_local: "zr_key r = (zr_zone_id r, rec_key (local_of r))"
  by (simp add: zr_key_def rec_key_def local_of_def)

lemma load_local_records_of:
  "load_local_records t d = map local_of (filter (\<lambda>r. zr_zone_id r \<in> lz_id ` set (filter lz_enabled t)) d)"
  by (auto simp: load_local_records_def Let_def local_of_def filter_empty_conv)

lemma insert_zone_records:
  assumes "distinct (map rec_key records)" "\<forall>r \<in> set records. sqlite_int (rec_ttl r)"
    and "\<forall>r \<in> set records. (z, rec_key r) \<notin> zr_key ` set d"
  shows "\<exists>new. fold (insert_zone_record z) records (Inr d) = Inr (d @ new) \<and> map local_of new = records \<and> (\<forall>r \<in> set new. zr_zone_id r = z)"
  using assms
proof (induction records arbitrary: d)
  case (Cons r records)
  let ?row = "zone_record (next_id (map zr_id d)) z r"
  have key: "zr_key ?row = (z, rec_key r)" by (simp add: zr_key_local)
  have "\<not> list_ex (\<lambda>q. zr_key q = zr_key ?row) d" using Cons.prems(3) unfolding list_ex_iff key by (metis image_eqI list.set_intros(1))
  then have step: "insert_zone_record z r (Inr d) = Inr (d @ [?row])"
    using Cons.prems(2) by (simp add: insert_zone_record_def Let_def)
  have "\<forall>q \<in> set records. (z, rec_key q) \<notin> zr_key ` set (d @ [?row])"
    using Cons.prems(1,3) by (auto simp: key image_iff)
  then obtain new where new: "fold (insert_zone_record z) records (Inr (d @ [?row])) = Inr ((d @ [?row]) @ new)"
      "map local_of new = records" "\<forall>q \<in> set new. zr_zone_id q = z"
    using Cons.IH [of "d @ [?row]"] Cons.prems(1,2) by auto
  then show ?case by (intro exI [of _ "?row # new"]) (simp add: step)
qed simp

text \<open>A replacement that is accepted holds the new records of the zone and leaves the other zones.\<close>

lemma replace_records_exact:
  assumes "distinct (map rec_key records)" "\<forall>r \<in> set records. sqlite_int (rec_ttl r)"
  shows "\<exists>d'. replace_records z records d = Inr d'
    \<and> map local_of (filter (\<lambda>r. zr_zone_id r = z) d') = records
    \<and> filter (\<lambda>r. zr_zone_id r \<noteq> z) d' = filter (\<lambda>r. zr_zone_id r \<noteq> z) d"
proof -
  let ?d = "filter (\<lambda>r. zr_zone_id r \<noteq> z) d"
  obtain new where new: "fold (insert_zone_record z) records (Inr ?d) = Inr (?d @ new)" "map local_of new = records"
      "\<forall>r \<in> set new. zr_zone_id r = z"
    using insert_zone_records [OF assms, of z ?d] by (auto simp: zr_key_def)
  from new(3) have "filter (\<lambda>r. zr_zone_id r = z) new = new" "filter (\<lambda>r. zr_zone_id r \<noteq> z) new = []"
    by (auto simp: filter_id_conv filter_empty_conv)
  moreover have "replace_records z records d = Inr (?d @ new)"
    using new by (cases "records = []") (auto simp: replace_records_def delete_where_def Let_def)
  ultimately show ?thesis using new(2) by simp
qed

end
