(* ===== verification/ConfigTables.thy ===== *)
theory ConfigTables
  imports PolicyTable Network Blocklist "HOL-Library.Char_ord" "HOL-Library.List_Lexorder"
begin

text \<open>
  The other tables of the configuration database: \<open>repository/upstreams.py\<close>,
  \<open>repository/trusted_networks.py\<close>, \<open>repository/blocklist_overrides.py\<close> and \<open>repository/settings.py\<close>.
\<close>

section \<open>Upstreams\<close>

record UpstreamRow =
  us_id :: int
  us_name :: "string option"
  us_address :: string
  us_port :: int
  us_protocol :: string
  us_enabled :: bool
  us_priority :: int
  us_created_at :: datetime
  us_updated_at :: datetime

definition upstream_dict :: "UpstreamRow \<Rightarrow> json_dict" where
  "upstream_dict upstream =
     [(''id'', JInt (us_id upstream)), (''name'', json_opt JStr (us_name upstream)), (''address'', JStr (us_address upstream)),
      (''port'', JInt (us_port upstream)), (''protocol'', JStr (us_protocol upstream)), (''enabled'', JBool (us_enabled upstream)),
      (''priority'', JInt (us_priority upstream)),
      (''created_at'', JTime (us_created_at upstream)), (''updated_at'', JTime (us_updated_at upstream))]"

definition list_upstreams :: "int option \<Rightarrow> int \<Rightarrow> UpstreamRow list \<Rightarrow> json_dict list" where
  "list_upstreams limit offset t = map upstream_dict (sql_page limit offset (order_by us_priority (order_by us_id t)))"

definition count_upstreams :: "UpstreamRow list \<Rightarrow> nat" where
  "count_upstreams t = length t"

definition get_upstream :: "int \<Rightarrow> UpstreamRow list \<Rightarrow> json_dict option" where
  "get_upstream upstream_id t = map_option upstream_dict (get_row us_id upstream_id t)"

record UpstreamData =
  ud_name :: "string option"
  ud_address :: string
  ud_port :: int
  ud_protocol :: string
  ud_enabled :: bool
  ud_priority :: int

definition create_upstream :: "datetime \<Rightarrow> UpstreamData \<Rightarrow> UpstreamRow list \<Rightarrow> json_dict \<times> UpstreamRow list" where
  "create_upstream now data t =
     (let row = \<lparr>us_id = next_id (map us_id t), us_name = ud_name data, us_address = ud_address data, us_port = ud_port data,
            us_protocol = ud_protocol data, us_enabled = ud_enabled data, us_priority = ud_priority data,
            us_created_at = now, us_updated_at = now\<rparr> in
      (upstream_dict row, t @ [row]))"

record UpstreamPatch =
  up_name :: "string patch"
  up_new_address :: "string patch"
  up_new_port :: "int patch"
  up_new_protocol :: "string patch"
  up_enabled :: "bool patch"
  up_new_priority :: "int patch"

definition patch_upstream :: "UpstreamPatch \<Rightarrow> UpstreamRow \<Rightarrow> UpstreamRow option" where
  "patch_upstream data upstream =
     Option.bind (patch_req (up_new_address data) (us_address upstream)) (\<lambda>address.
     Option.bind (patch_req (up_new_port data) (us_port upstream)) (\<lambda>port.
     Option.bind (patch_req (up_new_protocol data) (us_protocol upstream)) (\<lambda>protocol.
     Option.bind (patch_req (up_enabled data) (us_enabled upstream)) (\<lambda>enabled.
     Option.bind (patch_req (up_new_priority data) (us_priority upstream)) (\<lambda>priority.
       Some (upstream\<lparr>us_name := patch_opt (up_name data) (us_name upstream), us_address := address, us_port := port,
         us_protocol := protocol, us_enabled := enabled, us_priority := priority\<rparr>))))))"

definition update_upstream :: "datetime \<Rightarrow> int \<Rightarrow> UpstreamPatch \<Rightarrow> UpstreamRow list
    \<Rightarrow> repo_error + json_dict option \<times> UpstreamRow list" where
  "update_upstream now upstream_id data t =
     (case get_row us_id upstream_id t of
        None \<Rightarrow> Inr (None, t)
      | Some upstream \<Rightarrow>
          (case patch_upstream data upstream of
             None \<Rightarrow> Inl IntegrityError
           | Some new \<Rightarrow>
               let row = (if new = upstream then upstream else new\<lparr>us_updated_at := now\<rparr>) in
               Inr (Some (upstream_dict row), replace_row us_id row t)))"

definition delete_upstream :: "int \<Rightarrow> UpstreamRow list \<Rightarrow> bool \<times> UpstreamRow list" where
  "delete_upstream upstream_id t = delete_row us_id upstream_id t"

definition load_upstreams :: "UpstreamRow list \<Rightarrow> UpstreamServer list" where
  "load_upstreams t =
     map (\<lambda>r. \<lparr>up_address = us_address r, up_port = us_port r, up_protocol = us_protocol r, up_priority = us_priority r\<rparr>)
       (order_by us_priority (order_by us_id (filter us_enabled t)))"

definition ensure_default_upstream :: "datetime \<Rightarrow> UpstreamRow list \<Rightarrow> UpstreamRow list" where
  "ensure_default_upstream now t =
     (if t \<noteq> [] then t
      else snd (create_upstream now \<lparr>ud_name = Some ''Google Public DNS'', ud_address = ''8.8.8.8'', ud_port = 53,
          ud_protocol = ''udp'', ud_enabled = True, ud_priority = 100\<rparr> t))"

section \<open>Trusted networks\<close>

record TrustedNetworkRow =
  tn_id :: int
  tn_cidr :: string
  tn_description :: "string option"
  tn_created_at :: datetime
  tn_updated_at :: datetime

definition trusted_network_dict :: "TrustedNetworkRow \<Rightarrow> json_dict" where
  "trusted_network_dict row =
     [(''id'', JInt (tn_id row)), (''cidr'', JStr (tn_cidr row)), (''description'', json_opt JStr (tn_description row)),
      (''created_at'', JTime (tn_created_at row)), (''updated_at'', JTime (tn_updated_at row))]"

definition list_trusted_networks :: "int option \<Rightarrow> int \<Rightarrow> TrustedNetworkRow list \<Rightarrow> json_dict list" where
  "list_trusted_networks limit offset t =
     map trusted_network_dict (sql_page limit offset (order_by tn_cidr (order_by tn_id t)))"

definition count_trusted_networks :: "TrustedNetworkRow list \<Rightarrow> nat" where
  "count_trusted_networks t = length t"

definition get_trusted_network :: "int \<Rightarrow> TrustedNetworkRow list \<Rightarrow> json_dict option" where
  "get_trusted_network network_id t = map_option trusted_network_dict (get_row tn_id network_id t)"

definition create_trusted_network :: "datetime \<Rightarrow> string \<Rightarrow> string option \<Rightarrow> TrustedNetworkRow list
    \<Rightarrow> repo_error + json_dict \<times> TrustedNetworkRow list" where
  "create_trusted_network now cidr description t =
     (let row = \<lparr>tn_id = next_id (map tn_id t), tn_cidr = cidr, tn_description = description,
            tn_created_at = now, tn_updated_at = now\<rparr> in
      if list_ex (\<lambda>r. tn_cidr r = cidr) t then Inl IntegrityError else Inr (trusted_network_dict row, t @ [row]))"

definition delete_trusted_network :: "int \<Rightarrow> TrustedNetworkRow list \<Rightarrow> bool \<times> TrustedNetworkRow list" where
  "delete_trusted_network network_id t = delete_row tn_id network_id t"

definition load_trusted_networks :: "TrustedNetworkRow list \<Rightarrow> string list" where
  "load_trusted_networks t = map tn_cidr t"

section \<open>Blocklist overrides\<close>

record OverrideRow =
  ov_id :: int
  ov_domain :: string
  ov_created_at :: datetime
  ov_updated_at :: datetime

definition override_dict :: "OverrideRow \<Rightarrow> json_dict" where
  "override_dict row =
     [(''id'', JInt (ov_id row)), (''domain'', JStr (ov_domain row)),
      (''created_at'', JTime (ov_created_at row)), (''updated_at'', JTime (ov_updated_at row))]"

definition list_overrides :: "int option \<Rightarrow> int \<Rightarrow> OverrideRow list \<Rightarrow> json_dict list" where
  "list_overrides limit offset t = map override_dict (sql_page limit offset (order_by ov_domain t))"

definition count_overrides :: "OverrideRow list \<Rightarrow> nat" where
  "count_overrides t = length t"

definition create_override :: "datetime \<Rightarrow> string \<Rightarrow> OverrideRow list \<Rightarrow> repo_error + json_dict \<times> OverrideRow list" where
  "create_override now domain t =
     (let row = \<lparr>ov_id = next_id (map ov_id t), ov_domain = domain, ov_created_at = now, ov_updated_at = now\<rparr> in
      if list_ex (\<lambda>r. ov_domain r = domain) t then Inl IntegrityError else Inr (override_dict row, t @ [row]))"

definition delete_override :: "int \<Rightarrow> OverrideRow list \<Rightarrow> bool \<times> OverrideRow list" where
  "delete_override override_id t = delete_row ov_id override_id t"

definition load_override_domains :: "OverrideRow list \<Rightarrow> string set" where
  "load_override_domains t = ov_domain ` set t"

end
