(* ===== verification/Downloaders.thy ===== *)
theory Downloaders
  imports BlocklistStore ZoneStore ConfigTables EventTables UrlText
begin

text \<open>
  The two download workers: \<open>workers/blocklist_downloader.py\<close> and \<open>workers/local_zones.py\<close>. The network, the
  decoding of UTF-8 and the clocks are the environment of a refresh, and so is whether its two transactions commit, the
  one that stores what was downloaded and the one that records the outcome. A refresh and a cycle either raise
  the workers' own download error, or another exception (\<open>Crash\<close>), which the loop over the due rows does not
  catch: it ends the cycle.
\<close>

section \<open>Downloading\<close>

text \<open>What \<open>urlopen\<close> and \<open>read\<close> raise: the last is an exception outside the \<open>except\<close> clause.\<close>

datatype fetch_error = HTTPError int | URLError string | OSError string string | OtherException

datatype download_error = DownloadError string | Crash

record refresh_env =
  re_net :: "string \<Rightarrow> fetch_error + string"
  re_decode :: "string \<Rightarrow> string"
  re_listing :: "string set \<Rightarrow> string list"
  re_now :: datetime
  re_done :: datetime
  re_stamp :: datetime
  re_stores :: bool
  re_records :: bool

definition describe :: "fetch_error \<Rightarrow> string" where
  "describe exc =
     (case exc of
        HTTPError c \<Rightarrow> ''HTTP '' @ int_str c
      | URLError reason \<Rightarrow> reason
      | OSError kind msg \<Rightarrow> kind @ '': '' @ msg
      | OtherException \<Rightarrow> [])"

definition fetch_text :: "string \<Rightarrow> nat \<Rightarrow> refresh_env \<Rightarrow> string \<Rightarrow> download_error + string" where
  "fetch_text what max_bytes E url =
     (case url_parts url of
        None \<Rightarrow> Inl Crash
      | Some (scheme, netloc) \<Rightarrow>
          if scheme \<notin> {''http'', ''https''}
          then Inl (DownloadError (''unsupported URL scheme: '' @ (if scheme = [] then ''none'' else scheme)))
          else (case re_net E url of
                  Inl OtherException \<Rightarrow> Inl Crash
                | Inl exc \<Rightarrow> Inl (DownloadError (describe exc))
                | Inr body \<Rightarrow>
                    (let raw = take (max_bytes + 1) body in
                     if max_bytes < length raw
                     then Inl (DownloadError (what @ '' exceeds '' @ int_str (int max_bytes) @ '' bytes''))
                     else Inr (re_decode E raw))))"

definition BLOCKLIST_MAX_BYTES :: nat where "BLOCKLIST_MAX_BYTES = 67108864"
definition ZONE_MAX_BYTES :: nat where "ZONE_MAX_BYTES = 8388608"

definition blocklist_text :: "refresh_env \<Rightarrow> string \<Rightarrow> download_error + string" where
  "blocklist_text = fetch_text ''blocklist'' BLOCKLIST_MAX_BYTES"

definition zone_text :: "refresh_env \<Rightarrow> string \<Rightarrow> download_error + string" where
  "zone_text = fetch_text ''local zone'' ZONE_MAX_BYTES"

section \<open>When a row is due\<close>

text \<open>\<open>timedelta(...)\<close> in seconds; it raises beyond 999999999 days.\<close>

definition timedelta_seconds :: "int \<Rightarrow> int option" where
  "timedelta_seconds s = (if \<bar>s div 86400\<bar> \<le> 999999999 then Some (s * 1000000) else None)"

definition is_due :: "bool \<Rightarrow> datetime option \<Rightarrow> int \<Rightarrow> datetime \<Rightarrow> bool option" where
  "is_due enabled latest interval now =
     (if \<not> enabled then Some False
      else (case latest of None \<Rightarrow> Some True | Some t \<Rightarrow> map_option (\<lambda>delta. delta \<le> now - t) (timedelta_seconds interval)))"

definition blocklist_due :: "BlocklistRow \<Rightarrow> datetime \<Rightarrow> bool option" where
  "blocklist_due row now = is_due (bl_enabled row) (bl_last_downloaded_at row) (bl_update_interval_hours row * 3600) now"

definition zone_due :: "ZoneRow \<Rightarrow> datetime \<Rightarrow> bool option" where
  "zone_due row now = is_due (lz_enabled row) (lz_last_downloaded_at row) (lz_update_interval_seconds row) now"

text \<open>
  The loop over the rows read at the start of a cycle: \<open>E i\<close> is the environment of the \<open>i\<close>th refresh. A download
  error is logged, another exception ends the loop.
\<close>

fun due_loop :: "('row \<Rightarrow> datetime \<Rightarrow> bool option) \<Rightarrow> ('row \<Rightarrow> refresh_env \<Rightarrow> 'st \<Rightarrow> (download_error + json_dict) \<times> 'st)
    \<Rightarrow> (nat \<Rightarrow> refresh_env) \<Rightarrow> datetime \<Rightarrow> nat \<Rightarrow> 'row list \<Rightarrow> 'st \<Rightarrow> download_error option \<times> 'st" where
  "due_loop due refresh E now i [] st = (None, st)"
| "due_loop due refresh E now i (row # rows) st =
     (case due row now of
        None \<Rightarrow> (Some Crash, st)
      | Some False \<Rightarrow> due_loop due refresh E now i rows st
      | Some True \<Rightarrow>
          (case refresh row (E i) st of
             (Inl Crash, st') \<Rightarrow> (Some Crash, st')
           | (_, st') \<Rightarrow> due_loop due refresh E now (Suc i) rows st'))"

section \<open>Blocklists\<close>

record blocklist_store =
  bs_lists :: "BlocklistRow list"
  bs_domains :: "BlocklistDomain list"
  bs_overrides :: "OverrideRow list"
  bs_sizes :: "BlocklistSizeHourly list"

text \<open>The second half of a refresh, after the text has arrived: whether both of its transactions commit.\<close>

definition store_blocklist :: "refresh_env \<Rightarrow> int \<Rightarrow> string \<Rightarrow> blocklist_store \<Rightarrow> bool \<times> blocklist_store" where
  "store_blocklist E blocklist_id text st =
     (let domains = apply_overrides (parse_blocklist text) (re_listing E (load_override_domains (bs_overrides st))) in
      if \<not> re_stores E then (False, st)
      else let st = st\<lparr>bs_domains := replace_domains (re_listing E) (re_now E) blocklist_id domains (bs_domains st)\<rparr> in
        if \<not> re_records E then (False, st)
        else (True, st\<lparr>bs_lists := record_success (re_done E) (re_stamp E) blocklist_id (int (length domains)) (detect_format text)
                (bs_lists st)\<rparr>))"

definition refresh_blocklist :: "int \<Rightarrow> refresh_env \<Rightarrow> blocklist_store \<Rightarrow> (download_error + json_dict) \<times> blocklist_store" where
  "refresh_blocklist blocklist_id E st =
     (case get_row bl_id blocklist_id (bs_lists st) of
        None \<Rightarrow> (Inl (DownloadError ''blocklist not found''), st)
      | Some row \<Rightarrow>
          (case blocklist_text E (bl_url row) of
             Inl (DownloadError msg) \<Rightarrow>
               if re_records E
               then (Inl (DownloadError msg), st\<lparr>bs_lists := record_failure (re_done E) (re_stamp E) blocklist_id msg (bs_lists st)\<rparr>)
               else (Inl Crash, st)
           | Inl Crash \<Rightarrow> (Inl Crash, st)
           | Inr text \<Rightarrow>
               (case store_blocklist E blocklist_id text st of
                  (False, st) \<Rightarrow> (Inl Crash, st)
                | (True, st) \<Rightarrow>
                    (Inr (case get_blocklist blocklist_id (bs_lists st) of Some d \<Rightarrow> d | None \<Rightarrow> blocklist_dict row), st))))"

definition run_due_blocklists :: "(nat \<Rightarrow> refresh_env) \<Rightarrow> datetime \<Rightarrow> blocklist_store \<Rightarrow> download_error option \<times> blocklist_store" where
  "run_due_blocklists E now st =
     due_loop blocklist_due (\<lambda>row. refresh_blocklist (bl_id row)) E now 0 (order_by bl_id (bs_lists st)) st"

definition sample_blocklist_size :: "datetime \<Rightarrow> datetime \<Rightarrow> bool \<Rightarrow> blocklist_store \<Rightarrow> blocklist_store option" where
  "sample_blocklist_size now now' commits st =
     map_option (\<lambda>t. st\<lparr>bs_sizes := t\<rparr>)
       (record_blocklist_size now now' commits (total_enabled_domain_count (bs_lists st)) (bs_sizes st))"

text \<open>One turn of the loop of \<open>main\<close>: both halves swallow their exceptions.\<close>

type_synonym blocklist_turn = "(nat \<Rightarrow> refresh_env) \<times> datetime \<times> datetime \<times> datetime \<times> bool"

definition blocklist_cycle :: "blocklist_turn \<Rightarrow> blocklist_store \<Rightarrow> blocklist_store" where
  "blocklist_cycle turn st =
     (case turn of (E, now, sampled, cutoff_now, commits) \<Rightarrow>
       let st = snd (run_due_blocklists E now st) in
       case sample_blocklist_size sampled cutoff_now commits st of None \<Rightarrow> st | Some st' \<Rightarrow> st')"

definition blocklist_worker :: "blocklist_turn list \<Rightarrow> blocklist_store \<Rightarrow> blocklist_store" where
  "blocklist_worker turns st = fold blocklist_cycle turns st"

text \<open>The process: it waits until the table can be counted, then takes its turns.\<close>

definition blocklist_wait_for_db :: "(nat \<Rightarrow> blocklist_store option) \<Rightarrow> (nat \<times> nat) option" where
  "blocklist_wait_for_db db = retry (\<lambda>k. map_option (\<lambda>st. (k, count_blocklists (bs_lists st))) (db k)) 0"

definition blocklist_main :: "(nat \<Rightarrow> blocklist_store option) \<Rightarrow> blocklist_turn list \<Rightarrow> blocklist_store option" where
  "blocklist_main db turns =
     Option.bind (blocklist_wait_for_db db) (\<lambda>(k, _). map_option (blocklist_worker turns) (db k))"

section \<open>Local zones\<close>

record zone_store =
  zs_zones :: "ZoneRow list"
  zs_records :: "ZoneRecord list"

definition refresh_local_zone :: "int \<Rightarrow> refresh_env \<Rightarrow> zone_store \<Rightarrow> (download_error + json_dict) \<times> zone_store" where
  "refresh_local_zone zone_id E st =
     (case get_row lz_id zone_id (zs_zones st) of
        None \<Rightarrow> (Inl (DownloadError ''local zone not found''), st)
      | Some row \<Rightarrow>
          (case zone_text E (lz_url row) of
             Inl (DownloadError msg) \<Rightarrow>
               if re_records E
               then (Inl (DownloadError msg), st\<lparr>zs_zones := zone_failure (re_done E) (re_stamp E) zone_id msg (zs_zones st)\<rparr>)
               else (Inl Crash, st)
           | Inl Crash \<Rightarrow> (Inl Crash, st)
           | Inr text \<Rightarrow>
               (case parse_zone text DEFAULT_TTL of
                  None \<Rightarrow> (Inl Crash, st)
                | Some records \<Rightarrow>
                    (case replace_records zone_id records (zs_records st) of
                       Inl _ \<Rightarrow> (Inl Crash, st)
                     | Inr d \<Rightarrow>
                         if \<not> re_stores E then (Inl Crash, st)
                         else if \<not> re_records E then (Inl Crash, st\<lparr>zs_records := d\<rparr>)
                         else (let zones = zone_success (re_done E) (re_stamp E) zone_id (int (length records)) (zs_zones st) in
                          (Inr (case get_local_zone zone_id zones of Some d \<Rightarrow> d | None \<Rightarrow> zone_dict row),
                           \<lparr>zs_zones = zones, zs_records = d\<rparr>))))))"

definition run_due_zones :: "(nat \<Rightarrow> refresh_env) \<Rightarrow> datetime \<Rightarrow> zone_store \<Rightarrow> download_error option \<times> zone_store" where
  "run_due_zones E now st =
     due_loop zone_due (\<lambda>row. refresh_local_zone (lz_id row)) E now 0 (order_by lz_id (zs_zones st)) st"

definition zone_worker :: "((nat \<Rightarrow> refresh_env) \<times> datetime) list \<Rightarrow> zone_store \<Rightarrow> zone_store" where
  "zone_worker turns st = fold (\<lambda>(E, now) st. snd (run_due_zones E now st)) turns st"

definition zone_wait_for_db :: "(nat \<Rightarrow> zone_store option) \<Rightarrow> (nat \<times> nat) option" where
  "zone_wait_for_db db = retry (\<lambda>k. map_option (\<lambda>st. (k, count_local_zones (zs_zones st))) (db k)) 0"

definition zone_main :: "(nat \<Rightarrow> zone_store option) \<Rightarrow> ((nat \<Rightarrow> refresh_env) \<times> datetime) list \<Rightarrow> zone_store option" where
  "zone_main db turns = Option.bind (zone_wait_for_db db) (\<lambda>(k, _). map_option (zone_worker turns) (db k))"

section \<open>Lemmas\<close>

text \<open>The workers start exactly when their database becomes ready, on the first one that is.\<close>

lemma blocklist_main_starts:
  "blocklist_main db turns = (if \<exists>k. db k \<noteq> None then map_option (blocklist_worker turns) (db (LEAST k. db k \<noteq> None)) else None)"
  by (cases "db (LEAST k. db k \<noteq> None)")
    (simp_all add: blocklist_main_def blocklist_wait_for_db_def retry_least del: not_None_eq)

lemma zone_main_starts:
  "zone_main db turns = (if \<exists>k. db k \<noteq> None then map_option (zone_worker turns) (db (LEAST k. db k \<noteq> None)) else None)"
  by (cases "db (LEAST k. db k \<noteq> None)") (simp_all add: zone_main_def zone_wait_for_db_def retry_least del: not_None_eq)

lemma get_row_replace: "get_row rid i t = Some r \<Longrightarrow> rid new = i \<Longrightarrow> get_row rid i (replace_row rid new t) = Some new"
  unfolding get_row_def replace_row_def by (induction t) (auto split: if_splits)

lemma enabled_replace:
  "get_row bl_id i t = Some row \<Longrightarrow> distinct (map bl_id t) \<Longrightarrow> bl_id new = i \<Longrightarrow> bl_enabled new = bl_enabled row \<Longrightarrow>
   enabled_ids (replace_row bl_id new t) = enabled_ids t"
proof -
  assume row: "get_row bl_id i t = Some row" and ids: "distinct (map bl_id t)" and new: "bl_id new = i" "bl_enabled new = bl_enabled row"
  have mem: "row \<in> set t" "bl_id row = i" using get_row_Some [OF row] by auto
  have one: "r = row" if "r \<in> set t" "bl_id r = i" for r
    using that mem ids by (auto simp: distinct_map inj_on_def)
  show ?thesis
  proof (rule set_eqI)
    fix k
    have "k \<in> enabled_ids (replace_row bl_id new t) \<longleftrightarrow> (\<exists>r. r \<in> set (replace_row bl_id new t) \<and> bl_enabled r \<and> bl_id r = k)"
      by (auto simp: enabled_ids_def)
    also have "\<dots> \<longleftrightarrow> (\<exists>r \<in> set t. bl_enabled r \<and> bl_id r = k)"
      unfolding set_replace_row using mem one new by (metis imageI)
    also have "\<dots> \<longleftrightarrow> k \<in> enabled_ids t" by (auto simp: enabled_ids_def)
    finally show "k \<in> enabled_ids (replace_row bl_id new t) \<longleftrightarrow> k \<in> enabled_ids t" .
  qed
qed

lemma touch_blocklist_fields:
  "bl_id new = bl_id old \<Longrightarrow> bl_id (touch_blocklist now old new) = bl_id old"
  "bl_enabled new = bl_enabled old \<Longrightarrow> bl_enabled (touch_blocklist now old new) = bl_enabled old"
  by (simp_all add: touch_blocklist_def)

lemma enabled_touch:
  assumes "get_row bl_id i t = Some row" "distinct (map bl_id t)" "bl_id new = bl_id row" "bl_enabled new = bl_enabled row"
  shows "enabled_ids (replace_row bl_id (touch_blocklist stamp row new) t) = enabled_ids t"
  by (rule enabled_replace [OF assms(1,2)]) (use assms get_row_Some [OF assms(1)] in \<open>simp_all add: touch_blocklist_fields\<close>)

lemma record_success_enabled: "distinct (map bl_id t) \<Longrightarrow> enabled_ids (record_success now stamp i n fmt t) = enabled_ids t"
  unfolding record_success_def by (cases "get_row bl_id i t") (simp_all add: enabled_touch)

lemma record_failure_enabled: "distinct (map bl_id t) \<Longrightarrow> enabled_ids (record_failure now stamp i msg t) = enabled_ids t"
  unfolding record_failure_def by (cases "get_row bl_id i t") (simp_all add: enabled_touch)

lemma set_apply_overrides: "set (apply_overrides ds ovs) = set ds - set ovs"
  by (auto simp: apply_overrides_def Let_def)

section \<open>Properties\<close>

lemma load_blocklist_keys: "load_blocklist_domains t d = {x. \<exists>j \<in> enabled_ids t. (j, x) \<in> bd_key ` set d}"
  using load_blocklist_mem by blast

text \<open>What is loaded after a refresh whose text arrives and whose names are stored.\<close>

lemma refresh_blocklist_loaded:
  assumes "listing_ok (re_listing E)" "domains_ok (bs_domains st)" "distinct (map bl_id (bs_lists st))"
    and "get_row bl_id i (bs_lists st) = Some row" "bl_enabled row" "blocklist_text E (bl_url row) = Inr body" "re_stores E"
  shows "load_blocklist_domains (bs_lists (snd (refresh_blocklist i E st))) (bs_domains (snd (refresh_blocklist i E st))) =
    set (parse_blocklist body) - ov_domain ` set (bs_overrides st)
      \<union> load_blocklist_domains (bs_lists st) (filter (\<lambda>r. bd_blocklist_id r \<noteq> i) (bs_domains st))"
proof -
  have i: "i \<in> enabled_ids (bs_lists st)" using get_row_Some [OF assms(4)] assms(5) by (auto simp: enabled_ids_def)
  let ?names = "apply_overrides (parse_blocklist body) (re_listing E (load_override_domains (bs_overrides st)))"
  let ?d = "replace_domains (re_listing E) (re_now E) i ?names (bs_domains st)"
  have "set (re_listing E (load_override_domains (bs_overrides st))) = ov_domain ` set (bs_overrides st)"
    using assms(1) by (simp add: set_listing load_override_domains_def)
  then have names: "set ?names = set (parse_blocklist body) - ov_domain ` set (bs_overrides st)"
    by (simp add: set_apply_overrides)
  have mem: "(j, x) \<in> bd_key ` set ?d \<longleftrightarrow> (if j = i then x \<in> set ?names else (j, x) \<in> bd_key ` set (bs_domains st))" for j x
    using replace_domains_since(2) [OF assms(1,2), of "re_now E" i ?names j x]
      listed_since_None [of ?d "(j, x)"] listed_since_None [of "bs_domains st" "(j, x)"]
    by (auto split: option.splits if_splits)
  have lists: "bs_domains (snd (refresh_blocklist i E st)) = ?d"
    "enabled_ids (bs_lists (snd (refresh_blocklist i E st))) = enabled_ids (bs_lists st)"
    using assms(3,4,6,7) by (simp_all add: refresh_blocklist_def store_blocklist_def record_success_enabled Let_def)
  have rest: "(j, x) \<in> bd_key ` set (filter (\<lambda>r. bd_blocklist_id r \<noteq> i) (bs_domains st)) \<longleftrightarrow>
      j \<noteq> i \<and> (j, x) \<in> bd_key ` set (bs_domains st)" for j x
    by (auto simp: bd_key_def)
  show ?thesis unfolding load_blocklist_keys lists rest mem using names i by auto
qed

text \<open>C22: A refresh whose text arrives and is stored makes the loaded set, for an enabled list, the names of the text
  that are not exempted together with the names of the other enabled lists, even when its outcome cannot be
  recorded; a refresh whose download fails in any way, or whose names cannot be stored, leaves the loaded set.\<close>

theorem refresh_blocklist_effect:
  assumes "listing_ok (re_listing E)" "domains_ok (bs_domains st)" "distinct (map bl_id (bs_lists st))"
    and "get_row bl_id i (bs_lists st) = Some row" "bl_enabled row"
  shows "load_blocklist_domains (bs_lists (snd (refresh_blocklist i E st))) (bs_domains (snd (refresh_blocklist i E st))) =
    (case blocklist_text E (bl_url row) of
       Inl e \<Rightarrow> load_blocklist_domains (bs_lists st) (bs_domains st)
     | Inr body \<Rightarrow>
         if re_stores E
         then set (parse_blocklist body) - ov_domain ` set (bs_overrides st)
           \<union> load_blocklist_domains (bs_lists st) (filter (\<lambda>r. bd_blocklist_id r \<noteq> i) (bs_domains st))
         else load_blocklist_domains (bs_lists st) (bs_domains st))"
proof (cases "blocklist_text E (bl_url row)")
  case (Inl e)
  then show ?thesis
    using assms(3,4) by (cases e) (simp_all add: refresh_blocklist_def load_blocklist_keys record_failure_enabled)
next
  case (Inr body)
  then show ?thesis
    using assms(4) refresh_blocklist_loaded [OF assms Inr]
    by (cases "re_stores E") (simp_all add: refresh_blocklist_def store_blocklist_def Let_def)
qed

theorem refresh_blocklist_effect_witness:
  "let row = \<lparr>bl_id = 1, bl_name = ''l'', bl_url = ''http://h/l'', bl_update_interval_hours = 24, bl_enabled = True, bl_domain_count = 0,
         bl_last_downloaded_at = None, bl_last_status = None, bl_format = None, bl_created_at = 0, bl_updated_at = 0\<rparr>;
       st = \<lparr>bs_lists = [row], bs_domains = [\<lparr>bd_id = 1, bd_blocklist_id = 1, bd_domain = ''x.y'', bd_first_seen = 5\<rparr>],
         bs_overrides = [], bs_sizes = []\<rparr>;
       E = \<lparr>re_net = (\<lambda>url. Inr ''ads.example''), re_decode = (\<lambda>b. b), re_listing = sorted_list_of_set, re_now = 7, re_done = 8, re_stamp = 8, re_stores = True, re_records = True\<rparr>;
       st' = snd (refresh_blocklist 1 E st)
   in load_blocklist_domains (bs_lists st') (bs_domains st') = {''ads.example''}"
proof -
  let ?row = "\<lparr>bl_id = 1, bl_name = ''l'', bl_url = ''http://h/l'', bl_update_interval_hours = 24, bl_enabled = True, bl_domain_count = 0,
         bl_last_downloaded_at = None, bl_last_status = None, bl_format = None, bl_created_at = 0, bl_updated_at = 0\<rparr>"
  let ?st = "\<lparr>bs_lists = [?row], bs_domains = [\<lparr>bd_id = 1, bd_blocklist_id = 1, bd_domain = ''x.y'', bd_first_seen = 5\<rparr>],
         bs_overrides = [], bs_sizes = []\<rparr>"
  let ?E = "\<lparr>re_net = (\<lambda>url. Inr ''ads.example''), re_decode = (\<lambda>b. b), re_listing = sorted_list_of_set, re_now = 7, re_done = 8, re_stamp = 8, re_stores = True, re_records = True\<rparr>"
  have url: "url_parts ''http://h/l'' = Some (''http'', ''h'')" by code_simp
  have body: "blocklist_text ?E ''http://h/l'' = Inr ''ads.example''"
    by (simp add: blocklist_text_def fetch_text_def url BLOCKLIST_MAX_BYTES_def)
  have names: "parse_blocklist ''ads.example'' = [''ads.example'']" by code_simp
  have "load_blocklist_domains (bs_lists (snd (refresh_blocklist 1 ?E ?st))) (bs_domains (snd (refresh_blocklist 1 ?E ?st))) = {''ads.example''}"
    by (subst refresh_blocklist_effect [where row = ?row])
      (simp_all add: listing_sorted domains_ok_def get_row_def body names load_blocklist_domains_def)
  then show ?thesis by (simp only: Let_def)
qed

text \<open>C39: A zone file that makes the parser raise stops every cycle at its zone: as long as the first zone has never
  been downloaded and its file is so, no cycle downloads any zone, however many cycles run and whatever the other
  zones are.\<close>

theorem zone_starvation:
  assumes "order_by lz_id (zs_zones st) = bad # others" "distinct (map lz_id (zs_zones st))"
    and "lz_enabled bad" "lz_last_downloaded_at bad = None"
    and "\<forall>(E, now) \<in> set turns. \<exists>body. zone_text (E 0) (lz_url bad) = Inr body \<and> parse_zone body DEFAULT_TTL = None"
  shows "zone_worker turns st = st"
proof -
  have "bad \<in> set (zs_zones st)" using set_order_by [of lz_id "zs_zones st"] assms(1) by (metis list.set_intros(1))
  with assms(2) have row: "get_row lz_id (lz_id bad) (zs_zones st) = Some bad" by (simp add: get_row_distinct)
  have "snd (run_due_zones E now st) = st" if "(E, now) \<in> set turns" for E now
  proof -
    from that assms(5) obtain body where "zone_text (E 0) (lz_url bad) = Inr body" "parse_zone body DEFAULT_TTL = None" by (auto dest!: bspec)
    then show ?thesis
      using assms(3,4) row by (simp add: run_due_zones_def assms(1) zone_due_def is_due_def refresh_local_zone_def)
  qed
  then show ?thesis unfolding zone_worker_def by (induction turns) (auto split: prod.split)
qed

theorem zone_starvation_witness:
  "let zone = (\<lambda>i. \<lparr>lz_id = i, lz_name = nat_str (nat i), lz_url = ''http://h/z'', lz_update_interval_seconds = 60, lz_enabled = True,
         lz_record_count = 0, lz_last_downloaded_at = None, lz_last_status = None, lz_created_at = 0, lz_updated_at = 0\<rparr>);
       E = \<lparr>re_net = (\<lambda>url. Inr ''::1%e,nas.lan''), re_decode = (\<lambda>b. b), re_listing = sorted_list_of_set,
         re_now = 7, re_done = 8, re_stamp = 8, re_stores = True, re_records = True\<rparr>;
       st = \<lparr>zs_zones = [zone 1, zone 2], zs_records = []\<rparr>
   in zone_worker [(\<lambda>i. E, 0), (\<lambda>i. E, 60000000)] st = st"
proof -
  let ?zone = "\<lambda>i. \<lparr>lz_id = i, lz_name = nat_str (nat i), lz_url = ''http://h/z'', lz_update_interval_seconds = 60, lz_enabled = True,
         lz_record_count = 0, lz_last_downloaded_at = None, lz_last_status = None, lz_created_at = 0, lz_updated_at = 0\<rparr>"
  let ?E = "\<lparr>re_net = (\<lambda>url. Inr ''::1%e,nas.lan''), re_decode = (\<lambda>b. b), re_listing = sorted_list_of_set,
         re_now = 7, re_done = 8, re_stamp = 8, re_stores = True, re_records = True\<rparr>"
  let ?st = "\<lparr>zs_zones = [?zone 1, ?zone 2], zs_records = []\<rparr>"
  have url: "url_parts ''http://h/z'' = Some (''http'', ''h'')" by code_simp
  have body: "zone_text ?E ''http://h/z'' = Inr ''::1%e,nas.lan''"
    by (simp add: zone_text_def fetch_text_def url ZONE_MAX_BYTES_def)
  have hextets: "v6_hextets (Suc 0) = [0, 0, 0, 0, 0, 0, 0, 1]" by (simp add: v6_hextets_def)
  have "ip_str (IPv6 1 (Some ''e'')) = ''::1%e''"
    by (simp add: v6_str_def hextets base_str.simps digit_char_table compress_hextets_def cut_run_def)
  then have "ip_address ''::1%e'' = Some (IPv6 1 (Some ''e''))" using ip_address_str [of "IPv6 1 (Some ''e'')"] by simp
  moreover have "zone_fields ''::1%e,nas.lan'' DEFAULT_TTL = Some (''::1%e'', ''nas.lan'', 300)" by code_simp
  ultimately have "line_records DEFAULT_TTL ''::1%e,nas.lan'' = None" by (simp add: line_records_None)
  moreover have "py_splitlines ''::1%e,nas.lan'' = [''::1%e,nas.lan'']" by code_simp
  ultimately have raises: "parse_zone ''::1%e,nas.lan'' DEFAULT_TTL = None" by (simp add: parse_zone_first all_some_None)
  have "zone_worker [(\<lambda>i. ?E, 0), (\<lambda>i. ?E, 60000000)] ?st = ?st"
    by (rule zone_starvation [where bad = "?zone 1" and others = "[?zone 2]"])
      (simp_all add: order_by_def body raises)
  then show ?thesis by (simp only: Let_def)
qed

text \<open>A list that is deleted while its text is being downloaded leaves the downloaded names behind; when the
  identifier is given out again, the next list blocks them before it was ever downloaded.\<close>

theorem orphaned_domains_adopted:
  assumes "get_row bl_id i (bs_lists st) = Some row" "listing_ok (re_listing E)" "domains_ok (bs_domains st)"
    and "delete_blocklist i (bs_lists st) (bs_domains st) = (True, t, d)" "next_id (map bl_id t) = i"
    and "create_blocklist now data t = Inr (reply, t')" "bld_enabled data"
    and "x \<in> set (parse_blocklist body)" "x \<notin> ov_domain ` set (bs_overrides st)" "re_stores E"
  shows "\<exists>new. new \<in> set t' \<and> bl_id new = i \<and> bl_name new = bld_name data \<and> bl_last_downloaded_at new = None
    \<and> x \<in> load_blocklist_domains t' (bs_domains (snd (store_blocklist E i body (st\<lparr>bs_lists := t', bs_domains := d\<rparr>))))"
proof -
  let ?new = "new_blocklist now data t"
  let ?st = "st\<lparr>bs_lists := t', bs_domains := d\<rparr>"
  let ?names = "apply_overrides (parse_blocklist body) (re_listing E (load_override_domains (bs_overrides st)))"
  have t': "t' = t @ [?new]" using assms(6) by (auto simp: create_blocklist_def Let_def split: if_splits)
  have new: "bl_id ?new = i" "bl_enabled ?new" "bl_name ?new = bld_name data" "bl_last_downloaded_at ?new = None"
    using assms(5,7) by (simp_all add: new_blocklist_def)
  have d: "d = filter (\<lambda>r. bd_blocklist_id r \<noteq> i) (bs_domains st)"
    using assms(4) by (auto simp: delete_blocklist_def delete_domains_def delete_where_def split: prod.splits if_splits)
  have ok: "domains_ok d"
    using assms(3) unfolding d by (auto simp: domains_ok_def sorted_wrt_map distinct_map_filter intro: sorted_wrt_filter)
  have "x \<in> set ?names" using assms(2,8,9) by (simp add: set_apply_overrides set_listing load_override_domains_def)
  then have "listed_since (replace_domains (re_listing E) (re_now E) i ?names d) (i, x) \<noteq> None"
    using replace_domains_since(2) [OF assms(2) ok, of "re_now E" i ?names] by (simp split: option.split)
  then have "(i, x) \<in> bd_key ` set (bs_domains (snd (store_blocklist E i body ?st)))"
    using listed_since_None [of "replace_domains (re_listing E) (re_now E) i ?names d" "(i, x)"]
    using assms(10) by (simp add: store_blocklist_def Let_def)
  moreover have "i \<in> enabled_ids t'" using new by (auto simp: t' enabled_ids_def)
  ultimately have "x \<in> load_blocklist_domains t' (bs_domains (snd (store_blocklist E i body ?st)))"
    using load_blocklist_mem by blast
  with new t' show ?thesis by auto
qed

theorem orphaned_domains_adopted_witness:
  "let row = \<lparr>bl_id = 1, bl_name = ''l'', bl_url = ''http://h/l'', bl_update_interval_hours = 24, bl_enabled = True, bl_domain_count = 0,
         bl_last_downloaded_at = None, bl_last_status = None, bl_format = None, bl_created_at = 0, bl_updated_at = 0\<rparr>;
       data = \<lparr>bld_name = ''other'', bld_url = ''http://h/other'', bld_update_interval_hours = 24, bld_enabled = True\<rparr>;
       st = \<lparr>bs_lists = [row], bs_domains = [], bs_overrides = [], bs_sizes = []\<rparr>;
       E = \<lparr>re_net = (\<lambda>url. Inr []), re_decode = (\<lambda>b. b), re_listing = sorted_list_of_set, re_now = 7, re_done = 8, re_stamp = 8, re_stores = True, re_records = True\<rparr>;
       (found, t, d) = delete_blocklist 1 [row] []
   in \<exists>reply t'. create_blocklist 6 data t = Inr (reply, t')
      \<and> ''ads.example'' \<in> load_blocklist_domains t' (bs_domains (snd (store_blocklist E 1 ''ads.example'' (st\<lparr>bs_lists := t', bs_domains := d\<rparr>))))"
proof -
  let ?row = "\<lparr>bl_id = 1, bl_name = ''l'', bl_url = ''http://h/l'', bl_update_interval_hours = 24, bl_enabled = True, bl_domain_count = 0,
         bl_last_downloaded_at = None, bl_last_status = None, bl_format = None, bl_created_at = 0, bl_updated_at = 0\<rparr>"
  let ?data = "\<lparr>bld_name = ''other'', bld_url = ''http://h/other'', bld_update_interval_hours = 24, bld_enabled = True\<rparr>"
  let ?st = "\<lparr>bs_lists = [?row], bs_domains = [], bs_overrides = [], bs_sizes = []\<rparr>"
  let ?E = "\<lparr>re_net = (\<lambda>url. Inr []), re_decode = (\<lambda>b. b), re_listing = sorted_list_of_set, re_now = 7, re_done = 8, re_stamp = 8, re_stores = True, re_records = True\<rparr>"
  have del: "delete_blocklist 1 [?row] [] = (True, [], [])"
    by (simp add: delete_blocklist_def delete_row_def get_row_def delete_where_def delete_domains_def)
  obtain reply t' where new: "create_blocklist 6 ?data [] = Inr (reply, t')" by (simp add: create_blocklist_def Let_def)
  have names: "parse_blocklist ''ads.example'' = [''ads.example'']" by code_simp
  have "''ads.example'' \<in> load_blocklist_domains t' (bs_domains (snd (store_blocklist ?E 1 ''ads.example'' (?st\<lparr>bs_lists := t', bs_domains := []\<rparr>))))"
    using orphaned_domains_adopted [of 1 ?st ?row ?E "[]" "[]" 6 ?data reply t' "''ads.example''" "''ads.example''"] new
    by (auto simp: get_row_def listing_sorted domains_ok_def del next_id_def names)
  with new del show ?thesis by (simp add: Let_def)
qed

end
