(* ===== verification/Sando.thy ===== *)
theory Sando
  imports HostTable UrlText Downloaders
begin

text \<open>
  The client of the Sando inventory: \<open>integrations/sando.py\<close>. The configured address and the network are
  arguments; a reply is the parsed JSON value, of which only whether it is an object and its top-level
  members matter (a nested value stands for its truth value). An unconfigured or unknown host is
  \<open>Inr None\<close>, a failure an error text.
\<close>

datatype sando_reply = SandoFails fetch_error | SandoValue "json_dict option"

datatype sando_error = SandoError string | SandoCrash

record SandoDevice =
  sd_device_name :: "string option"
  sd_icon :: "string option"
  sd_mac_address :: "string option"

definition json_true :: "json \<Rightarrow> bool" where
  "json_true v =
     (case v of JNull \<Rightarrow> False | JBool b \<Rightarrow> b | JInt i \<Rightarrow> i \<noteq> 0 | JNum x \<Rightarrow> x \<noteq> 0 | JStr s \<Rightarrow> s \<noteq> [] | JTime t \<Rightarrow> True)"

text \<open>\<open>trimmed or None\<close>: an empty text is no value.\<close>

definition clean :: "json \<Rightarrow> string option" where
  "clean v =
     (case v of
        JStr s \<Rightarrow> (let trimmed = py_strip s in if trimmed = [] then None else Some trimmed)
      | _ \<Rightarrow> None)"

definition sando_failure :: "fetch_error \<Rightarrow> sando_error + SandoDevice option" where
  "sando_failure exc =
     (case exc of
        HTTPError c \<Rightarrow> if c = 404 then Inr None else Inl (SandoError (''HTTP '' @ int_str c))
      | URLError reason \<Rightarrow> Inl (SandoError (''URLError: <urlopen error '' @ reason @ ''>''))
      | OSError kind msg \<Rightarrow> Inl (SandoError (kind @ '': '' @ msg))
      | OtherException \<Rightarrow> Inl SandoCrash)"

definition fetch_device :: "string \<Rightarrow> (string \<Rightarrow> sando_reply) \<Rightarrow> string \<Rightarrow> sando_error + SandoDevice option" where
  "fetch_device api_url net ip =
     (let url = py_rstrip_char (CHR ''/'') api_url @ ''/api/localhosts/'' @ ip in
      case url_parts url of
        None \<Rightarrow> Inl SandoCrash
      | Some (scheme, netloc) \<Rightarrow>
          if scheme \<notin> {''http'', ''https''}
          then Inl (SandoError (''unsupported Sando URL scheme: '' @ (if scheme = [] then ''none'' else scheme)))
          else (case net url of
                  SandoFails exc \<Rightarrow> sando_failure exc
                | SandoValue payload \<Rightarrow>
                    (case payload of
                       None \<Rightarrow> Inr None
                     | Some members \<Rightarrow>
                         if json_true (dict_get members ''error'' JNull) then Inr None
                         else Inr (Some \<lparr>sd_device_name = clean (dict_get members ''local_description'' JNull),
                           sd_icon = clean (dict_get members ''icon'' JNull),
                           sd_mac_address = clean (dict_get members ''mac_address'' JNull)\<rparr>))))"

definition put_some :: "'a option \<Rightarrow> 'a patch" where
  "put_some v = (case v of None \<Rightarrow> Keep | Some x \<Rightarrow> Put x)"

definition sync_host_from_sando :: "string \<Rightarrow> (string \<Rightarrow> sando_reply) \<Rightarrow> string \<Rightarrow> datetime \<Rightarrow> ClientHourlyStat list \<Rightarrow> Host list
    \<Rightarrow> (sando_error + json_dict option) \<times> Host list" where
  "sync_host_from_sando api_url net ip now stats t =
     (if api_url = [] then (Inr None, t)
      else (case fetch_device api_url net ip of
              Inl e \<Rightarrow> (Inl e, t)
            | Inr None \<Rightarrow> (Inr None, t)
            | Inr (Some device) \<Rightarrow>
                (case update_host_by_ip ip
                     \<lparr>hy_device_name = put_some (sd_device_name device), hy_icon = put_some (sd_icon device),
                      hy_mac_address = put_some (sd_mac_address device)\<rparr> now stats t of
                   (row, t') \<Rightarrow> (Inr row, t'))))"

section \<open>Lemmas\<close>

text \<open>A synchronisation never clears what a host has: a value of the inventory replaces, a missing one keeps.\<close>

definition synced :: "'a option \<Rightarrow> 'a option \<Rightarrow> 'a option" where
  "synced found old = (case found of None \<Rightarrow> old | Some v \<Rightarrow> Some v)"

lemma patch_put_some [simp]: "patch_opt (put_some v) old = synced v old"
  by (cases v) (simp_all add: patch_opt_def put_some_def synced_def)

lemma update_host_rows:
  assumes "h \<in> set (snd (update_host_by_ip ip data now stats t))"
  shows "h \<in> set t \<or> (\<exists>host \<in> set t. hst_ip host = ip
    \<and> h = host\<lparr>hst_device_name := patch_opt (hy_device_name data) (hst_device_name host),
        hst_icon := patch_opt (hy_icon data) (hst_icon host),
        hst_mac_address := patch_opt (hy_mac_address data) (hst_mac_address host)\<rparr>)"
proof (cases "List.find (\<lambda>h. hst_ip h = ip) t")
  case None
  then show ?thesis using assms by (simp add: update_host_by_ip_def)
next
  case (Some host)
  then have "host \<in> set t" "hst_ip host = ip" using find_Some_mem [OF Some] by auto
  then show ?thesis using assms Some
    by (auto simp: update_host_by_ip_def Let_def set_replace_row split: if_splits)
qed

lemma sync_rows:
  assumes "h \<in> set (snd (sync_host_from_sando api_url net ip now stats t))"
  shows "\<exists>old \<in> set t. hst_id h = hst_id old \<and> hst_ip h = hst_ip old \<and> hst_query_count h = hst_query_count old
    \<and> (hst_ip old \<noteq> ip \<longrightarrow> h = old)
    \<and> (hst_device_name old \<noteq> None \<longrightarrow> hst_device_name h \<noteq> None)"
proof (cases "h \<in> set t")
  case True
  then show ?thesis by blast
next
  case False
  then obtain device where "fetch_device api_url net ip = Inr (Some device)"
    "h \<in> set (snd (update_host_by_ip ip
                     \<lparr>hy_device_name = put_some (sd_device_name device), hy_icon = put_some (sd_icon device),
                      hy_mac_address = put_some (sd_mac_address device)\<rparr> now stats t))"
    using assms by (auto simp: sync_host_from_sando_def split: if_splits sum.splits option.splits prod.splits)
  from update_host_rows [OF this(2)] False obtain host where host: "host \<in> set t" "hst_ip host = ip"
    and h: "h = host\<lparr>hst_device_name := synced (sd_device_name device) (hst_device_name host),
      hst_icon := synced (sd_icon device) (hst_icon host), hst_mac_address := synced (sd_mac_address device) (hst_mac_address host)\<rparr>"
    by auto
  show ?thesis by (rule bexI [OF _ host(1)]) (auto simp: h host(2) synced_def split: option.split)
qed

end
