(* ===== verification/DnsServer.thy ===== *)
theory DnsServer
  imports ResolverFacts Hosts CacheMirror EventTables NewDomains SettingsTable Sando
begin

text \<open>
  The threads of the DNS process: \<open>workers/dns_server.py\<close> with the probe of
  \<open>domain/upstream_probe.py\<close>. The request path is a function of the server state; a background
  loop is a function of what it finds at each of its turns. The server loop of \<open>dnslib\<close>, the start and
  the stop of the threads, and the log are left out.
\<close>

section \<open>Serving a request\<close>

record 'b dns_server =
  dv_core :: "'b resolver_state"
  dv_hosts :: HostTracker

definition server_is_trusted :: "'b dns_server \<Rightarrow> string \<Rightarrow> bool" where
  "server_is_trusted self client_ip = resolver_is_trusted (dv_core self) client_ip"

definition server_record_foreign :: "datetime \<Rightarrow> string \<Rightarrow> 'b dns_server \<Rightarrow> 'b dns_server" where
  "server_record_foreign now client_ip self = self\<lparr>dv_core := record_foreign now client_ip (dv_core self)\<rparr>"

definition server_resolve :: "('d, 'b) dnslib \<Rightarrow> ('d, 'b) query_env \<Rightarrow> 'd dns_msg \<Rightarrow> string \<Rightarrow> 'b dns_server
    \<Rightarrow> 'd dns_msg \<times> 'b dns_server" where
  "server_resolve D E request client_ip self =
     (let self = self\<lparr>dv_hosts := ht_record client_ip (dv_hosts self)\<rparr> in
      case handle D E request client_ip (dv_core self) of
        (Some reply, core) \<Rightarrow> (reply, self\<lparr>dv_core := core\<rparr>)
      | (None, core) \<Rightarrow> ((dl_reply D request)\<lparr>msg_rcode := RCODE_SERVFAIL\<rparr>, self\<lparr>dv_core := core\<rparr>))"

text \<open>The handler of a packet; what follows the trust check is the library's handler, which parses the
  packet, asks the resolver and sends its reply. No reply is sent to a packet that does not parse. The reply is the
  message that the resolver hands to the library; whether the library can pack and send it is outside of the model.\<close>

definition server_handle :: "('d, 'b) dnslib \<Rightarrow> ('d, 'b) query_env \<Rightarrow> datetime \<Rightarrow> string \<Rightarrow> 'b \<Rightarrow> 'b dns_server
    \<Rightarrow> 'd dns_msg option \<times> 'b dns_server" where
  "server_handle D E now client_ip packet self =
     (if \<not> server_is_trusted self client_ip then (None, server_record_foreign now client_ip self)
      else case dl_parse D packet of
          None \<Rightarrow> (None, self)
        | Some request \<Rightarrow> (case server_resolve D E request client_ip self of (reply, self) \<Rightarrow> (Some reply, self)))"

section \<open>Probing the upstreams\<close>

text \<open>The clock readings of one round of probes, and the network's answer to each.\<close>

record ('d, 'b) probe_env =
  pe_now :: datetime
  pe_mark_now :: "nat \<Rightarrow> datetime"
  pe_add_now :: "nat \<Rightarrow> datetime"
  pe_send :: "nat \<Rightarrow> string \<Rightarrow> int \<Rightarrow> bool \<Rightarrow> rat \<Rightarrow> 'd dns_msg \<Rightarrow> 'b option"
  pe_elapsed :: "nat \<Rightarrow> rat"

definition PROBE_DOMAIN :: string where "PROBE_DOMAIN = ''example.com''"

text \<open>\<open>None\<close> is the \<open>ProbeError\<close> of an upstream that does not answer or answers no DNS message.\<close>

definition probe_upstream :: "('d, 'b) dnslib \<Rightarrow> ('d, 'b) probe_env \<Rightarrow> nat \<Rightarrow> UpstreamServer \<Rightarrow> rat \<Rightarrow> rat option" where
  "probe_upstream D E i server timeout =
     (let query = dl_question D PROBE_DOMAIN ''A'' in
      Option.bind (pe_send E i (up_address server) (up_port server) (up_protocol server = ''tcp'') timeout query) (\<lambda>raw.
      Option.bind (dl_parse D raw) (\<lambda>reply. Some (round1 (pe_elapsed E i * 1000)))))"

definition servers_by_address :: "UpstreamServer list \<Rightarrow> (string, UpstreamServer) dict" where
  "servers_by_address servers = fold (\<lambda>server. dict_set (up_address server) server) servers []"

text \<open>The loop over the targets: the servers contacted, and whether it came to its end; an address that
  the second reading of the upstreams does not have raises after it was marked.\<close>

fun probe_loop :: "('d, 'b) dnslib \<Rightarrow> ('d, 'b) probe_env \<Rightarrow> (string, UpstreamServer) dict \<Rightarrow> rat \<Rightarrow> nat \<Rightarrow> string list
    \<Rightarrow> UpstreamRttBuffer \<Rightarrow> UpstreamServer list \<times> bool \<times> UpstreamRttBuffer" where
  "probe_loop D E by_address timeout i [] rtt = ([], True, rtt)"
| "probe_loop D E by_address timeout i (address # targets) rtt =
     (let rtt = mark_probed (pe_mark_now E i) address rtt in
      case map_of by_address address of
        None \<Rightarrow> ([], False, rtt)
      | Some server \<Rightarrow>
          (let rtt = (case probe_upstream D E i server timeout of
                 None \<Rightarrow> rtt
               | Some rtt_ms \<Rightarrow> rtt_add (pe_add_now E i, address, rtt_ms) rtt)
           in case probe_loop D E by_address timeout (i + 1) targets rtt of
                (contacted, finished, rtt) \<Rightarrow> (server # contacted, finished, rtt)))"

text \<open>The configuration is read for the targets and again after them; a reload can come in between.\<close>

definition probe_rtt_gaps :: "('d, 'b) dnslib \<Rightarrow> ('d, 'b) probe_env \<Rightarrow> RuntimeState \<Rightarrow> RuntimeState
    \<Rightarrow> UpstreamRttBuffer \<Rightarrow> UpstreamServer list \<times> bool \<times> UpstreamRttBuffer" where
  "probe_rtt_gaps D E state state' rtt =
     (let targets = uncovered (pe_now E) (map up_address (rt_upstreams state)) rtt in
      if targets = [] then ([], True, rtt)
      else probe_loop D E (servers_by_address (rt_upstreams state')) (forward_timeout (rt_settings state')) 0 targets rtt)"

section \<open>Background loops\<close>

text \<open>\<open>while True: body; if stop.wait(seconds): return\<close>: the body runs on what it finds, and again after
  each wait that does not end the loop.\<close>

fun run_now_then :: "('e \<Rightarrow> 's \<Rightarrow> 's) \<Rightarrow> 'e \<Rightarrow> 'e option list \<Rightarrow> 's \<Rightarrow> 's" where
  "run_now_then body e [] s = body e s"
| "run_now_then body e (None # waits) s = body e s"
| "run_now_then body e (Some e' # waits) s = run_now_then body e' waits (body e s)"

record materialize_env =
  me_listing :: "string set \<Rightarrow> string list"
  me_now :: datetime
  me_commits :: bool
  me_requests :: "ClientRequest list"

definition run_new_domain_materializer where
  "run_new_domain_materializer =
     run_now_then (\<lambda>e t. case materialize_new_domains (me_listing e) (me_now e) (me_commits e) (me_requests e) t of
        None \<Rightarrow> t | Some t' \<Rightarrow> t')"

definition runtime_snapshot :: "'b TTLCache \<Rightarrow> RuntimeState \<Rightarrow> (string, int) dict" where
  "runtime_snapshot cache state =
     [(''cache_size'', int (cache_len cache)), (''cache_capacity'', cache_capacity cache),
      (''blocklist_domains'', int (card (rt_blocklist state))), (''local_records'', int (local_len (rt_local_records state))),
      (''upstreams'', int (length (rt_upstreams state))), (''policies'', int (length (rt_policies state)))]"

record 'b gauge_env =
  ge_cache :: "'b TTLCache"
  ge_state :: RuntimeState
  ge_write :: write_env

definition run_runtime_stats :: "'b gauge_env \<Rightarrow> 'b gauge_env option list \<Rightarrow> RuntimeStat list \<Rightarrow> RuntimeStat list" where
  "run_runtime_stats =
     run_now_then (\<lambda>e. deliver (record_runtime_stats (we_clock (ge_write e)) (we_commits (ge_write e)))
       (runtime_snapshot (ge_cache e) (ge_state e)))"

record 'b snapshot_env =
  se_cache :: "'b TTLCache"
  se_mono :: monotime
  se_now :: datetime
  se_write :: write_env

definition run_cache_snapshot :: "('d, 'b) dnslib \<Rightarrow> 'b snapshot_env \<Rightarrow> 'b snapshot_env option list
    \<Rightarrow> DnsCacheEntry list \<Rightarrow> DnsCacheEntry list" where
  "run_cache_snapshot D =
     run_now_then (\<lambda>e. deliver (record_cache_entries (se_write e)) (build_cache_snapshot D (se_now e) (se_mono e) (se_cache e)))"

text \<open>A wait of the flusher ends with the stop event, or with a poll that fails or gives the stored
  request; the resolver goes on using the cache during the wait.\<close>

datatype flush_poll = Stopped | PollFails | Polled "string option"

fun flusher_loop :: "string option \<Rightarrow> (('b TTLCache \<Rightarrow> 'b TTLCache) \<times> flush_poll) list \<Rightarrow> 'b TTLCache \<Rightarrow> 'b TTLCache" where
  "flusher_loop last_seen [] cache = cache"
| "flusher_loop last_seen ((serve, poll) # waits) cache =
     (let cache = serve cache in
      case poll of
        Stopped \<Rightarrow> cache
      | PollFails \<Rightarrow> flusher_loop last_seen waits cache
      | Polled requested \<Rightarrow>
          if requested \<noteq> None \<and> requested \<noteq> last_seen
          then flusher_loop requested waits (cache_clear cache)
          else flusher_loop last_seen waits cache)"

definition run_cache_flusher where
  "run_cache_flusher first waits cache =
     flusher_loop (case first of Polled requested \<Rightarrow> requested | _ \<Rightarrow> None) waits cache"

section \<open>New clients\<close>

record discover_db =
  vd_policies :: "PolicyRow list"
  vd_hosts :: "Host list"
  vd_stats :: "ClientHourlyStat list"

text \<open>What the callback finds for each address: the clock, whether the two sessions commit, and the inventory.\<close>

record discover_env =
  vy_now :: datetime
  vy_seed_commits :: bool
  vy_sync_commits :: bool
  vy_net :: "string \<Rightarrow> sando_reply"

definition discover_one :: "string \<Rightarrow> string \<Rightarrow> discover_env \<Rightarrow> string \<Rightarrow> discover_db \<Rightarrow> discover_db" where
  "discover_one api_url action E ip db =
     (let db = (case ensure_client_policy (vy_now E) ip action (vd_policies db) of
            Inr t \<Rightarrow> if vy_seed_commits E then db\<lparr>vd_policies := t\<rparr> else db
          | Inl e \<Rightarrow> db)
      in case sync_host_from_sando api_url (vy_net E) ip (vy_now E) (vd_stats db) (vd_hosts db) of
           (Inr row, t) \<Rightarrow> if vy_sync_commits E then db\<lparr>vd_hosts := t\<rparr> else db
         | (Inl e, t) \<Rightarrow> db)"

definition on_discover :: "(string set \<Rightarrow> string list) \<Rightarrow> string \<Rightarrow> RuntimeState \<Rightarrow> (string \<Rightarrow> discover_env) \<Rightarrow> string set
    \<Rightarrow> discover_db \<Rightarrow> discover_db" where
  "on_discover listing api_url state E ips db =
     (let action = default_action (rt_settings state) in
      fold (\<lambda>ip. discover_one api_url action (E ip) ip) (listing ips) db)"

section \<open>Lemmas\<close>

lemma map_of_fold_key:
  "map_of (fold (\<lambda>x. dict_set (key x) x) xs d) k =
     (case List.find (\<lambda>x. key x = k) (rev xs) of None \<Rightarrow> map_of d k | Some x \<Rightarrow> Some x)"
  by (induction xs rule: rev_induct) (auto split: option.splits)

text \<open>What the round-trip buffer has covered in an hour.\<close>

definition covered_in :: "datetime \<Rightarrow> UpstreamRttBuffer \<Rightarrow> string set" where
  "covered_in hour rtt = (if urb_covered_hour rtt = Some hour then urb_covered rtt else {})"

lemma uncovered_filter: "uncovered now addresses rtt = filter (\<lambda>a. a \<notin> covered_in (floor_hour now) rtt) addresses"
  by (simp add: uncovered_def covered_in_def)

lemma covered_in_probe [simp]: "floor_hour now = h \<Longrightarrow> covered_in h (mark_probed now a rtt) = insert a (covered_in h rtt)"
  by (simp add: covered_in_def mark_probed_def mark_covered_def Let_def)

lemma covered_in_add [simp]: "floor_hour now = h \<Longrightarrow> covered_in h (rtt_add (now, a, ms) rtt) = insert a (covered_in h rtt)"
  by (simp add: covered_in_def rtt_add_def mark_covered_def Let_def split: option.split)

text \<open>A round of probes within one hour contacts the server of every target, answering or not, and covers it.\<close>

lemma probe_loop_covers:
  assumes "\<forall>i. floor_hour (pe_mark_now E i) = h \<and> floor_hour (pe_add_now E i) = h"
    and "\<forall>a \<in> set targets. map_of by a = Some (server a)"
  shows "\<exists>rtt'. probe_loop D E by timeout i targets rtt = (map server targets, True, rtt')
    \<and> covered_in h rtt' = covered_in h rtt \<union> set targets"
  using assms(2)
proof (induction targets arbitrary: i rtt)
  case (Cons a targets)
  let ?rtt = "case probe_upstream D E i (server a) timeout of
     None \<Rightarrow> mark_probed (pe_mark_now E i) a rtt
   | Some ms \<Rightarrow> rtt_add (pe_add_now E i, a, ms) (mark_probed (pe_mark_now E i) a rtt)"
  have "covered_in h ?rtt = insert a (covered_in h rtt)" using assms(1) by (auto split: option.split)
  with Cons.IH [of "i + 1" ?rtt] Cons.prems show ?case by (auto simp: Let_def)
qed simp

text \<open>Of two upstreams with the same address the later in the list stands for both.\<close>

lemma servers_by_address: "map_of (servers_by_address us) a = List.find (\<lambda>u. up_address u = a) (rev us)"
  by (simp add: servers_by_address_def map_of_fold_key split: option.split)

lemma servers_by_address_mem:
  assumes "distinct (map up_address us)" "u \<in> set us"
  shows "map_of (servers_by_address us) (up_address u) = Some u"
proof -
  have "List.find (\<lambda>v. up_address v = up_address u) (rev us) = Some v \<longrightarrow> v = u" for v
    using assms find_Some_mem [of _ "rev us" v] by (auto simp: distinct_map dest: inj_onD)
  moreover have "List.find (\<lambda>v. up_address v = up_address u) (rev us) \<noteq> None" using assms(2) by (auto simp: find_None_iff)
  ultimately show ?thesis unfolding servers_by_address by auto
qed

text \<open>The callback seeds each address that has no wildcard row with the default of the time, whatever the
  inventory answers.\<close>

lemma discover_fold:
  assumes "policies_ok (vd_policies db)" "\<forall>ip. vy_seed_commits (E ip)"
  shows "policies_ok (vd_policies (fold (\<lambda>ip. discover_one api_url action (E ip) ip) ips db))
    \<and> (\<forall>c. if c \<in> set ips \<and> client_row c (vd_policies db) = None
        then \<exists>row. client_row c (vd_policies (fold (\<lambda>ip. discover_one api_url action (E ip) ip) ips db)) = Some row
            \<and> pol_action row = action \<and> pol_enabled row
        else client_row c (vd_policies (fold (\<lambda>ip. discover_one api_url action (E ip) ip) ips db)) = client_row c (vd_policies db))"
  using assms(1)
proof (induction ips arbitrary: db)
  case (Cons ip ips)
  let ?db = "discover_one api_url action (E ip) ip db"
  obtain t' where t': "ensure_client_policy (vy_now (E ip)) ip action (vd_policies db) = Inr t'" "policies_ok t'"
    and rows: "\<And>d. client_row d t' = (if d = ip \<and> client_row ip (vd_policies db) = None
      then Some ((wildcard_policy (vy_now (E ip)) ip action)\<lparr>pol_id := next_id (map pol_id (vd_policies db))\<rparr>)
      else client_row d (vd_policies db))"
    using ensure_client_policy_row [OF Cons.prems, of "vy_now (E ip)" ip action] by blast
  have pol: "vd_policies ?db = t'"
    using t' assms(2) by (auto simp: discover_one_def Let_def split: prod.split sum.split)
  have "pol_action ((wildcard_policy now ip action)\<lparr>pol_id := n\<rparr>) = action"
    "pol_enabled ((wildcard_policy now ip action)\<lparr>pol_id := n\<rparr>)" for now n
    by (simp_all add: wildcard_policy_def)
  note seeded = this
  let ?fin = "vd_policies (fold (\<lambda>ip. discover_one api_url action (E ip) ip) ips ?db)"
  have rest: "policies_ok ?fin" "if c \<in> set ips \<and> client_row c t' = None
      then \<exists>row. client_row c ?fin = Some row \<and> pol_action row = action \<and> pol_enabled row
      else client_row c ?fin = client_row c t'" for c
    using Cons.IH [of ?db] t'(2) unfolding pol by blast+
  have "if c \<in> set (ip # ips) \<and> client_row c (vd_policies db) = None
      then \<exists>row. client_row c ?fin = Some row \<and> pol_action row = action \<and> pol_enabled row
      else client_row c ?fin = client_row c (vd_policies db)" for c
    using rest(2) [of c] seeded unfolding rows by (cases "c = ip"; cases "client_row ip (vd_policies db)") auto
  with rest(1) show ?case by simp
qed simp

text \<open>Seeding appends enabled rows for all names of the addresses it was called with.\<close>

lemma ensure_client_policy_appends:
  assumes "ensure_client_policy now c action t = Inr t'"
  shows "\<exists>rows. t' = t @ rows \<and> (\<forall>r \<in> set rows. pol_enabled r \<and> pol_client r = c \<and> pol_domain r = WILDCARD)"
proof (cases "client_row c t")
  case None
  with assms show ?thesis
    by (auto simp: ensure_client_policy_def insert_policy_def wildcard_policy_def Let_def split: if_splits)
qed (use assms in \<open>simp add: ensure_client_policy_def\<close>)

lemma discover_appends:
  "\<exists>rows. vd_policies (fold (\<lambda>ip. discover_one api_url action (E ip) ip) ips db) = vd_policies db @ rows
     \<and> (\<forall>r \<in> set rows. pol_enabled r \<and> pol_client r \<in> set ips \<and> pol_domain r = WILDCARD)"
proof (induction ips arbitrary: db)
  case (Cons ip ips)
  let ?db = "discover_one api_url action (E ip) ip db"
  have "\<exists>rows. vd_policies ?db = vd_policies db @ rows \<and> (\<forall>r \<in> set rows. pol_enabled r \<and> pol_client r = ip \<and> pol_domain r = WILDCARD)"
  proof (cases "ensure_client_policy (vy_now (E ip)) ip action (vd_policies db)")
    case (Inr t)
    from ensure_client_policy_appends [OF this] Inr show ?thesis
      by (cases "vy_seed_commits (E ip)") (auto simp: discover_one_def Let_def split: prod.split sum.split)
  qed (auto simp: discover_one_def Let_def split: prod.split sum.split)
  then obtain rows where rows: "vd_policies ?db = vd_policies db @ rows"
    "\<forall>r \<in> set rows. pol_enabled r \<and> pol_client r = ip \<and> pol_domain r = WILDCARD" by blast
  from Cons.IH [of ?db] obtain more where
    "vd_policies (fold (\<lambda>ip. discover_one api_url action (E ip) ip) ips ?db) = vd_policies ?db @ more"
    "\<forall>r \<in> set more. pol_enabled r \<and> pol_client r \<in> set ips \<and> pol_domain r = WILDCARD" by blast
  with rows show ?case by (intro exI [of _ "rows @ more"]) auto
qed simp

section \<open>Foreign clients do not interfere\<close>

text \<open>The service does not read the two records of foreign clients, and never changes its configuration.\<close>

definition with_foreign :: "ClientStatsBuffer \<Rightarrow> ForeignClientBuffer \<Rightarrow> 'b resolver_state \<Rightarrow> 'b resolver_state" where
  "with_foreign stats foreign s = s\<lparr>rs_stats := stats, rs_foreign := foreign\<rparr>"

named_theorems foreign_frame

lemma with_foreign_fields [simp]:
  "rs_state (with_foreign a b s) = rs_state s" "rs_cache (with_foreign a b s) = rs_cache s"
  "rs_rtt (with_foreign a b s) = rs_rtt s" "rs_uncached (with_foreign a b s) = rs_uncached s"
  "rs_outcomes (with_foreign a b s) = rs_outcomes s" "rs_buffer (with_foreign a b s) = rs_buffer s"
  "rs_requests (with_foreign a b s) = rs_requests s" "rs_events (with_foreign a b s) = rs_events s"
  "rs_stats (with_foreign a b s) = a" "rs_foreign (with_foreign a b s) = b"
  by (simp_all add: with_foreign_def)

lemma with_foreign_update [simp]:
  "(with_foreign a b s)\<lparr>rs_cache := c\<rparr> = with_foreign a b (s\<lparr>rs_cache := c\<rparr>)"
  "(with_foreign a b s)\<lparr>rs_rtt := r\<rparr> = with_foreign a b (s\<lparr>rs_rtt := r\<rparr>)"
  "(with_foreign a b s)\<lparr>rs_uncached := u\<rparr> = with_foreign a b (s\<lparr>rs_uncached := u\<rparr>)"
  "(with_foreign a b s)\<lparr>rs_outcomes := v\<rparr> = with_foreign a b (s\<lparr>rs_outcomes := v\<rparr>)"
  "(with_foreign a b s)\<lparr>rs_buffer := w\<rparr> = with_foreign a b (s\<lparr>rs_buffer := w\<rparr>)"
  "(with_foreign a b s)\<lparr>rs_requests := x\<rparr> = with_foreign a b (s\<lparr>rs_requests := x\<rparr>)"
  "(with_foreign a b s)\<lparr>rs_events := y\<rparr> = with_foreign a b (s\<lparr>rs_events := y\<rparr>)"
  "(with_foreign a b s)\<lparr>rs_stats := z\<rparr> = with_foreign z b s"
  by (simp_all add: with_foreign_def)

lemma record_outcome_foreign [foreign_frame]:
  "record_outcome E reason (with_foreign a b s) = with_foreign a b (record_outcome E reason s)"
  by (simp add: record_outcome_def)

lemma skip_cache_foreign [foreign_frame]:
  "skip_cache E client name qtype reason ttl (with_foreign a b s) = with_foreign a b (skip_cache E client name qtype reason ttl s)"
  by (simp add: skip_cache_def foreign_frame)

lemma store_reply_foreign [foreign_frame]:
  "store_reply D E key reply ttl (with_foreign a b s) = apsnd (with_foreign a b) (store_reply D E key reply ttl s)"
  by (simp add: store_reply_def foreign_frame split: option.split)

lemma cache_negative_foreign [foreign_frame]:
  "cache_negative D E key reply settings (with_foreign a b s) = apsnd (with_foreign a b) (cache_negative D E key reply settings s)"
  by (simp add: cache_negative_def foreign_frame split: option.split)

lemma cache_negative_or_skip_foreign [foreign_frame]:
  "cache_negative_or_skip D E key reply name qtype settings client reason (with_foreign a b s)
    = apsnd (with_foreign a b) (cache_negative_or_skip D E key reply name qtype settings client reason s)"
  by (cases "cache_negative D E key reply settings s")
    (simp add: cache_negative_or_skip_def foreign_frame split: option.split bool.split)

lemma cache_or_record_skip_foreign [foreign_frame]:
  "cache_or_record_skip D E key reply name qtype settings client (with_foreign a b s)
    = apsnd (with_foreign a b) (cache_or_record_skip D E key reply name qtype settings client s)"
  by (cases "store_reply D E key reply (compute_ttl reply settings) s")
    (simp add: cache_or_record_skip_def Let_def foreign_frame split: option.split)

lemma forward_foreign [foreign_frame]:
  "forward D E request settings (with_foreign a b s) = apsnd (with_foreign a b) (forward D E request settings s)"
  by (simp add: forward_def Let_def split: prod.split)

lemma forward_and_cache_foreign [foreign_frame]:
  "forward_and_cache D E request settings client (with_foreign a b s)
    = apsnd (with_foreign a b) (forward_and_cache D E request settings client s)"
proof -
  obtain reply t where "forward D E request settings s = (reply, t)" by fastforce
  then show ?thesis by (auto simp: forward_and_cache_def Let_def foreign_frame split: option.split prod.split)
qed

lemma forward_or_cache_foreign [foreign_frame]:
  "forward_or_cache D E request settings client (with_foreign a b s)
    = apsnd (with_foreign a b) (forward_or_cache D E request settings client s)"
  by (simp add: forward_or_cache_def Let_def foreign_frame split: prod.split option.split)

lemma screen_foreign [foreign_frame]:
  "screen D E request client (with_foreign a b s) = apsnd (with_foreign a b) (screen D E request client s)"
  by (simp add: screen_def Let_def resolve_local_or_forward_def foreign_frame split: option.split)

lemma handle_foreign:
  "\<exists>a'. handle D E request client (with_foreign a b s)
    = (fst (handle D E request client s), with_foreign a' b (snd (handle D E request client s)))"
proof -
  obtain r t where "screen D E request client s = (r, t)" by fastforce
  then show ?thesis
    by (auto simp: handle_def foreign_frame record_query_def Let_def split: option.split prod.split)
      (auto simp: with_foreign_def)
qed

lemma handle_state: "rs_state (snd (handle D E request client s)) = rs_state s"
  using same_records_screen [of s D E request client]
  by (auto simp: handle_def record_query_def Let_def same_records_def split: option.split prod.split)

text \<open>Traffic: every packet with what its handler finds.\<close>

fun server_run :: "('d, 'b) dnslib \<Rightarrow> (('d, 'b) query_env \<times> datetime \<times> string \<times> 'b) list \<Rightarrow> 'b dns_server
    \<Rightarrow> 'd dns_msg option list \<times> 'b dns_server" where
  "server_run D [] self = ([], self)"
| "server_run D ((E, now, client_ip, packet) # traffic) self =
     (case server_handle D E now client_ip packet self of
        (reply, self) \<Rightarrow> (case server_run D traffic self of (replies, self) \<Rightarrow> (reply # replies, self)))"

text \<open>Two servers that differ in the records of foreign clients at most.\<close>

definition same_service :: "'b dns_server \<Rightarrow> 'b dns_server \<Rightarrow> bool" where
  "same_service s t \<longleftrightarrow> dv_hosts t = dv_hosts s \<and> (\<exists>a b. dv_core t = with_foreign a b (dv_core s))"

lemma same_serviceE:
  assumes "same_service s t"
  obtains a b where "t = s\<lparr>dv_core := with_foreign a b (dv_core s)\<rparr>"
  using assms by (cases s; cases t) (auto simp: same_service_def)

lemma same_service_trusted: "same_service s t \<Longrightarrow> server_is_trusted t = server_is_trusted s"
  by (elim same_serviceE) (auto simp: server_is_trusted_def resolver_is_trusted_def)

lemma server_handle_trusted: "server_is_trusted (snd (server_handle D E now client packet self)) = server_is_trusted self"
proof -
  have "rs_state (dv_core (snd (server_handle D E now client packet self))) = rs_state (dv_core self)"
  proof (cases "dl_parse D packet")
    case (Some request)
    obtain r c where h: "handle D E request client (dv_core self) = (r, c)" by fastforce
    then have "rs_state c = rs_state (dv_core self)" using handle_state [of D E request client "dv_core self"] by simp
    with h Some show ?thesis
      by (cases r) (simp_all add: server_handle_def server_record_foreign_def record_foreign_def server_resolve_def)
  qed (simp add: server_handle_def server_record_foreign_def record_foreign_def)
  then show ?thesis by (simp add: server_is_trusted_def resolver_is_trusted_def fun_eq_iff)
qed

lemma same_service_untrusted:
  assumes "same_service s t" "\<not> server_is_trusted t client"
  shows "fst (server_handle D E now client packet t) = None \<and> same_service s (snd (server_handle D E now client packet t))"
  using assms by (auto elim!: same_serviceE simp: server_handle_def server_record_foreign_def record_foreign_def)
    (auto simp: same_service_def with_foreign_def)

lemma same_service_step:
  assumes "same_service s t" "server_is_trusted t client"
  shows "fst (server_handle D E now client packet t) = fst (server_handle D E now client packet s)
    \<and> same_service (snd (server_handle D E now client packet s)) (snd (server_handle D E now client packet t))"
proof -
  obtain a b where t: "t = s\<lparr>dv_core := with_foreign a b (dv_core s)\<rparr>" using assms(1) by (rule same_serviceE)
  have trust: "server_is_trusted s client" using assms same_service_trusted by metis
  show ?thesis
  proof (cases "dl_parse D packet")
    case None
    then show ?thesis using assms trust by (simp add: server_handle_def)
  next
    case (Some request)
    obtain a' where a': "handle D E request client (with_foreign a b (dv_core s))
      = (fst (handle D E request client (dv_core s)), with_foreign a' b (snd (handle D E request client (dv_core s))))"
      using handle_foreign by blast
    obtain r c where "handle D E request client (dv_core s) = (r, c)" by fastforce
    with a' Some assms(2) trust show ?thesis
      by (cases r) (auto simp: server_handle_def server_resolve_def t same_service_def)
  qed
qed

section \<open>Properties\<close>

text \<open>C8: Untrusted traffic does not interfere with the service. In any traffic, every packet from outside the
  trusted networks gets no reply, and the replies to the other packets are those of the same traffic without
  them; the server ends in the same state but for the two records of foreign clients, so its cache, its
  hosts and its other buffers do not depend on what untrusted clients send.\<close>

theorem untrusted_noninterference:
  "let trusted = (\<lambda>(E, now, client_ip, packet). server_is_trusted self client_ip);
       (replies, after) = server_run D traffic self;
       (replies', after') = server_run D (filter trusted traffic) self
   in map snd (filter (\<lambda>(p, reply). trusted p) (zip traffic replies)) = replies'
    \<and> filter (\<lambda>(p, reply). \<not> trusted p \<and> reply \<noteq> None) (zip traffic replies) = []
    \<and> same_service after' after"
proof -
  let ?T = "\<lambda>(E :: ('a, 'b) query_env, now :: datetime, client_ip, packet :: 'b). server_is_trusted self client_ip"
  have "map snd (filter (\<lambda>(p, reply). ?T p) (zip traffic (fst (server_run D traffic t)))) = fst (server_run D (filter ?T traffic) s)
    \<and> filter (\<lambda>(p, reply). \<not> ?T p \<and> reply \<noteq> None) (zip traffic (fst (server_run D traffic t))) = []
    \<and> same_service (snd (server_run D (filter ?T traffic) s)) (snd (server_run D traffic t))"
    if "same_service s t" "server_is_trusted t = server_is_trusted self" for s t :: "'b dns_server"
    using that
  proof (induction traffic arbitrary: s t)
    case (Cons p traffic)
    obtain E now client packet where p: "p = (E, now, client, packet)" by (cases p) auto
    let ?s = "snd (server_handle D E now client packet s)" and ?t = "snd (server_handle D E now client packet t)"
    have T: "server_is_trusted ?t = server_is_trusted self" using Cons.prems(2) server_handle_trusted by metis
    show ?case
    proof (cases "server_is_trusted self client")
      case True
      with same_service_step [OF Cons.prems(1), of client D E now packet] Cons.prems(2)
      have step: "fst (server_handle D E now client packet t) = fst (server_handle D E now client packet s)" "same_service ?s ?t" by simp_all
      from Cons.IH [OF step(2) T] True step(1) show ?thesis by (simp add: p split_def)
    next
      case False
      with same_service_untrusted [OF Cons.prems(1), of client D E now packet] Cons.prems(2)
      have step: "fst (server_handle D E now client packet t) = None" "same_service s ?t" by simp_all
      from Cons.IH [OF step(2) T] False step(1) show ?thesis by (simp add: p split_def)
    qed
  qed simp
  moreover have "same_service self self"
    unfolding same_service_def with_foreign_def by (intro conjI exI [of _ "rs_stats (dv_core self)"] exI [of _ "rs_foreign (dv_core self)"]) simp_all
  ultimately show ?thesis by (simp add: Let_def split_def)
qed

text \<open>C9: A packet of a trusted client that parses always gets a reply, and the client is noted as a host even when
  the resolver raises; then the reply is SERVFAIL with the identifier and the question of the request.\<close>

theorem trusted_always_answered:
  assumes "server_is_trusted self client_ip" "dl_parse D packet = Some request" "reply_ok D"
  shows "\<exists>reply. fst (server_handle D E now client_ip packet self) = Some reply
    \<and> client_ip \<in> set (dict_keys (ht_pending (dv_hosts (snd (server_handle D E now client_ip packet self)))))
    \<and> (case fst (handle D E request client_ip (dv_core self)) of
         Some answer \<Rightarrow> reply = answer
       | None \<Rightarrow> msg_rcode reply = RCODE_SERVFAIL \<and> msg_id reply = msg_id request \<and> msg_q reply = msg_q request \<and> msg_rr reply = [])"
proof -
  have "client_ip \<in> set (dict_keys (ht_pending (ht_record client_ip (dv_hosts self))))"
    unfolding ht_record_fields by simp
  with assms show ?thesis
    by (cases "handle D E request client_ip (dv_core self)"; cases "fst (handle D E request client_ip (dv_core self))")
      (simp_all del: set_map add: server_handle_def server_resolve_def Let_def reply_fields)
qed

text \<open>C31: When no two upstreams share an address, a round of probes within one hour contacts exactly the upstreams
  that have neither a sample nor an attempt in it, in order and once each; afterwards nothing is left to
  contact for the rest of the hour, whether the probes were answered or not.\<close>

theorem probes_fill_gaps:
  assumes "distinct (map up_address (rt_upstreams st))" "floor_hour (pe_now E) = h"
    and "\<forall>i. floor_hour (pe_mark_now E i) = h \<and> floor_hour (pe_add_now E i) = h"
  shows "\<exists>rtt'. probe_rtt_gaps D E st st rtt =
      (filter (\<lambda>u. up_address u \<in> set (uncovered (pe_now E) (map up_address (rt_upstreams st)) rtt)) (rt_upstreams st), True, rtt')
    \<and> (\<forall>E'. floor_hour (pe_now E') = h \<longrightarrow> probe_rtt_gaps D E' st st rtt' = ([], True, rtt'))"
proof -
  let ?us = "rt_upstreams st" and ?P = "\<lambda>u. up_address u \<notin> covered_in h rtt"
  have targets: "uncovered (pe_now E) (map up_address ?us) rtt = map up_address (filter ?P ?us)"
    by (simp add: uncovered_filter assms(2) filter_map comp_def)
  define server where "server a = the (map_of (servers_by_address ?us) a)" for a
  have server: "map_of (servers_by_address ?us) (up_address u) = Some u" "server (up_address u) = u" if "u \<in> set ?us" for u
    using servers_by_address_mem [OF assms(1) that] by (simp_all add: server_def)
  have sel: "filter (\<lambda>u. up_address u \<in> set (map up_address (filter ?P ?us))) ?us = filter ?P ?us"
    using assms(1) by (intro filter_cong) (auto simp: distinct_map dest: inj_onD)
  have servers: "map server (map up_address (filter ?P ?us)) = filter ?P ?us"
    unfolding map_map by (rule map_idI) (use server(2) in auto)
  obtain rtt' where "probe_rtt_gaps D E st st rtt = (filter ?P ?us, True, rtt')"
    "covered_in h rtt' = covered_in h rtt \<union> up_address ` set (filter ?P ?us)"
  proof (cases "filter ?P ?us = []")
    case True
    with that [of rtt] show ?thesis by (simp add: probe_rtt_gaps_def targets)
  next
    case False
    have "\<forall>a \<in> set (map up_address (filter ?P ?us)). map_of (servers_by_address ?us) a = Some (server a)" using server by auto
    from probe_loop_covers [OF assms(3) this, of D "forward_timeout (rt_settings st)" 0 rtt] False that show ?thesis
      unfolding servers by (auto simp: probe_rtt_gaps_def targets Let_def)
  qed
  note round = this
  have "uncovered (pe_now E') (map up_address ?us) rtt' = []" if "floor_hour (pe_now E') = h" for E' :: "('a, 'b) probe_env"
    using round(2) that by (auto simp: uncovered_filter filter_empty_conv)
  with round(1) show ?thesis unfolding targets sel by (auto simp: probe_rtt_gaps_def)
qed

end
