(* ===== verification/Screening.thy ===== *)
theory Screening
  imports ResolverFacts
begin

text \<open>
  The properties of the screening logic of \<open>Resolver\<close>, over the library and the environment as
  parameters, with their instances at a concrete library, network and configuration.
\<close>

section \<open>A concrete setting\<close>

definition example_upstream :: "string \<Rightarrow> int \<Rightarrow> UpstreamServer" where
  "example_upstream address priority =
     \<lparr>up_address = address, up_port = 53, up_protocol = ''udp'', up_priority = priority\<rparr>"

definition example_question :: "string \<Rightarrow> int \<Rightarrow> string dns_msg" where
  "example_question name type = \<lparr>msg_id = 77, msg_rcode = 0, msg_tc = False,
     msg_q = \<lparr>qn_name = name, qn_type = type, qn_class = 1\<rparr>, msg_rr = [], msg_auth = [], msg_ar = []\<rparr>"

definition example_answer :: "string \<Rightarrow> int \<Rightarrow> string dns_msg" where
  "example_answer name ttl = \<lparr>msg_id = 77, msg_rcode = 0, msg_tc = False,
     msg_q = \<lparr>qn_name = name, qn_type = 1, qn_class = 1\<rparr>,
     msg_rr = [\<lparr>rr_name = name, rr_type = 1, rr_ttl = ttl, rr_data = ''192.0.2.1''\<rparr>], msg_auth = [], msg_ar = []\<rparr>"

text \<open>A network in which only the second upstream of the order answers.\<close>

definition example_env :: "datetime \<Rightarrow> monotime \<Rightarrow> (string, string dns_msg) query_env" where
  "example_env wall mtime =
     \<lparr>ev_stats_now = wall, ev_events_now = wall, ev_outcome_now = wall, ev_rtt_now = wall,
      ev_cache_get = mtime, ev_cache_hit = mtime, ev_cache_set = mtime, ev_shuffle = rev,
      ev_send = (\<lambda>i retry address port tcp timeout rq.
        if i = 1 then Some (example_answer (qn_name (msg_q rq)) 600) else None),
      ev_elapsed = (\<lambda>i. 1)\<rparr>"

definition example_state :: "RuntimeState \<Rightarrow> string dns_msg resolver_state" where
  "example_state st =
     \<lparr>rs_state = st, rs_cache = TTLCache_init 100, rs_buffer = QueryBuffer_init 5, rs_stats = ClientStatsBuffer_init 3600,
      rs_requests = ClientRequestBuffer_init 3600, rs_rtt = UpstreamRttBuffer_init 5,
      rs_events = QueryEventBuffer_init 5 100, rs_foreign = ForeignClientBuffer_init 5 1024,
      rs_uncached = UncacheableBuffer_init 5 2048, rs_outcomes = CacheOutcomeBuffer_init 5\<rparr>"

definition example_config :: RuntimeState where
  "example_config = RuntimeState_empty\<lparr>
     rt_policies := [\<lparr>rule_client = ''*'', rule_domain = ''*.bad.org'', rule_action = ''deny'',
       override_response = None, override_ttl = 300\<rparr>],
     rt_upstreams := [example_upstream ''9.9.9.9'' 20, example_upstream ''1.1.1.1'' 10]\<rparr>"

section \<open>Private reverse names\<close>

text \<open>The reverse name of an IPv4 address is recognised as private exactly when the address lies
  in 10.0.0.0/8, 172.16.0.0/12 or 192.168.0.0/16.\<close>

theorem private_reverse_names:
  assumes "n < 2 ^ 32"
  shows "is_rfc1918_ptr (v4_reverse_pointer n) \<longleftrightarrow>
    (10 * 2 ^ 24 \<le> n \<and> n < 11 * 2 ^ 24)
    \<or> (172 * 2 ^ 24 + 16 * 2 ^ 16 \<le> n \<and> n < 172 * 2 ^ 24 + 32 * 2 ^ 16)
    \<or> (192 * 2 ^ 24 + 168 * 2 ^ 16 \<le> n \<and> n < 192 * 2 ^ 24 + 169 * 2 ^ 16)"
proof -
  have range: "n div d = q \<longleftrightarrow> q * d \<le> n \<and> n < (q + 1) * d" if "0 < d" for d q :: nat
    using less_eq_div_iff_mult_less_eq [OF that, of q n] div_less_iff_less_mult [OF that, of n "q + 1"] by linarith
  show ?thesis
    unfolding rfc1918_reverse [OF assms] using range [of 16777216 10] range [of 1048576 2753] range [of 65536 49320]
    by simp
qed

theorem private_reverse_names_witness:
  "is_rfc1918_ptr (v4_reverse_pointer 3232235777) \<and> \<not> is_rfc1918_ptr (v4_reverse_pointer 134744072)"
  using private_reverse_names [of 3232235777] private_reverse_names [of 134744072] by simp

section \<open>Forwarding\<close>

text \<open>C13: the upstreams are tried in an order that is a permutation of the configured ones with
  ascending priorities, whatever the shuffle; the reply is that of the first upstream of
  the order whose exchange succeeds, exactly that one gets a round-trip sample, and there is
  no reply when all fail.\<close>

theorem forward_first_success:
  assumes "\<forall>us. mset (ev_shuffle E us) = mset us"
  shows "let order = balanced_order E (rt_upstreams (rs_state s));
             first = List.find (\<lambda>(i, u). attempt D E i rq (forward_timeout settings) u \<noteq> None) (enumerate 0 order)
         in mset order = mset (rt_upstreams (rs_state s)) \<and> sorted (map up_priority order)
          \<and> forward D E rq settings s =
              (case first of
                 None \<Rightarrow> (None, s)
               | Some (i, u) \<Rightarrow> (attempt D E i rq (forward_timeout settings) u,
                   s\<lparr>rs_rtt := rtt_add (ev_rtt_now E, up_address u, ev_elapsed E i * 1000) (rs_rtt s)\<rparr>))"
proof -
  have "balanced_order E [] = []" by (simp add: balanced_order_def)
  then show ?thesis
    using balanced_order_perm [OF assms [rule_format]] balanced_order_sorted [OF assms [rule_format]]
    by (auto simp: Let_def forward_def forward_loop_first split: option.split)
qed

theorem forward_first_success_witness:
  "fst (forward toy_dnslib (example_env 0 0) (example_question ''a.org'' 1) RuntimeSettings_default (example_state example_config))
     = Some (example_answer ''a.org'' 600)
   \<and> mset (balanced_order (example_env 0 0) (rt_upstreams example_config)) = mset (rt_upstreams example_config)"
proof -
  have sh: "\<forall>us. mset (ev_shuffle (example_env 0 0) us) = mset us" by (simp add: example_env_def)
  have order: "balanced_order (example_env 0 0) (rt_upstreams example_config)
      = [example_upstream ''1.1.1.1'' 10, example_upstream ''9.9.9.9'' 20]"
    by (simp add: balanced_order_def example_config_def example_upstream_def example_env_def sort_key_def)
  have st: "rs_state (example_state example_config) = example_config" by (simp add: example_state_def)
  have a: "attempt toy_dnslib (example_env 0 0) 0 rq t u = None"
    "attempt toy_dnslib (example_env 0 0) 1 rq t u = Some (example_answer (qn_name (msg_q rq)) 600)" for rq t u
    by (simp_all add: attempt_def example_env_def toy_dnslib_def example_answer_def)
  from forward_first_success [where E = "example_env 0 0" and s = "example_state example_config" and D = toy_dnslib
      and rq = "example_question ''a.org'' 1" and settings = RuntimeSettings_default, OF sh]
  show ?thesis by (simp add: Let_def st order a [simplified] example_question_def)
qed

section \<open>Queries that never leave the server\<close>

text \<open>C4: a query that is dropped as a private reverse lookup, suppressed as AAAA, overridden, denied,
  blocked or owned by a local zone gets the same reply whatever the network, the clocks and
  the cache lifetimes are, and leaves the cache, the round-trip statistics, the uncacheable
  answers and the outcomes as they were: it is neither forwarded nor cached.\<close>

theorem stays_local_never_forwarded:
  assumes "stays_local rq client (rs_state s)"
  shows "fst (handle D E rq client s) = fst (handle D E' rq client s)
    \<and> rs_cache (snd (handle D E rq client s)) = rs_cache s
    \<and> rs_rtt (snd (handle D E rq client s)) = rs_rtt s
    \<and> rs_uncached (snd (handle D E rq client s)) = rs_uncached s
    \<and> rs_outcomes (snd (handle D E rq client s)) = rs_outcomes s"
proof (cases "private_ptr_drop rq (rs_state s)")
  case True
  then show ?thesis by (simp add: handle_def)
next
  case False
  from screen_stays_local [OF assms False, of D] obtain r where "\<And>E. screen D E rq client s = (r, s)" by blast
  with False show ?thesis
    by (cases r) (auto simp: handle_def record_query_def Let_def)
qed

theorem stays_local_never_forwarded_witness:
  "rs_rtt (snd (handle toy_dnslib (example_env 0 0) (example_question ''x.bad.org'' 1) ''10.0.0.9'' (example_state example_config)))
     = rs_rtt (example_state example_config)"
proof -
  have "stays_local (example_question ''x.bad.org'' 1) ''10.0.0.9'' (rs_state (example_state example_config))"
    by code_simp
  from stays_local_never_forwarded [OF this, of toy_dnslib "example_env 0 0" "example_env 0 0"] show ?thesis by blast
qed

text \<open>C1: a denied name (by policy, or by the blocklist when no override rule applies and the client is
  not exempt) is answered with NXDOMAIN, the identifier and question of the request, and no
  records at all, unless it is a dropped private lookup or a suppressed AAAA query.\<close>

theorem denied_nxdomain:
  assumes "reply_ok D" "\<not> private_ptr_drop rq (rs_state s)"
    and "\<not> (qn_type (msg_q rq) = QTYPE_AAAA \<and> \<not> ipv6_enabled (rt_settings (rs_state s)))"
    and "policy_action (rs_state s) client (qn_name (msg_q rq)) = ACTION_DENY
      \<or> \<not> (policy_action (rs_state s) client (qn_name (msg_q rq)) = ACTION_OVERRIDE
             \<and> select_policy (rt_policies (rs_state s)) client (qn_name (msg_q rq)) \<noteq> None)
        \<and> client \<notin> rt_blocklist_excluded (rs_state s)
        \<and> is_blocked (rt_blocklist (rs_state s)) (normalize_domain (qn_name (msg_q rq)))"
  shows "\<exists>m. fst (handle D E rq client s) = Some m \<and> msg_rcode m = RCODE_NXDOMAIN \<and> msg_id m = msg_id rq
    \<and> msg_q m = msg_q rq \<and> msg_rr m = [] \<and> msg_auth m = [] \<and> msg_ar m = []"
proof -
  have "\<exists>result. screen D E rq client s = (Some (deny D rq, result), s)"
    using assms(3,4)
    by (auto simp: screen_def Let_def policy_action_def action_defs split: option.splits)
  then have "fst (handle D E rq client s) = Some (deny D rq)" using assms(2) by (auto simp: handle_def)
  then show ?thesis using assms(1) by (simp add: deny_def reply_fields)
qed

theorem denied_nxdomain_witness:
  "\<exists>m. fst (handle toy_dnslib (example_env 0 0) (example_question ''x.bad.org'' 1) ''10.0.0.9'' (example_state example_config)) = Some m
     \<and> msg_rcode m = 3 \<and> msg_id m = 77"
proof -
  have "\<not> private_ptr_drop (example_question ''x.bad.org'' 1) (rs_state (example_state example_config))" by code_simp
  note a = this
  have b: "\<not> (qn_type (msg_q (example_question ''x.bad.org'' 1)) = QTYPE_AAAA
      \<and> \<not> ipv6_enabled (rt_settings (rs_state (example_state example_config))))" by code_simp
  have c: "policy_action (rs_state (example_state example_config)) ''10.0.0.9''
      (qn_name (msg_q (example_question ''x.bad.org'' 1))) = ACTION_DENY" by code_simp
  from denied_nxdomain [OF dnslib_okD(1) [OF toy_dnslib_ok] a b disjI1 [OF c], of "example_env 0 0"] show ?thesis
    unfolding rcode_defs by (auto simp: example_question_def)
qed

section \<open>What is recorded\<close>

text \<open>C10: an answered query adds exactly one to the query log, the client's total of the hour and the
  client's requests, under the normalised name, and appends one event; a dropped private
  lookup changes nothing; a query whose handling raises records nothing in these four.\<close>

theorem handle_records_once:
  "case handle D E rq client s of
     (None, t) \<Rightarrow> same_records s t
   | (Some reply, t) \<Rightarrow>
       if private_ptr_drop rq (rs_state s) then t = s
       else let key = (client, normalize_domain (qn_name (msg_q rq)), qtype_name D (qn_type (msg_q rq)))
         in rs_state t = rs_state s \<and> rs_foreign t = rs_foreign s
          \<and> (\<forall>k. qb_count (rs_buffer t) k = qb_count (rs_buffer s) k + of_bool (k = key))
          \<and> (\<forall>k. cs_counter (rs_stats t) k ''total'' = cs_counter (rs_stats s) k ''total''
                 + of_bool (k = (floor_hour (ev_stats_now E), client)))
          \<and> (\<forall>k. dict_get (crb_data (rs_requests t)) k 0 = dict_get (crb_data (rs_requests s)) k 0 + of_bool (k = key))
          \<and> qeb_events (rs_events t) = deque_append (qeb_maxlen (rs_events s))
              (event_of (ev_events_now E, client, normalize_domain (qn_name (msg_q rq)), qtype_name D (qn_type (msg_q rq)),
                 rcode_name D (msg_rcode reply), answer_summary D reply)) (qeb_events (rs_events s))"
proof (cases "private_ptr_drop rq (rs_state s)")
  case True
  then show ?thesis by (simp add: handle_def)
next
  case False
  obtain r u where sc: "screen D E rq client s = (r, u)" by (metis prod.exhaust)
  with same_records_screen [of s D E rq client] have same: "same_records s u" by simp
  show ?thesis
  proof (cases r)
    case None
    with sc False same show ?thesis by (simp add: handle_def)
  next
    case (Some p)
    obtain reply result where p: "p = (reply, result)" by (cases p)
    let ?t = "record_query D E rq client reply result u"
    have h: "handle D E rq client s = (Some reply, ?t)" using sc False Some p by (simp add: handle_def)
    have fields: "rs_state ?t = rs_state u" "rs_foreign ?t = rs_foreign u"
      "rs_buffer ?t = qb_add ((client, normalize_domain (qn_name (msg_q rq)), qtype_name D (qn_type (msg_q rq))),
         result, answer_summary D reply) (rs_buffer u)"
      "rs_stats ?t = cs_add (ev_stats_now E, client, result) (rs_stats u)"
      "rs_requests ?t = cr_add (client, normalize_domain (qn_name (msg_q rq)), qtype_name D (qn_type (msg_q rq))) (rs_requests u)"
      "qeb_events (rs_events ?t) = deque_append (qeb_maxlen (rs_events u))
              (event_of (ev_events_now E, client, normalize_domain (qn_name (msg_q rq)), qtype_name D (qn_type (msg_q rq)),
                 rcode_name D (msg_rcode reply), answer_summary D reply)) (qeb_events (rs_events u))"
      by (simp_all add: record_query_def Let_def qe_add_events)
    from same show ?thesis
      unfolding h prod.case option.case if_not_P [OF False] fields Let_def same_records_def
      by (auto simp: qb_add_count cs_add_counter cs_hit_def cs_event_key_def cr_add_def)
  qed
qed

text \<open>With caching enabled, a query answered by forwarding (or by SERVFAIL because all upstreams
  failed) adds exactly one outcome, of one of the six reasons; a reason other than \<open>cached\<close> is
  noted once for the client as well, and nothing is cached then. Every other answered query, a
  cache hit included, adds none.\<close>

theorem one_outcome_per_forward:
  assumes "screen D E rq client s = (Some (reply, result), t)"
  shows "if result \<in> {''forward'', ''servfail''} \<and> cache_enabled (rt_settings (rs_state s))
    then \<exists>s'. rs_outcomes s' = rs_outcomes s \<and> rs_uncached s' = rs_uncached s
      \<and> one_outcome E client (normalize_domain (qn_name (msg_q rq))) (qtype_name D (qn_type (msg_q rq))) s' t
    else rs_outcomes t = rs_outcomes s \<and> rs_uncached t = rs_uncached s"
  using assms by (rule screen_outcome)

lemma example_forward: "fst (screen toy_dnslib (example_env 0 0) (example_question ''a.org'' 1) ''10.0.0.9'' (example_state example_config))
   = Some (example_answer ''a.org'' 600, ''forward'')"
  by code_simp

theorem one_outcome_per_forward_witness:
  "\<exists>s'. rs_outcomes s' = rs_outcomes (example_state example_config) \<and> rs_uncached s' = rs_uncached (example_state example_config)
     \<and> one_outcome (example_env 0 0) ''10.0.0.9'' ''a.org'' ''A'' s'
        (snd (screen toy_dnslib (example_env 0 0) (example_question ''a.org'' 1) ''10.0.0.9'' (example_state example_config)))"
proof -
  have n: "normalize_domain (qn_name (msg_q (example_question ''a.org'' 1))) = ''a.org''"
    "qtype_name toy_dnslib (qn_type (msg_q (example_question ''a.org'' 1))) = ''A''" by code_simp+
  have on: "cache_enabled (rt_settings (rs_state (example_state example_config)))" by code_simp
  from one_outcome_per_forward [OF prod_eqI [of _ "(_, _)", unfolded prod.sel, OF example_forward refl]] show ?thesis
    unfolding n using on by simp
qed

text \<open>C12: handling a query adds at most an entry under the key of its name, type and class, and only for
  a reply that may be cached: NOERROR with answers, for the least TTL of its answers, or
  NXDOMAIN or NOERROR without answers, for the lesser of its SOA's TTL and minimum, clamped in both
  cases, and only when the clamped TTL is positive. It lies between \<open>cache_min_ttl\<close> and the greater
  of the two bounds.\<close>

theorem cached_entries_bounded:
  assumes "(k, e) \<in> set (cache_data (rs_cache (snd (handle D E rq client s))))" "(k, e) \<notin> set (cache_data (rs_cache s))"
  shows "k = cache_key (qn_name (msg_q rq)) (qn_type (msg_q rq)) (qn_class (msg_q rq))
    \<and> (\<exists>reply. stored_ok D (rt_settings (rs_state s)) reply e) \<and> 0 < ce_ttl e
    \<and> cache_min_ttl (rt_settings (rs_state s)) \<le> ce_ttl e
    \<and> ce_ttl e \<le> max (cache_min_ttl (rt_settings (rs_state s))) (cache_max_ttl (rt_settings (rs_state s)))"
proof -
  have "rs_cache (snd (handle D E rq client s)) = rs_cache s
      \<or> rs_cache (snd (handle D E rq client s)) = rs_cache (snd (screen D E rq client s))"
    by (auto simp: handle_def record_query_def Let_def split: prod.split option.split)
  with assms have "(k, e) \<in> set (cache_data (rs_cache (snd (screen D E rq client s))))" by auto
  with screen_grows [of D s rq E client] assms(2)
  obtain reply where k: "k = cache_key (qn_name (msg_q rq)) (qn_type (msg_q rq)) (qn_class (msg_q rq))"
    and reply: "stored_ok D (rt_settings (rs_state s)) reply e"
    unfolding cache_grows_def by blast
  have "\<exists>x. ce_ttl e = clamp_ttl x (rt_settings (rs_state s))"
    using reply by (auto simp: stored_ok_def compute_ttl_def negative_ttl_def split: option.splits intro: sym)
  then show ?thesis using k reply by (auto simp: clamp_ttl_def stored_ok_def)
qed

theorem cached_entries_bounded_witness:
  "\<exists>reply. stored_ok toy_dnslib RuntimeSettings_default reply
     \<lparr>ce_value = example_answer ''a.org'' 600, inserted_at = 5, expires_at = 600000000005, ce_ttl = 600\<rparr>"
proof -
  let ?e = "\<lparr>ce_value = example_answer ''a.org'' 600, inserted_at = 5, expires_at = 600000000005, ce_ttl = 600\<rparr>"
  have new: "(''a.org|1|1'', ?e) \<in> set (cache_data (rs_cache (snd (handle toy_dnslib (example_env 0 5) (example_question ''a.org'' 1)
      ''10.0.0.9'' (example_state example_config)))))" by code_simp
  have "rt_settings (rs_state (example_state example_config)) = RuntimeSettings_default"
    "cache_data (rs_cache (example_state example_config)) = []"
    by (simp_all add: example_state_def example_config_def RuntimeState_empty_def TTLCache_init_def)
  with cached_entries_bounded [OF new] show ?thesis by simp
qed

section \<open>Answers from the cache\<close>

text \<open>A reply for another request, with one TTL throughout.\<close>

definition with_ttl :: "int \<Rightarrow> int \<Rightarrow> 'd dns_msg \<Rightarrow> 'd dns_msg" where
  "with_ttl mid ttl m = m\<lparr>msg_id := mid, msg_rr := map (rr_ttl_update (\<lambda>_. ttl)) (msg_rr m),
     msg_auth := map (rr_ttl_update (\<lambda>_. ttl)) (msg_auth m), msg_ar := map (rr_ttl_update (\<lambda>_. ttl)) (msg_ar m)\<rparr>"

lemma cached_reply_with_ttl:
  assumes "pack_ok D" "record_ok D" "dl_pack D reply = Some (ce_value e)"
    and "ttl_fits (max 0 ((expires_at e - ev_cache_hit E) div nsec_per_sec))"
  shows "cached_reply D E rq e = Some (with_ttl (msg_id rq) (max 0 ((expires_at e - ev_cache_hit E) div nsec_per_sec)) reply)"
proof -
  let ?rem = "max 0 ((expires_at e - ev_cache_hit E) div nsec_per_sec)"
  have parse: "dl_parse D (ce_value e) = Some reply" using assms(1,3) by (simp add: pack_ok_def)
  have "all_some (map (dl_set_ttl D ?rem) rs) = Some (map (rr_ttl_update (\<lambda>_. ?rem)) rs)" for rs
    by (induction rs) (simp_all add: record_okD(2) [OF assms(2)] assms(4))
  then show ?thesis using parse by (simp add: cached_reply_def Let_def with_ttl_def)
qed

lemma forward_miss_stores:
  assumes fwd: "forward_or_cache D E rq settings client s = (Some (reply, ''forward''), t)"
    and inv: "cache_inv (rs_cache s)" and on: "cache_enabled settings"
    and ok: "msg_rcode reply = RCODE_NOERROR" "msg_rr reply \<noteq> []" "0 < compute_ttl reply settings"
  shows "\<exists>c packed. cache_inv c \<and> cache_max c = cache_max (rs_cache s) \<and> dl_pack D reply = Some packed
    \<and> rs_cache t = cache_set (ev_cache_set E) (cache_key (qn_name (msg_q rq)) (qn_type (msg_q rq)) (qn_class (msg_q rq)))
        packed (compute_ttl reply settings) c"
proof -
  let ?key = "cache_key (qn_name (msg_q rq)) (qn_type (msg_q rq)) (qn_class (msg_q rq))"
  let ?n = "normalize_domain (qn_name (msg_q rq))" and ?ty = "qtype_name D (qn_type (msg_q rq))"
  obtain entry c where g: "cache_get (ev_cache_get E) ?key (rs_cache s) = (entry, c)" by (metis prod.exhaust)
  have c: "cache_inv c" "cache_max c = cache_max (rs_cache s)"
    using cache_inv_get [OF inv g] cache_get_data [OF g] by auto
  have "entry = None" using fwd on g by (auto simp: forward_or_cache_def Let_def split: option.splits)
  with fwd on g have f: "forward_and_cache D E rq settings client (s\<lparr>rs_cache := c\<rparr>) = (Some (reply, ''forward''), t)"
    by (simp add: forward_or_cache_def Let_def)
  obtain r u where r: "forward D E rq settings (s\<lparr>rs_cache := c\<rparr>) = (r, u)" by (metis prod.exhaust)
  then have u: "rs_cache u = c" using forward_frame [OF r] by simp
  have "r \<noteq> None" using f r on by (cases r) (auto simp: forward_and_cache_def Let_def)
  then obtain m where m: "r = Some m" by blast
  obtain b v where cr: "cache_or_record_skip D E ?key m ?n ?ty settings client u = (b, v)" by (metis prod.exhaust)
  with f r m on have "m = reply" "v = t" "b \<noteq> None"
    by (cases b; simp add: forward_and_cache_def Let_def)+
  with cr ok have "case store_reply D E ?key reply (compute_ttl reply settings) u of
      (None, w) \<Rightarrow> False | (Some _, w) \<Rightarrow> w = t"
    by (auto simp: cache_or_record_skip_def Let_def rcode_defs split: prod.splits option.splits)
  then obtain packed where "dl_pack D reply = Some packed"
    "rs_cache t = cache_set (ev_cache_set E) ?key packed (compute_ttl reply settings) (rs_cache u)"
    by (cases "dl_pack D reply") (auto simp: store_reply_def record_outcome_def)
  with c u show ?thesis by auto
qed

text \<open>C11: After a forwarded NOERROR answer with records and a positive clamped TTL, every later query for the same normalised name, type and
  class, from any client and after any number of such queries, is answered from the cache without touching the
  network until that TTL has elapsed, as long as the entry stays in use: between two of its uses fewer other keys
  than the capacity are looked up or stored. The reply is the stored one with the identifier of the new request and,
  in all three sections, the whole seconds that remain as the TTL; the lookup is one more use of the entry.\<close>

theorem cached_answer_replayed:
  assumes "dnslib_ok D" "cache_inv (rs_cache s)" "cache_enabled settings"
    and "forward_or_cache D E rq settings client s = (Some (reply, ''forward''), t)"
    and "msg_rcode reply = RCODE_NOERROR" "msg_rr reply \<noteq> []" "0 < compute_ttl reply settings"
      "ttl_fits (compute_ttl reply settings)"
    and "kept_recent (cache_max (rs_cache s)) (cache_key (qn_name (msg_q rq)) (qn_type (msg_q rq)) (qn_class (msg_q rq))) {} ops"
      "read_before (ev_cache_set E + compute_ttl reply settings * nsec_per_sec)
         (cache_key (qn_name (msg_q rq)) (qn_type (msg_q rq)) (qn_class (msg_q rq))) ops"
      "rs_cache t' = cache_run ops (rs_cache t)"
    and "cache_key (qn_name (msg_q rq')) (qn_type (msg_q rq')) (qn_class (msg_q rq'))
      = cache_key (qn_name (msg_q rq)) (qn_type (msg_q rq)) (qn_class (msg_q rq))"
    and "ev_cache_get E' < ev_cache_set E + compute_ttl reply settings * nsec_per_sec" "ev_cache_set E \<le> ev_cache_hit E'"
  shows "\<exists>t''. forward_or_cache D E' rq' settings client' t' =
    (Some (with_ttl (msg_id rq')
       (max 0 ((ev_cache_set E + compute_ttl reply settings * nsec_per_sec - ev_cache_hit E') div nsec_per_sec)) reply,
       ''forward-cache''), t'')
    \<and> rs_rtt t'' = rs_rtt t' \<and> rs_outcomes t'' = rs_outcomes t'
    \<and> rs_cache t'' = cache_run (ops @ [CGet (ev_cache_get E') (cache_key (qn_name (msg_q rq)) (qn_type (msg_q rq)) (qn_class (msg_q rq)))])
        (rs_cache t)"
proof -
  let ?key = "cache_key (qn_name (msg_q rq)) (qn_type (msg_q rq)) (qn_class (msg_q rq))"
  let ?ttl = "compute_ttl reply settings"
  obtain c packed where c: "cache_inv c" "cache_max c = cache_max (rs_cache s)" and packed: "dl_pack D reply = Some packed"
    and t: "rs_cache t = cache_set (ev_cache_set E) ?key packed ?ttl c"
    using forward_miss_stores [OF assms(4,2,3,5,6,7)] by blast
  let ?e = "\<lparr>ce_value = packed, inserted_at = ev_cache_set E, expires_at = ev_cache_set E + ?ttl * nsec_per_sec, ce_ttl = ?ttl\<rparr>"
  let ?rem = "max 0 ((ev_cache_set E + ?ttl * nsec_per_sec - ev_cache_hit E') div nsec_per_sec)"
  have set: "cache_inv (rs_cache t)" "behind ?key ?e {} (rs_cache t)" "cache_max (rs_cache t) = cache_max (rs_cache s)"
    unfolding t using c by (simp_all add: cache_inv_set behind_cache_set)
  obtain U where "behind ?key ?e U (rs_cache t')"
    unfolding assms(11) using behind_recent [OF set(1,2) finite.emptyI, of ops] assms(9,10) set(3) by auto
  moreover have "cache_inv (rs_cache t')" unfolding assms(11) by (rule cache_inv_run [OF set(1)])
  ultimately have "map_of (cache_data (rs_cache t')) ?key = Some ?e" by (rule behind_lookup [rotated])
  then obtain c' where get: "cache_get (ev_cache_get E') ?key (rs_cache t') = (Some ?e, c')"
    using assms(13) by (simp add: cache_get_def)
  have "(ev_cache_set E + ?ttl * nsec_per_sec - ev_cache_hit E') div nsec_per_sec \<le> ?ttl * nsec_per_sec div nsec_per_sec"
    using assms(14) by (intro zdiv_mono1) simp_all
  then have fits: "ttl_fits ?rem" using assms(8) by (auto simp: ttl_fits_def)
  have "cached_reply D E' rq' ?e = Some (with_ttl (msg_id rq') ?rem reply)"
    using cached_reply_with_ttl [OF dnslib_okD(2,3) [OF assms(1)], of reply ?e E' rq'] packed fits by simp
  moreover have "cache_run (ops @ [CGet (ev_cache_get E') ?key]) (rs_cache t) = c'" using get assms(11) by simp
  ultimately show ?thesis using get assms(3,12) by (auto simp: forward_or_cache_def Let_def)
qed

theorem cached_answer_replayed_witness:
  "fst (forward_or_cache toy_dnslib (example_env 0 (10 * nsec_per_sec)) (example_question ''A.ORG.'' 1) RuntimeSettings_default ''10.0.0.8''
     (snd (forward_or_cache toy_dnslib (example_env 0 0) (example_question ''a.org'' 1) RuntimeSettings_default ''10.0.0.9''
        (example_state example_config))))
   = Some (with_ttl 77 590 (example_answer ''a.org'' 600), ''forward-cache'')"
proof -
  have fwd: "fst (forward_or_cache toy_dnslib (example_env 0 0) (example_question ''a.org'' 1) RuntimeSettings_default ''10.0.0.9''
      (example_state example_config)) = Some (example_answer ''a.org'' 600, ''forward'')" by code_simp
  have key: "cache_key (qn_name (msg_q (example_question ''A.ORG.'' 1))) (qn_type (msg_q (example_question ''A.ORG.'' 1)))
      (qn_class (msg_q (example_question ''A.ORG.'' 1)))
    = cache_key (qn_name (msg_q (example_question ''a.org'' 1))) (qn_type (msg_q (example_question ''a.org'' 1)))
      (qn_class (msg_q (example_question ''a.org'' 1)))" by code_simp
  have ttl: "compute_ttl (example_answer ''a.org'' 600) RuntimeSettings_default = 600" by code_simp
  have side: "cache_inv (rs_cache (example_state example_config))" "0 < cache_max (rs_cache (example_state example_config))"
    by (simp_all add: example_state_def TTLCache_init_def cache_inv_def)
  have ans: "msg_rcode (example_answer ''a.org'' 600) = RCODE_NOERROR" "msg_rr (example_answer ''a.org'' 600) \<noteq> []"
    by (simp_all add: example_answer_def rcode_defs)
  have clocks: "ev_cache_get (example_env 0 m) = m" "ev_cache_set (example_env 0 m) = m" "ev_cache_hit (example_env 0 m) = m" for m
    by (simp_all add: example_env_def)
  have on: "cache_enabled RuntimeSettings_default" by (simp add: RuntimeSettings_default_def)
  have mid: "msg_id (example_question ''A.ORG.'' 1) = 77" by (simp add: example_question_def)
  obtain t where f: "forward_or_cache toy_dnslib (example_env 0 0) (example_question ''a.org'' 1) RuntimeSettings_default ''10.0.0.9''
      (example_state example_config) = (Some (example_answer ''a.org'' 600, ''forward''), t)"
    using fwd by (metis prod.exhaust_sel)
  have fits: "ttl_fits (compute_ttl (example_answer ''a.org'' 600) RuntimeSettings_default)" "0 < compute_ttl (example_answer ''a.org'' 600) RuntimeSettings_default"
    by (simp_all add: ttl ttl_fits_def)
  have run: "rs_cache t = cache_run [] (rs_cache t)" by simp
  from cached_answer_replayed [OF toy_dnslib_ok side(1) on f ans fits(2,1) _ _ run key, of "example_env 0 (10 * nsec_per_sec)" "''10.0.0.8''"]
  show ?thesis by (auto simp: f ttl clocks side mid)
qed

section \<open>Overrides and local zones\<close>

text \<open>An override answers with exactly the addresses of its response that fit the type of the query,
  in order, each under the name of the question and with the rule's TTL; a name overridden for
  the other family only gets an empty NOERROR reply.\<close>

theorem override_answers:
  assumes "dnslib_ok D" "ttl_fits (override_ttl rule)"
    and "\<forall>a \<in> set (override_addrs (qn_type (msg_q rq)) (override_values rule)). addr_data D a \<noteq> None"
  shows "override D rq rule = Some ((dl_reply D rq)\<lparr>msg_rr :=
    map (addr_record D (msg_q rq) (override_ttl rule)) (override_addrs (qn_type (msg_q rq)) (override_values rule))\<rparr>)"
  using override_loop_spec [OF dnslib_okD(3) [OF assms(1)] assms(2,3), of "dl_reply D rq"]
  by (simp add: override_def reply_fields [OF dnslib_okD(1) [OF assms(1)]])

definition example_override :: "int \<Rightarrow> PolicyRule" where
  "example_override ttl = \<lparr>rule_client = ''*'', rule_domain = ''*'', rule_action = ''override'',
     override_response = Some ''0.0.0.0,'', override_ttl = ttl\<rparr>"

lemma example_address: "ip_str (IPv4 0) = ''0.0.0.0''" "ip_address ''0.0.0.0'' = Some (IPv4 0)"
proof -
  show s: "ip_str (IPv4 0) = ''0.0.0.0''" by (simp add: v4_str_def v4_octets_def base_str.simps digit_char_table)
  show "ip_address ''0.0.0.0'' = Some (IPv4 0)" using ip_address_str [of "IPv4 0"] s by simp
qed

lemma example_override_addrs: "override_addrs 1 (override_values (example_override ttl)) = [IPv4 0]"
proof -
  have "override_values (example_override ttl) = [''0.0.0.0'']"
    unfolding example_override_def override_values_def PolicyRule.select_convs option.case by code_simp
  then show ?thesis by (simp add: override_addrs_def map_filter_simps example_address fits_type_def QTYPE_A_def)
qed

theorem override_answers_witness:
  "map_option msg_rr (override toy_dnslib (example_question ''a.org'' 1) (example_override 60))
     = Some [\<lparr>rr_name = ''a.org'', rr_type = 1, rr_ttl = 60, rr_data = ''0.0.0.0''\<rparr>]"
proof -
  have q: "msg_q (example_question ''a.org'' 1) = \<lparr>qn_name = ''a.org'', qn_type = 1, qn_class = 1\<rparr>"
    by (simp add: example_question_def)
  have ip: "addr_data toy_dnslib (IPv4 0) = Some ''0.0.0.0''"
    using example_address(1) by (simp add: addr_data_def toy_dnslib_def)
  have fits: "ttl_fits (override_ttl (example_override 60))" by (simp add: ttl_fits_def example_override_def)
  have data: "\<forall>a \<in> set (override_addrs (qn_type (msg_q (example_question ''a.org'' 1)))
      (override_values (example_override 60))). addr_data toy_dnslib a \<noteq> None"
    by (simp add: q example_override_addrs ip)
  show ?thesis
    using override_answers [OF toy_dnslib_ok fits data]
    by (simp add: q example_override_addrs addr_record_def ip) (simp add: example_override_def)
qed

text \<open>An override whose TTL does not fit 32 bits (the settings allow a negative one) raises on the first
  address it would answer with.\<close>

theorem override_ttl_raises:
  assumes "record_ok D" "\<not> ttl_fits (override_ttl rule)"
    and "override_addrs (qn_type (msg_q rq)) (override_values rule) \<noteq> []"
  shows "override D rq rule = None"
  using override_loop_ttl [OF assms] by (simp add: override_def)

theorem override_ttl_raises_witness:
  "override toy_dnslib (example_question ''a.org'' 1) (example_override (- 1)) = None"
proof (rule override_ttl_raises [OF dnslib_okD(3) [OF toy_dnslib_ok]])
  show "\<not> ttl_fits (override_ttl (example_override (- 1)))" by (simp add: ttl_fits_def example_override_def)
  show "override_addrs (qn_type (msg_q (example_question ''a.org'' 1))) (override_values (example_override (- 1))) \<noteq> []"
    by (simp add: example_question_def example_override_addrs)
qed

text \<open>An address query for a local name is answered by at most eight CNAME records, each the alias
  of the name before it (loops of aliases included), followed by records of the queried type for
  the name the chain ends at; the rest of the reply is that of an empty reply.\<close>

theorem local_address_chain:
  assumes "record_ok D" "local_owns records (normalize_domain (qn_name (msg_q rq)))"
    and "qn_type (msg_q rq) = QTYPE_A \<or> qn_type (msg_q rq) = QTYPE_AAAA"
    and "local_answer D rq records = Some (Some reply)"
  shows "\<exists>cn as owner name. reply = (dl_reply D rq)\<lparr>msg_rr := msg_rr (dl_reply D rq) @ cn @ as\<rparr> \<and> length cn \<le> 8
    \<and> alias_chain records (qn_name (msg_q rq)) (normalize_domain (qn_name (msg_q rq))) cn owner name
    \<and> (\<forall>r \<in> set as. rr_name r = owner \<and> rr_type r = qn_type (msg_q rq)
        \<and> (\<exists>l \<in> set (local_get records name (if qn_type (msg_q rq) = QTYPE_A then RTYPE_A else RTYPE_AAAA)).
              rr_ttl r = rec_ttl l \<and> build_addr_rdata D (qn_type (msg_q rq)) (rec_value l) = Some (rr_data r)))"
proof -
  from assms(2-4) have "add_address_chain D (dl_reply D rq) (qn_name (msg_q rq)) (normalize_domain (qn_name (msg_q rq)))
      (qn_type (msg_q rq)) records 0 = Some reply"
    by (auto simp: local_answer_def Let_def split: if_splits)
  from add_address_chain_spec [OF assms(1) this] show ?thesis by (simp add: MAX_CNAME_DEPTH_def)
qed

definition example_zone :: LocalRecords where
  "example_zone = LocalRecords_init
     [\<lparr>rec_name = ''www.lan'', rec_rtype = ''CNAME'', rec_value = ''nas.lan'', rec_ttl = 60\<rparr>,
      \<lparr>rec_name = ''nas.lan'', rec_rtype = ''A'', rec_value = ''10.0.0.2'', rec_ttl = 60\<rparr>]"

theorem local_address_chain_witness:
  "\<exists>cn owner name. length cn \<le> 8 \<and> alias_chain example_zone ''www.lan'' ''www.lan'' (cn :: string dns_rr list) owner name"
proof -
  have n: "qn_name (msg_q (example_question ''www.lan'' 1)) = ''www.lan''"
    "normalize_domain ''www.lan'' = ''www.lan''" by code_simp+
  have own: "local_owns example_zone (normalize_domain (qn_name (msg_q (example_question ''www.lan'' 1))))" by code_simp
  have ty: "qn_type (msg_q (example_question ''www.lan'' 1)) = QTYPE_A \<or> qn_type (msg_q (example_question ''www.lan'' 1)) = QTYPE_AAAA"
    by code_simp
  have reply: "local_answer toy_dnslib (example_question ''www.lan'' 1) example_zone = Some (Some
      ((example_answer ''www.lan'' 60)\<lparr>msg_rr := [\<lparr>rr_name = ''www.lan'', rr_type = 5, rr_ttl = 60, rr_data = ''nas.lan''\<rparr>,
         \<lparr>rr_name = ''nas.lan'', rr_type = 1, rr_ttl = 60, rr_data = ''10.0.0.2''\<rparr>]\<rparr>))"
    by code_simp
  from local_address_chain [OF dnslib_okD(3) [OF toy_dnslib_ok] own ty reply] show ?thesis
    unfolding n by blast
qed

end
