(* ===== verification/Startup.thy ===== *)
theory Startup
  imports DnsServer Screening ZoneStore Downloaders
begin

text \<open>
  The DNS process and its databases together: the loaders that \<open>workers/dns_server.py\<close> gives to the
  runtime state, the start that waits for the schema, and what a change of a table means for the
  clients once the state is loaded. \<open>None\<close> is a database whose schema is not ready.
\<close>

section \<open>Loading\<close>

record tables =
  tb_settings :: "AppSetting list"
  tb_policies :: "PolicyRow list"
  tb_upstreams :: "UpstreamRow list"
  tb_networks :: "TrustedNetworkRow list"
  tb_blocklists :: "BlocklistRow list"
  tb_domains :: "BlocklistDomain list"
  tb_hosts :: "Host list"
  tb_zones :: "ZoneRow list"
  tb_zone_records :: "ZoneRecord list"

definition sql_loaders :: "tables option state_loaders" where
  "sql_loaders =
     \<lparr>load_settings = map_option (\<lambda>db. load_runtime_settings (tb_settings db)),
      load_policies = map_option (\<lambda>db. load_rules (tb_policies db)),
      load_upstreams_fn = map_option (\<lambda>db. load_upstreams (tb_upstreams db)),
      load_blocklist = map_option (\<lambda>db. load_blocklist_domains (tb_blocklists db) (tb_domains db)),
      load_blocklist_excluded_fn = map_option (\<lambda>db. load_blocklist_excluded (tb_hosts db)),
      load_trusted_networks_fn = map_option (\<lambda>db. load_trusted_networks (tb_networks db)),
      load_local_records_fn = map_option (\<lambda>db. load_local_records (tb_zones db) (tb_zone_records db))\<rparr>"

text \<open>The start tries again, with the database it finds then, until every loader succeeds.\<close>

definition build_state :: "'db state_loaders \<Rightarrow> (nat \<Rightarrow> 'db) \<Rightarrow> nat \<Rightarrow> RuntimeState option" where
  "build_state loaders db n = retry (\<lambda>k. RuntimeState_init loaders (db k)) n"

text \<open>The end of \<open>init_db\<close>: the defaults of two tables that are empty.\<close>

definition init_defaults :: "datetime \<Rightarrow> tables \<Rightarrow> tables" where
  "init_defaults now db =
     db\<lparr>tb_blocklists := ensure_default_blocklist now (tb_blocklists db), tb_upstreams := ensure_default_upstream now (tb_upstreams db)\<rparr>"

section \<open>Lemmas\<close>

text \<open>The configuration that a database loads.\<close>

definition loaded_config :: "tables \<Rightarrow> RuntimeState" where
  "loaded_config db =
     \<lparr>rt_settings = load_runtime_settings (tb_settings db), rt_policies = load_rules (tb_policies db),
      rt_upstreams = load_upstreams (tb_upstreams db),
      rt_blocklist = load_blocklist_domains (tb_blocklists db) (tb_domains db),
      rt_blocklist_excluded = load_blocklist_excluded (tb_hosts db),
      rt_network_filter = from_cidrs (load_trusted_networks (tb_networks db)),
      rt_local_records = LocalRecords_init (load_local_records (tb_zones db) (tb_zone_records db))\<rparr>"

lemma reload_config: "state_reload sql_loaders db self = map_option loaded_config db"
  by (cases db) (simp_all add: state_reload_def sql_loaders_def loaded_config_def)

lemma init_config: "RuntimeState_init sql_loaders db = map_option loaded_config db"
  by (simp only: RuntimeState_init_def reload_config)

lemma is_digit_minus: "\<not> is_digit (CHR ''-'')"
  by (simp add: is_digit_def code_def)

lemma inj_int_str: "inj int_str"
proof (rule injI)
  fix i j assume eq: "int_str i = int_str j"
  have ten: "(2::nat) \<le> 10" "(10::nat) \<le> 16" by simp_all
  have nat: "a = b" if "nat_str a = nat_str b" for a b
    using arg_cong [OF that, of "base_val 10"] unfolding base_val_str [OF ten] .
  have minus: "CHR ''-'' # nat_str a \<noteq> nat_str b" for a b
  proof
    assume "CHR ''-'' # nat_str a = nat_str b"
    then have "CHR ''-'' \<in> set (nat_str b)" by (metis list.set_intros(1))
    then show False using nat_str_digits is_digit_minus by blast
  qed
  note minus' = minus [symmetric]
  consider "i < 0" "j < 0" | "i < 0" "0 \<le> j" | "0 \<le> i" "j < 0" | "0 \<le> i" "0 \<le> j" by linarith
  then show "i = j"
  proof cases
    case 1
    with eq have "nat (- i) = nat (- j)" by (intro nat) (simp add: int_str_def)
    with 1 show ?thesis by simp
  next
    case 4
    with eq have "nat i = nat j" by (intro nat) (simp add: int_str_def)
    with 4 show ?thesis by simp
  qed (use eq minus minus' in \<open>simp_all add: int_str_def\<close>)
qed

lemma flush_request_stored: "get_cache_flush_request (snd (request_cache_flush fmt now t)) = Some (fmt (now div 1000000))"
  unfolding get_cache_flush_request_def request_cache_flush_def Let_def snd_conv put_setting_def
  by (subst find_upsert) (simp_all split: option.split)

section \<open>A downloaded zone\<close>

lemma zone_success_enabled:
  assumes "get_row lz_id z t = Some row" "lz_enabled row"
  shows "z \<in> lz_id ` set (filter lz_enabled (zone_success now stamp z n t))"
proof -
  let ?new = "touch_zone stamp row (row\<lparr>lz_record_count := n, lz_last_status := Some (''ok: '' @ int_str n @ '' records''),
    lz_last_downloaded_at := Some now\<rparr>)"
  have new: "lz_id ?new = z" "lz_enabled ?new" using assms get_row_Some [OF assms(1)] by (simp_all add: touch_zone_def)
  have "z \<in> lz_id ` set t" using get_row_Some [OF assms(1)] by blast
  then have "?new \<in> set (replace_row lz_id ?new t)" unfolding set_replace_row new(1) by blast
  with new assms(1) show ?thesis unfolding zone_success_def by force
qed

lemma refresh_local_zone_ok:
  assumes "get_row lz_id z (zs_zones st) = Some row" "zone_text F (lz_url row) = Inr body"
    and "parse_zone body DEFAULT_TTL = Some records" "replace_records z records (zs_records st) = Inr d" "re_stores F"
  shows "snd (refresh_local_zone z F st)
      = \<lparr>zs_zones = if re_records F then zone_success (re_done F) (re_stamp F) z (int (length records)) (zs_zones st) else zs_zones st,
         zs_records = d\<rparr>"
  using assms by (simp add: refresh_local_zone_def Let_def)

text \<open>A refresh whose text parses and is stored puts every record of it into the loaded records of an enabled zone, even
  when its outcome cannot be recorded.\<close>

lemma refresh_zone_loaded:
  assumes "get_row lz_id z (zs_zones st) = Some row" "lz_enabled row" "zone_text F (lz_url row) = Inr body"
    and "parse_zone body DEFAULT_TTL = Some records" "\<forall>r \<in> set records. sqlite_int (rec_ttl r)" "re_stores F"
  shows "set records \<subseteq> set (load_local_records (zs_zones (snd (refresh_local_zone z F st))) (zs_records (snd (refresh_local_zone z F st))))"
proof -
  obtain d where d: "replace_records z records (zs_records st) = Inr d"
      "map local_of (filter (\<lambda>r. zr_zone_id r = z) d) = records"
    using replace_records_exact [of records z "zs_records st"] parse_zone_ok [OF assms(4)] assms(5) by blast
  note st = refresh_local_zone_ok [OF assms(1,3,4) d(1) assms(6)]
  have "z \<in> lz_id ` set (filter lz_enabled (zs_zones st))" using get_row_Some [OF assms(1)] assms(2) by auto
  then have on: "z \<in> lz_id ` set (filter lz_enabled (zs_zones (snd (refresh_local_zone z F st))))"
    unfolding st using zone_success_enabled [OF assms(1,2)] by (cases "re_records F") simp_all
  have "set records = local_of ` {r \<in> set d. zr_zone_id r = z}" using arg_cong [OF d(2), of set] by auto
  moreover have "zs_records (snd (refresh_local_zone z F st)) = d" unfolding st by simp
  ultimately show ?thesis unfolding load_local_records_of using on by auto
qed

lemma add_addresses_all:
  assumes "record_ok D" "\<forall>l \<in> set ls. ttl_fits (rec_ttl l)"
  shows "\<exists>as. add_addresses D owner qtype ls reply = Some (reply\<lparr>msg_rr := msg_rr reply @ as\<rparr>)
    \<and> (\<forall>l \<in> set ls. \<forall>data. build_addr_rdata D qtype (rec_value l) = Some data \<longrightarrow>
         \<lparr>rr_name = owner, rr_type = qtype, rr_ttl = rec_ttl l, rr_data = data\<rparr> \<in> set as)"
  using assms(2)
proof (induction ls arbitrary: reply)
  case Nil
  show ?case by (intro exI [of _ "[]"]) simp
next
  case (Cons l ls)
  show ?case
  proof (cases "build_addr_rdata D qtype (rec_value l)")
    case None
    with Cons show ?thesis by auto
  next
    case (Some data)
    let ?r = "\<lparr>rr_name = owner, rr_type = qtype, rr_ttl = rec_ttl l, rr_data = data\<rparr>"
    have r: "dl_RR D owner qtype (rec_ttl l) data = Some ?r" using assms(1) Cons.prems by (simp add: record_ok_def)
    from Cons.IH [of "add_answer ?r reply"] Cons.prems obtain as where as:
      "add_addresses D owner qtype ls (add_answer ?r reply) = Some ((add_answer ?r reply)\<lparr>msg_rr := msg_rr (add_answer ?r reply) @ as\<rparr>)"
      "\<forall>l \<in> set ls. \<forall>data. build_addr_rdata D qtype (rec_value l) = Some data \<longrightarrow>
         \<lparr>rr_name = owner, rr_type = qtype, rr_ttl = rec_ttl l, rr_data = data\<rparr> \<in> set as" by auto
    with Some r show ?thesis by (intro exI [of _ "?r # as"]) (auto simp: add_answer_def)
  qed
qed

section \<open>Properties\<close>

text \<open>What a configuration must hold for the rows of the tables, said on the rows and without the loaders; the typed
  settings and the parsed networks have their own references in the theories of these parts.\<close>

definition config_of :: "tables \<Rightarrow> RuntimeState \<Rightarrow> bool" where
  "config_of t st \<longleftrightarrow>
     rt_settings st = load_runtime_settings (tb_settings t)
   \<and> rt_policies st = map policy_rule (filter pol_enabled (tb_policies t))
   \<and> mset (map (\<lambda>u. (up_address u, up_port u, up_protocol u, up_priority u)) (rt_upstreams st))
       = mset (map (\<lambda>r. (us_address r, us_port r, us_protocol r, us_priority r)) (filter us_enabled (tb_upstreams t)))
   \<and> sorted (map up_priority (rt_upstreams st))
   \<and> rt_blocklist st = {x. \<exists>l d. l \<in> set (tb_blocklists t) \<and> bl_enabled l \<and> d \<in> set (tb_domains t)
       \<and> bd_blocklist_id d = bl_id l \<and> bd_domain d = x}
   \<and> rt_blocklist_excluded st = {ip. \<exists>h. h \<in> set (tb_hosts t) \<and> hst_excluded_from_blocklist h \<and> hst_ip h = ip}
   \<and> rt_network_filter st = from_cidrs (map tn_cidr (tb_networks t))
   \<and> (\<forall>name rtype. local_get (rt_local_records st) name rtype = map local_of (filter (\<lambda>r. zr_name r = name \<and> zr_rtype r = rtype
         \<and> (\<exists>z. z \<in> set (tb_zones t) \<and> lz_enabled z \<and> lz_id z = zr_zone_id r)) (tb_zone_records t)))"

text \<open>The databases that the reloads before the stop find ready.\<close>

definition ready_tables :: "tables option option list \<Rightarrow> tables list" where
  "ready_tables waits = List.map_filter (\<lambda>w. Option.bind w (\<lambda>db. db)) (takeWhile (\<lambda>w. w \<noteq> None) waits)"

lemma loaded_config_of: "config_of t (loaded_config t)"
proof -
  have ups: "mset (map (\<lambda>u. (up_address u, up_port u, up_protocol u, up_priority u)) (load_upstreams (tb_upstreams t)))
       = mset (map (\<lambda>r. (us_address r, us_port r, us_protocol r, us_priority r)) (filter us_enabled (tb_upstreams t)))"
    "sorted (map up_priority (load_upstreams (tb_upstreams t)))"
    by (simp_all add: load_upstreams_def comp_def) (simp add: order_by_def)
  have lists: "load_blocklist_domains (tb_blocklists t) (tb_domains t) = {x. \<exists>l d. l \<in> set (tb_blocklists t) \<and> bl_enabled l
       \<and> d \<in> set (tb_domains t) \<and> bd_blocklist_id d = bl_id l \<and> bd_domain d = x}"
    by (rule set_eqI) (force simp: load_blocklist_mem enabled_ids_def bd_key_def)
  have local: "map local_of (filter P (tb_zone_records t)) = filter (\<lambda>r. rec_name r = name \<and> rec_rtype r = rtype)
      (load_local_records (tb_zones t) (tb_zone_records t))"
    if "\<And>r. P r \<longleftrightarrow> zr_name r = name \<and> zr_rtype r = rtype \<and> (\<exists>z. z \<in> set (tb_zones t) \<and> lz_enabled z \<and> lz_id z = zr_zone_id r)" for P name rtype
    unfolding load_local_records_of filter_map filter_filter that comp_def
    by (intro arg_cong [of _ _ "map local_of"] filter_cong) (auto simp: local_of_def image_iff)
  show ?thesis
    unfolding config_of_def loaded_config_def RuntimeState.select_convs
    by (intro conjI ups lists) (auto simp: load_rules_def load_blocklist_excluded_def load_trusted_networks_def LocalRecords_index local)
qed

lemma refresh_loaded: "state_refresh_loop sql_loaders waits (loaded_config t) = loaded_config (last (t # ready_tables waits))"
proof (induction waits arbitrary: t)
  case Nil
  show ?case by (simp add: ready_tables_def map_filter_simps)
next
  case (Cons w waits)
  show ?case
  proof (cases w)
    case None
    then show ?thesis by (simp add: ready_tables_def map_filter_simps)
  next
    case (Some db)
    then show ?thesis using Cons.IH
      by (cases db) (simp_all add: reload_config ready_tables_def map_filter_simps del: last.simps, simp)
  qed
qed

text \<open>C32: The server starts exactly when some attempt finds the databases ready, with the tables of the first attempt
  that does; and after any reloads the configuration in use is, part by part, what the tables held at the last
  reload that found them ready, or at the start when there was none.\<close>

theorem configuration_follows_tables:
  "case map_option (state_refresh_loop sql_loaders waits) (build_state sql_loaders dbs 0) of
     None \<Rightarrow> \<forall>k. dbs k = None
   | Some st \<Rightarrow> \<exists>k t. dbs k = Some t \<and> list_all (\<lambda>j. dbs j = None) [0..<k] \<and> config_of (last (t # ready_tables waits)) st"
proof (cases "build_state sql_loaders dbs 0")
  case None
  let ?f = "\<lambda>k. map_option loaded_config (dbs k)"
  have "\<not> (\<exists>k. ?f k \<noteq> None)"
  proof
    assume ex: "\<exists>k. ?f k \<noteq> None"
    from None have "?f (LEAST k. ?f k \<noteq> None) = None"
      unfolding build_state_def init_config retry_least if_P [OF ex] .
    with LeastI_ex [OF ex] show False by (rule notE)
  qed
  with None show ?thesis by simp
next
  case (Some st)
  then obtain k where k: "map_option loaded_config (dbs k) = Some st" "\<forall>j. 0 \<le> j \<and> j < k \<longrightarrow> map_option loaded_config (dbs j) = None"
    using retry_Some [of "\<lambda>k. map_option loaded_config (dbs k)"] unfolding build_state_def init_config by blast
  then obtain t where t: "dbs k = Some t" "st = loaded_config t" by auto
  have "list_all (\<lambda>j. dbs j = None) [0..<k]" using k(2) by (simp add: list_all_iff)
  with t(1) loaded_config_of show ?thesis
    unfolding Some t(2) option.map option.case refresh_loaded by blast
qed

text \<open>C2: Once a name of an enabled list, not itself exempted, has been downloaded and stored, and the configuration reloaded, the
  trusted clients that are not exempt from the blocklists are answered NXDOMAIN for the name and for all names
  below it, whatever the caches, the upstreams and the other tables hold. Three kinds of queries are excluded, as
  in the code: those that an override rule answers, AAAA queries while IPv6 is off, and suppressed private PTR
  queries.\<close>

theorem downloaded_name_blocked:
  assumes "re_stores F" "reply_ok D" "listing_ok (re_listing F)" "domains_ok (bs_domains store)" "distinct (map bl_id (bs_lists store))"
    and "get_row bl_id i (bs_lists store) = Some row" "bl_enabled row" "blocklist_text F (bl_url row) = Inr body"
    and "x \<in> set (parse_blocklist body)" "x \<notin> ov_domain ` set (bs_overrides store)"
    and "state_reload sql_loaders (Some (db\<lparr>tb_blocklists := bs_lists (snd (refresh_blocklist i F store)),
           tb_domains := bs_domains (snd (refresh_blocklist i F store))\<rparr>)) old = Some (rs_state (dv_core self))"
    and "x \<in> set (domain_suffixes (normalize_domain (qn_name (msg_q rq))))"
    and "dl_parse D packet = Some rq" "server_is_trusted self client" "client \<notin> load_blocklist_excluded (tb_hosts db)"
    and "\<not> private_ptr_drop rq (rs_state (dv_core self))"
    and "qn_type (msg_q rq) = QTYPE_AAAA \<longrightarrow> ipv6_enabled (rt_settings (rs_state (dv_core self)))"
    and "policy_action (rs_state (dv_core self)) client (qn_name (msg_q rq)) \<noteq> ACTION_OVERRIDE"
  shows "\<exists>m. fst (server_handle D E now client packet self) = Some m \<and> msg_rcode m = RCODE_NXDOMAIN
    \<and> msg_id m = msg_id rq \<and> msg_rr m = []"
proof -
  let ?st = "rs_state (dv_core self)"
  have st: "?st = loaded_config (db\<lparr>tb_blocklists := bs_lists (snd (refresh_blocklist i F store)),
           tb_domains := bs_domains (snd (refresh_blocklist i F store))\<rparr>)"
    using assms(11) by (simp add: reload_config)
  have "x \<in> rt_blocklist ?st"
    using refresh_blocklist_loaded [OF assms(3-8,1)] assms(9,10) unfolding st by (simp add: loaded_config_def)
  then have "is_blocked (rt_blocklist ?st) (normalize_domain (qn_name (msg_q rq)))"
    using assms(12) by (auto simp: is_blocked_def list_ex_iff)
  moreover have "client \<notin> rt_blocklist_excluded ?st" using assms(15) unfolding st by (simp add: loaded_config_def)
  ultimately have "\<exists>result. screen D E rq client (dv_core self) = (Some (deny D rq, result), dv_core self)"
    using assms(17,18) by (auto simp: screen_def Let_def policy_action_def split: option.splits)
  then have "fst (handle D E rq client (dv_core self)) = Some (deny D rq)" using assms(16) by (auto simp: handle_def)
  then have "fst (server_handle D E now client packet self) = Some (deny D rq)"
    using assms(13,14) by (auto simp: server_handle_def server_resolve_def Let_def split: prod.splits)
  with assms(2) show ?thesis by (simp add: deny_def reply_fields)
qed

theorem downloaded_name_blocked_witness:
  "let row = \<lparr>bl_id = 1, bl_name = ''l'', bl_url = ''http://h/l'', bl_update_interval_hours = 24, bl_enabled = True, bl_domain_count = 0,
         bl_last_downloaded_at = None, bl_last_status = None, bl_format = None, bl_created_at = 0, bl_updated_at = 0\<rparr>;
       store = \<lparr>bs_lists = [row], bs_domains = [], bs_overrides = [], bs_sizes = []\<rparr>;
       F = \<lparr>re_net = (\<lambda>url. Inr ''ads.example''), re_decode = (\<lambda>b. b), re_listing = sorted_list_of_set, re_now = 7, re_done = 8, re_stamp = 8, re_stores = True, re_records = True\<rparr>;
       store' = snd (refresh_blocklist 1 F store);
       db = \<lparr>tb_settings = [], tb_policies = [], tb_upstreams = [], tb_networks = [], tb_blocklists = bs_lists store',
         tb_domains = bs_domains store', tb_hosts = [], tb_zones = [], tb_zone_records = []\<rparr>;
       self = \<lparr>dv_core = example_state (loaded_config db), dv_hosts = HostTracker_init 5 10\<rparr>
   in \<exists>m. fst (server_handle toy_dnslib (example_env 0 0) 0 ''10.0.0.9'' (example_question ''X.ads.example'' 1) self) = Some m
      \<and> msg_rcode m = RCODE_NXDOMAIN"
proof -
  let ?row = "\<lparr>bl_id = 1, bl_name = ''l'', bl_url = ''http://h/l'', bl_update_interval_hours = 24, bl_enabled = True, bl_domain_count = 0,
         bl_last_downloaded_at = None, bl_last_status = None, bl_format = None, bl_created_at = 0, bl_updated_at = 0\<rparr>"
  let ?store = "\<lparr>bs_lists = [?row], bs_domains = [], bs_overrides = [], bs_sizes = []\<rparr>"
  let ?F = "\<lparr>re_net = (\<lambda>url. Inr ''ads.example''), re_decode = (\<lambda>b. b), re_listing = sorted_list_of_set, re_now = 7, re_done = 8, re_stamp = 8, re_stores = True, re_records = True\<rparr>"
  let ?store' = "snd (refresh_blocklist 1 ?F ?store)"
  let ?db = "\<lparr>tb_settings = [], tb_policies = [], tb_upstreams = [], tb_networks = [], tb_blocklists = bs_lists ?store',
         tb_domains = bs_domains ?store', tb_hosts = [], tb_zones = [], tb_zone_records = []\<rparr>"
  let ?self = "\<lparr>dv_core = example_state (loaded_config ?db), dv_hosts = HostTracker_init 5 10\<rparr>"
  have url: "url_parts ''http://h/l'' = Some (''http'', ''h'')" by code_simp
  have "blocklist_text ?F ''http://h/l'' = Inr ''ads.example''"
    by (simp add: blocklist_text_def fetch_text_def url BLOCKLIST_MAX_BYTES_def)
  then have body: "blocklist_text ?F (bl_url ?row) = Inr ''ads.example''" by simp
  have names: "''ads.example'' \<in> set (parse_blocklist ''ads.example'')" by code_simp
  have suffix: "''ads.example'' \<in> set (domain_suffixes (normalize_domain ''X.ads.example''))" by code_simp
  have action: "default_action (load_runtime_settings []) \<noteq> ACTION_OVERRIDE" by code_simp
  have get: "get_row bl_id 1 (bs_lists ?store) = Some ?row" by (simp add: get_row_def)
  have "\<exists>m. fst (server_handle toy_dnslib (example_env 0 0) 0 ''10.0.0.9'' (example_question ''X.ads.example'' 1) ?self) = Some m
      \<and> msg_rcode m = RCODE_NXDOMAIN \<and> msg_id m = msg_id (example_question ''X.ads.example'' 1) \<and> msg_rr m = []"
    by (rule downloaded_name_blocked [OF _ dnslib_okD(1) [OF toy_dnslib_ok] _ _ _ get _ body names, where db = ?db])
      (use suffix action in \<open>simp_all add: listing_sorted domains_ok_def reload_config example_state_def example_question_def
        toy_dnslib_def server_is_trusted_def resolver_is_trusted_def loaded_config_def load_trusted_networks_def from_cidrs_def
        is_trusted_def load_blocklist_excluded_def private_ptr_drop_def qtype_defs policy_action_def load_rules_def
        select_policy_def\<close>)
  then show ?thesis unfolding Let_def by blast
qed

text \<open>C3: Once the file of an enabled zone with an A or AAAA record for a name has been downloaded and stored, and the configuration
  reloaded, a trusted client that asks for the name and that type is answered the address under the name it asked
  for, with the TTL of the file, and the answer touches neither the cache nor the upstreams. Names that a deny or
  override rule or a blocklist decides for the client are excluded, as are AAAA queries while IPv6 is off; the TTLs
  of the file must fit the database and those of the records of the name a DNS record, or the answer raises, and the
  library must accept the address.\<close>

theorem downloaded_zone_answered:
  assumes "re_stores F" "record_ok D" "get_row lz_id z (zs_zones store) = Some row" "lz_enabled row" "zone_text F (lz_url row) = Inr body"
    and "parse_zone body DEFAULT_TTL = Some records" "\<forall>r \<in> set records. sqlite_int (rec_ttl r)" "r \<in> set records"
    and "(rec_rtype r, qn_type (msg_q rq)) \<in> {(RTYPE_A, QTYPE_A), (RTYPE_AAAA, QTYPE_AAAA)}"
    and "state_reload sql_loaders (Some (db\<lparr>tb_zones := zs_zones (snd (refresh_local_zone z F store)),
           tb_zone_records := zs_records (snd (refresh_local_zone z F store))\<rparr>)) old = Some (rs_state (dv_core self))"
    and "\<forall>l \<in> set (local_get (rt_local_records (rs_state (dv_core self))) (rec_name r) (rec_rtype r)). ttl_fits (rec_ttl l)"
    and "build_addr_rdata D (qn_type (msg_q rq)) (rec_value r) = Some data" "dl_parse D packet = Some rq" "server_is_trusted self client"
    and "normalize_domain (qn_name (msg_q rq)) = rec_name r"
    and "qn_type (msg_q rq) = QTYPE_AAAA \<longrightarrow> ipv6_enabled (rt_settings (rs_state (dv_core self)))"
    and "policy_action (rs_state (dv_core self)) client (qn_name (msg_q rq)) \<notin> {ACTION_OVERRIDE, ACTION_DENY}"
    and "client \<in> rt_blocklist_excluded (rs_state (dv_core self)) \<or> \<not> is_blocked (rt_blocklist (rs_state (dv_core self))) (rec_name r)"
  shows "\<exists>m. fst (server_handle D E now client packet self) = Some m
    \<and> \<lparr>rr_name = qn_name (msg_q rq), rr_type = qn_type (msg_q rq), rr_ttl = rec_ttl r, rr_data = data\<rparr> \<in> set (msg_rr m)
    \<and> rs_cache (dv_core (snd (server_handle D E now client packet self))) = rs_cache (dv_core self)
    \<and> rs_rtt (dv_core (snd (server_handle D E now client packet self))) = rs_rtt (dv_core self)"
proof -
  let ?st = "rs_state (dv_core self)" and ?q = "qn_name (msg_q rq)" and ?t = "qn_type (msg_q rq)"
  have "r \<in> set (load_local_records (zs_zones (snd (refresh_local_zone z F store))) (zs_records (snd (refresh_local_zone z F store))))"
    using refresh_zone_loaded [OF assms(3-7,1)] assms(8) by blast
  moreover have "?st = loaded_config (db\<lparr>tb_zones := zs_zones (snd (refresh_local_zone z F store)),
           tb_zone_records := zs_records (snd (refresh_local_zone z F store))\<rparr>)"
    using assms(10) by (simp add: reload_config)
  ultimately obtain rs where rs: "rt_local_records ?st = LocalRecords_init rs" "r \<in> set rs" by (auto simp: loaded_config_def)
  have get: "r \<in> set (local_get (rt_local_records ?st) (rec_name r) (rec_rtype r))" and own: "local_owns (rt_local_records ?st) (rec_name r)"
    using LocalRecords_index [of rs "rec_name r" "rec_rtype r"] rs by auto
  from add_addresses_all [OF assms(2,11), of ?q ?t "dl_reply D rq"] get assms(12)
  obtain as where as: "add_addresses D ?q ?t (local_get (rt_local_records ?st) (rec_name r) (rec_rtype r)) (dl_reply D rq)
        = Some ((dl_reply D rq)\<lparr>msg_rr := msg_rr (dl_reply D rq) @ as\<rparr>)"
      "\<lparr>rr_name = ?q, rr_type = ?t, rr_ttl = rec_ttl r, rr_data = data\<rparr> \<in> set as"
    by blast
  let ?m = "(dl_reply D rq)\<lparr>msg_rr := msg_rr (dl_reply D rq) @ as\<rparr>"
  have t: "?t = QTYPE_A \<or> ?t = QTYPE_AAAA" "rec_rtype r = (if ?t = QTYPE_A then RTYPE_A else RTYPE_AAAA)"
    using assms(9) by (auto simp: qtype_defs)
  have "add_address_chain D (dl_reply D rq) ?q (rec_name r) ?t (rt_local_records ?st) 0 = Some ?m"
    using get as(1) unfolding t(2) by (auto simp: add_address_chain.simps [of D "dl_reply D rq" ?q] Let_def)
  then have "local_answer D rq (rt_local_records ?st) = Some (Some ?m)"
    using own assms(15) t(1) by (auto simp: local_answer_def Let_def)
  then have "screen D E rq client (dv_core self) = (Some (?m, ''local''), dv_core self)"
    using assms(15-18) by (auto simp: screen_def resolve_local_or_forward_def Let_def policy_action_def split: option.splits)
  moreover have "\<not> private_ptr_drop rq ?st" using t(1) by (auto simp: private_ptr_drop_def Let_def qtype_defs)
  ultimately have "handle D E rq client (dv_core self) = (Some ?m, record_query D E rq client ?m ''local'' (dv_core self))"
    by (simp add: handle_def)
  then show ?thesis
    using assms(13,14) as(2) by (auto simp: server_handle_def server_resolve_def Let_def record_query_def)
qed

theorem downloaded_zone_answered_witness:
  "let row = \<lparr>lz_id = 1, lz_name = ''z'', lz_url = ''http://h/z'', lz_update_interval_seconds = 60, lz_enabled = True,
         lz_record_count = 0, lz_last_downloaded_at = None, lz_last_status = None, lz_created_at = 0, lz_updated_at = 0\<rparr>;
       store = \<lparr>zs_zones = [row], zs_records = []\<rparr>;
       F = \<lparr>re_net = (\<lambda>url. Inr ''192.0.2.10, NAS.lan., 60''), re_decode = (\<lambda>b. b), re_listing = sorted_list_of_set,
         re_now = 7, re_done = 8, re_stamp = 8, re_stores = True, re_records = True\<rparr>;
       store' = snd (refresh_local_zone 1 F store);
       db = \<lparr>tb_settings = [], tb_policies = [], tb_upstreams = [], tb_networks = [], tb_blocklists = [], tb_domains = [],
         tb_hosts = [], tb_zones = zs_zones store', tb_zone_records = zs_records store'\<rparr>;
       self = \<lparr>dv_core = example_state (loaded_config db), dv_hosts = HostTracker_init 5 10\<rparr>
   in \<exists>m. fst (server_handle toy_dnslib (example_env 0 0) 0 ''10.0.0.9'' (example_question ''Nas.lan'' 1) self) = Some m
      \<and> \<lparr>rr_name = ''Nas.lan'', rr_type = 1, rr_ttl = 60, rr_data = ''192.0.2.10''\<rparr> \<in> set (msg_rr m)"
proof -
  let ?row = "\<lparr>lz_id = 1, lz_name = ''z'', lz_url = ''http://h/z'', lz_update_interval_seconds = 60, lz_enabled = True,
         lz_record_count = 0, lz_last_downloaded_at = None, lz_last_status = None, lz_created_at = 0, lz_updated_at = 0\<rparr>"
  let ?store = "\<lparr>zs_zones = [?row], zs_records = []\<rparr>"
  let ?F = "\<lparr>re_net = (\<lambda>url. Inr ''192.0.2.10, NAS.lan., 60''), re_decode = (\<lambda>b. b), re_listing = sorted_list_of_set,
         re_now = 7, re_done = 8, re_stamp = 8, re_stores = True, re_records = True\<rparr>"
  let ?store' = "snd (refresh_local_zone 1 ?F ?store)"
  let ?db = "\<lparr>tb_settings = [], tb_policies = [], tb_upstreams = [], tb_networks = [], tb_blocklists = [], tb_domains = [],
         tb_hosts = [], tb_zones = zs_zones ?store', tb_zone_records = zs_records ?store'\<rparr>"
  let ?self = "\<lparr>dv_core = example_state (loaded_config ?db), dv_hosts = HostTracker_init 5 10\<rparr>"
  let ?r = "\<lparr>rec_name = ''nas.lan'', rec_rtype = ''A'', rec_value = ''192.0.2.10'', rec_ttl = 60\<rparr>"
  have url: "url_parts ''http://h/z'' = Some (''http'', ''h'')" by code_simp
  have body: "zone_text ?F (lz_url ?row) = Inr ''192.0.2.10, NAS.lan., 60''"
    by (simp add: zone_text_def fetch_text_def url ZONE_MAX_BYTES_def)
  have get: "get_row lz_id 1 (zs_zones ?store) = Some ?row" by (simp add: get_row_def)
  have name: "normalize_domain ''Nas.lan'' = rec_name ?r" by code_simp
  have action: "default_action (load_runtime_settings []) \<notin> {ACTION_OVERRIDE, ACTION_DENY}" by code_simp
  have fits: "\<forall>r \<in> set example_zone_records. sqlite_int (rec_ttl r)" by (simp add: example_zone_records_def sqlite_int_def)
  have mem: "?r \<in> set example_zone_records" by (simp add: example_zone_records_def)
  obtain d where d: "replace_records 1 example_zone_records [] = Inr d"
      "map local_of (filter (\<lambda>r. zr_zone_id r = 1) d) = example_zone_records"
    using replace_records_exact [of example_zone_records 1 "[]"] parse_zone_ok [OF example_zone_text] fits by blast
  have "zone_success 8 8 1 2 [?row] = [?row\<lparr>lz_record_count := 2, lz_last_status := Some (''ok: '' @ int_str 2 @ '' records''),
      lz_last_downloaded_at := Some 8, lz_updated_at := 8\<rparr>]"
    by (simp add: zone_success_def get_row_def replace_row_def touch_zone_def)
  moreover have "length example_zone_records = 2" by (simp add: example_zone_records_def)
  moreover have "?store' = \<lparr>zs_zones = zone_success 8 8 1 (int (length example_zone_records)) [?row], zs_records = d\<rparr>"
    using refresh_local_zone_ok [OF get body example_zone_text] d(1) by simp
  ultimately have "load_local_records (zs_zones ?store') (zs_records ?store') = example_zone_records"
    using d(2) by (simp add: load_local_records_of)
  then have loaded: "rt_local_records (loaded_config ?db) = LocalRecords_init example_zone_records" by (simp add: loaded_config_def)
  have core: "rs_state (dv_core ?self) = loaded_config ?db" by (simp add: example_state_def)
  have ttl: "\<forall>l \<in> set (local_get (rt_local_records (rs_state (dv_core ?self))) (rec_name ?r) (rec_rtype ?r)). ttl_fits (rec_ttl l)"
    unfolding core loaded by (simp add: LocalRecords_index example_zone_records_def ttl_fits_def)
  have reload: "state_reload sql_loaders (Some (?db\<lparr>tb_zones := zs_zones ?store', tb_zone_records := zs_records ?store'\<rparr>)) RuntimeState_empty
      = Some (rs_state (dv_core ?self))"
    unfolding core by (simp add: reload_config)
  have "\<exists>m. fst (server_handle toy_dnslib (example_env 0 0) 0 ''10.0.0.9'' (example_question ''Nas.lan'' 1) ?self) = Some m
      \<and> \<lparr>rr_name = qn_name (msg_q (example_question ''Nas.lan'' 1)), rr_type = qn_type (msg_q (example_question ''Nas.lan'' 1)), rr_ttl = rec_ttl ?r, rr_data = ''192.0.2.10''\<rparr> \<in> set (msg_rr m)
      \<and> rs_cache (dv_core (snd (server_handle toy_dnslib (example_env 0 0) 0 ''10.0.0.9'' (example_question ''Nas.lan'' 1) ?self))) = rs_cache (dv_core ?self)
      \<and> rs_rtt (dv_core (snd (server_handle toy_dnslib (example_env 0 0) 0 ''10.0.0.9'' (example_question ''Nas.lan'' 1) ?self))) = rs_rtt (dv_core ?self)"
    by (rule downloaded_zone_answered [OF _ dnslib_okD(3) [OF toy_dnslib_ok] get _ body example_zone_text fits mem _ reload ttl])
      (use name action in \<open>simp_all add: example_state_def example_question_def
        toy_dnslib_def server_is_trusted_def resolver_is_trusted_def loaded_config_def load_trusted_networks_def from_cidrs_def
        is_trusted_def load_blocklist_excluded_def qtype_defs rtype_defs policy_action_def load_rules_def
        select_policy_def build_addr_rdata_def is_blocked_def load_blocklist_domains_def list_ex_iff\<close>)
  then show ?thesis unfolding Let_def by (auto simp: example_question_def qtype_defs)
qed

text \<open>A flush request clears the cache of the server at its next poll exactly when it was made in another second than
  the request the server saw last: the second of two requests of one second is lost, whatever was cached between
  them.\<close>

theorem flush_request_clears:
  assumes "inj fmt"
  shows "flusher_loop (get_cache_flush_request (snd (request_cache_flush fmt t0 s0)))
      ((serve, Polled (get_cache_flush_request (snd (request_cache_flush fmt t1 s1)))) # waits) cache =
    flusher_loop (Some (fmt (t1 div 1000000))) waits
      (if t0 div 1000000 = t1 div 1000000 then serve cache else cache_clear (serve cache))"
  using injD [OF assms] by (auto simp: flush_request_stored Let_def)

theorem flush_request_clears_witness:
  "flusher_loop (get_cache_flush_request (snd (request_cache_flush int_str 5000100 [])))
     [(cache_set 0 ''k'' ''v'' 60, Polled (get_cache_flush_request (snd (request_cache_flush int_str 5900000 []))))] (TTLCache_init 10)
   = cache_set 0 ''k'' ''v'' 60 (TTLCache_init 10)"
proof -
  from flush_request_clears [OF inj_int_str, of 5000100 "[]" "cache_set 0 ''k'' ''v'' 60" 5900000 "[]" "[]" "TTLCache_init 10"]
  show ?thesis by (simp del: flusher_loop.simps(2))
qed

text \<open>A seeded rule among rules of other clients: it yields to all but the rules for all clients and all names.\<close>

lemma seeded_rule_decides:
  assumes "\<forall>q \<in> set us \<union> set vs. rule_client q \<noteq> WILDCARD \<and> rule_client q \<noteq> ip"
    and "rule_client x = ip" "rule_domain x = WILDCARD" "ip \<noteq> WILDCARD"
  shows "select_policy (rules @ us @ x # vs) ip qname =
    (case select_policy rules ip qname of
       Some r \<Rightarrow> if rule_client r = WILDCARD \<and> normalize_domain (rule_domain r) = WILDCARD then Some x else Some r
     | None \<Rightarrow> Some x)"
proof -
  let ?n = "normalize_domain qname"
  have wild: "normalize_domain WILDCARD = WILDCARD" by code_simp
  have skip: "\<forall>q \<in> set us \<union> set vs. rule_key ip ?n q = None" using assms(1) by (simp add: rule_key_def client_matches_def)
  have x: "rule_key ip ?n x = Some (0, 1)"
    using assms(2-4) by (simp add: rule_key_def client_matches_def domain_specificity_norm wild Let_def)
  show ?thesis
  proof (cases "select_policy rules ip qname")
    case None
    then show ?thesis using scan_max_one [OF skip x, of None None] by (simp add: select_policy_def select_loop_scan scan_max_append)
  next
    case (Some r)
    then have "rule_key ip ?n r \<noteq> None" by (auto simp: select_policy_wins first_max_def)
    then obtain d c where k: "rule_key ip ?n r = Some (d, c)" by force
    have "c = 0 \<longleftrightarrow> rule_client r = WILDCARD" using k by (auto simp: rule_key_def split: if_splits)
    moreover have "d = 0 \<longleftrightarrow> normalize_domain (rule_domain r) = WILDCARD"
      using k by (auto simp: rule_key_def domain_specificity_norm Let_def split: if_splits)
    moreover have "(d, c) < (0, 1) \<longleftrightarrow> d = 0 \<and> c = 0" by auto
    ultimately show ?thesis using Some k scan_max_one [OF skip x, of "Some r" "Some (d, c)"]
      by (simp add: select_policy_def select_loop_scan scan_max_append)
  qed
qed

text \<open>C35: A client seen for the first time gets a rule for all names with the default action of that time, provided that
  the writes of the seeding commit, even when the inventory fails. From the next reload on this rule decides every name of the client that was undecided or decided
  by a rule for all clients and all names; a name that a more specific rule decided keeps its decision. So no name
  of the client depends on a later change of the default action.\<close>

theorem new_client_seeded:
  assumes "policies_ok (vd_policies db)" "\<forall>ip. vy_seed_commits (E ip)" "set (listing ips) = ips"
    and "ip \<in> ips" "client_row ip (vd_policies db) = None" "WILDCARD \<notin> ips"
  shows "\<exists>rule \<in> set (load_rules (vd_policies (on_discover listing api_url state E ips db))).
      rule_client rule = ip \<and> rule_domain rule = WILDCARD \<and> rule_action rule = default_action (rt_settings state)
      \<and> (\<forall>qname. select_policy (load_rules (vd_policies (on_discover listing api_url state E ips db))) ip qname =
           (case select_policy (load_rules (vd_policies db)) ip qname of
              Some r \<Rightarrow> if rule_client r = WILDCARD \<and> normalize_domain (rule_domain r) = WILDCARD then Some rule else Some r
            | None \<Rightarrow> Some rule))"
proof -
  let ?t = "vd_policies (on_discover listing api_url state E ips db)"
  have fold: "policies_ok ?t" "client_row ip ?t \<noteq> None \<and> pol_action (the (client_row ip ?t)) = default_action (rt_settings state)
      \<and> pol_enabled (the (client_row ip ?t))"
    using discover_fold [OF assms(1,2), of api_url "default_action (rt_settings state)" "listing ips"] assms(3-5)
    by (auto simp: on_discover_def Let_def dest!: spec [of _ ip])
  then obtain row where row: "client_row ip ?t = Some row" "pol_action row = default_action (rt_settings state)" "pol_enabled row" by auto
  from discover_appends [of api_url "default_action (rt_settings state)" E "listing ips" db] obtain rows where
    rows: "?t = vd_policies db @ rows" "\<forall>r \<in> set rows. pol_enabled r \<and> pol_client r \<in> ips \<and> pol_domain r = WILDCARD"
    using assms(3) by (auto simp: on_discover_def Let_def)
  have mem: "pol_client row = ip" "pol_domain row = WILDCARD" "row \<in> set rows"
    using client_row_Some [OF row(1)] assms(5) unfolding rows(1) by (auto simp: client_row_None)
  from mem(3) obtain us vs where split: "rows = us @ row # vs" by (auto dest: split_list)
  have "distinct (map pol_key rows)" using fold(1) unfolding rows(1) by (simp add: policies_ok_def)
  then have keys: "\<forall>r \<in> set us \<union> set vs. pol_key r \<noteq> pol_key row" unfolding split by (auto simp: image_iff)
  have others: "\<forall>r \<in> set us \<union> set vs. pol_client r \<noteq> ip \<and> pol_client r \<noteq> WILDCARD"
  proof
    fix r assume r: "r \<in> set us \<union> set vs"
    then have "pol_client r \<in> ips" "pol_domain r = WILDCARD" using rows(2) unfolding split by auto
    with keys r mem(1,2) assms(6) show "pol_client r \<noteq> ip \<and> pol_client r \<noteq> WILDCARD" by (auto simp: pol_key_def)
  qed
  have on: "filter pol_enabled us = us" "filter pol_enabled vs = vs" using rows(2) unfolding split by simp_all
  have rules: "load_rules ?t = load_rules (vd_policies db) @ map policy_rule us @ policy_rule row # map policy_rule vs"
    unfolding rows(1) split using row(3) on by (simp add: load_rules_def)
  have "policy_rule row \<in> set (load_rules ?t)" unfolding rules by simp
  moreover have "select_policy (load_rules ?t) ip qname = (case select_policy (load_rules (vd_policies db)) ip qname of
      Some r \<Rightarrow> if rule_client r = WILDCARD \<and> normalize_domain (rule_domain r) = WILDCARD then Some (policy_rule row) else Some r
    | None \<Rightarrow> Some (policy_rule row))" for qname
    unfolding rules
    by (rule seeded_rule_decides) (use others mem(1,2) assms(4,6) in \<open>auto simp: policy_rule_def\<close>)
  ultimately show ?thesis using row(2) mem(1,2) by (intro bexI [of _ "policy_rule row"]) (simp_all add: policy_rule_def)
qed

theorem new_client_seeded_witness:
  "\<exists>rule. select_policy (load_rules (vd_policies (on_discover (\<lambda>ips. [''10.0.0.7'']) [] RuntimeState_empty
      (\<lambda>ip. \<lparr>vy_now = 5, vy_seed_commits = True, vy_sync_commits = True, vy_net = (\<lambda>url. SandoFails OtherException)\<rparr>)
      {''10.0.0.7''} \<lparr>vd_policies = [(wildcard_policy 3 WILDCARD ''deny'')\<lparr>pol_id := 1\<rparr>], vd_hosts = [], vd_stats = []\<rparr>)))
      ''10.0.0.7'' ''a.org'' = Some rule \<and> rule_client rule = ''10.0.0.7'' \<and> rule_action rule = ''forward''"
proof -
  let ?all = "(wildcard_policy 3 WILDCARD ''deny'')\<lparr>pol_id := 1\<rparr>"
  let ?db = "\<lparr>vd_policies = [?all], vd_hosts = [], vd_stats = []\<rparr>"
  let ?E = "\<lambda>ip :: string. \<lparr>vy_now = 5, vy_seed_commits = True, vy_sync_commits = True, vy_net = (\<lambda>url. SandoFails OtherException)\<rparr>"
  have ok: "policies_ok (vd_policies ?db)" by (simp add: policies_ok_def)
  have row: "client_row ''10.0.0.7'' (vd_policies ?db) = None" by (simp add: client_row_def wildcard_policy_def WILDCARD_def)
  have forward: "default_action (rt_settings RuntimeState_empty) = ''forward''"
    by (simp add: RuntimeState_empty_def RuntimeSettings_default_def)
  have commits: "\<forall>ip. vy_seed_commits (?E ip)" by simp
  have listing: "set [''10.0.0.7''] = {''10.0.0.7''}" by simp
  have all: "select_policy (load_rules (vd_policies ?db)) ''10.0.0.7'' ''a.org'' = Some (policy_rule ?all)"
    "rule_client (policy_rule ?all) = WILDCARD" "normalize_domain (rule_domain (policy_rule ?all)) = WILDCARD"
    by code_simp+
  have "WILDCARD \<notin> {''10.0.0.7''}" by (simp add: WILDCARD_def)
  from new_client_seeded [where listing = "\<lambda>ips. [''10.0.0.7'']" and ips = "{''10.0.0.7''}", OF ok commits listing insertI1 row this,
      of "[]" RuntimeState_empty]
  obtain rule where rule: "rule_client rule = ''10.0.0.7''" "rule_action rule = ''forward''"
    "\<forall>qname. select_policy (load_rules (vd_policies (on_discover (\<lambda>ips. [''10.0.0.7'']) [] RuntimeState_empty ?E {''10.0.0.7''} ?db))) ''10.0.0.7'' qname =
           (case select_policy (load_rules (vd_policies ?db)) ''10.0.0.7'' qname of
              Some r \<Rightarrow> if rule_client r = WILDCARD \<and> normalize_domain (rule_domain r) = WILDCARD then Some rule else Some r
            | None \<Rightarrow> Some rule)"
    unfolding forward by blast
  from spec [OF rule(3), of "''a.org''"] have "select_policy (load_rules (vd_policies (on_discover (\<lambda>ips. [''10.0.0.7'']) [] RuntimeState_empty ?E
      {''10.0.0.7''} ?db))) ''10.0.0.7'' ''a.org'' = Some rule" unfolding all(1) using all(2,3) by simp
  with rule(1,2) show ?thesis by blast
qed

theorem trusted_always_answered_witness:
  "\<exists>reply. fst (server_handle toy_dnslib (example_env 0 0) 0 ''10.0.0.9'' (example_question ''x.bad.org'' 1)
      \<lparr>dv_core = example_state example_config, dv_hosts = HostTracker_init 5 10\<rparr>) = Some reply"
  using trusted_always_answered [of "\<lparr>dv_core = example_state example_config, dv_hosts = HostTracker_init 5 10\<rparr>" "''10.0.0.9''"
      toy_dnslib "example_question ''x.bad.org'' 1" "example_question ''x.bad.org'' 1", OF _ _ dnslib_okD(1) [OF toy_dnslib_ok]]
  by (auto simp: server_is_trusted_def resolver_is_trusted_def example_state_def example_config_def RuntimeState_empty_def
      is_trusted_def toy_dnslib_def)

theorem probes_fill_gaps_witness:
  "\<exists>rtt'. probe_rtt_gaps toy_dnslib
      \<lparr>pe_now = 0, pe_mark_now = (\<lambda>i. 1), pe_add_now = (\<lambda>i. 2), pe_send = (\<lambda>i address port tcp timeout rq. None), pe_elapsed = (\<lambda>i. 1)\<rparr>
      example_config example_config (UpstreamRttBuffer_init 5) = (rt_upstreams example_config, True, rtt')"
proof -
  let ?E = "\<lparr>pe_now = 0, pe_mark_now = (\<lambda>i. 1), pe_add_now = (\<lambda>i. 2), pe_send = (\<lambda>i address port tcp timeout rq. None), pe_elapsed = (\<lambda>i. 1)\<rparr>"
  have "distinct (map up_address (rt_upstreams example_config))" by (simp add: example_config_def example_upstream_def)
  from probes_fill_gaps [OF this, of ?E 0 toy_dnslib "UpstreamRttBuffer_init 5"] show ?thesis
    by (simp add: floor_hour_def) (auto simp: uncovered_def UpstreamRttBuffer_init_def example_config_def)
qed

text \<open>Of two upstreams with one address, a round of probes contacts the second twice and the first never, so an
  unreachable address is tried twice in the hour.\<close>

theorem shared_address_probed_twice:
  assumes "rt_upstreams st = [u, v]" "up_address u = up_address v" "uncovered (pe_now E) [up_address v] rtt \<noteq> []"
  shows "fst (probe_rtt_gaps D E st st rtt) = [v, v]"
proof -
  have "uncovered (pe_now E) (map up_address [u, v]) rtt = [up_address v, up_address v]"
    using assms(2,3) by (auto simp: uncovered_filter split: if_splits)
  then show ?thesis
    using assms(1,2) by (auto simp: probe_rtt_gaps_def servers_by_address_def Let_def split: prod.split)
qed

theorem shared_address_probed_twice_witness:
  "fst (probe_rtt_gaps toy_dnslib
      \<lparr>pe_now = 0, pe_mark_now = (\<lambda>i. 1), pe_add_now = (\<lambda>i. 2), pe_send = (\<lambda>i address port tcp timeout rq. None), pe_elapsed = (\<lambda>i. 1)\<rparr>
      (RuntimeState_empty\<lparr>rt_upstreams := [example_upstream ''9.9.9.9'' 1, example_upstream ''9.9.9.9'' 2]\<rparr>)
      (RuntimeState_empty\<lparr>rt_upstreams := [example_upstream ''9.9.9.9'' 1, example_upstream ''9.9.9.9'' 2]\<rparr>) (UpstreamRttBuffer_init 5))
    = [example_upstream ''9.9.9.9'' 2, example_upstream ''9.9.9.9'' 2]"
  by (rule shared_address_probed_twice [where u = "example_upstream ''9.9.9.9'' 1"])
    (simp_all add: example_upstream_def uncovered_def UpstreamRttBuffer_init_def)

end
