(* ===== verification/CappedTables.thy ===== *)
theory CappedTables
  imports CounterTables
begin

text \<open>
  The tables that keep only their newest rows: \<open>repository/foreign_clients.py\<close> and
  \<open>repository/uncacheable.py\<close>. Their buffers drop keys beyond a bound and the tables drop rows, so what
  is stored is at most what was recorded.
\<close>

section \<open>Foreign clients\<close>

definition MAX_FOREIGN_CLIENTS :: nat where
  "MAX_FOREIGN_CLIENTS = 1000"

record ForeignClient =
  fcl_id :: int
  fcl_ip :: string
  fcl_hits :: int
  fcl_first_seen :: datetime
  fcl_last_seen :: datetime

definition foreign_client_dict :: "ForeignClient \<Rightarrow> json_dict" where
  "foreign_client_dict row =
     [(''id'', JInt (fcl_id row)), (''ip'', JStr (fcl_ip row)), (''hits'', JInt (fcl_hits row)),
      (''first_seen'', JTime (fcl_first_seen row)), (''last_seen'', JTime (fcl_last_seen row))]"

definition put_foreign_client :: "datetime \<Rightarrow> ForeignClientAgg \<Rightarrow> ForeignClient list \<Rightarrow> ForeignClient list" where
  "put_foreign_client now row t =
     upsert (\<lambda>r. fcl_ip r = fca_ip row)
       \<lparr>fcl_id = next_id (map fcl_id t), fcl_ip = fca_ip row, fcl_hits = fca_hits row,
        fcl_first_seen = now, fcl_last_seen = now\<rparr>
       (\<lambda>r. r\<lparr>fcl_hits := fcl_hits r + fca_hits row, fcl_last_seen := now\<rparr>) t"

definition cap_foreign_clients :: "datetime \<Rightarrow> ForeignClient list \<Rightarrow> ForeignClient list" where
  "cap_foreign_clients now t = keep_newest MAX_FOREIGN_CLIENTS fcl_last_seen fcl_id t"

definition record_foreign_clients :: "write_env \<Rightarrow> ForeignClientAgg list \<Rightarrow> ForeignClient list \<Rightarrow> ForeignClient list option" where
  "record_foreign_clients = write_rows put_foreign_client cap_foreign_clients"

definition list_foreign_clients :: "int option \<Rightarrow> int \<Rightarrow> ForeignClient list \<Rightarrow> json_dict list" where
  "list_foreign_clients limit offset t =
     map foreign_client_dict (sql_page limit offset (order_by_desc fcl_last_seen (order_by_desc fcl_id t)))"

definition count_foreign_clients :: "ForeignClient list \<Rightarrow> nat" where
  "count_foreign_clients t = length t"

definition delete_foreign_client :: "int \<Rightarrow> ForeignClient list \<Rightarrow> bool \<times> ForeignClient list" where
  "delete_foreign_client client_id t = delete_row fcl_id client_id t"

definition delete_all_foreign_clients :: "ForeignClient list \<Rightarrow> nat \<times> ForeignClient list" where
  "delete_all_foreign_clients t = (length t, [])"

interpretation fct: counter_table put_foreign_client cap_foreign_clients fcl_id fcl_ip fcl_hits fca_ip fca_hits
  "\<lambda>now k. False"
  by (rule counter_table_upsert [OF put_foreign_client_def])
    (auto simp: cap_foreign_clients_def keep_newest_def delete_where_def Let_def)

interpretation fcp: pipeline fc_add fc_rows fc_cleared fc_flush fc_inv "\<lambda>e. e" fca_ip fca_hits
  record_foreign_clients "\<lambda>t k. sum_by fcl_ip fcl_hits k t" "table_ok fcl_id fcl_ip fcl_hits"
  "\<lambda>E k. we_commits E \<and> False"
  unfolding record_foreign_clients_def ..

section \<open>Uncacheable answers\<close>

definition MAX_UNCACHEABLE :: nat where
  "MAX_UNCACHEABLE = 5000"

record UncacheableResponse =
  unc_id :: int
  unc_client :: string
  unc_domain :: string
  unc_qtype :: string
  unc_reason :: string
  unc_last_ttl :: "int option"
  unc_hits :: int
  unc_first_seen :: datetime
  unc_last_seen :: datetime

definition uncacheable_dict :: "UncacheableResponse \<Rightarrow> json_dict" where
  "uncacheable_dict row =
     [(''id'', JInt (unc_id row)), (''client'', JStr (unc_client row)), (''domain'', JStr (unc_domain row)),
      (''qtype'', JStr (unc_qtype row)), (''reason'', JStr (unc_reason row)), (''last_ttl'', json_opt JInt (unc_last_ttl row)),
      (''hits'', JInt (unc_hits row)), (''first_seen'', JTime (unc_first_seen row)), (''last_seen'', JTime (unc_last_seen row))]"

definition unc_key :: "UncacheableResponse \<Rightarrow> string \<times> string \<times> string \<times> string" where
  "unc_key r = (unc_client r, unc_domain r, unc_qtype r, unc_reason r)"

definition put_uncacheable :: "datetime \<Rightarrow> UncacheableAgg \<Rightarrow> UncacheableResponse list \<Rightarrow> UncacheableResponse list" where
  "put_uncacheable now row t =
     upsert (\<lambda>r. unc_client r = uca_client row \<and> unc_domain r = uca_domain row \<and> unc_qtype r = uca_qtype row
         \<and> unc_reason r = uca_reason row)
       \<lparr>unc_id = next_id (map unc_id t), unc_client = uca_client row, unc_domain = uca_domain row,
        unc_qtype = uca_qtype row, unc_reason = uca_reason row, unc_last_ttl = uca_last_ttl row,
        unc_hits = uca_hits row, unc_first_seen = now, unc_last_seen = now\<rparr>
       (\<lambda>r. r\<lparr>unc_hits := unc_hits r + uca_hits row, unc_last_ttl := uca_last_ttl row, unc_last_seen := now\<rparr>) t"

definition cap_uncacheable :: "datetime \<Rightarrow> UncacheableResponse list \<Rightarrow> UncacheableResponse list" where
  "cap_uncacheable now t = keep_newest MAX_UNCACHEABLE unc_last_seen unc_id t"

definition record_uncacheable :: "write_env \<Rightarrow> UncacheableAgg list \<Rightarrow> UncacheableResponse list \<Rightarrow> UncacheableResponse list option" where
  "record_uncacheable = write_rows put_uncacheable cap_uncacheable"

definition unc_filter :: "string option \<Rightarrow> string option \<Rightarrow> UncacheableResponse \<Rightarrow> bool" where
  "unc_filter reason client r \<longleftrightarrow> matches_opt reason (unc_reason r) \<and> matches_opt client (unc_client r)"

definition list_uncacheable :: "int option \<Rightarrow> int \<Rightarrow> string option \<Rightarrow> string option \<Rightarrow> UncacheableResponse list \<Rightarrow> json_dict list" where
  "list_uncacheable limit offset reason client t =
     map uncacheable_dict (sql_page limit offset
       (order_by_desc unc_hits (order_by unc_id (filter (unc_filter reason client) t))))"

definition count_uncacheable :: "string option \<Rightarrow> string option \<Rightarrow> UncacheableResponse list \<Rightarrow> nat" where
  "count_uncacheable reason client t = length (filter (unc_filter reason client) t)"

definition delete_uncacheable :: "int \<Rightarrow> UncacheableResponse list \<Rightarrow> bool \<times> UncacheableResponse list" where
  "delete_uncacheable entry_id t = delete_row unc_id entry_id t"

definition delete_all_uncacheable :: "string option \<Rightarrow> string option \<Rightarrow> UncacheableResponse list
    \<Rightarrow> nat \<times> UncacheableResponse list" where
  "delete_all_uncacheable reason client t =
     (length (filter (unc_filter reason client) t), delete_where (unc_filter reason client) t)"

interpretation unt: counter_table put_uncacheable cap_uncacheable unc_id unc_key unc_hits uca_key uca_hits
  "\<lambda>now k. False"
  by (rule counter_table_upsert [OF put_uncacheable_def])
    (auto simp: cap_uncacheable_def keep_newest_def delete_where_def Let_def unc_key_def uca_key_def)

interpretation unp: pipeline uc_add uc_rows uc_cleared uc_flush uc_inv fst uca_key uca_hits
  record_uncacheable "\<lambda>t k. sum_by unc_key unc_hits k t" "table_ok unc_id unc_key unc_hits"
  "\<lambda>E k. we_commits E \<and> False"
  unfolding record_uncacheable_def ..

section \<open>Bounds\<close>

text \<open>After a flush the table has at most its bound of rows, and the rows that were removed are older
  than all that remain.\<close>

lemma record_foreign_capped:
  assumes "table_ok fcl_id fcl_ip fcl_hits t" "\<forall>r \<in> set rows. 0 \<le> fca_hits r" "rows \<noteq> []"
    and "record_foreign_clients E rows t = Some t'"
  shows "length t' \<le> MAX_FOREIGN_CLIENTS
    \<and> (\<forall>r \<in> set t'. \<forall>q \<in> set (put_rows put_foreign_client (we_clock E) rows t) - set t'.
        newer fcl_last_seen fcl_id r q)"
proof -
  let ?u = "put_rows put_foreign_client (we_clock E) rows t"
  have t': "t' = keep_newest MAX_FOREIGN_CLIENTS fcl_last_seen fcl_id ?u"
    using assms(3,4) by (auto simp: record_foreign_clients_def write_rows_def transaction_def cap_foreign_clients_def
        split: if_splits)
  have "table_ok fcl_id fcl_ip fcl_hits ?u" using fct.put_rows_total [OF assms(1,2)] by blast
  then have "distinct (map fcl_id ?u)" by (simp add: table_ok_def strict_sorted_iff)
  from keep_newest_spec [OF this, where n = MAX_FOREIGN_CLIENTS and seen = fcl_last_seen] show ?thesis unfolding t' by auto
qed

end
