(* ===== verification/Pipelines.thy ===== *)
theory Pipelines
  imports CounterTables StatTables CappedTables QueryLogTable SearchText
begin

text \<open>
  The buffers of \<open>domain\<close> and the tables of \<open>repository\<close> together, through the interpretations of
  \<open>pipeline\<close>: what is stored and what is still pending refine a plain counter of the events, up to
  the hours a table has dropped and the rows a bounded one gives up.
\<close>

section \<open>The specification: a counter\<close>

text \<open>Of an event the specification counts the key, of a flush it sees nothing.\<close>

fun counter_spec :: "('e \<Rightarrow> 'k) \<Rightarrow> ('e, 'x) buffer_op \<Rightarrow> ('k \<Rightarrow> int) \<Rightarrow> 'k \<Rightarrow> int" where
  "counter_spec key (Add e) c = c(key e := c (key e) + 1)"
| "counter_spec key (Flush x) c = c"

lemma counter_spec_run: "fold (counter_spec key) ops c k = c k + added key k ops"
proof (induction ops arbitrary: c)
  case (Cons p ops)
  then show ?case by (cases p) simp_all
qed simp

lemma added_append: "added key k (ops @ ops') = added key k ops + added key k ops'"
proof (induction ops)
  case (Cons p ops)
  then show ?case by (cases p) simp_all
qed simp

context pipeline
begin

text \<open>What every write establishes holds of the table after any run.\<close>

lemma run_stored:
  assumes "inv (fst st)" "ok (snd st)" "P (snd st)"
    and "\<And>x rs db db'. ok db \<Longrightarrow> \<forall>r \<in> set rs. 0 \<le> row_hits r \<Longrightarrow> rs \<noteq> [] \<Longrightarrow> save x rs db = Some db' \<Longrightarrow> P db'"
  shows "P (snd (run ops st))"
  using assms(1-3)
proof (induction ops arbitrary: st)
  case (Cons p ops)
  show ?case
  proof (cases p)
    case (Add e)
    with Cons.IH [of "(add e (fst st), snd st)"] Cons.prems show ?thesis by (simp add: inv_add)
  next
    case (Flush x)
    obtain s db where st: "st = (s, db)" by (cases st)
    have "P (snd (flush (save x) st))"
      using Cons.prems assms(4) [of db "rows s" x] rows_nonneg [of s]
      by (auto simp: st flush_db deliver_def split: option.split)
    with Flush Cons.IH [of "flush (save x) st"] Cons.prems flush_bound [OF Cons.prems(1,2)] show ?thesis
      by (simp add: inv_flush)
  qed
qed simp

end

context exact_pipeline
begin

lemma refines:
  assumes "inv (fst st)" "ok (snd st)" "\<forall>x k. Flush x \<in> set ops \<longrightarrow> kept x k"
  shows "(\<lambda>k. total (snd (run ops st)) k + pending (fst (run ops st)) k)
    = fold (counter_spec event_key) ops (\<lambda>k. total (snd st) k + pending (fst st) k)"
  using conservation [OF assms(1,2)] assms(3) by (auto simp: counter_spec_run fun_eq_iff)

end

section \<open>The query log\<close>

text \<open>What the log counts for a client, name and type: the stored rows and the pending ones.\<close>

definition logged :: "QueryBuffer \<times> QueryLog list \<Rightarrow> string \<times> string \<times> string \<Rightarrow> int" where
  "logged st k = sum_by ql_key ql_count k (snd st) + sum_by qa_key qa_count k (qb_rows (fst st))"

text \<open>Buffer and query log refine the counter: for every sequence of answered queries and committed flushes, the
  count of each client, name and type is what a plain counter of the queries has, and every flush leaves it.\<close>

theorem query_log_refines:
  assumes "table_ok ql_id ql_key ql_count t" "\<forall>E. Flush E \<in> set ops \<longrightarrow> we_commits E"
  shows "logged (buffer_run qb_add (\<lambda>E. qb_flush (record_queries E)) ops (QueryBuffer_init n, t))
    = fold (counter_spec fst) ops (logged (QueryBuffer_init n, t))"
proof -
  have "qb_inv (QueryBuffer_init n)" by (simp add: qb_inv_def QueryBuffer_init_def dict_wf_def)
  moreover have "logged st = (\<lambda>k. sum_by ql_key ql_count k (snd st) + sum_by qa_key qa_count k (qb_rows (fst st)))" for st
    by (simp add: logged_def fun_eq_iff)
  ultimately show ?thesis using qlp.refines [of "(QueryBuffer_init n, t)" ops] assms by simp
qed

theorem query_log_refines_witness:
  "logged (buffer_run qb_add (\<lambda>E. qb_flush (record_queries E))
      [Add ((''c'', ''a.b'', ''A''), ''forward'', ''1.2.3.4''), Flush \<lparr>we_clock = (\<lambda>i. 7), we_now = 7, we_commits = True\<rparr>,
       Add ((''c'', ''a.b'', ''A''), ''deny'', [])] (QueryBuffer_init 5, [])) (''c'', ''a.b'', ''A'') = 2"
  using query_log_refines [of "[]" "[Add ((''c'', ''a.b'', ''A''), ''forward'', ''1.2.3.4''),
      Flush \<lparr>we_clock = (\<lambda>i. 7), we_now = 7, we_commits = True\<rparr>, Add ((''c'', ''a.b'', ''A''), ''deny'', [])]" 5]
  by (simp add: table_ok_def counter_spec_run) (simp add: logged_def QueryBuffer_init_def qb_rows_def)

section \<open>The hourly statistics\<close>

text \<open>C25: The hourly outcomes are exact for as long as they are kept: after a final flush the row of an hour and a reason
  has what it had before and one for each event of that hour and reason, provided that every flush commits and
  comes within the retention of the hour.\<close>

theorem cache_outcomes_exact:
  assumes "table_ok coh_id coh_key coh_hits t"
    and "\<forall>E. Flush E \<in> set (Flush F # ops) \<longrightarrow> we_commits E \<and> hours_ago OUTCOME_RETENTION_HOURS (we_now E) \<le> hour"
  shows "sum_by coh_key coh_hits (hour, reason)
      (snd (co_flush (record_cache_outcomes F)
        (buffer_run co_add (\<lambda>E. co_flush (record_cache_outcomes E)) ops (CacheOutcomeBuffer_init n, t))))
    = sum_by coh_key coh_hits (hour, reason) t + added co_event_key (hour, reason) ops"
proof -
  have "co_inv (CacheOutcomeBuffer_init n)" by (simp add: co_inv_def CacheOutcomeBuffer_init_def counts_ok_def dict_wf_def)
  moreover have "co_rows (CacheOutcomeBuffer_init n) = []" by (simp add: co_rows_def CacheOutcomeBuffer_init_def)
  ultimately show ?thesis
    using cop.drained [of "(CacheOutcomeBuffer_init n, t)" ops "(hour, reason)" F] assms by simp
qed

theorem cache_outcomes_exact_witness:
  "sum_by coh_key coh_hits (0, ''cached'')
      (snd (co_flush (record_cache_outcomes \<lparr>we_clock = (\<lambda>i. 9), we_now = 9, we_commits = True\<rparr>)
        (buffer_run co_add (\<lambda>E. co_flush (record_cache_outcomes E)) [Add (5, ''cached''), Add (7, ''cached'')] (CacheOutcomeBuffer_init 5, []))))
    = 2"
  using cache_outcomes_exact [of "[]" "\<lparr>we_clock = (\<lambda>i. 9), we_now = 9, we_commits = True\<rparr>"
      "[Add (5, ''cached''), Add (7, ''cached'')]" 0 "''cached''" 5]
  by (simp add: table_ok_def hours_ago_def OUTCOME_RETENTION_HOURS_def co_event_key_def floor_hour_def)

text \<open>C26: The foreign clients are counted at most as often as they sent a packet, whatever the two bounds drop and
  whichever flushes fail, and the table never has more rows than its bound.\<close>

theorem foreign_clients_stored:
  "let t = snd (buffer_run fc_add (\<lambda>E. fc_flush (record_foreign_clients E)) ops (ForeignClientBuffer_init n m, []))
   in sum_by fcl_ip fcl_hits ip t \<le> added (\<lambda>e. e) ip ops \<and> length t \<le> MAX_FOREIGN_CLIENTS"
proof -
  let ?st = "(ForeignClientBuffer_init n m, [])"
  have st: "fc_inv (fst ?st)" "table_ok fcl_id fcl_ip fcl_hits (snd ?st)" "fc_rows (fst ?st) = []"
    by (simp_all add: fc_inv_def ForeignClientBuffer_init_def counts_ok_def dict_wf_def table_ok_def fc_rows_def)
  have "length (snd (fcp.run ops ?st)) \<le> MAX_FOREIGN_CLIENTS"
    by (rule fcp.run_stored [OF st(1,2)]) (simp, use record_foreign_capped in blast)
  with fcp.stored_le [OF st, of ip ops] show ?thesis by (simp add: Let_def)
qed

end
