(* ===== verification/ServerMain.thy ===== *)
theory ServerMain
  imports Startup Pipelines
begin

text \<open>
  The DNS process from its start to its end: \<open>main\<close> of \<open>workers/dns_server.py\<close>. The objects are built from the
  settings that the start found; while the servers run, packets, timers and reloads come in any order; the end
  stops every part, which flushes every buffer once more. The sockets are left out; an event is the body of one
  of the threads, in one go. \<open>Interleaving\<close> treats packets that are handled at the same time, \<open>Hosts\<close> what is not
  atomic in the host tracker.
\<close>

section \<open>The process\<close>

definition STATS_FLUSH_SECONDS :: int where "STATS_FLUSH_SECONDS = 3600"
definition REQUESTS_FLUSH_SECONDS :: int where "REQUESTS_FLUSH_SECONDS = 3600"

text \<open>The tables that the process writes.\<close>

record written =
  wt_queries :: "QueryLog list"
  wt_requests :: "ClientRequest list"
  wt_rtt :: "UpstreamHourlyRtt list"
  wt_events :: "ClientQueryEvent list"
  wt_foreign :: "ForeignClient list"
  wt_uncacheable :: "UncacheableResponse list"
  wt_outcomes :: "CacheOutcomeHourly list"
  wt_clients :: discover_db

definition main_start :: "RuntimeState \<Rightarrow> 'b dns_server" where
  "main_start state =
     (let runtime = rt_settings state; flush_seconds = query_flush_seconds runtime in
      \<lparr>dv_core =
         \<lparr>rs_state = state, rs_cache = TTLCache_init (cache_max_entries runtime),
          rs_buffer = QueryBuffer_init flush_seconds, rs_stats = ClientStatsBuffer_init STATS_FLUSH_SECONDS,
          rs_requests = ClientRequestBuffer_init REQUESTS_FLUSH_SECONDS, rs_rtt = UpstreamRttBuffer_init flush_seconds,
          rs_events = QueryEventBuffer_init flush_seconds MAX_EVENTS,
          rs_foreign = ForeignClientBuffer_init flush_seconds DEFAULT_MAX_CLIENTS,
          rs_uncached = UncacheableBuffer_init flush_seconds DEFAULT_MAX_KEYS,
          rs_outcomes = CacheOutcomeBuffer_init flush_seconds\<rparr>,
       dv_hosts = HostTracker_init flush_seconds (refresh_seconds runtime)\<rparr>)"

text \<open>The callbacks of the host tracker; \<open>on_discover\<close> catches what goes wrong for an address.\<close>

record hosts_env =
  he_write :: write_env
  he_listing :: "string set \<Rightarrow> string list"
  he_api_url :: string
  he_discover :: "string \<Rightarrow> discover_env"

definition flush_hosts :: "write_env \<Rightarrow> (string, int) dict \<Rightarrow> discover_db \<Rightarrow> discover_db option" where
  "flush_hosts E counts db = map_option (\<lambda>t. db\<lparr>vd_hosts := t\<rparr>) (record_hosts E counts (vd_hosts db))"

definition discover_hosts :: "hosts_env \<Rightarrow> RuntimeState \<Rightarrow> string set \<Rightarrow> discover_db \<Rightarrow> discover_db option" where
  "discover_hosts E state ips db = Some (on_discover (he_listing E) (he_api_url E) state (he_discover E) ips db)"

definition flush_stats :: "write_env \<Rightarrow> ClientStatAgg list \<Rightarrow> discover_db \<Rightarrow> discover_db option" where
  "flush_stats E rows db = map_option (\<lambda>t. db\<lparr>vd_stats := t\<rparr>) (record_client_stats E rows (vd_stats db))"

section \<open>While it runs\<close>

datatype ('d, 'b) dns_event =
    Packet "('d, 'b) query_env" datetime string 'b
  | Reload "tables option"
  | QueryTimer write_env
  | StatsTimer write_env
  | RequestsTimer write_env
  | RttTimer "('d, 'b) probe_env" write_env
  | EventsTimer write_env
  | ForeignTimer write_env
  | UncachedTimer write_env
  | OutcomesTimer write_env
  | HostsTimer hosts_env
  | HostsRefresh "string set option"
  | CacheFlush

fun dns_step :: "('d, 'b) dnslib \<Rightarrow> ('d, 'b) dns_event \<Rightarrow> 'b dns_server \<times> written \<Rightarrow> 'b dns_server \<times> written" where
  "dns_step D (Packet E now client_ip packet) (self, t) = (snd (server_handle D E now client_ip packet self), t)"
| "dns_step D (Reload db) (self, t) =
     (let core = dv_core self in
      (self\<lparr>dv_core := core\<lparr>rs_state := (case state_reload sql_loaders db (rs_state core) of
          None \<Rightarrow> rs_state core | Some state \<Rightarrow> state)\<rparr>\<rparr>, t))"
| "dns_step D (QueryTimer E) (self, t) =
     (let core = dv_core self in
      case qb_flush (record_queries E) (rs_buffer core, wt_queries t) of
        (b, rows) \<Rightarrow> (self\<lparr>dv_core := core\<lparr>rs_buffer := b\<rparr>\<rparr>, t\<lparr>wt_queries := rows\<rparr>))"
| "dns_step D (StatsTimer E) (self, t) =
     (let core = dv_core self in
      case cs_flush (flush_stats E) (rs_stats core, wt_clients t) of
        (b, db) \<Rightarrow> (self\<lparr>dv_core := core\<lparr>rs_stats := b\<rparr>\<rparr>, t\<lparr>wt_clients := db\<rparr>))"
| "dns_step D (RequestsTimer E) (self, t) =
     (let core = dv_core self in
      case cr_flush (record_client_requests E) (rs_requests core, wt_requests t) of
        (b, rows) \<Rightarrow> (self\<lparr>dv_core := core\<lparr>rs_requests := b\<rparr>\<rparr>, t\<lparr>wt_requests := rows\<rparr>))"
| "dns_step D (RttTimer P E) (self, t) =
     (let core = dv_core self;
          (contacted, finished, rtt) = probe_rtt_gaps D P (rs_state core) (rs_state core) (rs_rtt core) in
      case rtt_flush (record_upstream_rtt E) (rtt, wt_rtt t) of
        (b, rows) \<Rightarrow> (self\<lparr>dv_core := core\<lparr>rs_rtt := b\<rparr>\<rparr>, t\<lparr>wt_rtt := rows\<rparr>))"
| "dns_step D (EventsTimer E) (self, t) =
     (let core = dv_core self in
      case qe_flush (record_query_events E) (rs_events core, wt_events t) of
        (b, rows) \<Rightarrow> (self\<lparr>dv_core := core\<lparr>rs_events := b\<rparr>\<rparr>, t\<lparr>wt_events := rows\<rparr>))"
| "dns_step D (ForeignTimer E) (self, t) =
     (let core = dv_core self in
      case fc_flush (record_foreign_clients E) (rs_foreign core, wt_foreign t) of
        (b, rows) \<Rightarrow> (self\<lparr>dv_core := core\<lparr>rs_foreign := b\<rparr>\<rparr>, t\<lparr>wt_foreign := rows\<rparr>))"
| "dns_step D (UncachedTimer E) (self, t) =
     (let core = dv_core self in
      case uc_flush (record_uncacheable E) (rs_uncached core, wt_uncacheable t) of
        (b, rows) \<Rightarrow> (self\<lparr>dv_core := core\<lparr>rs_uncached := b\<rparr>\<rparr>, t\<lparr>wt_uncacheable := rows\<rparr>))"
| "dns_step D (OutcomesTimer E) (self, t) =
     (let core = dv_core self in
      case co_flush (record_cache_outcomes E) (rs_outcomes core, wt_outcomes t) of
        (b, rows) \<Rightarrow> (self\<lparr>dv_core := core\<lparr>rs_outcomes := b\<rparr>\<rparr>, t\<lparr>wt_outcomes := rows\<rparr>))"
| "dns_step D (HostsTimer E) (self, t) =
     (case ht_flush (flush_hosts (he_write E)) (Some (discover_hosts E (rs_state (dv_core self)))) (dv_hosts self, wt_clients t) of
        (h, db) \<Rightarrow> (self\<lparr>dv_hosts := h\<rparr>, t\<lparr>wt_clients := db\<rparr>))"
| "dns_step D (HostsRefresh known) (self, t) =
     (case known of None \<Rightarrow> (self, t) | Some known \<Rightarrow> (self\<lparr>dv_hosts := ht_apply_refresh known (dv_hosts self)\<rparr>, t))"
| "dns_step D CacheFlush (self, t) =
     (let core = dv_core self in (self\<lparr>dv_core := core\<lparr>rs_cache := cache_clear (rs_cache core)\<rparr>\<rparr>, t))"

definition main_run :: "('d, 'b) dnslib \<Rightarrow> ('d, 'b) dns_event list \<Rightarrow> 'b dns_server \<times> written \<Rightarrow> 'b dns_server \<times> written" where
  "main_run D events st = fold (dns_step D) events st"

section \<open>The end\<close>

text \<open>What the final flushes find, one after the other.\<close>

record stop_env =
  xe_queries :: write_env
  xe_stats :: write_env
  xe_requests :: write_env
  xe_rtt :: write_env
  xe_events :: write_env
  xe_foreign :: write_env
  xe_uncached :: write_env
  xe_outcomes :: write_env
  xe_hosts :: hosts_env

definition main_stop :: "stop_env \<Rightarrow> 'b dns_server \<times> written \<Rightarrow> 'b dns_server \<times> written" where
  "main_stop X st =
     (case st of (self, t) \<Rightarrow>
      let core = dv_core self;
          (buffer, queries) = qb_stop_buffer (record_queries (xe_queries X)) (rs_buffer core, wt_queries t);
          (stats, clients) = cs_stop_buffer (flush_stats (xe_stats X)) (rs_stats core, wt_clients t);
          (requests, request_rows) = cr_stop_buffer (record_client_requests (xe_requests X)) (rs_requests core, wt_requests t);
          (rtt, rtt_rows) = rtt_stop_buffer (record_upstream_rtt (xe_rtt X)) (rs_rtt core, wt_rtt t);
          (events, event_rows) = qe_stop_buffer (record_query_events (xe_events X)) (rs_events core, wt_events t);
          (foreign, foreign_rows) = fc_stop_buffer (record_foreign_clients (xe_foreign X)) (rs_foreign core, wt_foreign t);
          (uncached, uncached_rows) = uc_stop_buffer (record_uncacheable (xe_uncached X)) (rs_uncached core, wt_uncacheable t);
          (outcomes, outcome_rows) = co_stop_buffer (record_cache_outcomes (xe_outcomes X)) (rs_outcomes core, wt_outcomes t);
          (hosts, clients) = ht_stop_tracker (flush_hosts (he_write (xe_hosts X)))
             (Some (discover_hosts (xe_hosts X) (rs_state core))) (dv_hosts self, clients)
      in (\<lparr>dv_core = core\<lparr>rs_buffer := buffer, rs_stats := stats, rs_requests := requests, rs_rtt := rtt, rs_events := events,
              rs_foreign := foreign, rs_uncached := uncached, rs_outcomes := outcomes\<rparr>, dv_hosts = hosts\<rparr>,
          \<lparr>wt_queries = queries, wt_requests = request_rows, wt_rtt = rtt_rows, wt_events = event_rows,
             wt_foreign = foreign_rows, wt_uncacheable = uncached_rows, wt_outcomes = outcome_rows, wt_clients = clients\<rparr>))"

section \<open>What is recorded\<close>

definition query_key :: "('d, 'b) dnslib \<Rightarrow> 'd dns_msg \<Rightarrow> string \<Rightarrow> string \<times> string \<times> string" where
  "query_key D request client_ip = (client_ip, normalize_domain (qn_name (msg_q request)), qtype_name D (qn_type (msg_q request)))"

text \<open>The queries that are answered and not dropped, in the order of their packets.\<close>

fun recorded_by :: "('d, 'b) dnslib \<Rightarrow> ('d, 'b) dns_event \<Rightarrow> 'b dns_server \<Rightarrow> (string \<times> string \<times> string) list" where
  "recorded_by D (Packet E now client_ip packet) self =
     (if \<not> server_is_trusted self client_ip then []
      else case dl_parse D packet of
          None \<Rightarrow> []
        | Some request \<Rightarrow>
            if private_ptr_drop request (rs_state (dv_core self)) \<or> fst (handle D E request client_ip (dv_core self)) = None then []
            else [query_key D request client_ip])"
| "recorded_by D ev self = []"

fun recorded :: "('d, 'b) dnslib \<Rightarrow> ('d, 'b) dns_event list \<Rightarrow> 'b dns_server \<times> written \<Rightarrow> (string \<times> string \<times> string) list" where
  "recorded D [] st = []"
| "recorded D (ev # events) st = recorded_by D ev (fst st) @ recorded D events (dns_step D ev st)"

lemma handle_recorded:
  shows "private_ptr_drop rq (rs_state s) \<or> fst (handle D E rq c s) = None \<Longrightarrow>
      rs_buffer (snd (handle D E rq c s)) = rs_buffer s \<and> rs_requests (snd (handle D E rq c s)) = rs_requests s"
    and "\<not> (private_ptr_drop rq (rs_state s) \<or> fst (handle D E rq c s) = None) \<Longrightarrow>
      (\<exists>result answer. rs_buffer (snd (handle D E rq c s)) = qb_add (query_key D rq c, result, answer) (rs_buffer s))
      \<and> rs_requests (snd (handle D E rq c s)) = cr_add (query_key D rq c) (rs_requests s)"
  using same_records_screen [of s D E rq c]
  by (auto simp: handle_def record_query_def same_records_def Let_def query_key_def split: option.splits prod.splits)

text \<open>A step is a run of at most one operation of each of the two buffers.\<close>

lemma step_ops:
  fixes ev :: "('d, 'b) dns_event"
  obtains qs rs where
    "(rs_buffer (dv_core (fst (dns_step D ev st))), wt_queries (snd (dns_step D ev st)))
       = buffer_run qb_add (\<lambda>E. qb_flush (record_queries E)) qs (rs_buffer (dv_core (fst st)), wt_queries (snd st))"
    "(rs_requests (dv_core (fst (dns_step D ev st))), wt_requests (snd (dns_step D ev st)))
       = buffer_run cr_add (\<lambda>E. cr_flush (record_client_requests E)) rs (rs_requests (dv_core (fst st)), wt_requests (snd st))"
    "\<forall>k. added fst k qs = int (count_list (recorded_by D ev (fst st)) k)"
    "\<forall>k. added (\<lambda>e. e) k rs = int (count_list (recorded_by D ev (fst st)) k)"
    "\<forall>E. Flush E \<in> set qs \<longrightarrow> ev = QueryTimer E" "\<forall>E. Flush E \<in> set rs \<longrightarrow> ev = RequestsTimer E"
proof -
  obtain self t where st: "st = (self, t)" by (cases st)
  note run = that
  show thesis
  proof (cases "\<exists>E now c packet. ev = Packet E now c packet \<and> server_is_trusted self c \<and> dl_parse D packet \<noteq> None")
    case True
    then obtain E now c packet rq where ev: "ev = Packet E now c packet" "server_is_trusted self c" "dl_parse D packet = Some rq" by auto
    let ?h = "handle D E rq c (dv_core self)"
    let ?key = "query_key D rq c"
    have core: "dv_core (fst (dns_step D ev st)) = snd ?h" "snd (dns_step D ev st) = t"
      using ev by (auto simp: st server_handle_def server_resolve_def Let_def split: prod.split option.split)
    show thesis
    proof (cases "private_ptr_drop rq (rs_state (dv_core self)) \<or> fst ?h = None")
      case True
      with handle_recorded(1) [OF True] core ev show thesis by (intro run [of "[]" "[]"]) (auto simp: st)
    next
      case False
      from handle_recorded(2) [OF this] obtain result answer where
        "rs_buffer (snd ?h) = qb_add (?key, result, answer) (rs_buffer (dv_core self))"
        "rs_requests (snd ?h) = cr_add ?key (rs_requests (dv_core self))" by blast
      with core ev False show thesis
        by (intro run [of "[Add (?key, result, answer)]" "[Add ?key]"]) (auto simp: st)
    qed
  next
    case False
    show thesis
    proof (cases ev)
      case (Packet E now c packet)
      with False have "dl_parse D packet = None \<or> \<not> server_is_trusted self c" by auto
      with Packet show thesis
        by (intro run [of "[]" "[]"]) (auto simp: st server_handle_def server_record_foreign_def record_foreign_def split: option.split)
    next
      case (QueryTimer E)
      then show thesis by (intro run [of "[Flush E]" "[]"]) (auto simp: st Let_def split: prod.split)
    next
      case (RequestsTimer E)
      then show thesis by (intro run [of "[]" "[Flush E]"]) (auto simp: st Let_def split: prod.split)
    next
      case (Reload db)
      then show thesis by (intro run [of "[]" "[]"]) (auto simp: st Let_def)
    qed (intro run [of "[]" "[]"], auto simp: st Let_def split: prod.split option.split)+
  qed
qed

lemma buffer_run_append: "buffer_run add flush (a @ b) st = buffer_run add flush b (buffer_run add flush a st)"
proof (induction a arbitrary: st)
  case (Cons p a)
  then show ?case by (cases p) simp_all
qed simp

lemma added_app: "added key k (a @ b) = added key k a + added key k b"
proof (induction a)
  case (Cons p a)
  then show ?case by (cases p) simp_all
qed simp

lemma run_ops:
  fixes events :: "('d, 'b) dns_event list"
  shows "\<exists>qs rs.
    (rs_buffer (dv_core (fst (main_run D events st))), wt_queries (snd (main_run D events st)))
       = buffer_run qb_add (\<lambda>E. qb_flush (record_queries E)) qs (rs_buffer (dv_core (fst st)), wt_queries (snd st))
    \<and> (rs_requests (dv_core (fst (main_run D events st))), wt_requests (snd (main_run D events st)))
       = buffer_run cr_add (\<lambda>E. cr_flush (record_client_requests E)) rs (rs_requests (dv_core (fst st)), wt_requests (snd st))
    \<and> (\<forall>k. added fst k qs = int (count_list (recorded D events st) k))
    \<and> (\<forall>k. added (\<lambda>e. e) k rs = int (count_list (recorded D events st) k))
    \<and> (\<forall>E. Flush E \<in> set qs \<longrightarrow> QueryTimer E \<in> set events) \<and> (\<forall>E. Flush E \<in> set rs \<longrightarrow> RequestsTimer E \<in> set events)"
proof (induction events arbitrary: st)
  case Nil
  show ?case by (intro exI [of _ "[]"]) (simp add: main_run_def)
next
  case (Cons ev events)
  obtain qs rs where a: "(rs_buffer (dv_core (fst (dns_step D ev st))), wt_queries (snd (dns_step D ev st)))
       = buffer_run qb_add (\<lambda>E. qb_flush (record_queries E)) qs (rs_buffer (dv_core (fst st)), wt_queries (snd st))"
    "(rs_requests (dv_core (fst (dns_step D ev st))), wt_requests (snd (dns_step D ev st)))
       = buffer_run cr_add (\<lambda>E. cr_flush (record_client_requests E)) rs (rs_requests (dv_core (fst st)), wt_requests (snd st))"
    "\<forall>k. added fst k qs = int (count_list (recorded_by D ev (fst st)) k)"
    "\<forall>k. added (\<lambda>e. e) k rs = int (count_list (recorded_by D ev (fst st)) k)"
    "\<forall>E. Flush E \<in> set qs \<longrightarrow> ev = QueryTimer E" "\<forall>E. Flush E \<in> set rs \<longrightarrow> ev = RequestsTimer E"
    by (rule step_ops)
  from Cons.IH [of "dns_step D ev st"] obtain qs' rs' where b:
    "(rs_buffer (dv_core (fst (main_run D events (dns_step D ev st)))), wt_queries (snd (main_run D events (dns_step D ev st))))
       = buffer_run qb_add (\<lambda>E. qb_flush (record_queries E)) qs' (rs_buffer (dv_core (fst (dns_step D ev st))), wt_queries (snd (dns_step D ev st)))"
    "(rs_requests (dv_core (fst (main_run D events (dns_step D ev st)))), wt_requests (snd (main_run D events (dns_step D ev st))))
       = buffer_run cr_add (\<lambda>E. cr_flush (record_client_requests E)) rs' (rs_requests (dv_core (fst (dns_step D ev st))), wt_requests (snd (dns_step D ev st)))"
    "\<forall>k. added fst k qs' = int (count_list (recorded D events (dns_step D ev st)) k)"
    "\<forall>k. added (\<lambda>e. e) k rs' = int (count_list (recorded D events (dns_step D ev st)) k)"
    "\<forall>E. Flush E \<in> set qs' \<longrightarrow> QueryTimer E \<in> set events" "\<forall>E. Flush E \<in> set rs' \<longrightarrow> RequestsTimer E \<in> set events"
    by blast
  have run: "main_run D (ev # events) st = main_run D events (dns_step D ev st)" by (simp add: main_run_def)
  show ?case unfolding run
  proof (intro exI conjI)
    show "(rs_buffer (dv_core (fst (main_run D events (dns_step D ev st)))), wt_queries (snd (main_run D events (dns_step D ev st))))
       = buffer_run qb_add (\<lambda>E. qb_flush (record_queries E)) (qs @ qs') (rs_buffer (dv_core (fst st)), wt_queries (snd st))"
      using a(1) b(1) by (simp only: buffer_run_append)
    show "(rs_requests (dv_core (fst (main_run D events (dns_step D ev st)))), wt_requests (snd (main_run D events (dns_step D ev st))))
       = buffer_run cr_add (\<lambda>E. cr_flush (record_client_requests E)) (rs @ rs') (rs_requests (dv_core (fst st)), wt_requests (snd st))"
      using a(2) b(2) by (simp only: buffer_run_append)
    show "\<forall>k. added fst k (qs @ qs') = int (count_list (recorded D (ev # events) st) k)"
      "\<forall>k. added (\<lambda>e. e) k (rs @ rs') = int (count_list (recorded D (ev # events) st) k)"
      using a(3,4) b(3,4) by (simp_all add: added_app)
    show "\<forall>E. Flush E \<in> set (qs @ qs') \<longrightarrow> QueryTimer E \<in> set (ev # events)"
      "\<forall>E. Flush E \<in> set (rs @ rs') \<longrightarrow> RequestsTimer E \<in> set (ev # events)"
      using a(5,6) b(5,6) by auto
  qed
qed

lemma main_stop_tables:
  "wt_queries (snd (main_stop X st)) = snd (qb_flush (record_queries (xe_queries X)) (rs_buffer (dv_core (fst st))\<lparr>qb_stop := True\<rparr>, wt_queries (snd st)))"
  "wt_requests (snd (main_stop X st)) = snd (cr_flush (record_client_requests (xe_requests X)) (rs_requests (dv_core (fst st))\<lparr>crb_stop := True\<rparr>, wt_requests (snd st)))"
  by (simp_all add: main_stop_def qb_stop_buffer_def cr_stop_buffer_def Let_def split: prod.split)

lemma main_start_state: "rs_state (dv_core (main_start state)) = state"
  by (simp add: main_start_def Let_def)

lemma main_start_buffers:
  "rs_buffer (dv_core (main_start state)) = QueryBuffer_init (query_flush_seconds (rt_settings state))"
  "rs_requests (dv_core (main_start state)) = ClientRequestBuffer_init REQUESTS_FLUSH_SECONDS"
  by (simp_all add: main_start_def Let_def)

text \<open>The stop flag does not change what a flush writes.\<close>

lemma flush_stopped:
  "snd (qb_flush f (b\<lparr>qb_stop := True\<rparr>, t)) = snd (qb_flush f (b, t))"
  "snd (cr_flush g (r\<lparr>crb_stop := True\<rparr>, u)) = snd (cr_flush g (r, u))"
  by (simp_all add: qb_flush_def cr_flush_def qb_rows_def cr_rows_def)

text \<open>A concrete run: a denied query, twice.\<close>

definition example_write :: write_env where "example_write = \<lparr>we_clock = (\<lambda>i. 7), we_now = 7, we_commits = True\<rparr>"

definition example_stop :: stop_env where
  "example_stop =
     \<lparr>xe_queries = example_write, xe_stats = example_write, xe_requests = example_write, xe_rtt = example_write,
      xe_events = example_write, xe_foreign = example_write, xe_uncached = example_write, xe_outcomes = example_write,
      xe_hosts = \<lparr>he_write = example_write, he_listing = sorted_list_of_set, he_api_url = [],
         he_discover = (\<lambda>ip. \<lparr>vy_now = 0, vy_seed_commits = True, vy_sync_commits = True, vy_net = (\<lambda>url. SandoValue None)\<rparr>)\<rparr>\<rparr>"

definition no_rows :: written where
  "no_rows = \<lparr>wt_queries = [], wt_requests = [], wt_rtt = [], wt_events = [], wt_foreign = [], wt_uncacheable = [], wt_outcomes = [],
     wt_clients = \<lparr>vd_policies = [], vd_hosts = [], vd_stats = []\<rparr>\<rparr>"

definition example_packet :: "(string, string dns_msg) dns_event" where
  "example_packet = Packet (example_env 0 0) 0 ''10.0.0.9'' (example_question ''x.bad.org'' 1)"

lemma example_packet_recorded:
  assumes "rs_state (dv_core self) = example_config"
  shows "recorded_by toy_dnslib example_packet self = [(''10.0.0.9'', ''x.bad.org'', ''A'')]"
    "rs_state (dv_core (fst (dns_step toy_dnslib example_packet (self, t)))) = example_config"
proof -
  let ?rq = "example_question ''x.bad.org'' 1"
  have drop: "\<not> private_ptr_drop ?rq example_config" by code_simp
  have "policy_action example_config ''10.0.0.9'' (qn_name (msg_q ?rq)) = ACTION_DENY" by code_simp
  moreover have "ACTION_DENY \<noteq> ACTION_OVERRIDE" "qn_type (msg_q ?rq) \<noteq> QTYPE_AAAA" by code_simp+
  ultimately have "screen toy_dnslib (example_env 0 0) ?rq ''10.0.0.9'' (dv_core self) = (Some (deny toy_dnslib ?rq, ''deny''), dv_core self)"
    using assms by (simp add: screen_def policy_action_def Let_def)
  with drop assms have h: "fst (handle toy_dnslib (example_env 0 0) ?rq ''10.0.0.9'' (dv_core self)) \<noteq> None"
    by (simp add: handle_def)
  have key: "query_key toy_dnslib ?rq ''10.0.0.9'' = (''10.0.0.9'', ''x.bad.org'', ''A'')" by code_simp
  have tr: "server_is_trusted self ''10.0.0.9''"
    using assms by (simp add: server_is_trusted_def resolver_is_trusted_def example_config_def RuntimeState_empty_def is_trusted_def)
  have parse: "dl_parse toy_dnslib ?rq = Some ?rq" by (simp add: toy_dnslib_def)
  show "recorded_by toy_dnslib example_packet self = [(''10.0.0.9'', ''x.bad.org'', ''A'')]"
    using tr parse drop h assms by (simp add: example_packet_def key)
  show "rs_state (dv_core (fst (dns_step toy_dnslib example_packet (self, t)))) = example_config"
    using tr parse assms handle_state [of toy_dnslib "example_env 0 0" ?rq "''10.0.0.9''" "dv_core self"]
    by (cases "handle toy_dnslib (example_env 0 0) ?rq ''10.0.0.9'' (dv_core self)")
      (auto simp: example_packet_def server_handle_def server_resolve_def Let_def split: option.split)
qed

section \<open>Properties\<close>

text \<open>No answered query is lost or counted twice from the start of the process to its end. In every order of
  packets, timers, reloads, host refreshes and cache flushes, the query log and the client requests have, after the
  process has ended, what they had at its start and one for each answered query of a trusted client, under its
  address, normalised name and type, provided that the writes to them commit.\<close>

theorem every_query_counted:
  assumes "table_ok ql_id ql_key ql_count (wt_queries t)" "table_ok crq_id crq_key crq_hits (wt_requests t)"
    and "\<forall>E. QueryTimer E \<in> set events \<or> RequestsTimer E \<in> set events \<longrightarrow> we_commits E"
    and "we_commits (xe_queries X)" "we_commits (xe_requests X)"
  shows "let final = snd (main_stop X (main_run D events (main_start state, t))) in
    sum_by ql_key ql_count key (wt_queries final)
      = sum_by ql_key ql_count key (wt_queries t) + int (count_list (recorded D events (main_start state, t)) key)
    \<and> sum_by crq_key crq_hits key (wt_requests final)
      = sum_by crq_key crq_hits key (wt_requests t) + int (count_list (recorded D events (main_start state, t)) key)"
proof -
  let ?st = "main_run D events (main_start state, t)"
  let ?q = "QueryBuffer_init (query_flush_seconds (rt_settings state))" and ?r = "ClientRequestBuffer_init REQUESTS_FLUSH_SECONDS"
  obtain qs rs where ops:
    "(rs_buffer (dv_core (fst ?st)), wt_queries (snd ?st)) = qlp.run qs (?q, wt_queries t)"
    "(rs_requests (dv_core (fst ?st)), wt_requests (snd ?st)) = crp.run rs (?r, wt_requests t)"
    "\<forall>k. added fst k qs = int (count_list (recorded D events (main_start state, t)) k)"
    "\<forall>k. added (\<lambda>e. e) k rs = int (count_list (recorded D events (main_start state, t)) k)"
    "\<forall>E. Flush E \<in> set qs \<longrightarrow> QueryTimer E \<in> set events" "\<forall>E. Flush E \<in> set rs \<longrightarrow> RequestsTimer E \<in> set events"
    using run_ops [of D events "(main_start state, t)", unfolded fst_conv snd_conv main_start_buffers] by (elim exE conjE) (rule that)
  have "qb_inv ?q" "qb_rows ?q = []" "cr_inv ?r" "cr_rows ?r = []"
    by (simp_all add: qb_inv_def QueryBuffer_init_def dict_wf_def qb_rows_def cr_inv_def ClientRequestBuffer_init_def counts_ok_def cr_rows_def)
  then show ?thesis unfolding Let_def main_stop_tables flush_stopped
    using qlp.drained [where st = "(?q, wt_queries t)" and ops = qs and k = key and y = "xe_queries X"]
      crp.drained [where st = "(?r, wt_requests t)" and ops = rs and k = key and y = "xe_requests X"] assms ops
    by simp
qed

theorem every_query_counted_witness:
  "sum_by ql_key ql_count (''10.0.0.9'', ''x.bad.org'', ''A'')
      (wt_queries (snd (main_stop
         example_stop
         (main_run toy_dnslib [example_packet, QueryTimer example_write, CacheFlush, example_packet] (main_start example_config, no_rows)))))
    = 2"
proof -
  let ?events = "[example_packet, QueryTimer example_write, CacheFlush, example_packet]"
  let ?start = "(main_start example_config, no_rows)"
  have "rs_state (dv_core (fst (dns_step toy_dnslib example_packet ?start))) = example_config"
    by (rule example_packet_recorded(2) [OF main_start_state])
  then have "recorded toy_dnslib ?events ?start = [(''10.0.0.9'', ''x.bad.org'', ''A''), (''10.0.0.9'', ''x.bad.org'', ''A'')]"
    using example_packet_recorded(1) [OF main_start_state]
    by (cases "dns_step toy_dnslib example_packet ?start") (simp add: Let_def example_packet_recorded(1) split: prod.split)
  moreover have "table_ok ql_id ql_key ql_count (wt_queries no_rows)" "table_ok crq_id crq_key crq_hits (wt_requests no_rows)"
    by (simp_all add: no_rows_def)
  moreover have "\<forall>E. QueryTimer E \<in> set ?events \<or> RequestsTimer E \<in> set ?events \<longrightarrow> we_commits E"
    by (simp add: example_packet_def example_write_def)
  ultimately show ?thesis
    using every_query_counted [where t = no_rows and events = ?events and D = toy_dnslib and state = example_config
        and key = "(''10.0.0.9'', ''x.bad.org'', ''A'')"]
    by (simp add: Let_def no_rows_def example_write_def example_stop_def)
qed

end
