(* ===== verification/Interleaving.thy ===== *)
theory Interleaving
  imports ServerMain
begin

text \<open>
  Packets that are handled at the same time: the server starts a thread for each packet (\<open>workers/dns_server.py\<close>,
  with the resolver of \<open>domain/resolver.py\<close>), and the threads share the configuration snapshot, the cache and the
  buffers with each other and with the timers. What a thread does between two accesses to shared state is local, and
  each access is atomic: the properties of \<open>domain/state.py\<close> and the methods of the cache and the buffers each hold the
  lock of their own object for the one access, call nothing that takes another lock while they hold it, and release it
  on every exit (\<open>with\<close>), so waiting for a lock only delays a step. That a lock is always released is read off the
  source and not proved: waiting is no part of the model.
  A thread is therefore a program counter, one constructor per access, and a run of the server is any sequence of
  steps of threads, reloads, flushes and arrivals.
\<close>

section \<open>A thread\<close>

text \<open>The packet a thread handles, with what it will read from the clocks and the network.\<close>

record ('d, 'b) query =
  qy_env :: "('d, 'b) query_env"
  qy_now :: datetime
  qy_client :: string
  qy_packet :: 'b

text \<open>The next access of a thread. What it has computed so far is in the arguments: the request, the settings it read
  once, the reply and the name of the result. A thread ends without a reply, with a reply that it has recorded nowhere,
  or with one that it has recorded.\<close>

datatype ('d, 'b) query_pc =
    ReadNetworks
  | CountForeignStats
  | CountForeignClient
  | RecordHost "'d dns_msg"
  | ReadSettings "'d dns_msg"
  | ReadPtrRecords "'d dns_msg" RuntimeSettings
  | ReadPolicies "'d dns_msg" RuntimeSettings
  | ReadExcluded "'d dns_msg" RuntimeSettings
  | ReadBlocklist "'d dns_msg" RuntimeSettings
  | ReadRecords "'d dns_msg" RuntimeSettings
  | CacheGet "'d dns_msg" RuntimeSettings
  | ReadUpstreams "'d dns_msg" RuntimeSettings
  | AddRtt "'d dns_msg" RuntimeSettings nat UpstreamServer "'d dns_msg"
  | CacheSet "'d dns_msg" 'b int "'d dns_msg"
  | AddUncached "'d dns_msg" string "int option" "'d dns_msg" string
  | AddOutcome "'d dns_msg" string "'d dns_msg" string
  | AddQuery "'d dns_msg" "'d dns_msg" string
  | AddStats "'d dns_msg" "'d dns_msg" string
  | AddRequest "'d dns_msg" "'d dns_msg" string
  | AddEvent "'d dns_msg" "'d dns_msg"
  | Ignored
  | Unrecorded "'d dns_msg"
  | Answered "'d dns_msg" "'d dns_msg"

definition servfail :: "('d, 'b) dnslib \<Rightarrow> 'd dns_msg \<Rightarrow> 'd dns_msg" where
  "servfail D request = (dl_reply D request)\<lparr>msg_rcode := RCODE_SERVFAIL\<rparr>"

text \<open>An exception in \<open>handle\<close> is answered by \<open>resolve\<close>.\<close>

definition raised :: "('d, 'b) dnslib \<Rightarrow> 'd dns_msg \<Rightarrow> ('d, 'b) query_pc" where
  "raised D request = Unrecorded (servfail D request)"

text \<open>The screening from the policies on, as far as it needs no other part of the snapshot.\<close>

definition after_policies :: "('d, 'b) dnslib \<Rightarrow> string \<Rightarrow> 'd dns_msg \<Rightarrow> RuntimeSettings \<Rightarrow> PolicyRule list \<Rightarrow> ('d, 'b) query_pc" where
  "after_policies D client request settings policies =
     (let question = msg_q request;
          rule = select_policy policies client (qn_name question);
          action = (case rule of Some r \<Rightarrow> rule_action r | None \<Rightarrow> default_action settings) in
      if qn_type question = QTYPE_AAAA \<and> \<not> ipv6_enabled settings then AddQuery request (nodata D request) ''nodata''
      else if action = ACTION_OVERRIDE \<and> rule \<noteq> None
      then (case override D request (the rule) of
              None \<Rightarrow> raised D request
            | Some reply \<Rightarrow> AddQuery request reply ''override'')
      else if action = ACTION_DENY then AddQuery request (deny D request) ''deny''
      else ReadExcluded request settings)"

text \<open>The loop over the upstreams up to the first success: its position, the upstream and the reply.\<close>

fun forward_search :: "('d, 'b) dnslib \<Rightarrow> ('d, 'b) query_env \<Rightarrow> nat \<Rightarrow> 'd dns_msg \<Rightarrow> rat \<Rightarrow> UpstreamServer list
    \<Rightarrow> (nat \<times> UpstreamServer \<times> 'd dns_msg) option" where
  "forward_search D E i request timeout [] = None"
| "forward_search D E i request timeout (upstream # upstreams) =
     (case attempt D E i request timeout upstream of
        None \<Rightarrow> forward_search D E (i + 1) request timeout upstreams
      | Some reply \<Rightarrow> Some (i, upstream, reply))"

definition after_upstreams :: "('d, 'b) dnslib \<Rightarrow> ('d, 'b) query_env \<Rightarrow> 'd dns_msg \<Rightarrow> RuntimeSettings \<Rightarrow> UpstreamServer list
    \<Rightarrow> ('d, 'b) query_pc" where
  "after_upstreams D E request settings upstreams =
     (case forward_search D E 0 request (forward_timeout settings) (balanced_order E upstreams) of
        Some (i, upstream, reply) \<Rightarrow> AddRtt request settings i upstream reply
      | None \<Rightarrow>
          if cache_enabled settings then AddUncached request OUTCOME_UPSTREAM_FAILURE None (servfail D request) ''servfail''
          else AddQuery request (servfail D request) ''servfail'')"

text \<open>What is done with a forwarded reply: \<open>_cache_or_record_skip\<close> up to its first access.\<close>

definition pack_and_set :: "('d, 'b) dnslib \<Rightarrow> 'd dns_msg \<Rightarrow> 'd dns_msg \<Rightarrow> int \<Rightarrow> ('d, 'b) query_pc" where
  "pack_and_set D request reply ttl =
     (case dl_pack D reply of None \<Rightarrow> raised D request | Some packed \<Rightarrow> CacheSet request packed ttl reply)"

definition negative_or_skip :: "('d, 'b) dnslib \<Rightarrow> 'd dns_msg \<Rightarrow> RuntimeSettings \<Rightarrow> 'd dns_msg \<Rightarrow> string \<Rightarrow> ('d, 'b) query_pc" where
  "negative_or_skip D request settings reply reason =
     (case negative_ttl D reply settings of
        None \<Rightarrow> raised D request
      | Some None \<Rightarrow> AddUncached request reason None reply ''forward''
      | Some (Some ttl) \<Rightarrow>
          if ttl \<le> 0 then AddUncached request reason None reply ''forward'' else pack_and_set D request reply ttl)"

definition after_reply :: "('d, 'b) dnslib \<Rightarrow> 'd dns_msg \<Rightarrow> RuntimeSettings \<Rightarrow> 'd dns_msg \<Rightarrow> ('d, 'b) query_pc" where
  "after_reply D request settings reply =
     (if \<not> cache_enabled settings then AddQuery request reply ''forward''
      else if msg_rcode reply = RCODE_NXDOMAIN then negative_or_skip D request settings reply OUTCOME_NXDOMAIN
      else if msg_rcode reply \<noteq> RCODE_NOERROR then AddUncached request OUTCOME_ERROR None reply ''forward''
      else if msg_rr reply = [] then negative_or_skip D request settings reply OUTCOME_NODATA
      else
        let raw_ttl = Min (set (map rr_ttl (msg_rr reply))); ttl = compute_ttl reply settings in
        if 0 < ttl then pack_and_set D request reply ttl
        else AddUncached request OUTCOME_ZERO_TTL (Some raw_ttl) reply ''forward'')"

definition question_key :: "'d dns_msg \<Rightarrow> string" where
  "question_key request = cache_key (qn_name (msg_q request)) (qn_type (msg_q request)) (qn_class (msg_q request))"

text \<open>One step of a thread: its next access to the shared state, and the local work up to the one after it.\<close>

fun query_step :: "('d, 'b) dnslib \<Rightarrow> ('d, 'b) query \<Rightarrow> ('d, 'b) query_pc \<times> 'b dns_server \<Rightarrow> ('d, 'b) query_pc \<times> 'b dns_server" where
  "query_step D q (ReadNetworks, self) =
     ((if \<not> is_trusted (rt_network_filter (rs_state (dv_core self))) (qy_client q) then CountForeignStats
       else case dl_parse D (qy_packet q) of None \<Rightarrow> Ignored | Some request \<Rightarrow> RecordHost request), self)"
| "query_step D q (CountForeignStats, self) =
     (CountForeignClient, self\<lparr>dv_core := (dv_core self)\<lparr>rs_stats := cs_add_foreign (qy_now q) (rs_stats (dv_core self))\<rparr>\<rparr>)"
| "query_step D q (CountForeignClient, self) =
     (Ignored, self\<lparr>dv_core := (dv_core self)\<lparr>rs_foreign := fc_add (qy_client q) (rs_foreign (dv_core self))\<rparr>\<rparr>)"
| "query_step D q (RecordHost request, self) =
     (ReadSettings request, self\<lparr>dv_hosts := ht_record (qy_client q) (dv_hosts self)\<rparr>)"
| "query_step D q (ReadSettings request, self) =
     (let settings = rt_settings (rs_state (dv_core self)) in
      (if drop_private_ptr settings \<and> qn_type (msg_q request) = QTYPE_PTR
          \<and> is_rfc1918_ptr (normalize_domain (qn_name (msg_q request)))
       then ReadPtrRecords request settings else ReadPolicies request settings, self))"
| "query_step D q (ReadPtrRecords request settings, self) =
     (if \<not> local_owns (rt_local_records (rs_state (dv_core self))) (normalize_domain (qn_name (msg_q request)))
      then Unrecorded (nodata D request) else ReadPolicies request settings, self)"
| "query_step D q (ReadPolicies request settings, self) =
     (after_policies D (qy_client q) request settings (rt_policies (rs_state (dv_core self))), self)"
| "query_step D q (ReadExcluded request settings, self) =
     (if qy_client q \<notin> rt_blocklist_excluded (rs_state (dv_core self)) then ReadBlocklist request settings
      else ReadRecords request settings, self)"
| "query_step D q (ReadBlocklist request settings, self) =
     (if is_blocked (rt_blocklist (rs_state (dv_core self))) (normalize_domain (qn_name (msg_q request)))
      then AddQuery request (deny D request) ''blocklist'' else ReadRecords request settings, self)"
| "query_step D q (ReadRecords request settings, self) =
     (case local_answer D request (rt_local_records (rs_state (dv_core self))) of
        None \<Rightarrow> raised D request
      | Some (Some reply) \<Rightarrow> AddQuery request reply ''local''
      | Some None \<Rightarrow> if cache_enabled settings then CacheGet request settings else ReadUpstreams request settings, self)"
| "query_step D q (CacheGet request settings, self) =
     (case cache_get (ev_cache_get (qy_env q)) (question_key request) (rs_cache (dv_core self)) of
        (entry, cache) \<Rightarrow>
          (case entry of
             None \<Rightarrow> ReadUpstreams request settings
           | Some e \<Rightarrow>
               (case cached_reply D (qy_env q) request e of
                  None \<Rightarrow> raised D request
                | Some reply \<Rightarrow> AddQuery request reply ''forward-cache''),
           self\<lparr>dv_core := (dv_core self)\<lparr>rs_cache := cache\<rparr>\<rparr>))"
| "query_step D q (ReadUpstreams request settings, self) =
     (after_upstreams D (qy_env q) request settings (rt_upstreams (rs_state (dv_core self))), self)"
| "query_step D q (AddRtt request settings i upstream reply, self) =
     (after_reply D request settings reply,
      self\<lparr>dv_core := (dv_core self)\<lparr>rs_rtt :=
        rtt_add (ev_rtt_now (qy_env q), up_address upstream, ev_elapsed (qy_env q) i * 1000) (rs_rtt (dv_core self))\<rparr>\<rparr>)"
| "query_step D q (CacheSet request packed ttl reply, self) =
     (AddOutcome request OUTCOME_CACHED reply ''forward'',
      self\<lparr>dv_core := (dv_core self)\<lparr>rs_cache :=
        cache_set (ev_cache_set (qy_env q)) (question_key request) packed ttl (rs_cache (dv_core self))\<rparr>\<rparr>)"
| "query_step D q (AddUncached request reason ttl reply result, self) =
     (AddOutcome request reason reply result,
      self\<lparr>dv_core := (dv_core self)\<lparr>rs_uncached :=
        uc_add ((qy_client q, normalize_domain (qn_name (msg_q request)), qtype_name D (qn_type (msg_q request)), reason), ttl)
          (rs_uncached (dv_core self))\<rparr>\<rparr>)"
| "query_step D q (AddOutcome request reason reply result, self) =
     (AddQuery request reply result,
      self\<lparr>dv_core := (dv_core self)\<lparr>rs_outcomes := co_add (ev_outcome_now (qy_env q), reason) (rs_outcomes (dv_core self))\<rparr>\<rparr>)"
| "query_step D q (AddQuery request reply result, self) =
     (AddStats request reply result,
      self\<lparr>dv_core := (dv_core self)\<lparr>rs_buffer :=
        qb_add (query_key D request (qy_client q), result, answer_summary D reply) (rs_buffer (dv_core self))\<rparr>\<rparr>)"
| "query_step D q (AddStats request reply result, self) =
     (AddRequest request reply result,
      self\<lparr>dv_core := (dv_core self)\<lparr>rs_stats := cs_add (ev_stats_now (qy_env q), qy_client q, result) (rs_stats (dv_core self))\<rparr>\<rparr>)"
| "query_step D q (AddRequest request reply result, self) =
     (AddEvent request reply,
      self\<lparr>dv_core := (dv_core self)\<lparr>rs_requests := cr_add (query_key D request (qy_client q)) (rs_requests (dv_core self))\<rparr>\<rparr>)"
| "query_step D q (AddEvent request reply, self) =
     (Answered request reply,
      self\<lparr>dv_core := (dv_core self)\<lparr>rs_events :=
        qe_add (ev_events_now (qy_env q), qy_client q, normalize_domain (qn_name (msg_q request)),
            qtype_name D (qn_type (msg_q request)), rcode_name D (msg_rcode reply), answer_summary D reply)
          (rs_events (dv_core self))\<rparr>\<rparr>)"
| "query_step D q (Ignored, self) = (Ignored, self)"
| "query_step D q (Unrecorded reply, self) = (Unrecorded reply, self)"
| "query_step D q (Answered request reply, self) = (Answered request reply, self)"

fun pc_reply :: "('d, 'b) query_pc \<Rightarrow> 'd dns_msg option" where
  "pc_reply (Unrecorded reply) = Some reply"
| "pc_reply (Answered request reply) = Some reply"
| "pc_reply pc = None"

text \<open>An upper bound of the accesses a thread still makes.\<close>

fun steps_left :: "('d, 'b) query_pc \<Rightarrow> nat" where
  "steps_left ReadNetworks = 17"
| "steps_left CountForeignStats = 2"
| "steps_left CountForeignClient = 1"
| "steps_left (RecordHost request) = 16"
| "steps_left (ReadSettings request) = 15"
| "steps_left (ReadPtrRecords request settings) = 14"
| "steps_left (ReadPolicies request settings) = 13"
| "steps_left (ReadExcluded request settings) = 12"
| "steps_left (ReadBlocklist request settings) = 11"
| "steps_left (ReadRecords request settings) = 10"
| "steps_left (CacheGet request settings) = 9"
| "steps_left (ReadUpstreams request settings) = 8"
| "steps_left (AddRtt request settings i upstream reply) = 7"
| "steps_left (CacheSet request packed ttl reply) = 6"
| "steps_left (AddUncached request reason ttl reply result) = 6"
| "steps_left (AddOutcome request reason reply result) = 5"
| "steps_left (AddQuery request reply result) = 4"
| "steps_left (AddStats request reply result) = 3"
| "steps_left (AddRequest request reply result) = 2"
| "steps_left (AddEvent request reply) = 1"
| "steps_left pc = 0"

section \<open>A thread alone\<close>

definition thread_alone :: "('d, 'b) dnslib \<Rightarrow> ('d, 'b) query \<Rightarrow> ('d, 'b) query_pc \<times> 'b dns_server \<Rightarrow> ('d, 'b) query_pc \<times> 'b dns_server" where
  "thread_alone D q st = (query_step D q ^^ steps_left (fst st)) st"

lemma steps_left_local [simp]:
  "steps_left (raised D request) = 0"
  "steps_left (after_policies D c request settings policies) < 13"
  "steps_left (after_upstreams D E request settings us) < 8"
  "steps_left (after_reply D request settings reply) < 7"
  by (auto simp: raised_def after_policies_def after_upstreams_def after_reply_def negative_or_skip_def pack_and_set_def Let_def
      split: option.split)

lemma step_decreases: "steps_left pc \<noteq> 0 \<Longrightarrow> steps_left (fst (query_step D q (pc, self))) < steps_left pc"
  by (cases pc) (simp_all add: Let_def split: prod.split option.split)

lemma step_ended: "steps_left pc = 0 \<Longrightarrow> query_step D q (pc, self) = (pc, self)"
  by (cases pc) simp_all

lemma ended_stays: "steps_left (fst st) = 0 \<Longrightarrow> (query_step D q ^^ n) st = st"
  by (cases st, induction n) (simp_all add: step_ended)

lemma ends: "steps_left (fst st) \<le> n \<Longrightarrow> steps_left (fst ((query_step D q ^^ n) st)) = 0"
proof (induction n arbitrary: st)
  case (Suc n)
  obtain pc self where st: "st = (pc, self)" by (cases st)
  have "steps_left (fst (query_step D q st)) \<le> n"
    using step_decreases [of pc D q self] step_ended [of pc D q self] Suc.prems by (cases "steps_left pc = 0") (simp_all add: st)
  from Suc.IH [OF this] show ?case by (simp add: funpow_swap1)
qed simp

lemma alone_ends: "steps_left (fst (thread_alone D q st)) = 0"
  unfolding thread_alone_def by (rule ends) simp

lemma alone_more:
  assumes "steps_left (fst st) \<le> n"
  shows "(query_step D q ^^ n) st = thread_alone D q st"
proof -
  have "n = (n - steps_left (fst st)) + steps_left (fst st)" using assms by simp
  then have "(query_step D q ^^ n) st = (query_step D q ^^ (n - steps_left (fst st))) (thread_alone D q st)"
    unfolding thread_alone_def by (metis comp_apply funpow_add)
  then show ?thesis by (simp add: ended_stays [OF alone_ends])
qed

lemma alone_step: "thread_alone D q st = thread_alone D q (query_step D q st)"
proof -
  obtain pc self where st: "st = (pc, self)" by (cases st)
  have "steps_left (fst (query_step D q st)) \<le> steps_left (fst st)"
    using step_decreases [of pc D q self] step_ended [of pc D q self] by (cases "steps_left pc = 0") (simp_all add: st)
  from alone_more [OF this, of D q] have "(query_step D q ^^ Suc (steps_left (fst st))) st = thread_alone D q (query_step D q st)"
    by (simp add: funpow_swap1)
  then show ?thesis using alone_more [of st "Suc (steps_left (fst st))" D q] by simp
qed

lemma alone_ended: "steps_left pc = 0 \<Longrightarrow> thread_alone D q (pc, self) = (pc, self)"
  by (simp add: thread_alone_def)

lemma forward_loop_search:
  "forward_loop D E i request timeout us rtt =
     (case forward_search D E i request timeout us of
        None \<Rightarrow> (None, rtt)
      | Some (j, upstream, reply) \<Rightarrow> (Some reply, rtt_add (ev_rtt_now E, up_address upstream, ev_elapsed E j * 1000) rtt))"
  by (induction us arbitrary: i) (simp_all split: option.split)

lemmas alone_reads =
  alone_step [of _ _ "(ReadNetworks, self)" for self] alone_step [of _ _ "(CountForeignStats, self)" for self]
  alone_step [of _ _ "(CountForeignClient, self)" for self] alone_step [of _ _ "(RecordHost rq, self)" for rq self]
  alone_step [of _ _ "(ReadSettings rq, self)" for rq self] alone_step [of _ _ "(ReadPtrRecords rq t, self)" for rq t self]
  alone_step [of _ _ "(ReadPolicies rq t, self)" for rq t self] alone_step [of _ _ "(ReadExcluded rq t, self)" for rq t self]
  alone_step [of _ _ "(ReadBlocklist rq t, self)" for rq t self] alone_step [of _ _ "(ReadRecords rq t, self)" for rq t self]
lemmas alone_caches =
  alone_step [of _ _ "(CacheGet rq t, self)" for rq t self] alone_step [of _ _ "(ReadUpstreams rq t, self)" for rq t self]
  alone_step [of _ _ "(AddRtt rq t i u r, self)" for rq t i u r self] alone_step [of _ _ "(CacheSet rq b ttl r, self)" for rq b ttl r self]
  alone_step [of _ _ "(AddUncached rq why ttl r x, self)" for rq why ttl r x self] alone_step [of _ _ "(AddOutcome rq why r x, self)" for rq why r x self]
lemmas alone_records =
  alone_step [of _ _ "(AddQuery rq r x, self)" for rq r x self] alone_step [of _ _ "(AddStats rq r x, self)" for rq r x self]
  alone_step [of _ _ "(AddRequest rq r x, self)" for rq r x self] alone_step [of _ _ "(AddEvent rq r, self)" for rq r self]

lemma alone_query:
  "thread_alone D q (AddQuery request reply result, self)
    = (Answered request reply, self\<lparr>dv_core := record_query D (qy_env q) request (qy_client q) reply result (dv_core self)\<rparr>)"
  by (simp add: alone_records alone_ended record_query_def query_key_def Let_def)

text \<open>What is left of a request once its answer is known, or has raised.\<close>

definition conclude :: "('d, 'b) dnslib \<Rightarrow> ('d, 'b) query \<Rightarrow> 'd dns_msg \<Rightarrow> ('d dns_msg \<times> string) option \<times> 'b resolver_state
    \<Rightarrow> 'b dns_server \<Rightarrow> ('d, 'b) query_pc \<times> 'b dns_server" where
  "conclude D q request r self =
     (case r of
        (None, core) \<Rightarrow> (raised D request, self\<lparr>dv_core := core\<rparr>)
      | (Some (reply, result), core) \<Rightarrow>
          (Answered request reply, self\<lparr>dv_core := record_query D (qy_env q) request (qy_client q) reply result core\<rparr>))"

lemma conclude_core [simp]: "conclude D q request r (self\<lparr>dv_core := core\<rparr>) = conclude D q request r self"
  by (simp add: conclude_def split: prod.split option.split)

lemma conclude_known: "conclude D q request (Some (reply, result), core) self
    = (Answered request reply, self\<lparr>dv_core := record_query D (qy_env q) request (qy_client q) reply result core\<rparr>)"
  "conclude D q request (None, core) self = (raised D request, self\<lparr>dv_core := core\<rparr>)"
  by (simp_all add: conclude_def)

lemma alone_raised: "thread_alone D q (raised D request, self) = (raised D request, self)"
  by (simp add: raised_def alone_ended)

lemma alone_uncached:
  "thread_alone D q (AddUncached request reason ttl reply result, self)
    = conclude D q request (Some (reply, result), skip_cache (qy_env q) (qy_client q) (normalize_domain (qn_name (msg_q request)))
        (qtype_name D (qn_type (msg_q request))) reason ttl (dv_core self)) self"
  by (simp add: alone_caches alone_query conclude_def skip_cache_def record_outcome_def)

lemma alone_pack:
  "thread_alone D q (pack_and_set D request reply ttl, self)
    = conclude D q request (case store_reply D (qy_env q) (question_key request) reply ttl (dv_core self) of
        (r, core) \<Rightarrow> (map_option (\<lambda>_. (reply, ''forward'')) r, core)) self"
  by (simp add: pack_and_set_def store_reply_def alone_raised alone_caches alone_query conclude_def record_outcome_def split: option.split)

lemma alone_negative:
  "thread_alone D q (negative_or_skip D request settings reply reason, self)
    = conclude D q request (case cache_negative_or_skip D (qy_env q) (question_key request) reply (normalize_domain (qn_name (msg_q request)))
          (qtype_name D (qn_type (msg_q request))) settings (qy_client q) reason (dv_core self) of
        (r, core) \<Rightarrow> (map_option (\<lambda>_. (reply, ''forward'')) r, core)) self"
  by (auto simp: negative_or_skip_def cache_negative_or_skip_def cache_negative_def alone_raised alone_uncached alone_pack conclude_def
      store_reply_def split: option.split)

lemma alone_reply:
  "thread_alone D q (after_reply D request settings reply, self)
    = conclude D q request
        (if cache_enabled settings
         then case cache_or_record_skip D (qy_env q) (question_key request) reply (normalize_domain (qn_name (msg_q request)))
             (qtype_name D (qn_type (msg_q request))) settings (qy_client q) (dv_core self) of
               (r, core) \<Rightarrow> (map_option (\<lambda>_. (reply, ''forward'')) r, core)
         else (Some (reply, ''forward''), dv_core self)) self"
proof -
  have map_unit: "(case case x of (None, core) \<Rightarrow> (None, core) | (Some _, core) \<Rightarrow> (Some (), core) of
      (r, core) \<Rightarrow> (map_option (\<lambda>_. y) r, core)) = (case x of (r, core) \<Rightarrow> (map_option (\<lambda>_. y) r, core))"
    for x :: "bool option \<times> 'b resolver_state" and y :: "'d dns_msg \<times> string"
    by (simp split: prod.split option.split)
  show ?thesis
    by (simp add: after_reply_def cache_or_record_skip_def alone_negative alone_pack alone_uncached alone_query map_unit Let_def)
      (simp add: conclude_def)
qed

lemma alone_upstreams:
  "thread_alone D q (ReadUpstreams request settings, self)
    = conclude D q request (forward_and_cache D (qy_env q) request settings (qy_client q) (dv_core self)) self"
proof (cases "forward_search D (qy_env q) 0 request (forward_timeout settings) (balanced_order (qy_env q) (rt_upstreams (rs_state (dv_core self))))")
  case None
  then have "forward D (qy_env q) request settings (dv_core self) = (None, dv_core self)"
    by (simp add: forward_def Let_def forward_loop_search)
  with None show ?thesis
    by (simp add: alone_caches(2) after_upstreams_def forward_and_cache_def Let_def servfail_def alone_uncached alone_query)
      (simp add: conclude_def)
next
  case (Some r)
  then obtain i u reply where r: "forward_search D (qy_env q) 0 request (forward_timeout settings)
      (balanced_order (qy_env q) (rt_upstreams (rs_state (dv_core self)))) = Some (i, u, reply)" by (cases r) auto
  then have "rt_upstreams (rs_state (dv_core self)) \<noteq> []" by (auto simp: balanced_order_def)
  with r have "forward D (qy_env q) request settings (dv_core self) = (Some reply, (dv_core self)\<lparr>rs_rtt :=
      rtt_add (ev_rtt_now (qy_env q), up_address u, ev_elapsed (qy_env q) i * 1000) (rs_rtt (dv_core self))\<rparr>)"
    by (simp add: forward_def Let_def forward_loop_search)
  with r show ?thesis
    by (simp add: alone_caches(2,3) after_upstreams_def alone_reply forward_and_cache_def question_key_def Let_def)
      (auto simp: conclude_def split: prod.split option.split)
qed

lemma alone_local:
  "thread_alone D q (ReadRecords request settings, self)
    = conclude D q request (resolve_local_or_forward D (qy_env q) request settings (qy_client q) (dv_core self)) self"
proof (cases "local_answer D request (rt_local_records (rs_state (dv_core self)))")
  case None
  then show ?thesis by (simp add: alone_reads(10) alone_raised resolve_local_or_forward_def conclude_def)
next
  case (Some r)
  show ?thesis
  proof (cases r)
    case (Some reply)
    with \<open>local_answer _ _ _ = Some r\<close> show ?thesis
      by (simp add: alone_reads(10) alone_query resolve_local_or_forward_def conclude_def)
  next
    case None
    with \<open>local_answer _ _ _ = Some r\<close> show ?thesis
      by (simp add: alone_reads(10) alone_caches(1) alone_upstreams resolve_local_or_forward_def forward_or_cache_def question_key_def Let_def
            split: prod.split option.split)
        (auto simp: alone_raised alone_query alone_upstreams conclude_known)
  qed
qed

lemma alone_policies:
  "thread_alone D q (ReadPolicies request (rt_settings (rs_state (dv_core self))), self)
    = conclude D q request (screen D (qy_env q) request (qy_client q) (dv_core self)) self"
  by (simp add: alone_reads(7-9) after_policies_def screen_def Let_def alone_query alone_raised alone_local split: option.split)
    (auto simp: conclude_def)

lemma alone_settings:
  "thread_alone D q (ReadSettings request, self) =
    (case handle D (qy_env q) request (qy_client q) (dv_core self) of
       (None, core) \<Rightarrow> (raised D request, self\<lparr>dv_core := core\<rparr>)
     | (Some reply, core) \<Rightarrow>
         (if private_ptr_drop request (rs_state (dv_core self)) then Unrecorded reply else Answered request reply, self\<lparr>dv_core := core\<rparr>))"
  by (auto simp: alone_reads(5,6) handle_def private_ptr_drop_def Let_def alone_policies alone_ended conclude_def split: prod.split option.split)

text \<open>A check of the model: the sequence of accesses, when nothing interferes, is the handler of \<open>DnsServer\<close>.\<close>

lemma alone_server:
  "pc_reply (fst (thread_alone D q (ReadNetworks, self))) = fst (server_handle D (qy_env q) (qy_now q) (qy_client q) (qy_packet q) self)
   \<and> snd (thread_alone D q (ReadNetworks, self)) = snd (server_handle D (qy_env q) (qy_now q) (qy_client q) (qy_packet q) self)"
  by (auto simp: alone_reads(1-4) alone_settings server_handle_def server_is_trusted_def resolver_is_trusted_def server_resolve_def
      server_record_foreign_def record_foreign_def alone_ended raised_def servfail_def Let_def split: prod.split option.split)

section \<open>All threads\<close>

record ('d, 'b) world =
  wo_server :: "'b dns_server"
  wo_tables :: written
  wo_threads :: "(('d, 'b) query \<times> ('d, 'b) query_pc) list"

text \<open>A packet arrives, a thread makes its next access, or another thread of the process does what it does at a
  turn; the packets of \<^const>\<open>dns_step\<close>, which are handled in one go, do not occur.\<close>

datatype ('d, 'b) conc_event = Arrive "('d, 'b) query" | Move nat | Timer "('d, 'b) dns_event"

definition move_thread :: "('d, 'b) dnslib \<Rightarrow> nat \<Rightarrow> ('d, 'b) world \<Rightarrow> ('d, 'b) world" where
  "move_thread D i w =
     (case wo_threads w ! i of (q, pc) \<Rightarrow>
      case query_step D q (pc, wo_server w) of (pc', self) \<Rightarrow>
        w\<lparr>wo_server := self, wo_threads := (wo_threads w)[i := (q, pc')]\<rparr>)"

fun conc_step :: "('d, 'b) dnslib \<Rightarrow> ('d, 'b) conc_event \<Rightarrow> ('d, 'b) world \<Rightarrow> ('d, 'b) world" where
  "conc_step D (Arrive q) w = w\<lparr>wo_threads := wo_threads w @ [(q, ReadNetworks)]\<rparr>"
| "conc_step D (Move i) w = (if i < length (wo_threads w) then move_thread D i w else w)"
| "conc_step D (Timer (Packet E now client_ip packet)) w = w"
| "conc_step D (Timer ev) w =
     (case dns_step D ev (wo_server w, wo_tables w) of (self, t) \<Rightarrow> w\<lparr>wo_server := self, wo_tables := t\<rparr>)"

definition conc_run :: "('d, 'b) dnslib \<Rightarrow> ('d, 'b) conc_event list \<Rightarrow> ('d, 'b) world \<Rightarrow> ('d, 'b) world" where
  "conc_run D events w = fold (conc_step D) events w"

definition world_start :: "RuntimeState \<Rightarrow> written \<Rightarrow> ('d, 'b) world" where
  "world_start state t = \<lparr>wo_server = main_start state, wo_tables = t, wo_threads = []\<rparr>"

lemma conc_run_simps [simp]:
  "conc_run D [] w = w" "conc_run D (ev # events) w = conc_run D events (conc_step D ev w)"
  "conc_run D (a @ b) w = conc_run D b (conc_run D a w)"
  by (simp_all add: conc_run_def)

lemma timer_step:
  "conc_step D (Timer ev) w = (if \<exists>E now c packet. ev = Packet E now c packet then w
    else w\<lparr>wo_server := fst (dns_step D ev (wo_server w, wo_tables w)), wo_tables := snd (dns_step D ev (wo_server w, wo_tables w))\<rparr>)"
  by (cases ev) (simp_all split: prod.split)

lemma timer_threads [simp]: "wo_threads (conc_step D (Timer ev) w) = wo_threads w"
  by (simp add: timer_step)

lemma move_fields:
  assumes "wo_threads w ! i = (q, pc)"
  shows "wo_server (move_thread D i w) = snd (query_step D q (pc, wo_server w))"
    "wo_tables (move_thread D i w) = wo_tables w"
    "wo_threads (move_thread D i w) = (wo_threads w)[i := (q, fst (query_step D q (pc, wo_server w)))]"
  using assms by (simp_all add: move_thread_def split: prod.split)

text \<open>The keys that a thread has added to the query log and to the client requests.\<close>

fun logged_by :: "('d, 'b) dnslib \<Rightarrow> ('d, 'b) query \<times> ('d, 'b) query_pc \<Rightarrow> (string \<times> string \<times> string) list" where
  "logged_by D (q, AddStats request reply result) = [query_key D request (qy_client q)]"
| "logged_by D (q, AddRequest request reply result) = [query_key D request (qy_client q)]"
| "logged_by D (q, AddEvent request reply) = [query_key D request (qy_client q)]"
| "logged_by D (q, Answered request reply) = [query_key D request (qy_client q)]"
| "logged_by D (q, pc) = []"

fun requested_by :: "('d, 'b) dnslib \<Rightarrow> ('d, 'b) query \<times> ('d, 'b) query_pc \<Rightarrow> (string \<times> string \<times> string) list" where
  "requested_by D (q, AddEvent request reply) = [query_key D request (qy_client q)]"
| "requested_by D (q, Answered request reply) = [query_key D request (qy_client q)]"
| "requested_by D (q, pc) = []"

definition thread_keys :: "(('d, 'b) query \<times> ('d, 'b) query_pc \<Rightarrow> 'k list) \<Rightarrow> ('d, 'b) world \<Rightarrow> 'k list" where
  "thread_keys f w = concat (map f (wo_threads w))"

lemma count_concat_update:
  "i < length xs \<Longrightarrow> count_list (concat (map f (xs[i := y]))) k + count_list (f (xs ! i)) k
     = count_list (concat (map f xs)) k + count_list (f y) k"
proof (induction xs arbitrary: i)
  case (Cons x xs)
  then show ?case by (cases i) simp_all
qed simp

lemma local_keys [simp]:
  "logged_by D (q, raised D request) = []" "requested_by D (q, raised D request) = []"
  "logged_by D (q, after_policies D c request settings policies) = []" "requested_by D (q, after_policies D c request settings policies) = []"
  "logged_by D (q, after_upstreams D E request settings us) = []" "requested_by D (q, after_upstreams D E request settings us) = []"
  "logged_by D (q, after_reply D request settings reply) = []" "requested_by D (q, after_reply D request settings reply) = []"
  by (auto simp: raised_def after_policies_def after_upstreams_def after_reply_def negative_or_skip_def pack_and_set_def Let_def
      split: option.split)

text \<open>A move of a thread is at most one addition to each of the two buffers, of the key that it then counts.\<close>

lemma query_step_ops:
  obtains qs rs where
    "rs_buffer (dv_core (snd (query_step D q (pc, self)))) = fold qb_add qs (rs_buffer (dv_core self))"
    "rs_requests (dv_core (snd (query_step D q (pc, self)))) = fold cr_add rs (rs_requests (dv_core self))"
    "logged_by D (q, fst (query_step D q (pc, self))) = map fst qs @ logged_by D (q, pc)"
    "requested_by D (q, fst (query_step D q (pc, self))) = rs @ requested_by D (q, pc)"
proof (cases pc)
  case (AddQuery rq r x)
  then show thesis by (intro that [of "[(query_key D rq (qy_client q), x, answer_summary D r)]" "[]"]) simp_all
next
  case (AddRequest rq r x)
  then show thesis by (intro that [of "[]" "[query_key D rq (qy_client q)]"]) simp_all
qed (intro that [of "[]" "[]"]; simp add: Let_def split: prod.split option.split)+

lemma fold_adds: "buffer_run add flush (map Add es) (s, db) = (fold add es s, db)"
  by (induction es arbitrary: s) simp_all

lemma added_adds: "added key k (map Add es) = int (count_list (map key es) k)"
  by (induction es) simp_all

text \<open>So a step of the world is a run of the two buffers.\<close>

lemma conc_step_ops:
  fixes ev :: "('d, 'b) conc_event"
  obtains qs rs where
    "(rs_buffer (dv_core (wo_server (conc_step D ev w))), wt_queries (wo_tables (conc_step D ev w)))
       = buffer_run qb_add (\<lambda>E. qb_flush (record_queries E)) qs (rs_buffer (dv_core (wo_server w)), wt_queries (wo_tables w))"
    "(rs_requests (dv_core (wo_server (conc_step D ev w))), wt_requests (wo_tables (conc_step D ev w)))
       = buffer_run cr_add (\<lambda>E. cr_flush (record_client_requests E)) rs (rs_requests (dv_core (wo_server w)), wt_requests (wo_tables w))"
    "\<forall>k. int (count_list (thread_keys (logged_by D) (conc_step D ev w)) k) = int (count_list (thread_keys (logged_by D) w) k) + added fst k qs"
    "\<forall>k. int (count_list (thread_keys (requested_by D) (conc_step D ev w)) k) = int (count_list (thread_keys (requested_by D) w) k) + added (\<lambda>e. e) k rs"
    "\<forall>E. Flush E \<in> set qs \<longrightarrow> ev = Timer (QueryTimer E)" "\<forall>E. Flush E \<in> set rs \<longrightarrow> ev = Timer (RequestsTimer E)"
proof (cases ev)
  case (Arrive q)
  then show thesis by (intro that [of "[]" "[]"]) (simp_all add: thread_keys_def)
next
  case (Move i)
  show thesis
  proof (cases "i < length (wo_threads w)")
    case True
    obtain q pc where i: "wo_threads w ! i = (q, pc)" by fastforce
    obtain qs rs where ops:
      "rs_buffer (dv_core (snd (query_step D q (pc, wo_server w)))) = fold qb_add qs (rs_buffer (dv_core (wo_server w)))"
      "rs_requests (dv_core (snd (query_step D q (pc, wo_server w)))) = fold cr_add rs (rs_requests (dv_core (wo_server w)))"
      "logged_by D (q, fst (query_step D q (pc, wo_server w))) = map fst qs @ logged_by D (q, pc)"
      "requested_by D (q, fst (query_step D q (pc, wo_server w))) = rs @ requested_by D (q, pc)"
      by (rule query_step_ops)
    have keys: "int (count_list (thread_keys f (conc_step D ev w)) k) = int (count_list (thread_keys f w) k) + int (count_list new k)"
      if "f (q, fst (query_step D q (pc, wo_server w))) = new @ f (q, pc)" for f k and new :: "(string \<times> string \<times> string) list"
      using count_concat_update [OF True, of f "(q, fst (query_step D q (pc, wo_server w)))" k] True Move that i
      by (simp add: thread_keys_def move_fields [OF i] count_list_append)
    show thesis
      using True Move ops keys [OF ops(3)] keys [OF ops(4)]
      by (intro that [of "map Add qs" "map Add rs"]) (auto simp: move_fields [OF i] fold_adds added_adds)
  next
    case False
    with Move show thesis by (intro that [of "[]" "[]"]) simp_all
  qed
next
  case (Timer d)
  show thesis
  proof (cases "\<exists>E now c packet. d = Packet E now c packet")
    case True
    with Timer show thesis by (intro that [of "[]" "[]"]) (simp_all add: timer_step)
  next
    case False
    then have "recorded_by D d (wo_server w) = []" by (cases d) auto
    then obtain qs rs where ops:
      "(rs_buffer (dv_core (fst (dns_step D d (wo_server w, wo_tables w)))), wt_queries (snd (dns_step D d (wo_server w, wo_tables w))))
         = qlp.run qs (rs_buffer (dv_core (wo_server w)), wt_queries (wo_tables w))"
      "(rs_requests (dv_core (fst (dns_step D d (wo_server w, wo_tables w)))), wt_requests (snd (dns_step D d (wo_server w, wo_tables w))))
         = crp.run rs (rs_requests (dv_core (wo_server w)), wt_requests (wo_tables w))"
      "\<forall>k. added fst k qs = 0" "\<forall>k. added (\<lambda>e. e) k rs = 0"
      "\<forall>E. Flush E \<in> set qs \<longrightarrow> d = QueryTimer E" "\<forall>E. Flush E \<in> set rs \<longrightarrow> d = RequestsTimer E"
      using step_ops [of D d "(wo_server w, wo_tables w)"] by (metis count_list.simps(1) fst_conv of_nat_0 snd_conv)
    then show thesis using False Timer by (intro that [of qs rs]) (auto simp: timer_step thread_keys_def)
  qed
qed

lemma conc_run_ops:
  fixes events :: "('d, 'b) conc_event list"
  shows "\<exists>qs rs.
    (rs_buffer (dv_core (wo_server (conc_run D events w))), wt_queries (wo_tables (conc_run D events w)))
       = qlp.run qs (rs_buffer (dv_core (wo_server w)), wt_queries (wo_tables w))
    \<and> (rs_requests (dv_core (wo_server (conc_run D events w))), wt_requests (wo_tables (conc_run D events w)))
       = crp.run rs (rs_requests (dv_core (wo_server w)), wt_requests (wo_tables w))
    \<and> (\<forall>k. int (count_list (thread_keys (logged_by D) (conc_run D events w)) k)
         = int (count_list (thread_keys (logged_by D) w) k) + added fst k qs)
    \<and> (\<forall>k. int (count_list (thread_keys (requested_by D) (conc_run D events w)) k)
         = int (count_list (thread_keys (requested_by D) w) k) + added (\<lambda>e. e) k rs)
    \<and> (\<forall>E. Flush E \<in> set qs \<longrightarrow> Timer (QueryTimer E) \<in> set events)
    \<and> (\<forall>E. Flush E \<in> set rs \<longrightarrow> Timer (RequestsTimer E) \<in> set events)"
proof (induction events arbitrary: w)
  case Nil
  show ?case by (intro exI [of _ "[]"]) simp
next
  case (Cons ev events)
  obtain qs rs where a:
    "(rs_buffer (dv_core (wo_server (conc_step D ev w))), wt_queries (wo_tables (conc_step D ev w)))
       = qlp.run qs (rs_buffer (dv_core (wo_server w)), wt_queries (wo_tables w))"
    "(rs_requests (dv_core (wo_server (conc_step D ev w))), wt_requests (wo_tables (conc_step D ev w)))
       = crp.run rs (rs_requests (dv_core (wo_server w)), wt_requests (wo_tables w))"
    "\<forall>k. int (count_list (thread_keys (logged_by D) (conc_step D ev w)) k) = int (count_list (thread_keys (logged_by D) w) k) + added fst k qs"
    "\<forall>k. int (count_list (thread_keys (requested_by D) (conc_step D ev w)) k) = int (count_list (thread_keys (requested_by D) w) k) + added (\<lambda>e. e) k rs"
    "\<forall>E. Flush E \<in> set qs \<longrightarrow> ev = Timer (QueryTimer E)" "\<forall>E. Flush E \<in> set rs \<longrightarrow> ev = Timer (RequestsTimer E)"
    by (rule conc_step_ops)
  from Cons.IH [of "conc_step D ev w"] obtain qs' rs' where b:
    "(rs_buffer (dv_core (wo_server (conc_run D events (conc_step D ev w)))), wt_queries (wo_tables (conc_run D events (conc_step D ev w))))
       = qlp.run qs' (rs_buffer (dv_core (wo_server (conc_step D ev w))), wt_queries (wo_tables (conc_step D ev w)))"
    "(rs_requests (dv_core (wo_server (conc_run D events (conc_step D ev w)))), wt_requests (wo_tables (conc_run D events (conc_step D ev w))))
       = crp.run rs' (rs_requests (dv_core (wo_server (conc_step D ev w))), wt_requests (wo_tables (conc_step D ev w)))"
    "\<forall>k. int (count_list (thread_keys (logged_by D) (conc_run D events (conc_step D ev w))) k)
       = int (count_list (thread_keys (logged_by D) (conc_step D ev w)) k) + added fst k qs'"
    "\<forall>k. int (count_list (thread_keys (requested_by D) (conc_run D events (conc_step D ev w))) k)
       = int (count_list (thread_keys (requested_by D) (conc_step D ev w)) k) + added (\<lambda>e. e) k rs'"
    "\<forall>E. Flush E \<in> set qs' \<longrightarrow> Timer (QueryTimer E) \<in> set events"
    "\<forall>E. Flush E \<in> set rs' \<longrightarrow> Timer (RequestsTimer E) \<in> set events"
    by blast
  from a b show ?case
    by (intro exI [of _ "qs @ qs'"] exI [of _ "rs @ rs'"]) (auto simp: buffer_run_append added_app)
qed

section \<open>What a thread can have seen\<close>

lemma conc_run_invariant:
  fixes w :: "('d, 'b) world"
  assumes "I w" "\<And>ev w. ev \<in> set events \<Longrightarrow> I w \<Longrightarrow> I (conc_step D ev w)"
  shows "I (conc_run D events w)"
  unfolding conc_run_def by (rule fold_invariant [where Q = "\<lambda>ev. ev \<in> set events" and P = I]) (use assms in auto)

lemma query_step_state [simp]: "rs_state (dv_core (snd (query_step D q (pc, self)))) = rs_state (dv_core self)"
  by (cases pc) (simp_all add: Let_def split: prod.split)

lemma timer_state:
  "rs_state (dv_core (wo_server (conc_step D (Timer ev) w))) =
     (case ev of Reload (Some db) \<Rightarrow> loaded_config db | _ \<Rightarrow> rs_state (dv_core (wo_server w)))"
  by (cases ev) (simp_all add: timer_step Let_def reload_config split: prod.split option.split)

text \<open>What is invariant is a property of the snapshot, kept by every reload, and one of each thread, kept by its moves
  while the snapshot has its property.\<close>

lemma snapshot_invariant:
  fixes w :: "('d, 'b) world"
  assumes start: "P (rs_state (dv_core (wo_server w)))" "\<forall>(q, pc) \<in> set (wo_threads w). T q pc"
    and reloads: "\<forall>db. Timer (Reload (Some db)) \<in> set events \<longrightarrow> P (loaded_config db)"
    and arrive: "\<And>q. T q ReadNetworks"
    and step: "\<And>q pc self. P (rs_state (dv_core self)) \<Longrightarrow> T q pc \<Longrightarrow> T q (fst (query_step D q (pc, self)))"
  shows "P (rs_state (dv_core (wo_server (conc_run D events w)))) \<and> (\<forall>(q, pc) \<in> set (wo_threads (conc_run D events w)). T q pc)"
proof (rule conc_run_invariant)
  fix ev and w :: "('d, 'b) world"
  assume ev: "ev \<in> set events" and inv: "P (rs_state (dv_core (wo_server w))) \<and> (\<forall>(q, pc) \<in> set (wo_threads w). T q pc)"
  show "P (rs_state (dv_core (wo_server (conc_step D ev w)))) \<and> (\<forall>(q, pc) \<in> set (wo_threads (conc_step D ev w)). T q pc)"
  proof (cases ev)
    case (Arrive q)
    with inv arrive show ?thesis by auto
  next
    case (Move i)
    show ?thesis
    proof (cases "i < length (wo_threads w)")
      case True
      obtain q pc where i: "wo_threads w ! i = (q, pc)" by fastforce
      with True inv nth_mem [OF True] have "T q (fst (query_step D q (pc, wo_server w)))" by (intro step) auto
      with True Move inv show ?thesis
        by (auto simp: move_fields [OF i] dest!: subsetD [OF set_update_subset_insert])
    qed (use Move inv in simp)
  next
    case (Timer d)
    with inv ev reloads show ?thesis by (auto simp: timer_state split: dns_event.split option.split)
  qed
qed (use start in simp)

text \<open>A configuration refuses a name to a client by its blocklists, or by a rule.\<close>

definition refused_in :: "bool \<Rightarrow> string \<Rightarrow> string \<Rightarrow> RuntimeState \<Rightarrow> bool" where
  "refused_in listed client name st \<longleftrightarrow>
     (if listed
      then client \<notin> rt_blocklist_excluded st \<and> is_blocked (rt_blocklist st) (normalize_domain name)
        \<and> (\<forall>r. select_policy (rt_policies st) client name = Some r \<longrightarrow> rule_action r \<noteq> ACTION_OVERRIDE)
      else \<exists>r. select_policy (rt_policies st) client name = Some r \<and> rule_action r = ACTION_DENY)"

text \<open>The accesses of a thread whose packet has passed the screening.\<close>

fun past_screening :: "('d, 'b) query_pc \<Rightarrow> bool" where
  "past_screening (ReadRecords request settings) = True"
| "past_screening (CacheGet request settings) = True"
| "past_screening (ReadUpstreams request settings) = True"
| "past_screening (AddRtt request settings i upstream reply) = True"
| "past_screening (CacheSet request packed ttl reply) = True"
| "past_screening (AddUncached request reason ttl reply result) = True"
| "past_screening (AddOutcome request reason reply result) = True"
| "past_screening pc = False"

fun pc_request :: "('d, 'b) query_pc \<Rightarrow> 'd dns_msg option" where
  "pc_request (RecordHost request) = Some request"
| "pc_request (ReadSettings request) = Some request"
| "pc_request (ReadPtrRecords request settings) = Some request"
| "pc_request (ReadPolicies request settings) = Some request"
| "pc_request (ReadExcluded request settings) = Some request"
| "pc_request (ReadBlocklist request settings) = Some request"
| "pc_request (ReadRecords request settings) = Some request"
| "pc_request (CacheGet request settings) = Some request"
| "pc_request (ReadUpstreams request settings) = Some request"
| "pc_request (AddRtt request settings i upstream reply) = Some request"
| "pc_request (CacheSet request packed ttl reply) = Some request"
| "pc_request (AddUncached request reason ttl reply result) = Some request"
| "pc_request (AddOutcome request reason reply result) = Some request"
| "pc_request (AddQuery request reply result) = Some request"
| "pc_request (AddStats request reply result) = Some request"
| "pc_request (AddRequest request reply result) = Some request"
| "pc_request (AddEvent request reply) = Some request"
| "pc_request (Answered request reply) = Some request"
| "pc_request pc = None"

fun pc_answer :: "('d, 'b) query_pc \<Rightarrow> 'd dns_msg option" where
  "pc_answer (AddQuery request reply result) = Some reply"
| "pc_answer (AddStats request reply result) = Some reply"
| "pc_answer (AddRequest request reply result) = Some reply"
| "pc_answer (AddEvent request reply) = Some reply"
| "pc_answer pc = pc_reply pc"

lemma local_request:
  "pc_request (raised D request) = None"
  "pc_request (after_policies D c request settings policies) = Some rq \<Longrightarrow> request = rq"
  "pc_request (after_upstreams D E request settings us) = Some rq \<Longrightarrow> request = rq"
  "pc_request (after_reply D request settings reply) = Some rq \<Longrightarrow> request = rq"
  by (auto simp: raised_def after_policies_def after_upstreams_def after_reply_def negative_or_skip_def pack_and_set_def Let_def
      split: option.splits if_splits)

lemma pc_request_next:
  "pc_request (fst (query_step D q (pc, self))) = Some rq \<Longrightarrow>
     pc_request pc = Some rq \<or> pc = ReadNetworks \<and> dl_parse D (qy_packet q) = Some rq"
  by (cases pc) (simp_all add: Let_def local_request split: prod.splits option.splits if_splits)

lemma pc_request_step:
  "\<forall>rq. pc_request pc = Some rq \<longrightarrow> dl_parse D (qy_packet q) = Some rq \<Longrightarrow>
     \<forall>rq. pc_request (fst (query_step D q (pc, self))) = Some rq \<longrightarrow> dl_parse D (qy_packet q) = Some rq"
  using pc_request_next by blast

lemma snapshot_requests:
  assumes "(q, pc) \<in> set (wo_threads (conc_run D events (world_start state t)))" "pc_request pc = Some rq"
  shows "dl_parse D (qy_packet q) = Some rq"
proof -
  let ?T = "\<lambda>q pc. \<forall>rq. pc_request pc = Some rq \<longrightarrow> dl_parse D (qy_packet q) = Some rq"
  have "\<forall>(q, pc) \<in> set (wo_threads (conc_run D events (world_start state t))). ?T q pc"
  proof (rule snapshot_invariant [where P = "\<lambda>_. True", THEN conjunct2])
    show "?T q (fst (query_step D q (pc, self)))" if "?T q pc" for q pc self using that by (rule pc_request_step)
  qed (simp_all add: world_start_def)
  with assms show ?thesis by blast
qed

text \<open>The answer a refusing configuration allows.\<close>

definition refused_thread :: "('d, 'b) dnslib \<Rightarrow> bool \<Rightarrow> 'd dns_msg \<Rightarrow> ('d, 'b) query_pc \<Rightarrow> bool" where
  "refused_thread D listed rq pc \<longleftrightarrow>
     \<not> past_screening pc \<and> (\<forall>r. pc_request pc = Some r \<longrightarrow> r = rq)
     \<and> (\<forall>reply. pc_answer pc = Some reply \<longrightarrow> reply = deny D rq \<or> reply = nodata D rq)
     \<and> (\<not> listed \<longrightarrow> (\<forall>r settings. pc \<noteq> ReadExcluded r settings \<and> pc \<noteq> ReadBlocklist r settings))"

lemma refused_step:
  assumes "refused_in listed (qy_client q) (qn_name (msg_q rq)) (rs_state (dv_core self))" "dl_parse D (qy_packet q) = Some rq"
    and "refused_thread D listed rq pc"
  shows "refused_thread D listed rq (fst (query_step D q (pc, self)))"
proof (cases pc)
  case (ReadPolicies r settings)
  with assms have r: "r = rq" by (simp add: refused_thread_def)
  have "ACTION_DENY \<noteq> ACTION_OVERRIDE" by code_simp
  with assms(1) show ?thesis unfolding ReadPolicies r
    by (auto simp: refused_in_def refused_thread_def after_policies_def Let_def split: option.splits if_splits)
qed (use assms in \<open>auto simp: refused_thread_def refused_in_def Let_def split: option.splits if_splits\<close>)

text \<open>What an upstream has answered to a request, as the cache stores it.\<close>

definition upstream_answer :: "('d, 'b) dnslib \<Rightarrow> ('d, 'b) query_env \<Rightarrow> 'd dns_msg \<Rightarrow> 'b \<Rightarrow> bool" where
  "upstream_answer D E request v \<longleftrightarrow>
     (\<exists>i timeout upstream reply. attempt D E i request timeout upstream = Some reply \<and> dl_pack D reply = Some v)"

definition answer_thread :: "('d, 'b) dnslib \<Rightarrow> ('d, 'b) query \<Rightarrow> ('d, 'b) query_pc \<Rightarrow> bool" where
  "answer_thread D q pc \<longleftrightarrow> (\<forall>rq. pc_request pc = Some rq \<longrightarrow> dl_parse D (qy_packet q) = Some rq)
     \<and> (case pc of
          AddRtt request settings i upstream reply \<Rightarrow> \<exists>i timeout upstream. attempt D (qy_env q) i request timeout upstream = Some reply
        | CacheSet request packed ttl reply \<Rightarrow> upstream_answer D (qy_env q) request packed
        | _ \<Rightarrow> True)"

definition answers_cached :: "('d, 'b) dnslib \<Rightarrow> ('d, 'b) query list \<Rightarrow> 'b TTLCache \<Rightarrow> bool" where
  "answers_cached D qs c \<longleftrightarrow> (\<forall>(k, e) \<in> set (cache_data c). \<exists>q \<in> set qs. \<exists>rq.
     dl_parse D (qy_packet q) = Some rq \<and> question_key rq = k \<and> upstream_answer D (qy_env q) rq (ce_value e))"

lemma forward_search_attempt:
  "forward_search D E i rq timeout us = Some (j, u, reply) \<Longrightarrow> \<exists>j u. attempt D E j rq timeout u = Some reply"
  by (induction us arbitrary: i) (auto split: option.splits)

lemmas local_defs = raised_def after_policies_def after_upstreams_def after_reply_def negative_or_skip_def pack_and_set_def Let_def

lemma AddRtt_next:
  assumes "fst (query_step D q (pc, self)) = AddRtt request settings i u reply"
  shows "\<exists>i timeout u. attempt D (qy_env q) i request timeout u = Some reply"
proof (cases "\<exists>r t. pc = ReadUpstreams r t")
  case True
  with assms show ?thesis by (fastforce simp: after_upstreams_def dest: forward_search_attempt split: option.splits if_splits)
next
  case False
  then show ?thesis using assms by (cases pc) (simp_all add: local_defs split: prod.splits option.splits if_splits)
qed

lemma CacheSet_next:
  assumes "fst (query_step D q (pc, self)) = CacheSet request packed ttl reply"
  shows "\<exists>settings i u. pc = AddRtt request settings i u reply \<and> dl_pack D reply = Some packed"
  using assms by (cases pc) (simp_all add: local_defs split: prod.splits option.splits if_splits)

lemma answer_thread_step:
  assumes "answer_thread D q pc"
  shows "answer_thread D q (fst (query_step D q (pc, self)))"
proof -
  have rq: "\<forall>rq. pc_request (fst (query_step D q (pc, self))) = Some rq \<longrightarrow> dl_parse D (qy_packet q) = Some rq"
    using assms pc_request_step unfolding answer_thread_def by blast
  have "case fst (query_step D q (pc, self)) of
      AddRtt request settings i upstream reply \<Rightarrow> \<exists>i timeout upstream. attempt D (qy_env q) i request timeout upstream = Some reply
    | CacheSet request packed ttl reply \<Rightarrow> upstream_answer D (qy_env q) request packed
    | _ \<Rightarrow> True"
  proof (cases "fst (query_step D q (pc, self))")
    case (AddRtt request settings i upstream reply)
    with AddRtt_next [OF AddRtt] show ?thesis by simp
  next
    case (CacheSet request packed ttl reply)
    from CacheSet_next [OF this] assms show ?thesis unfolding CacheSet by (auto simp: answer_thread_def upstream_answer_def) blast
  qed simp_all
  with rq show ?thesis unfolding answer_thread_def by blast
qed

text \<open>The cache changes by a lookup, by the store of a thread, and by being cleared.\<close>

lemma query_step_cache:
  assumes "answer_thread D q pc" "(k, e) \<in> set (cache_data (rs_cache (dv_core (snd (query_step D q (pc, self))))))"
  shows "(k, e) \<in> set (cache_data (rs_cache (dv_core self)))
    \<or> (\<exists>rq. dl_parse D (qy_packet q) = Some rq \<and> question_key rq = k \<and> upstream_answer D (qy_env q) rq (ce_value e))"
proof (cases pc)
  case (CacheGet request settings)
  obtain entry c where c: "cache_get (ev_cache_get (qy_env q)) (question_key request) (rs_cache (dv_core self)) = (entry, c)" by fastforce
  with assms(2) cache_get_data [OF c] show ?thesis by (auto simp: CacheGet)
next
  case (CacheSet request packed ttl reply)
  with assms cache_set_subset [of "ev_cache_set (qy_env q)" "question_key request" packed ttl "rs_cache (dv_core self)"]
  show ?thesis by (auto simp: answer_thread_def)
qed (use assms(2) in \<open>simp_all add: Let_def\<close>)

lemma timer_cache:
  "set (cache_data (rs_cache (dv_core (wo_server (conc_step D (Timer ev) w))))) \<subseteq> set (cache_data (rs_cache (dv_core (wo_server w))))"
  by (cases ev) (simp_all add: timer_step Let_def cache_clear_def split: prod.split option.split)

lemma answers_cached_run:
  fixes w :: "('d, 'b) world"
  assumes "answers_cached D (map fst (wo_threads w)) (rs_cache (dv_core (wo_server w)))" "\<forall>(q, pc) \<in> set (wo_threads w). answer_thread D q pc"
  shows "answers_cached D (map fst (wo_threads (conc_run D events w))) (rs_cache (dv_core (wo_server (conc_run D events w))))
    \<and> (\<forall>(q, pc) \<in> set (wo_threads (conc_run D events w)). answer_thread D q pc)"
proof (rule conc_run_invariant)
  fix ev and w :: "('d, 'b) world"
  assume inv: "answers_cached D (map fst (wo_threads w)) (rs_cache (dv_core (wo_server w)))
    \<and> (\<forall>(q, pc) \<in> set (wo_threads w). answer_thread D q pc)"
  show "answers_cached D (map fst (wo_threads (conc_step D ev w))) (rs_cache (dv_core (wo_server (conc_step D ev w))))
    \<and> (\<forall>(q, pc) \<in> set (wo_threads (conc_step D ev w)). answer_thread D q pc)"
  proof (cases ev)
    case (Arrive q)
    have "answer_thread D q ReadNetworks" by (simp add: answer_thread_def)
    with inv Arrive show ?thesis by (auto simp: answers_cached_def)
  next
    case (Move i)
    show ?thesis
    proof (cases "i < length (wo_threads w)")
      case True
      obtain q pc where i: "wo_threads w ! i = (q, pc)" by fastforce
      then have q: "answer_thread D q pc" "q \<in> fst ` set (wo_threads w)" using inv nth_mem [OF True] by force+
      have threads: "map fst (wo_threads (conc_step D ev w)) = map fst (wo_threads w)"
        using True Move i by (simp add: move_fields [OF i] map_update list_update_same_conv)
      have "\<forall>(q, pc) \<in> set (wo_threads (conc_step D ev w)). answer_thread D q pc"
        using True Move inv answer_thread_step [OF q(1)] by (auto simp: move_fields [OF i] dest!: subsetD [OF set_update_subset_insert])
      moreover have "answers_cached D (map fst (wo_threads w)) (rs_cache (dv_core (snd (query_step D q (pc, wo_server w)))))"
        unfolding answers_cached_def
      proof (intro ballI, clarify)
        fix k e assume "(k, e) \<in> set (cache_data (rs_cache (dv_core (snd (query_step D q (pc, wo_server w))))))"
        from query_step_cache [OF q(1) this]
        show "\<exists>q \<in> set (map fst (wo_threads w)). \<exists>rq. dl_parse D (qy_packet q) = Some rq \<and> question_key rq = k
          \<and> upstream_answer D (qy_env q) rq (ce_value e)"
        proof
          assume "(k, e) \<in> set (cache_data (rs_cache (dv_core (wo_server w))))"
          with inv show ?thesis unfolding answers_cached_def by blast
        qed (use q(2) in \<open>simp, blast\<close>)
      qed
      ultimately show ?thesis unfolding threads using True Move by (simp add: move_fields [OF i])
    qed (use Move inv in simp)
  next
    case (Timer d)
    with inv timer_cache [of D d w] show ?thesis unfolding answers_cached_def by auto
  qed
qed (use assms in simp)

text \<open>A world with a single thread moves as the thread does.\<close>

definition single :: "('d, 'b) query \<Rightarrow> written \<Rightarrow> ('d, 'b) query_pc \<times> 'b dns_server \<Rightarrow> ('d, 'b) world" where
  "single q t st = \<lparr>wo_server = snd st, wo_tables = t, wo_threads = [(q, fst st)]\<rparr>"

lemma single_moves: "conc_run D (replicate n (Move 0)) (single q t st) = single q t ((query_step D q ^^ n) st)"
proof (induction n arbitrary: st)
  case (Suc n)
  have "conc_step D (Move 0) (single q t st) = single q t (query_step D q st)"
    by (cases st) (simp add: single_def move_thread_def split: prod.split)
  with Suc.IH show ?case by (simp add: funpow_swap1)
qed simp

lemma single_reload:
  "conc_step D (Timer (Reload (Some db))) (single q t (pc, self))
    = single q t (pc, self\<lparr>dv_core := (dv_core self)\<lparr>rs_state := loaded_config db\<rparr>\<rparr>)"
  by (simp add: single_def Let_def reload_config)

lemma single_start: "conc_step D (Arrive q) (world_start state t) = single q t (ReadNetworks, main_start state)"
  by (simp add: single_def world_start_def)

text \<open>Examples: a configuration that lists a name, tables in which a rule denies it, and a query for it that an upstream
  would answer.\<close>

definition listed_config :: RuntimeState where
  "listed_config = RuntimeState_empty\<lparr>rt_blocklist := {''ads.org''}\<rparr>"

definition denied_tables :: tables where
  "denied_tables =
     \<lparr>tb_settings = [],
      tb_policies = [\<lparr>pol_id = 1, pol_client = ''*'', pol_domain = ''ads.org'', pol_action = ACTION_DENY, pol_override_response = None,
        pol_override_ttl = 300, pol_enabled = True, pol_description = None, pol_created_at = 0, pol_updated_at = 0\<rparr>],
      tb_upstreams = [\<lparr>us_id = 1, us_name = None, us_address = ''192.0.2.53'', us_port = 53, us_protocol = ''udp'', us_enabled = True,
        us_priority = 10, us_created_at = 0, us_updated_at = 0\<rparr>],
      tb_networks = [], tb_blocklists = [], tb_domains = [], tb_hosts = [], tb_zones = [], tb_zone_records = []\<rparr>"

definition example_query :: "string \<Rightarrow> (string, string dns_msg) query" where
  "example_query name =
     \<lparr>qy_env = (example_env 0 0)\<lparr>ev_send := (\<lambda>i retry address port tcp timeout rq. Some (example_answer (qn_name (msg_q rq)) 600))\<rparr>,
      qy_now = 0, qy_client = ''10.0.0.9'', qy_packet = example_question name 1\<rparr>"

lemma example_names:
  "is_blocked {''ads.org''} (normalize_domain ''ads.org'')"
  "select_policy (load_rules (tb_policies denied_tables)) ''10.0.0.9'' ''ads.org'' = Some
     \<lparr>rule_client = ''*'', rule_domain = ''ads.org'', rule_action = ACTION_DENY, override_response = None, override_ttl = 300\<rparr>"
proof -
  have "''ads.org'' \<in> set (domain_suffixes (normalize_domain ''ads.org''))" by code_simp
  then show "is_blocked {''ads.org''} (normalize_domain ''ads.org'')" by (simp add: is_blocked_def list_ex_iff)
  have name: "normalize_domain ''ads.org'' = ''ads.org''" "py_lower (py_rstrip_char dot ''ads.org'') = ''ads.org''" by code_simp+
  have rules: "load_rules (tb_policies denied_tables) =
      [\<lparr>rule_client = ''*'', rule_domain = ''ads.org'', rule_action = ACTION_DENY, override_response = None, override_ttl = 300\<rparr>]"
    by (simp add: load_rules_def denied_tables_def policy_rule_def)
  show "select_policy (load_rules (tb_policies denied_tables)) ''10.0.0.9'' ''ads.org'' = Some
     \<lparr>rule_client = ''*'', rule_domain = ''ads.org'', rule_action = ACTION_DENY, override_response = None, override_ttl = 300\<rparr>"
    unfolding rules using name by (simp add: select_policy_def client_matches_def domain_specificity_def WILDCARD_def starts_with_def)
qed

lemma example_listed:
  "refused_in True ''10.0.0.9'' ''ads.org'' listed_config" "is_trusted (rt_network_filter listed_config) c"
  "policy_action listed_config ''10.0.0.9'' ''ads.org'' = ACTION_FORWARD" "cache_enabled (rt_settings listed_config)"
  using example_names(1)
  by (simp_all add: refused_in_def listed_config_def RuntimeState_empty_def is_trusted_def policy_action_def select_policy_def
      RuntimeSettings_default_def ACTION_FORWARD_def)

lemma example_denied:
  "refused_in False ''10.0.0.9'' ''ads.org'' (loaded_config denied_tables)"
  "rt_blocklist (loaded_config denied_tables) = {}" "rt_blocklist_excluded (loaded_config denied_tables) = {}"
  "\<not> local_owns (rt_local_records (loaded_config denied_tables)) name"
  "rt_upstreams (loaded_config denied_tables) = [example_upstream ''192.0.2.53'' 10]"
proof -
  show "refused_in False ''10.0.0.9'' ''ads.org'' (loaded_config denied_tables)"
    using example_names(2) by (auto simp: refused_in_def loaded_config_def)
qed (simp_all add: loaded_config_def denied_tables_def load_blocklist_domains_def enabled_ids_def load_blocklist_excluded_def
    LocalRecords_index load_local_records_def load_upstreams_def order_by_def example_upstream_def)

lemma example_query_simps [simp]:
  "qy_client (example_query name) = ''10.0.0.9''" "dl_parse toy_dnslib (qy_packet (example_query name)) = Some (example_question name 1)"
  "qn_type (msg_q (example_question name 1)) = QTYPE_A" "qn_name (msg_q (example_question name 1)) = name"
  by (simp_all add: example_query_def toy_dnslib_def example_question_def qtype_defs)

lemma example_search:
  "forward_search toy_dnslib (qy_env (example_query name)) 0 (example_question name 1) timeout
      (balanced_order (qy_env (example_query name)) [example_upstream ''192.0.2.53'' 10])
    = Some (0, example_upstream ''192.0.2.53'' 10, example_answer name 600)"
  by (simp add: balanced_order_def example_query_def example_env_def attempt_def example_upstream_def toy_dnslib_def
      example_answer_def example_question_def)

lemma example_alone:
  "fst (thread_alone toy_dnslib (example_query ''ads.org'') (ReadNetworks, main_start listed_config))
    = Answered (example_question ''ads.org'' 1) (deny toy_dnslib (example_question ''ads.org'' 1))"
proof -
  let ?self = "main_start listed_config :: string dns_msg dns_server"
  have screen: "fst (screen toy_dnslib E (example_question ''ads.org'' 1) ''10.0.0.9'' core) = Some (deny toy_dnslib (example_question ''ads.org'' 1), ''blocklist'')"
    if "rs_state core = listed_config" for E core
    using that example_listed(1,3) by (auto simp: screen_def refused_in_def policy_action_def qtype_defs action_defs Let_def split: option.splits)
  show ?thesis
    using example_listed(2) screen
    by (simp add: alone_reads(1,4) alone_settings main_start_state handle_def private_ptr_drop_def qtype_defs Let_def split: prod.split option.split)
      (metis fst_conv main_start_state option.distinct(1) option.inject prod.inject)
qed

definition forwarding_config :: RuntimeState where
  "forwarding_config = RuntimeState_empty\<lparr>rt_upstreams := [example_upstream ''192.0.2.53'' 10]\<rparr>"

lemma example_cached:
  "(question_key (example_question name 1), \<lparr>ce_value = example_answer name 600, inserted_at = 0, expires_at = 600000000000, ce_ttl = 600\<rparr>)
    \<in> set (cache_data (rs_cache (dv_core (snd ((query_step toy_dnslib (example_query name) ^^ 11) (ReadNetworks, main_start forwarding_config))))))"
proof -
  define s where "s = (main_start forwarding_config :: string dns_msg dns_server)
    \<lparr>dv_hosts := ht_record ''10.0.0.9'' (dv_hosts (main_start forwarding_config :: string dns_msg dns_server))\<rparr>"
  let ?rq = "example_question name 1" and ?t = RuntimeSettings_default
  have st: "rs_state (dv_core s) = forwarding_config" "rs_cache (dv_core s) = TTLCache_init 10000"
    by (simp_all add: s_def main_start_def Let_def forwarding_config_def RuntimeState_empty_def RuntimeSettings_default_def)
  have config: "rt_settings forwarding_config = ?t" "rt_policies forwarding_config = []" "rt_blocklist forwarding_config = {}"
    "rt_blocklist_excluded forwarding_config = {}" "networks (rt_network_filter forwarding_config) = []"
    "rt_local_records forwarding_config = LocalRecords_init []" "rt_upstreams forwarding_config = [example_upstream ''192.0.2.53'' 10]"
    by (simp_all add: forwarding_config_def RuntimeState_empty_def)
  have settings: "cache_enabled ?t" "default_action ?t = ACTION_FORWARD" "cache_min_ttl ?t = 0" "cache_max_ttl ?t = 3600"
    by (simp_all add: RuntimeSettings_default_def ACTION_FORWARD_def)
  have four: "(query_step toy_dnslib (example_query name) ^^ 4) (ReadNetworks, main_start forwarding_config) = (ReadExcluded ?rq ?t, s)"
    by (simp add: eval_nat_numeral main_start_state config is_trusted_def s_def qtype_defs after_policies_def select_policy_def settings
        action_defs Let_def)
  have miss: "cache_get now k (TTLCache_init n) = (None, TTLCache_init n)" for now k n by (simp add: cache_get_def TTLCache_init_def)
  have get: "query_step toy_dnslib (example_query name) (CacheGet ?rq ?t, s) = (ReadUpstreams ?rq ?t, s)" by (simp add: st miss)
  have five: "(query_step toy_dnslib (example_query name) ^^ 5) (ReadExcluded ?rq ?t, s)
      = (AddRtt ?rq ?t 0 (example_upstream ''192.0.2.53'' 10) (example_answer name 600), s)"
    by (simp add: eval_nat_numeral st config settings is_blocked_def list_ex_iff local_answer_def LocalRecords_index get after_upstreams_def
        example_search Let_def del: query_step.simps(11))
  have reply: "after_reply toy_dnslib ?rq ?t (example_answer name 600) = CacheSet ?rq (example_answer name 600) 600 (example_answer name 600)"
    by (simp add: after_reply_def settings example_answer_def rcode_defs compute_ttl_def clamp_ttl_def pack_and_set_def toy_dnslib_def)
  have "(query_step toy_dnslib (example_query name) ^^ 11) (ReadNetworks, main_start forwarding_config)
      = (query_step toy_dnslib (example_query name) ^^ 2) (AddRtt ?rq ?t 0 (example_upstream ''192.0.2.53'' 10) (example_answer name 600), s)"
    using funpow_add [of 2 9 "query_step toy_dnslib (example_query name)"] funpow_add [of 5 4 "query_step toy_dnslib (example_query name)"] four five
    by simp
  also have "cache_data (rs_cache (dv_core (snd \<dots>))) = cache_data (cache_set (ev_cache_set (qy_env (example_query name))) (question_key ?rq) (example_answer name 600) 600 (TTLCache_init 10000))"
    by (simp add: eval_nat_numeral reply st)
  also have "\<dots> = [(question_key ?rq, \<lparr>ce_value = example_answer name 600, inserted_at = 0, expires_at = 600000000000, ce_ttl = 600\<rparr>)]"
    by (simp add: cache_set_def TTLCache_init_def Let_def example_query_def example_env_def move_to_end_def evict_drop)
  finally show ?thesis by simp
qed

section \<open>Properties\<close>

text \<open>C5: The counts are exact in every interleaving: when the process ends, the query log and the client requests have what
  they had at its start and one for each thread that has come as far as counting its answer, provided that the writes
  commit. A packet that was answered when the end came is counted once, however its thread was interrupted.\<close>

theorem counts_exact_interleaved:
  assumes "table_ok ql_id ql_key ql_count (wt_queries t)" "table_ok crq_id crq_key crq_hits (wt_requests t)"
    and "\<forall>E. Timer (QueryTimer E) \<in> set events \<or> Timer (RequestsTimer E) \<in> set events \<longrightarrow> we_commits E"
    and "we_commits (xe_queries X)" "we_commits (xe_requests X)"
  shows "let w = conc_run D events (world_start state t); final = snd (main_stop X (wo_server w, wo_tables w)) in
    sum_by ql_key ql_count key (wt_queries final)
      = sum_by ql_key ql_count key (wt_queries t) + int (count_list (thread_keys (logged_by D) w) key)
    \<and> sum_by crq_key crq_hits key (wt_requests final)
      = sum_by crq_key crq_hits key (wt_requests t) + int (count_list (thread_keys (requested_by D) w) key)"
proof -
  let ?w = "conc_run D events (world_start state t)"
  let ?q = "QueryBuffer_init (query_flush_seconds (rt_settings state))" and ?r = "ClientRequestBuffer_init REQUESTS_FLUSH_SECONDS"
  obtain qs rs where ops:
    "(rs_buffer (dv_core (wo_server ?w)), wt_queries (wo_tables ?w)) = qlp.run qs (?q, wt_queries t)"
    "(rs_requests (dv_core (wo_server ?w)), wt_requests (wo_tables ?w)) = crp.run rs (?r, wt_requests t)"
    "\<forall>k. int (count_list (thread_keys (logged_by D) ?w) k) = added fst k qs"
    "\<forall>k. int (count_list (thread_keys (requested_by D) ?w) k) = added (\<lambda>e. e) k rs"
    "\<forall>E. Flush E \<in> set qs \<longrightarrow> Timer (QueryTimer E) \<in> set events" "\<forall>E. Flush E \<in> set rs \<longrightarrow> Timer (RequestsTimer E) \<in> set events"
    using conc_run_ops [of D events "world_start state t"]
    by (auto simp: world_start_def main_start_buffers thread_keys_def)
  note keys = ops(3) [rule_format, of key] ops(4) [rule_format, of key]
  have "qb_inv ?q" "qb_rows ?q = []" "cr_inv ?r" "cr_rows ?r = []"
    by (simp_all add: qb_inv_def QueryBuffer_init_def dict_wf_def qb_rows_def cr_inv_def ClientRequestBuffer_init_def counts_ok_def cr_rows_def)
  then show ?thesis unfolding Let_def main_stop_tables fst_conv snd_conv flush_stopped
    using qlp.drained [where st = "(?q, wt_queries t)" and ops = qs and k = key and y = "xe_queries X"]
      crp.drained [where st = "(?r, wt_requests t)" and ops = rs and k = key and y = "xe_requests X"] assms ops(1,2,5,6)
    by (simp add: keys)
qed

theorem counts_exact_interleaved_witness:
  "let w = conc_run toy_dnslib (Arrive (example_query ''ads.org'') # replicate 17 (Move 0) @ [Timer (QueryTimer example_write)])
         (world_start listed_config no_rows)
   in sum_by ql_key ql_count (''10.0.0.9'', ''ads.org'', ''A'') (wt_queries (snd (main_stop example_stop (wo_server w, wo_tables w)))) = 1"
proof -
  let ?events = "Arrive (example_query ''ads.org'') # replicate 17 (Move 0) @ [Timer (QueryTimer example_write)]"
  let ?w = "conc_run toy_dnslib ?events (world_start listed_config no_rows)"
  have "(query_step toy_dnslib (example_query ''ads.org'') ^^ 17) (ReadNetworks, main_start listed_config)
      = thread_alone toy_dnslib (example_query ''ads.org'') (ReadNetworks, main_start listed_config)"
    by (rule alone_more) simp
  then have "wo_threads ?w = [(example_query ''ads.org'', Answered (example_question ''ads.org'' 1) (deny toy_dnslib (example_question ''ads.org'' 1)))]"
    by (simp add: single_start single_moves example_alone timer_step del: conc_step.simps) (simp add: single_def example_alone)
  moreover have "query_key toy_dnslib (example_question ''ads.org'' 1) ''10.0.0.9'' = (''10.0.0.9'', ''ads.org'', ''A'')" by code_simp
  ultimately have keys: "thread_keys (logged_by toy_dnslib) ?w = [(''10.0.0.9'', ''ads.org'', ''A'')]" by (simp add: thread_keys_def)
  have "table_ok ql_id ql_key ql_count (wt_queries no_rows)" "table_ok crq_id crq_key crq_hits (wt_requests no_rows)"
    "sum_by ql_key ql_count key (wt_queries no_rows) = 0" for key
    by (simp_all add: no_rows_def)
  moreover have "\<forall>E. Timer (QueryTimer E) \<in> set ?events \<or> Timer (RequestsTimer E) \<in> set ?events \<longrightarrow> we_commits E"
    by (simp add: example_write_def)
  moreover have "we_commits (xe_queries example_stop)" "we_commits (xe_requests example_stop)" by (simp_all add: example_stop_def example_write_def)
  ultimately show ?thesis
    using counts_exact_interleaved [where t = no_rows and events = ?events and D = toy_dnslib and state = listed_config and X = example_stop
        and key = "(''10.0.0.9'', ''ads.org'', ''A'')"] unfolding Let_def keys by simp
qed

text \<open>C6: A name that is refused for the same reason throughout a stretch of time is never past the screening in it, in
  whatever order accesses and reloads come. The reason is either that every configuration lists the name for the
  client without overriding it, or that a deny rule decides it in every configuration: the client is told that there
  is no such name (or, for an AAAA query where IPv6 is off, no such record), and neither the local records nor the
  cache nor the upstreams are asked. A name that moves from the one reason to the other is not covered, and
  \<open>torn_reload_forwards\<close> shows that it may be forwarded.\<close>

theorem refused_throughout:
  assumes "refused_in listed client (qn_name (msg_q rq)) state"
    and "\<forall>db. Timer (Reload (Some db)) \<in> set events \<longrightarrow> refused_in listed client (qn_name (msg_q rq)) (loaded_config db)"
    and "(q, pc) \<in> set (wo_threads (conc_run D events (world_start state t)))"
    and "qy_client q = client" "dl_parse D (qy_packet q) = Some rq"
  shows "\<not> past_screening pc \<and> (pc_reply pc = None \<or> pc_reply pc = Some (deny D rq) \<or> pc_reply pc = Some (nodata D rq))"
proof -
  let ?T = "\<lambda>q pc. qy_client q = client \<and> dl_parse D (qy_packet q) = Some rq \<longrightarrow> refused_thread D listed rq pc"
  have "\<forall>(q, pc) \<in> set (wo_threads (conc_run D events (world_start state t))). ?T q pc"
  proof (rule snapshot_invariant [where P = "refused_in listed client (qn_name (msg_q rq))", THEN conjunct2])
    show "?T q ReadNetworks" for q by (simp add: refused_thread_def)
  qed (use assms(1,2) refused_step in \<open>auto simp: world_start_def main_start_state\<close>)
  with assms(3-5) have "refused_thread D listed rq pc" by blast
  then show ?thesis by (cases pc) (auto simp: refused_thread_def)
qed

theorem refused_throughout_witness:
  "\<exists>pc. wo_threads (conc_run toy_dnslib (Arrive (example_query ''ads.org'') # replicate 6 (Move 0)) (world_start listed_config no_rows))
      = [(example_query ''ads.org'', pc)] \<and> \<not> past_screening pc"
proof -
  let ?w = "conc_run toy_dnslib (Arrive (example_query ''ads.org'') # replicate 6 (Move 0)) (world_start listed_config no_rows)"
  obtain pc where pc: "wo_threads ?w = [(example_query ''ads.org'', pc)]"
    by (simp add: single_start single_moves del: conc_step.simps) (simp add: single_def)
  have "\<not> past_screening pc"
    using refused_throughout [where listed = True and client = "''10.0.0.9''" and rq = "example_question ''ads.org'' 1"
        and state = listed_config and D = toy_dnslib and q = "example_query ''ads.org''" and pc = pc
        and events = "Arrive (example_query ''ads.org'') # replicate 6 (Move 0)" and t = no_rows] pc example_listed(1)
    by simp
  with pc show ?thesis by blast
qed

text \<open>C7: In every interleaving, whatever is in the cache under the key of a question is an answer that an upstream gave to
  a request with this question: no race between threads, expiries and flushes stores an answer under another question,
  or one that no upstream gave.\<close>

theorem cache_holds_answers:
  fixes D :: "('d, 'b) dnslib"
  assumes "(k, e) \<in> set (cache_data (rs_cache (dv_core (wo_server (conc_run D events (world_start state t))))))"
  shows "\<exists>q \<in> fst ` set (wo_threads (conc_run D events (world_start state t))). \<exists>rq.
      dl_parse D (qy_packet q) = Some rq \<and> question_key rq = k \<and> upstream_answer D (qy_env q) rq (ce_value e)"
proof -
  have "answers_cached D (map fst (wo_threads (world_start state t :: ('d, 'b) world))) (rs_cache (dv_core (wo_server (world_start state t :: ('d, 'b) world))))"
    "\<forall>(q, pc) \<in> set (wo_threads (world_start state t :: ('d, 'b) world)). answer_thread D q pc"
    by (simp_all add: world_start_def main_start_def Let_def TTLCache_init_def answers_cached_def)
  from conjunct1 [OF answers_cached_run [OF this, of events]] assms show ?thesis unfolding answers_cached_def by (simp, blast)
qed

theorem cache_holds_answers_witness:
  "\<exists>rq. question_key rq = ''a.org|1|1'' \<and> upstream_answer toy_dnslib (qy_env (example_query ''a.org'')) rq (example_answer ''a.org'' 600)"
proof -
  let ?events = "Arrive (example_query ''a.org'') # replicate 11 (Move 0)"
  have run: "conc_run toy_dnslib ?events (world_start forwarding_config no_rows)
      = single (example_query ''a.org'') no_rows ((query_step toy_dnslib (example_query ''a.org'') ^^ 11) (ReadNetworks, main_start forwarding_config))"
    by (simp add: single_start single_moves del: conc_step.simps)
  have key: "question_key (example_question ''a.org'' 1) = ''a.org|1|1''" by code_simp
  show ?thesis
    using cache_holds_answers [where D = toy_dnslib and events = ?events and state = forwarding_config and t = no_rows, unfolded run,
      of "''a.org|1|1''" "\<lparr>ce_value = example_answer ''a.org'' 600, inserted_at = 0, expires_at = 600000000000, ce_ttl = 600\<rparr>"]
      example_cached [of "''a.org''"] key by (auto simp: single_def)
qed

text \<open>A snapshot is swapped as a whole, but a query reads its parts one after the other. When a reload takes a name from
  the blocklists and gives it a deny rule, both configurations refuse the name to a query that is not interfered
  with; a query that has read the old policies and meets the reload before it reads the blocklists is forwarded to
  the upstreams of the new configuration, and their answer is returned.\<close>

theorem torn_reload_forwards:
  fixes D :: "('d, 'b) dnslib"
  assumes "is_trusted (rt_network_filter old) (qy_client q)" "dl_parse D (qy_packet q) = Some rq" "qn_type (msg_q rq) = QTYPE_A"
    and "refused_in True (qy_client q) (qn_name (msg_q rq)) old" "refused_in False (qy_client q) (qn_name (msg_q rq)) (loaded_config db)"
    and "policy_action old (qy_client q) (qn_name (msg_q rq)) = ACTION_FORWARD" "cache_enabled (rt_settings old)"
    and "\<not> is_blocked (rt_blocklist (loaded_config db)) (normalize_domain (qn_name (msg_q rq)))"
    and "\<not> local_owns (rt_local_records (loaded_config db)) (normalize_domain (qn_name (msg_q rq)))"
    and "forward_search D (qy_env q) 0 rq (forward_timeout (rt_settings old)) (balanced_order (qy_env q) (rt_upstreams (loaded_config db)))
      = Some (i, u, reply)" "qy_client q \<notin> rt_blocklist_excluded (loaded_config db)"
  shows "fst (screen D (qy_env q) rq (qy_client q) (core\<lparr>rs_state := old\<rparr>)) = Some (deny D rq, ''blocklist'')
    \<and> fst (screen D (qy_env q) rq (qy_client q) (core\<lparr>rs_state := loaded_config db\<rparr>)) = Some (deny D rq, ''deny'')
    \<and> wo_threads (conc_run D (Arrive q # replicate 4 (Move 0) @ Timer (Reload (Some db)) # replicate 5 (Move 0)) (world_start old t))
      = [(q, AddRtt rq (rt_settings old) i u reply)]"
proof (intro conjI)
  have names: "ACTION_FORWARD \<noteq> ACTION_OVERRIDE" "ACTION_FORWARD \<noteq> ACTION_DENY" "ACTION_DENY \<noteq> ACTION_OVERRIDE" by code_simp+
  show "fst (screen D (qy_env q) rq (qy_client q) (core\<lparr>rs_state := old\<rparr>)) = Some (deny D rq, ''blocklist'')"
    using assms(3,4,6) names by (auto simp: screen_def refused_in_def policy_action_def qtype_defs Let_def split: option.splits)
  show "fst (screen D (qy_env q) rq (qy_client q) (core\<lparr>rs_state := loaded_config db\<rparr>)) = Some (deny D rq, ''deny'')"
    using assms(3,5) names by (auto simp: screen_def refused_in_def qtype_defs Let_def)
  define s where "s = (main_start old :: 'b dns_server)\<lparr>dv_hosts := ht_record (qy_client q) (dv_hosts (main_start old :: 'b dns_server))\<rparr>"
  define s' where "s' = s\<lparr>dv_core := (dv_core s)\<lparr>rs_state := loaded_config db\<rparr>\<rparr>"
  have core: "rs_state (dv_core s') = loaded_config db" "rs_cache (dv_core s') = TTLCache_init (cache_max_entries (rt_settings old))"
    by (simp_all add: s'_def s_def main_start_def Let_def)
  have four: "(query_step D q ^^ 4) (ReadNetworks, main_start old) = (ReadExcluded rq (rt_settings old), s)"
    using assms(1-3,6) names
    by (auto simp: eval_nat_numeral main_start_state qtype_defs after_policies_def policy_action_def s_def Let_def split: option.splits)
  have miss: "cache_get now k (TTLCache_init n) = (None, TTLCache_init n)" for now k n by (simp add: cache_get_def TTLCache_init_def)
  have local: "local_answer D rq (rt_local_records (loaded_config db)) = Some None" using assms(9) by (simp add: local_answer_def Let_def)
  have "query_step D q (CacheGet rq (rt_settings old), s') = (ReadUpstreams rq (rt_settings old), s')"
    by (simp add: core miss)
  then have five: "(query_step D q ^^ 5) (ReadExcluded rq (rt_settings old), s') = (AddRtt rq (rt_settings old) i u reply, s')"
    using assms(7,8,10,11) core local by (simp add: eval_nat_numeral after_upstreams_def del: query_step.simps(11))
  show "wo_threads (conc_run D (Arrive q # replicate 4 (Move 0) @ Timer (Reload (Some db)) # replicate 5 (Move 0)) (world_start old t))
      = [(q, AddRtt rq (rt_settings old) i u reply)]"
    by (simp add: single_start single_moves four single_reload s'_def [symmetric] five del: conc_step.simps) (simp add: single_def)
qed

theorem torn_reload_forwards_witness:
  "wo_threads (conc_run toy_dnslib (Arrive (example_query ''ads.org'') # replicate 4 (Move 0)
       @ Timer (Reload (Some denied_tables)) # replicate 5 (Move 0)) (world_start listed_config no_rows))
    = [(example_query ''ads.org'', AddRtt (example_question ''ads.org'' 1) (rt_settings listed_config) 0
         (example_upstream ''192.0.2.53'' 10) (example_answer ''ads.org'' 600))]"
  using torn_reload_forwards [where q = "example_query ''ads.org''" and D = toy_dnslib and old = listed_config and db = denied_tables
      and t = no_rows] example_listed example_denied example_search by (simp add: is_blocked_def list_ex_iff)

end
