(* ===== verification/Schemas.thy ===== *)
theory Schemas
  imports PolicyTable ConfigTables HostTable BlocklistStore ZoneStore SettingsTable UrlText Resolver
begin

text \<open>
  The boundary of the API: the request models of \<open>api/schemas.py\<close> and the helpers of
  \<open>api/errors.py\<close>. The conversion of a JSON body to the typed fields of a model (unknown fields, wrong
  types, missing fields) is the library's; a model here is the validators over the typed fields, in the
  order in which the library runs them, and an error is the location of the first field rejected. A field
  of an update is left out, null or a value. The texts of the validation messages are left out.
\<close>

section \<open>Validators\<close>

definition VALID_PROTOCOLS :: "string set" where "VALID_PROTOCOLS = {''udp'', ''tcp''}"
definition VALID_DEFAULT_ACTIONS :: "string set" where "VALID_DEFAULT_ACTIONS = {''deny'', ''forward''}"
definition VALID_MODES :: "string set" where "VALID_MODES = {''forward'', ''deny''}"

text \<open>A validator gives the value to use or raises.\<close>

definition check_that :: "('a \<Rightarrow> bool) \<Rightarrow> 'a \<Rightarrow> 'a option" where
  "check_that P v = (if P v then Some v else None)"

definition check_client :: "string \<Rightarrow> string option" where
  "check_client v = (if v \<noteq> WILDCARD then (case ip_address v of None \<Rightarrow> None | Some addr \<Rightarrow> Some v) else Some v)"

definition check_address :: "string \<Rightarrow> string option" where
  "check_address v = (case ip_address v of None \<Rightarrow> None | Some addr \<Rightarrow> Some v)"

definition check_port :: "int \<Rightarrow> int option" where
  "check_port v = (if \<not> (1 \<le> v \<and> v \<le> 65535) then None else Some v)"

definition check_url :: "string \<Rightarrow> string option" where
  "check_url v =
     (case url_parts v of
        None \<Rightarrow> None
      | Some (scheme, netloc) \<Rightarrow> if scheme \<notin> {''http'', ''https''} \<or> netloc = [] then None else Some v)"

definition check_interval :: "int \<Rightarrow> int option" where
  "check_interval v = (if v < 1 then None else Some v)"

definition check_cidr :: "string \<Rightarrow> string option" where
  "check_cidr v = map_option net_str (ip_network v)"

definition check_not_blank :: "string \<Rightarrow> string option" where
  "check_not_blank v = (if py_strip v = [] then None else Some v)"

definition check_action :: "string \<Rightarrow> string option" where
  "check_action v = check_that (\<lambda>v. v \<in> VALID_ACTIONS) v"

definition check_protocol :: "string \<Rightarrow> string option" where
  "check_protocol v = check_that (\<lambda>v. v \<in> VALID_PROTOCOLS) v"

text \<open>The validator of the two free texts of a host: trimmed, an empty one is null.\<close>

definition check_host_text :: "string \<Rightarrow> string patch option" where
  "check_host_text v =
     (let trimmed = py_strip v in
      if trimmed = [] then Some Null else if 255 < length trimmed then None else Some (Put trimmed))"

text \<open>A required field, a field of an update, and the next field.\<close>

definition field :: "string \<Rightarrow> 'a option \<Rightarrow> string + 'a" where
  "field name v = (case v of None \<Rightarrow> Inl name | Some x \<Rightarrow> Inr x)"

definition patch_field :: "string \<Rightarrow> ('a \<Rightarrow> 'a option) \<Rightarrow> 'a patch \<Rightarrow> string + 'a patch" where
  "patch_field name check p = (case p of Put v \<Rightarrow> map_sum id Put (field name (check v)) | _ \<Rightarrow> Inr p)"

fun then_field :: "string + 'a \<Rightarrow> ('a \<Rightarrow> string + 'b) \<Rightarrow> string + 'b" where
  "then_field (Inl loc) f = Inl loc"
| "then_field (Inr v) f = f v"

section \<open>Models\<close>

text \<open>The check of the whole model comes last and has no location.\<close>

definition PolicyCreate :: "PolicyData \<Rightarrow> string + PolicyData" where
  "PolicyCreate d =
     then_field (field ''client'' (check_client (pd_client d))) (\<lambda>client.
     then_field (field ''domain'' (check_not_blank (pd_domain d))) (\<lambda>domain.
     then_field (field ''action'' (check_action (pd_action d))) (\<lambda>action.
       let d = d\<lparr>pd_client := client, pd_domain := domain, pd_action := action\<rparr> in
       if pd_action d = ACTION_OVERRIDE
          \<and> py_strip (case pd_override_response d of None \<Rightarrow> [] | Some r \<Rightarrow> r) = []
       then Inl [] else Inr d)))"

definition PolicyUpdate :: "PolicyPatch \<Rightarrow> string + PolicyPatch" where
  "PolicyUpdate d =
     then_field (patch_field ''client'' check_client (pp_client d)) (\<lambda>client.
     then_field (patch_field ''action'' check_action (pp_action d)) (\<lambda>action.
       Inr (d\<lparr>pp_client := client, pp_action := action\<rparr>)))"

definition ClientModeUpdate :: "string \<Rightarrow> string + string" where
  "ClientModeUpdate mode = field ''mode'' (check_that (\<lambda>v. v \<in> VALID_MODES) mode)"

definition UpstreamCreate :: "UpstreamData \<Rightarrow> string + UpstreamData" where
  "UpstreamCreate d =
     then_field (field ''address'' (check_address (ud_address d))) (\<lambda>address.
     then_field (field ''port'' (check_port (ud_port d))) (\<lambda>port.
     then_field (field ''protocol'' (check_protocol (ud_protocol d))) (\<lambda>protocol.
       Inr (d\<lparr>ud_address := address, ud_port := port, ud_protocol := protocol\<rparr>))))"

definition UpstreamUpdate :: "UpstreamPatch \<Rightarrow> string + UpstreamPatch" where
  "UpstreamUpdate d =
     then_field (patch_field ''address'' check_address (up_new_address d)) (\<lambda>address.
     then_field (patch_field ''port'' check_port (up_new_port d)) (\<lambda>port.
     then_field (patch_field ''protocol'' check_protocol (up_new_protocol d)) (\<lambda>protocol.
       Inr (d\<lparr>up_new_address := address, up_new_port := port, up_new_protocol := protocol\<rparr>))))"

definition host_text_field :: "string \<Rightarrow> string patch \<Rightarrow> string + string patch" where
  "host_text_field name p = (case p of Put v \<Rightarrow> field name (check_host_text v) | _ \<Rightarrow> Inr p)"

definition HostUpdate :: "HostPatch \<Rightarrow> string + HostPatch" where
  "HostUpdate d =
     then_field (host_text_field ''device_name'' (hp_device_name d)) (\<lambda>device_name.
     then_field (host_text_field ''icon'' (hp_icon d)) (\<lambda>icon.
       Inr (d\<lparr>hp_device_name := device_name, hp_icon := icon\<rparr>)))"

text \<open>The fields that were set, in the order of the model.\<close>

definition SettingsUpdate :: "(string, setting_value) dict \<Rightarrow> string + (string, setting_value) dict" where
  "SettingsUpdate d =
     (case map_of d ''default_action'' of
        Some (SStr v) \<Rightarrow> if v \<notin> VALID_DEFAULT_ACTIONS then Inl ''default_action'' else Inr d
      | _ \<Rightarrow> Inr d)"

definition BlocklistCreate :: "BlocklistData \<Rightarrow> string + BlocklistData" where
  "BlocklistCreate d =
     then_field (field ''name'' (check_not_blank (bld_name d))) (\<lambda>name.
     then_field (field ''url'' (check_url (bld_url d))) (\<lambda>url.
     then_field (field ''update_interval_hours'' (check_interval (bld_update_interval_hours d))) (\<lambda>hours.
       Inr (d\<lparr>bld_name := name, bld_url := url, bld_update_interval_hours := hours\<rparr>))))"

definition BlocklistUpdate :: "BlocklistPatch \<Rightarrow> string + BlocklistPatch" where
  "BlocklistUpdate d =
     then_field (patch_field ''name'' check_not_blank (bp_name d)) (\<lambda>name.
     then_field (patch_field ''url'' check_url (bp_url d)) (\<lambda>url.
     then_field (patch_field ''update_interval_hours'' check_interval (bp_update_interval_hours d)) (\<lambda>hours.
       Inr (d\<lparr>bp_name := name, bp_url := url, bp_update_interval_hours := hours\<rparr>))))"

definition BlocklistOverrideCreate :: "string \<Rightarrow> string + string" where
  "BlocklistOverrideCreate domain = field ''domain'' (normalize_override_domain domain)"

definition LocalZoneCreate :: "ZoneData \<Rightarrow> string + ZoneData" where
  "LocalZoneCreate d =
     then_field (field ''name'' (check_not_blank (zd_name d))) (\<lambda>name.
     then_field (field ''url'' (check_url (zd_url d))) (\<lambda>url.
     then_field (field ''update_interval_seconds'' (check_interval (zd_update_interval_seconds d))) (\<lambda>seconds.
       Inr (d\<lparr>zd_name := name, zd_url := url, zd_update_interval_seconds := seconds\<rparr>))))"

definition LocalZoneUpdate :: "ZonePatch \<Rightarrow> string + ZonePatch" where
  "LocalZoneUpdate d =
     then_field (patch_field ''name'' check_not_blank (zp_name d)) (\<lambda>name.
     then_field (patch_field ''url'' check_url (zp_url d)) (\<lambda>url.
     then_field (patch_field ''update_interval_seconds'' check_interval (zp_update_interval_seconds d)) (\<lambda>seconds.
       Inr (d\<lparr>zp_name := name, zp_url := url, zp_update_interval_seconds := seconds\<rparr>))))"

definition TrustedNetworkCreate :: "string \<Rightarrow> string option \<Rightarrow> string + string \<times> string option" where
  "TrustedNetworkCreate cidr description =
     then_field (field ''cidr'' (check_cidr cidr)) (\<lambda>cidr.
       Inr (cidr, Option.bind description (\<lambda>d. let trimmed = py_strip d in if trimmed = [] then None else Some trimmed)))"

section \<open>Errors and query parameters\<close>

record api_error =
  ae_code :: string
  ae_message :: string
  ae_status :: int
  ae_detail :: "string option"

definition error :: "string \<Rightarrow> string \<Rightarrow> int \<Rightarrow> string option \<Rightarrow> api_error" where
  "error kind message status detail = \<lparr>ae_code = kind, ae_message = message, ae_status = status, ae_detail = detail\<rparr>"

text \<open>The body of a request: not JSON, absent or null, or a value; the conversion of a value to the fields of the
  model may fail too, with the library's detail.\<close>

datatype 'a request_body = BodyNotJson | BodyMissing | BodyIllTyped string | Body 'a

definition parse_body :: "('a \<Rightarrow> string + 'b) \<Rightarrow> 'a request_body \<Rightarrow> api_error + 'b" where
  "parse_body model body =
     (case body of
        BodyNotJson \<Rightarrow> Inl (error ''bad_request'' ''Invalid request'' 400 (Some ''request body is not valid JSON''))
      | BodyMissing \<Rightarrow> Inl (error ''bad_request'' ''Invalid request'' 400 (Some ''request body must be a JSON object''))
      | BodyIllTyped detail \<Rightarrow> Inl (error ''validation_error'' ''Invalid request'' 422 (Some detail))
      | Body raw \<Rightarrow>
          (case model raw of
             Inl loc \<Rightarrow> Inl (error ''validation_error'' ''Invalid request'' 422 (Some loc))
           | Inr instance \<Rightarrow> Inr instance))"

definition read_pagination :: "string option \<Rightarrow> string option \<Rightarrow> api_error + bool \<times> int option \<times> int" where
  "read_pagination raw_limit raw_offset =
     (if raw_limit = None \<and> raw_offset = None then Inr (False, None, 0)
      else
        let limit = (case raw_limit of None \<Rightarrow> Some None | Some s \<Rightarrow> map_option Some (py_int s));
            offset = (case raw_offset of None \<Rightarrow> Some 0 | Some s \<Rightarrow> py_int s) in
        case (limit, offset) of
          (Some l, Some off) \<Rightarrow> Inr (True, l, off)
        | _ \<Rightarrow> Inl (error ''validation_error'' ''Invalid request'' 422 (Some ''limit and offset must be integers'')))"

definition read_int_query :: "string \<Rightarrow> string option \<Rightarrow> api_error + int option" where
  "read_int_query name raw =
     (case raw of
        None \<Rightarrow> Inr None
      | Some s \<Rightarrow>
          if s = [] then Inr None
          else (case py_int s of
                  Some n \<Rightarrow> Inr (Some n)
                | None \<Rightarrow> Inl (error ''validation_error'' ''Invalid request'' 422 (Some (name @ '' must be an integer'')))))"

section \<open>Lemmas\<close>

lemma then_field_Inr: "then_field r f = Inr v \<longleftrightarrow> (\<exists>x. r = Inr x \<and> f x = Inr v)"
  by (cases r) simp_all

lemma field_Inr: "field name v = Inr x \<longleftrightarrow> v = Some x"
  by (simp add: field_def split: option.split)

lemma patch_field_Inr: "patch_field name check p = Inr q \<longleftrightarrow>
    (case p of Put v \<Rightarrow> (\<exists>x. check v = Some x \<and> q = Put x) | _ \<Rightarrow> q = p)"
  by (auto simp: patch_field_def field_def split: patch.split option.split)

lemmas model_Inr = then_field_Inr field_Inr patch_field_Inr

lemma check_that_Some: "check_that P v = Some x \<longleftrightarrow> P v \<and> x = v"
  by (auto simp: check_that_def)

definition client_ok :: "string \<Rightarrow> bool" where
  "client_ok c \<longleftrightarrow> c = WILDCARD \<or> ip_address c \<noteq> None"

lemma check_client_Some: "check_client v = Some x \<longleftrightarrow> client_ok v \<and> x = v"
  by (auto simp: check_client_def client_ok_def split: option.split)

lemma strip_Nil [simp]: "py_strip [] = []"
  by code_simp

lemma PolicyCreate_Inr: "PolicyCreate d = Inr v \<longleftrightarrow> v = d \<and> client_ok (pd_client d) \<and> py_strip (pd_domain d) \<noteq> []
    \<and> pd_action d \<in> VALID_ACTIONS
    \<and> (pd_action d = ACTION_OVERRIDE \<longrightarrow> (\<exists>r. pd_override_response d = Some r \<and> py_strip r \<noteq> []))"
  by (auto simp: PolicyCreate_def model_Inr check_client_Some check_not_blank_def check_action_def check_that_Some Let_def
      split: if_splits option.splits)

lemma PolicyUpdate_Inr: "PolicyUpdate d = Inr v \<longleftrightarrow> v = d \<and> (\<forall>c. pp_client d = Put c \<longrightarrow> client_ok c)
    \<and> (\<forall>a. pp_action d = Put a \<longrightarrow> a \<in> VALID_ACTIONS)"
  by (cases "pp_client d"; cases "pp_action d"; cases d)
    (auto simp: PolicyUpdate_def model_Inr check_client_Some check_action_def check_that_Some)

section \<open>Properties\<close>

text \<open>C37: An accepted network is stored as a canonical text. The text loads as the network that the request named; two
  requests are stored as the same text exactly when they name the same network, in whatever spelling and with
  whatever host bits, so that the uniqueness of the stored texts is uniqueness of the networks; and for an IPv4
  network in numbers the text is that of its first address: 10.2.10.5/24 is stored as 10.2.10.0/24.\<close>

theorem cidr_roundtrip:
  assumes "TrustedNetworkCreate cidr description = Inr (stored, description')"
    and "TrustedNetworkCreate cidr2 description2 = Inr (stored2, description2')"
  shows "networks (from_cidrs [stored]) = networks (from_cidrs [cidr]) \<and> networks (from_cidrs [stored]) \<noteq> []
    \<and> (stored = stored2 \<longleftrightarrow> networks (from_cidrs [cidr]) = networks (from_cidrs [cidr2]))
    \<and> (\<forall>n p. n < 2 ^ 32 \<longrightarrow> p \<le> 32 \<longrightarrow> cidr = v4_str n @ CHR ''/'' # nat_str p \<longrightarrow>
         stored = v4_str (n div 2 ^ (32 - p) * 2 ^ (32 - p)) @ CHR ''/'' # nat_str p)"
proof -
  from assms(1) obtain net where net: "ip_network cidr = Some net" "stored = net_str net"
    by (auto simp: TrustedNetworkCreate_def model_Inr check_cidr_def)
  from assms(2) obtain net2 where net2: "ip_network cidr2 = Some net2" "stored2 = net_str net2"
    by (auto simp: TrustedNetworkCreate_def model_Inr check_cidr_def)
  have load: "ip_network stored = Some net" "ip_network stored2 = Some net2"
    using ip_network_str ip_network_wf net net2 by simp_all
  then have "stored = stored2 \<longleftrightarrow> net = net2" unfolding net(2) net2(2) by (metis option.inject)
  moreover have "stored = v4_str (n div 2 ^ (32 - p) * 2 ^ (32 - p)) @ CHR ''/'' # nat_str p"
    if "n < 2 ^ 32" "p \<le> 32" "cidr = v4_str n @ CHR ''/'' # nat_str p" for n p
  proof -
    have "net = Net4 (n div 2 ^ (32 - p) * 2 ^ (32 - p)) p" using that net(1) ip_network_v4 [of n p] by (simp add: netmask_and)
    then show ?thesis by (simp add: net(2))
  qed
  moreover have "networks (from_cidrs [stored]) = [net]" "networks (from_cidrs [cidr]) = [net]" "networks (from_cidrs [cidr2]) = [net2]"
    by (simp_all add: map_filter_simps load(1) net(1) net2(1))
  ultimately show ?thesis by (simp only:) blast
qed

theorem cidr_roundtrip_witness:
  "\<exists>stored. TrustedNetworkCreate (v4_str 167905797 @ CHR ''/'' # nat_str 24) None = Inr (stored, None)
     \<and> TrustedNetworkCreate (v4_str 167905792 @ CHR ''/'' # nat_str 24) None = Inr (stored, None)
     \<and> stored = v4_str 167905792 @ CHR ''/'' # nat_str 24"
proof -
  let ?a = "v4_str 167905797 @ CHR ''/'' # nat_str 24" and ?b = "v4_str 167905792 @ CHR ''/'' # nat_str 24"
  obtain s t where s: "TrustedNetworkCreate ?a None = Inr (s, None)" and t: "TrustedNetworkCreate ?b None = Inr (t, None)"
    by (simp add: TrustedNetworkCreate_def check_cidr_def ip_network_v4 field_def)
  have "networks (from_cidrs [?a]) = networks (from_cidrs [?b])" by (simp add: map_filter_simps ip_network_v4 netmask_and)
  moreover have "t = v4_str (167905792 div 2 ^ (32 - 24) * 2 ^ (32 - 24)) @ CHR ''/'' # nat_str 24"
    using cidr_roundtrip [OF t t] by (elim conjE allE [of _ 167905792] allE [of _ 24]) simp
  moreover have "(167905792 :: nat) div 2 ^ (32 - 24) * 2 ^ (32 - 24) = 167905792" by simp
  ultimately show ?thesis using cidr_roundtrip [OF s t] s t by simp
qed

text \<open>Operations with checked arguments; \<open>acts\<close> are the actions that rows may have, the accepted ones among them.\<close>

fun typed_op :: "string set \<Rightarrow> policy_op \<Rightarrow> bool" where
  "typed_op acts (CreatePolicy d) = (PolicyCreate d = Inr d)"
| "typed_op acts (UpdatePolicy i d) = (PolicyUpdate d = Inr d)"
| "typed_op acts (DeletePolicy i) = True"
| "typed_op acts (SetClientMode c mode) = (ip_address c \<noteq> None \<and> ClientModeUpdate mode = Inr mode)"
| "typed_op acts (EnsureClientPolicy c action) = (ip_address c \<noteq> None \<and> action \<in> acts)"

definition row_typed :: "string set \<Rightarrow> PolicyRow \<Rightarrow> bool" where
  "row_typed acts r \<longleftrightarrow> pol_action r \<in> acts \<and> client_ok (pol_client r)"

lemma touch_response [simp]: "pol_override_response (touch_policy now old new) = pol_override_response new"
  by (auto simp: touch_policy_def)

lemma patch_typed:
  assumes "patch_policy d old = Some new" "PolicyUpdate d = Inr d" "row_typed acts old" "VALID_ACTIONS \<subseteq> acts"
  shows "row_typed acts new"
  using assms
  by (cases "pp_client d"; cases "pp_action d")
    (auto simp: patch_policy_def patch_req_def row_typed_def PolicyUpdate_Inr split: bind_splits patch.splits)

lemma valid_modes: "m \<in> VALID_MODES \<Longrightarrow> m \<in> VALID_ACTIONS" "m \<in> VALID_DEFAULT_ACTIONS \<Longrightarrow> m \<in> VALID_ACTIONS"
  by (auto simp: VALID_MODES_def VALID_DEFAULT_ACTIONS_def VALID_ACTIONS_def action_defs)

lemma typed_op_rows:
  assumes "VALID_ACTIONS \<subseteq> acts" "typed_op acts op" "\<forall>r \<in> set t. row_typed acts r"
  shows "\<forall>r \<in> set (policy_step (now, op) t). row_typed acts r"
proof (cases op)
  case (CreatePolicy d)
  then show ?thesis using assms
    by (auto simp: create_policy_def insert_policy_def Let_def row_typed_def PolicyCreate_Inr split: sum.split)
next
  case (UpdatePolicy i d)
  show ?thesis
  proof (cases "get_row pol_id i t")
    case None
    then show ?thesis using assms UpdatePolicy by (simp add: update_policy_def)
  next
    case (Some old)
    then have old: "row_typed acts old" using get_row_Some [OF Some] assms(3) by blast
    show ?thesis
    proof (cases "patch_policy d old")
      case None
      then show ?thesis using assms(3) UpdatePolicy Some by (simp add: update_policy_def)
    next
      case new: (Some new)
      have "row_typed acts new" using patch_typed [OF new _ old assms(1)] assms(2) UpdatePolicy by simp
      then have "row_typed acts (touch_policy now old new)" by (simp add: row_typed_def)
      then show ?thesis
        using assms(3) by (auto simp: UpdatePolicy update_policy_def Some new Let_def set_replace_row)
    qed
  qed
next
  case (DeletePolicy i)
  then show ?thesis using assms by (auto simp: delete_policy_def delete_row_spec)
next
  case (SetClientMode c mode)
  then have "mode \<in> acts" "client_ok c"
    using assms(1,2) valid_modes by (auto simp: ClientModeUpdate_def field_Inr check_that_Some client_ok_def)
  note typed = this
  show ?thesis
  proof (cases "client_row c t")
    case None
    then show ?thesis using assms(3) typed
      by (auto simp: SetClientMode set_client_mode_def Let_def insert_policy_def wildcard_policy_def row_typed_def)
  next
    case (Some row)
    have "row_typed acts (touch_policy now row (row\<lparr>pol_action := mode\<rparr>))"
      using client_row_Some [OF Some] typed by (simp add: row_typed_def)
    then show ?thesis using assms(3) by (auto simp: SetClientMode set_client_mode_def Let_def Some set_replace_row)
  qed
next
  case (EnsureClientPolicy c action)
  then have "action \<in> acts" "client_ok c" using assms(2) by (auto simp: client_ok_def)
  with EnsureClientPolicy assms(3) show ?thesis
    by (auto simp: ensure_client_policy_def Let_def insert_policy_def wildcard_policy_def row_typed_def split: option.split sum.split)
qed

text \<open>The client of an accepted policy is stored as it was written. An IPv6 address in another spelling than the
  canonical one is accepted, but the rule then applies to no client at all, since clients are known by the canonical
  text of their address.\<close>

theorem client_spelling_dead_rule:
  assumes "PolicyCreate d = Inr d'" "ip_address (pd_client d') = Some addr" "ip_str addr \<noteq> pd_client d'" "pd_client d' \<noteq> WILDCARD"
    and "ip_address client_ip = Some client" "ip_str client = client_ip"
  shows "pd_client d' = pd_client d \<and> \<not> client_matches (pd_client d') client_ip"
proof -
  have "pd_client d' \<noteq> client_ip" using assms(2,3,5,6) by auto
  then show ?thesis using assms(1,4) by (simp add: PolicyCreate_Inr client_matches_def)
qed

text \<open>An update is accepted that turns a policy without a response into an override. The table then has an override
  rule without an answer, which a creation would refuse: the names it covers are answered with the
  library's empty reply.\<close>

theorem update_override_unanswered:
  assumes "get_row pol_id i t = Some row" "pol_override_response row = None" "policies_ok t"
    and "d = \<lparr>pp_client = Keep, pp_domain = Keep, pp_action = Put ACTION_OVERRIDE, pp_override_response = Keep,
           pp_override_ttl = Keep, pp_enabled = Keep, pp_description = Keep\<rparr>"
  shows "PolicyUpdate d = Inr d \<and> (\<exists>reply t' new. update_policy now i d t = Inr (reply, t') \<and> new \<in> set t'
    \<and> pol_id new = i \<and> pol_action new = ACTION_OVERRIDE \<and> override D request (policy_rule new) = Some (dl_reply D request))"
proof -
  let ?new = "row\<lparr>pol_action := ACTION_OVERRIDE\<rparr>"
  have row: "row \<in> set t" "pol_id row = i" using get_row_Some [OF assms(1)] by simp_all
  have patch: "patch_policy d row = Some ?new" by (simp add: assms(4) patch_policy_def patch_req_def patch_opt_def)
  have "r = row" if "r \<in> set t" "pol_client r = pol_client row" "pol_domain r = pol_domain row" for r
    using assms(3) row(1) that by (auto simp: policies_ok_def pol_key_def distinct_map inj_on_def)
  then have "\<not> policy_conflict ?new t" by (auto simp: policy_conflict_def list_ex_iff)
  then have "update_policy now i d t = Inr (Some (policy_dict (touch_policy now row ?new)), replace_row pol_id (touch_policy now row ?new) t)"
    by (simp add: update_policy_def assms(1) patch Let_def)
  moreover have "touch_policy now row ?new \<in> set (replace_row pol_id (touch_policy now row ?new) t)"
    using row by (auto simp: set_replace_row)
  moreover have "pol_id (touch_policy now row ?new) = i" "pol_action (touch_policy now row ?new) = ACTION_OVERRIDE"
    "pol_override_response (touch_policy now row ?new) = None"
    using row(2) assms(2) by simp_all
  moreover have "override D request rule = Some (dl_reply D request)" if "override_response rule = None" for rule
    using that by (simp add: override_def override_values_def)
  moreover have "PolicyUpdate d = Inr d" by (simp add: PolicyUpdate_Inr assms(4) VALID_ACTIONS_def)
  ultimately show ?thesis by (auto simp: policy_rule_def)
qed

theorem client_spelling_dead_rule_witness:
  "\<not> client_matches ''0::1'' (ip_str (IPv6 1 None))"
proof -
  let ?d = "\<lparr>pd_client = ''0::1'', pd_domain = ''*'', pd_action = ''deny'', pd_override_response = None, pd_override_ttl = 300,
    pd_enabled = True, pd_description = None\<rparr>"
  have strip: "py_strip ''*'' = ''*''" by code_simp
  have split: "py_split colon ''0::1'' = [''0'', [], ''1'']" and hextets: "parse_hextet ''0'' = Some 0" "parse_hextet ''1'' = Some 1"
    and zeros: "replicate 6 (0 :: nat) = [0, 0, 0, 0, 0, 0]" and gap: "filter (\<lambda>i. [''0'', [], ''1''] ! i = []) [1..<2] = [1 :: nat]"
    by code_simp+
  have "v6_gap [''0'', [], ''1''] 1 = Some 1"
    unfolding v6_gap_def Let_def by (simp add: hextets zeros from_digits_def)
  moreover have "v6_parts ''0::1'' = Some [''0'', [], ''1'']" by (simp add: v6_parts_def split)
  ultimately have v6: "parse_v6_int ''0::1'' = Some 1" by (simp add: parse_v6_int_def gap)
  have v4: "ipv4_address ''0::1'' = None" by (rule no_v4_of_colon) simp
  have addr: "ip_address ''0::1'' = Some (IPv6 1 None)"
    by (simp add: ip_address_def v4 ipv6_address_def split_scope_def v6)
  have hextets: "v6_hextets (Suc 0) = [0, 0, 0, 0, 0, 0, 0, 1]" by (simp add: v6_hextets_def)
  have str: "ip_str (IPv6 1 None) = ''::1''"
    by (simp add: v6_str_def hextets base_str.simps digit_char_table compress_hextets_def cut_run_def)
  have "PolicyCreate ?d = Inr ?d"
    by (simp add: PolicyCreate_Inr client_ok_def addr strip VALID_ACTIONS_def action_defs)
  then show ?thesis
    using client_spelling_dead_rule [of ?d ?d "IPv6 1 None" "ip_str (IPv6 1 None)" "IPv6 1 None"] addr str
      ip_address_str [of "IPv6 1 None"] by (simp add: WILDCARD_def)
qed

theorem update_override_unanswered_witness:
  "\<exists>reply t' new. update_policy 9 1 \<lparr>pp_client = Keep, pp_domain = Keep, pp_action = Put ACTION_OVERRIDE, pp_override_response = Keep,
           pp_override_ttl = Keep, pp_enabled = Keep, pp_description = Keep\<rparr>
       [(wildcard_policy 5 ''10.0.0.7'' ''deny'')\<lparr>pol_id := 1\<rparr>] = Inr (reply, t') \<and> new \<in> set t'
    \<and> override toy_dnslib (dl_question toy_dnslib ''a.b'' ''A'') (policy_rule new) = Some (dl_reply toy_dnslib (dl_question toy_dnslib ''a.b'' ''A''))"
proof -
  let ?row = "(wildcard_policy 5 ''10.0.0.7'' ''deny'')\<lparr>pol_id := 1\<rparr>"
  have "get_row pol_id 1 [?row] = Some ?row" "pol_override_response ?row = None" "policies_ok [?row]"
    by (simp_all add: get_row_def wildcard_policy_def policies_ok_def)
  from update_override_unanswered [OF this refl] show ?thesis by blast
qed

end
