(* ===== verification/ConfigRoutes.thy ===== *)
theory ConfigRoutes
  imports Schemas Startup
begin

text \<open>
  The routes of the API that read and change the configuration: \<open>api/routes\<close> \<open>policies.py\<close>,
  \<open>client_modes.py\<close>, \<open>upstreams.py\<close>, \<open>trusted_networks.py\<close>, \<open>settings.py\<close>, \<open>hosts.py\<close>,
  \<open>blocklists.py\<close> and \<open>local_zones.py\<close>. A route takes the query parameters as texts, the body as it
  arrives, the clock and the tables, and gives its reply with the new tables. The envelope around the
  payload, the registration with the web framework and its matching of paths are left out; an exception that
  leaves a route is \<open>Crashed\<close>, the framework's 500. The last section runs these routes together with the reloads and
  the discovery of clients of the DNS process.
\<close>

section \<open>Replies\<close>

datatype 'a reply = Reply int 'a | Failed api_error | Crashed

definition not_found :: "'a reply" where
  "not_found = Failed (error ''not_found'' ''not found'' 404 None)"

text \<open>The rows and the total of a list route. Without parameters all rows are read and counted.\<close>

definition paged :: "api_error + bool \<times> int option \<times> int \<Rightarrow> (int option \<Rightarrow> int \<Rightarrow> 'r list) \<Rightarrow> nat \<Rightarrow> ('r list \<times> nat) reply" where
  "paged pagination rows n =
     (case pagination of
        Inl err \<Rightarrow> Failed err
      | Inr (paginate, limit, offset) \<Rightarrow>
          if \<not> paginate then Reply 200 (rows None 0, length (rows None 0)) else Reply 200 (rows limit offset, n))"

definition found :: "'a option \<Rightarrow> 'a reply" where
  "found row = (case row of None \<Rightarrow> not_found | Some r \<Rightarrow> Reply 200 r)"

definition with_body :: "api_error + 'm \<Rightarrow> ('m \<Rightarrow> 'a reply \<times> 't) \<Rightarrow> 't \<Rightarrow> 'a reply \<times> 't" where
  "with_body body f t = (case body of Inl err \<Rightarrow> (Failed err, t) | Inr model \<Rightarrow> f model)"

definition created :: "string \<Rightarrow> 't \<Rightarrow> repo_error + 'a \<times> 't \<Rightarrow> 'a reply \<times> 't" where
  "created message t r =
     (case r of
        Inr (row, t') \<Rightarrow> (Reply 201 row, t')
      | Inl IntegrityError \<Rightarrow> (Failed (error ''conflict'' message 409 None), t)
      | Inl OverflowError \<Rightarrow> (Crashed, t))"

definition updated :: "string \<Rightarrow> 't \<Rightarrow> repo_error + 'a option \<times> 't \<Rightarrow> 'a reply \<times> 't" where
  "updated message t r =
     (case r of
        Inr (row, t') \<Rightarrow> (found row, t')
      | Inl IntegrityError \<Rightarrow> (Failed (error ''conflict'' message 409 None), t)
      | Inl OverflowError \<Rightarrow> (Crashed, t))"

definition removed :: "int \<Rightarrow> bool \<times> 't \<Rightarrow> int reply \<times> 't" where
  "removed i r = (case r of (done_so, t) \<Rightarrow> (if \<not> done_so then not_found else Reply 200 i, t))"

section \<open>Policies and client modes\<close>

definition route_list_policies where
  "route_list_policies limit offset t = paged (read_pagination limit offset) (\<lambda>l off. list_policies l off t) (count_policies t)"

definition route_get_policy where
  "route_get_policy policy_id t = found (get_policy policy_id t)"

definition policy_exists :: string where
  "policy_exists = ''a policy already exists for this client/domain''"

definition route_create_policy :: "datetime \<Rightarrow> PolicyData request_body \<Rightarrow> PolicyRow list \<Rightarrow> json_dict reply \<times> PolicyRow list" where
  "route_create_policy now body t =
     with_body (parse_body PolicyCreate body) (\<lambda>data. created policy_exists t (create_policy now data t)) t"

definition route_update_policy :: "datetime \<Rightarrow> int \<Rightarrow> PolicyPatch request_body \<Rightarrow> PolicyRow list \<Rightarrow> json_dict reply \<times> PolicyRow list" where
  "route_update_policy now policy_id body t =
     with_body (parse_body PolicyUpdate body) (\<lambda>data. updated policy_exists t (update_policy now policy_id data t)) t"

definition route_delete_policy where
  "route_delete_policy policy_id t = removed policy_id (delete_policy policy_id t)"

definition validate_ip :: "string \<Rightarrow> api_error option" where
  "validate_ip ip =
     (case ip_address ip of
        None \<Rightarrow> Some (error ''validation_error'' ''Invalid request'' 422 (Some ''client must be a valid IP address''))
      | Some addr \<Rightarrow> None)"

definition route_get_mode :: "string \<Rightarrow> AppSetting list \<Rightarrow> PolicyRow list \<Rightarrow> json_dict reply" where
  "route_get_mode ip settings t =
     (case validate_ip ip of
        Some err \<Rightarrow> Failed err
      | None \<Rightarrow> Reply 200 (get_client_mode ip (load_runtime_settings settings) t))"

definition route_set_mode :: "datetime \<Rightarrow> string \<Rightarrow> string request_body \<Rightarrow> PolicyRow list \<Rightarrow> json_dict reply \<times> PolicyRow list" where
  "route_set_mode now ip body t =
     (case validate_ip ip of
        Some err \<Rightarrow> (Failed err, t)
      | None \<Rightarrow>
          with_body (parse_body ClientModeUpdate body)
            (\<lambda>mode. case set_client_mode now ip mode t of Inr (row, t') \<Rightarrow> (Reply 200 row, t') | Inl e \<Rightarrow> (Crashed, t)) t)"

section \<open>Upstreams, trusted networks, settings and hosts\<close>

definition route_list_upstreams where
  "route_list_upstreams limit offset t =
     paged (read_pagination limit offset) (\<lambda>l off. list_upstreams l off t) (count_upstreams t)"

definition route_get_upstream where
  "route_get_upstream upstream_id t = found (get_upstream upstream_id t)"

definition route_create_upstream :: "datetime \<Rightarrow> UpstreamData request_body \<Rightarrow> UpstreamRow list \<Rightarrow> json_dict reply \<times> UpstreamRow list" where
  "route_create_upstream now body t =
     with_body (parse_body UpstreamCreate body) (\<lambda>data. case create_upstream now data t of (row, t') \<Rightarrow> (Reply 201 row, t')) t"

definition route_update_upstream :: "datetime \<Rightarrow> int \<Rightarrow> UpstreamPatch request_body \<Rightarrow> UpstreamRow list \<Rightarrow> json_dict reply \<times> UpstreamRow list" where
  "route_update_upstream now upstream_id body t =
     with_body (parse_body UpstreamUpdate body)
       (\<lambda>data. case update_upstream now upstream_id data t of Inr (row, t') \<Rightarrow> (found row, t') | Inl e \<Rightarrow> (Crashed, t)) t"

definition route_delete_upstream where
  "route_delete_upstream upstream_id t = removed upstream_id (delete_upstream upstream_id t)"

text \<open>The manual probe reads the stored row and the stored timeout; the text of the library's exception is left out.\<close>

definition route_check_upstream :: "('d, 'b) dnslib \<Rightarrow> ('d, 'b) probe_env \<Rightarrow> int \<Rightarrow> AppSetting list \<Rightarrow> UpstreamRow list \<Rightarrow> rat reply" where
  "route_check_upstream D E upstream_id settings t =
     (case get_row us_id upstream_id t of
        None \<Rightarrow> not_found
      | Some row \<Rightarrow>
          (let server = \<lparr>up_address = us_address row, up_port = us_port row, up_protocol = us_protocol row, up_priority = us_priority row\<rparr>
           in case probe_upstream D E 0 server (forward_timeout (load_runtime_settings settings)) of
                None \<Rightarrow> Failed (error ''upstream_error'' ''upstream check failed'' 502 None)
              | Some rtt_ms \<Rightarrow> Reply 200 rtt_ms))"

definition route_list_trusted_networks where
  "route_list_trusted_networks limit offset t =
     paged (read_pagination limit offset) (\<lambda>l off. list_trusted_networks l off t) (count_trusted_networks t)"

definition route_get_trusted_network where
  "route_get_trusted_network network_id t = found (get_trusted_network network_id t)"

definition route_create_trusted_network :: "datetime \<Rightarrow> (string \<times> string option) request_body \<Rightarrow> TrustedNetworkRow list
    \<Rightarrow> json_dict reply \<times> TrustedNetworkRow list" where
  "route_create_trusted_network now body t =
     with_body (parse_body (\<lambda>(cidr, description). TrustedNetworkCreate cidr description) body)
       (\<lambda>(cidr, description). created ''this subnet is already trusted'' t (create_trusted_network now cidr description t)) t"

definition route_delete_trusted_network where
  "route_delete_trusted_network network_id t = removed network_id (delete_trusted_network network_id t)"

definition route_get_settings where
  "route_get_settings t = Reply 200 (get_all_settings t)"

definition route_update_settings where
  "route_update_settings now body t =
     with_body (parse_body SettingsUpdate body) (\<lambda>data. case update_settings now data t of (row, t') \<Rightarrow> (Reply 200 row, t')) t"

definition route_list_hosts where
  "route_list_hosts limit offset now stats t =
     paged (read_pagination limit offset) (\<lambda>l off. list_hosts l off now stats t) (count_hosts t)"

definition route_get_host where
  "route_get_host host_id now stats t = found (get_host host_id now stats t)"

definition route_update_host :: "int \<Rightarrow> HostPatch request_body \<Rightarrow> datetime \<Rightarrow> ClientHourlyStat list \<Rightarrow> Host list \<Rightarrow> json_dict reply \<times> Host list" where
  "route_update_host host_id body now stats t =
     with_body (parse_body HostUpdate body) (\<lambda>data. case update_host host_id data now stats t of (row, t') \<Rightarrow> (found row, t')) t"

definition route_sync_host :: "int \<Rightarrow> string \<Rightarrow> (string \<Rightarrow> sando_reply) \<Rightarrow> datetime \<Rightarrow> ClientHourlyStat list \<Rightarrow> Host list
    \<Rightarrow> json_dict reply \<times> Host list" where
  "route_sync_host host_id api_url net now stats t =
     (case get_row hst_id host_id t of
        None \<Rightarrow> (not_found, t)
      | Some host \<Rightarrow>
          if api_url = []
          then (Failed (error ''not_configured'' ''Sando API is not configured'' 503 (Some ''set SANDO_API_URL'')), t)
          else (case sync_host_from_sando api_url net (hst_ip host) now stats t of
                  (Inl (SandoError msg), t') \<Rightarrow> (Failed (error ''upstream_error'' ''failed to sync from Sando'' 502 (Some msg)), t')
                | (Inl SandoCrash, t') \<Rightarrow> (Crashed, t')
                | (Inr None, t') \<Rightarrow> (Failed (error ''not_found'' ''Sando has no record for this client'' 404 (Some (hst_ip host))), t')
                | (Inr (Some row), t') \<Rightarrow> (Reply 200 row, t')))"

definition route_delete_host :: "int \<Rightarrow> bool \<Rightarrow> host_db \<Rightarrow> int reply \<times> host_db" where
  "route_delete_host host_id commits db =
     (case delete_host host_id commits db of
        (None, db) \<Rightarrow> (Crashed, db)
      | (Some True, db) \<Rightarrow> (Reply 200 host_id, db)
      | (Some False, db) \<Rightarrow> (not_found, db))"

section \<open>Blocklists\<close>

definition route_list_blocklists where
  "route_list_blocklists limit offset t =
     paged (read_pagination limit offset) (\<lambda>l off. list_blocklists l off t) (count_blocklists t)"

definition trimmed_query :: "string option \<Rightarrow> string" where
  "trimmed_query raw = py_strip (case raw of None \<Rightarrow> [] | Some s \<Rightarrow> s)"

definition route_search_domains where
  "route_search_domains q limit offset t d =
     (let query = trimmed_query q in
      if query = [] then Failed (error ''validation_error'' ''Invalid request'' 422 (Some ''q is required''))
      else paged (read_pagination limit offset) (\<lambda>l off. search_domains query l off t d) (count_domain_matches query d))"

definition with_int :: "api_error + int option \<Rightarrow> (int option \<Rightarrow> 'a reply) \<Rightarrow> 'a reply" where
  "with_int v f = (case v of Inl err \<Rightarrow> Failed err | Inr n \<Rightarrow> f n)"

text \<open>The pagination is read first, then the filter.\<close>

definition paged_by :: "api_error + bool \<times> int option \<times> int \<Rightarrow> api_error + int option
    \<Rightarrow> (int option \<Rightarrow> int option \<Rightarrow> int \<Rightarrow> 'r list) \<Rightarrow> (int option \<Rightarrow> nat) \<Rightarrow> ('r list \<times> nat) reply" where
  "paged_by pagination filter_value rows n =
     (case pagination of
        Inl err \<Rightarrow> Failed err
      | Inr p \<Rightarrow> with_int filter_value (\<lambda>v. paged (Inr p) (rows v) (n v)))"

definition route_blocklist_size_history where
  "route_blocklist_size_history hours limit offset now t =
     paged_by (read_pagination limit offset) (read_int_query ''hours'' hours)
       (\<lambda>h l off. list_blocklist_size l off h now t) (\<lambda>h. count_blocklist_size h now t)"

definition route_recent_blocklist_domains where
  "route_recent_blocklist_domains blocklist_id limit offset t d =
     paged_by (read_pagination limit offset) (read_int_query ''blocklist_id'' blocklist_id)
       (\<lambda>i l off. list_new_domains l off i t d) (\<lambda>i. count_new_domains i d)"

definition route_list_overrides where
  "route_list_overrides limit offset t =
     paged (read_pagination limit offset) (\<lambda>l off. list_overrides l off t) (count_overrides t)"

definition route_create_override :: "datetime \<Rightarrow> string request_body \<Rightarrow> OverrideRow list \<Rightarrow> json_dict reply \<times> OverrideRow list" where
  "route_create_override now body t =
     with_body (parse_body BlocklistOverrideCreate body)
       (\<lambda>domain. created ''this domain is already an override'' t (create_override now domain t)) t"

definition route_delete_override where
  "route_delete_override override_id t = removed override_id (delete_override override_id t)"

definition route_get_blocklist where
  "route_get_blocklist blocklist_id t = found (get_blocklist blocklist_id t)"

definition blocklist_exists :: string where
  "blocklist_exists = ''a blocklist with this name already exists''"

definition route_create_blocklist :: "datetime \<Rightarrow> BlocklistData request_body \<Rightarrow> BlocklistRow list \<Rightarrow> json_dict reply \<times> BlocklistRow list" where
  "route_create_blocklist now body t =
     with_body (parse_body BlocklistCreate body) (\<lambda>data. created blocklist_exists t (create_blocklist now data t)) t"

definition route_update_blocklist :: "datetime \<Rightarrow> int \<Rightarrow> BlocklistPatch request_body \<Rightarrow> BlocklistRow list \<Rightarrow> json_dict reply \<times> BlocklistRow list" where
  "route_update_blocklist now blocklist_id body t =
     with_body (parse_body BlocklistUpdate body) (\<lambda>data. updated blocklist_exists t (update_blocklist now blocklist_id data t)) t"

definition route_delete_blocklist where
  "route_delete_blocklist blocklist_id t d = removed blocklist_id (delete_blocklist blocklist_id t d)"

definition route_list_blocklist_domains where
  "route_list_blocklist_domains blocklist_id limit offset t d =
     (case get_blocklist blocklist_id t of
        None \<Rightarrow> not_found
      | Some row \<Rightarrow> paged (read_pagination limit offset) (\<lambda>l off. list_domains blocklist_id l off d) (count_domains blocklist_id d))"

text \<open>A download that fails with anything but a download error leaves the route.\<close>

definition refreshed :: "string \<Rightarrow> (download_error + 'a) \<times> 's \<Rightarrow> 'a reply \<times> 's" where
  "refreshed message r =
     (case r of
        (Inr row, st) \<Rightarrow> (Reply 200 row, st)
      | (Inl (DownloadError msg), st) \<Rightarrow> (Failed (error ''download_failed'' message 502 (Some msg)), st)
      | (Inl Crash, st) \<Rightarrow> (Crashed, st))"

definition route_refresh_blocklist :: "int \<Rightarrow> refresh_env \<Rightarrow> blocklist_store \<Rightarrow> json_dict reply \<times> blocklist_store" where
  "route_refresh_blocklist blocklist_id E st =
     (case get_blocklist blocklist_id (bs_lists st) of
        None \<Rightarrow> (not_found, st)
      | Some row \<Rightarrow> refreshed ''blocklist download failed'' (refresh_blocklist blocklist_id E st))"

section \<open>Local zones\<close>

definition route_list_local_zones where
  "route_list_local_zones limit offset t =
     paged (read_pagination limit offset) (\<lambda>l off. list_local_zones l off t) (count_local_zones t)"

definition some_text :: "string \<Rightarrow> string option" where
  "some_text s = (if s = [] then None else Some s)"

definition route_list_local_records where
  "route_list_local_records search rtype limit offset t d =
     (let search = some_text (trimmed_query search); rtype = some_text (trimmed_query rtype)
      in paged (read_pagination limit offset) (\<lambda>l off. list_all_records l off search rtype t d) (count_all_records search rtype d))"

definition route_get_local_zone where
  "route_get_local_zone zone_id t = found (get_local_zone zone_id t)"

definition zone_exists :: string where
  "zone_exists = ''a local zone with this name already exists''"

definition route_create_local_zone :: "datetime \<Rightarrow> ZoneData request_body \<Rightarrow> ZoneRow list \<Rightarrow> json_dict reply \<times> ZoneRow list" where
  "route_create_local_zone now body t =
     with_body (parse_body LocalZoneCreate body) (\<lambda>data. created zone_exists t (create_local_zone now data t)) t"

definition route_update_local_zone :: "datetime \<Rightarrow> int \<Rightarrow> ZonePatch request_body \<Rightarrow> ZoneRow list \<Rightarrow> json_dict reply \<times> ZoneRow list" where
  "route_update_local_zone now zone_id body t =
     with_body (parse_body LocalZoneUpdate body) (\<lambda>data. updated zone_exists t (update_local_zone now zone_id data t)) t"

definition route_delete_local_zone where
  "route_delete_local_zone zone_id t d = removed zone_id (delete_local_zone zone_id t d)"

definition route_list_zone_records where
  "route_list_zone_records zone_id limit offset t d =
     (case get_local_zone zone_id t of
        None \<Rightarrow> not_found
      | Some row \<Rightarrow> paged (read_pagination limit offset) (\<lambda>l off. list_records zone_id l off d) (count_records zone_id d))"

definition route_refresh_local_zone :: "int \<Rightarrow> refresh_env \<Rightarrow> zone_store \<Rightarrow> json_dict reply \<times> zone_store" where
  "route_refresh_local_zone zone_id E st =
     (case get_local_zone zone_id (zs_zones st) of
        None \<Rightarrow> (not_found, st)
      | Some row \<Rightarrow> refreshed ''local zone download failed'' (refresh_local_zone zone_id E st))"

section \<open>The configuration over the life of an installation\<close>

text \<open>What changes the rules: the requests of the API, the reloads of the server and the clients it sees. A reload may find
  the databases not ready.\<close>

record config_site =
  si_tables :: tables
  si_stats :: "ClientHourlyStat list"
  si_state :: RuntimeState

datatype config_event =
    CreateRequest datetime "PolicyData request_body"
  | UpdateRequest datetime int "PolicyPatch request_body"
  | DeleteRequest int
  | ModeRequest datetime string "string request_body"
  | SettingsRequest datetime "(string, setting_value) dict request_body"
  | Reload bool
  | Discovered "string set \<Rightarrow> string list" string "string \<Rightarrow> discover_env" "string set"

definition put_policies :: "PolicyRow list \<Rightarrow> config_site \<Rightarrow> config_site" where
  "put_policies t s = s\<lparr>si_tables := (si_tables s)\<lparr>tb_policies := t\<rparr>\<rparr>"

fun config_step :: "config_event \<Rightarrow> config_site \<Rightarrow> config_site" where
  "config_step (CreateRequest now body) s = put_policies (snd (route_create_policy now body (tb_policies (si_tables s)))) s"
| "config_step (UpdateRequest now i body) s = put_policies (snd (route_update_policy now i body (tb_policies (si_tables s)))) s"
| "config_step (DeleteRequest i) s = put_policies (snd (route_delete_policy i (tb_policies (si_tables s)))) s"
| "config_step (ModeRequest now ip body) s = put_policies (snd (route_set_mode now ip body (tb_policies (si_tables s)))) s"
| "config_step (SettingsRequest now body) s =
     s\<lparr>si_tables := (si_tables s)\<lparr>tb_settings := snd (route_update_settings now body (tb_settings (si_tables s)))\<rparr>\<rparr>"
| "config_step (Reload ready) s =
     (case state_reload sql_loaders (if ready then Some (si_tables s) else None) (si_state s) of
        None \<Rightarrow> s | Some st \<Rightarrow> s\<lparr>si_state := st\<rparr>)"
| "config_step (Discovered listing api_url E ips) s =
     (let db = on_discover listing api_url (si_state s) E ips
           \<lparr>vd_policies = tb_policies (si_tables s), vd_hosts = tb_hosts (si_tables s), vd_stats = si_stats s\<rparr>
      in s\<lparr>si_tables := (si_tables s)\<lparr>tb_policies := vd_policies db, tb_hosts := vd_hosts db\<rparr>\<rparr>)"

text \<open>The framework lets only texts and nulls through as a default action, keys are distinct, and the server sees
  clients by their addresses.\<close>

fun event_ok :: "config_event \<Rightarrow> bool" where
  "event_ok (SettingsRequest now (Body d)) \<longleftrightarrow>
     dict_wf d \<and> (case map_of d ''default_action'' of None \<Rightarrow> True | Some SNone \<Rightarrow> True | Some (SStr v) \<Rightarrow> True | _ \<Rightarrow> False)"
| "event_ok (Discovered listing api_url E ips) \<longleftrightarrow> (\<forall>ip \<in> set (listing ips). ip_address ip \<noteq> None)"
| "event_ok _ \<longleftrightarrow> True"

fun nulls_default :: "config_event \<Rightarrow> bool" where
  "nulls_default (SettingsRequest now (Body d)) \<longleftrightarrow> map_of d ''default_action'' = Some SNone"
| "nulls_default _ \<longleftrightarrow> False"

definition new_site :: config_site where
  "new_site =
     \<lparr>si_tables = \<lparr>tb_settings = [], tb_policies = [], tb_upstreams = [], tb_networks = [], tb_blocklists = [], tb_domains = [],
        tb_hosts = [], tb_zones = [], tb_zone_records = []\<rparr>,
      si_stats = [], si_state = RuntimeState_empty\<rparr>"

definition site_typed :: "string set \<Rightarrow> config_site \<Rightarrow> bool" where
  "site_typed acts s \<longleftrightarrow>
     (\<forall>r \<in> set (tb_policies (si_tables s)). row_typed acts r)
   \<and> settings_ok (tb_settings (si_tables s))
   \<and> (\<forall>v. map_of (stored_settings (tb_settings (si_tables s))) ''default_action'' = Some v \<longrightarrow> v \<in> acts)
   \<and> default_action (rt_settings (si_state s)) \<in> acts
   \<and> (\<forall>r \<in> set (rt_policies (si_state s)). rule_action r \<in> acts \<and> client_ok (rule_client r))"

lemma parse_body_Inr: "parse_body model body = Inr v \<longleftrightarrow> (\<exists>raw. body = Body raw \<and> model raw = Inr v)"
  by (auto simp: parse_body_def split: request_body.split sum.split)

text \<open>A policy route leaves the table or does one accepted operation.\<close>

lemma policy_routes:
  "snd (route_create_policy now body t) = t \<or> (\<exists>d. PolicyCreate d = Inr d \<and> snd (route_create_policy now body t) = policy_step (now, CreatePolicy d) t)"
  "snd (route_update_policy now i patch t) = t \<or> (\<exists>d. PolicyUpdate d = Inr d \<and> snd (route_update_policy now i patch t) = policy_step (now, UpdatePolicy i d) t)"
  "snd (route_delete_policy i t) = policy_step (now, DeletePolicy i) t"
  "snd (route_set_mode now ip mode_body t) = t \<or> (\<exists>m. ip_address ip \<noteq> None \<and> ClientModeUpdate m = Inr m
     \<and> snd (route_set_mode now ip mode_body t) = policy_step (now, SetClientMode ip m) t)"
proof -
  have mode: "ClientModeUpdate m = Inr m' \<longleftrightarrow> m \<in> VALID_MODES \<and> m' = m" for m m'
    by (simp add: ClientModeUpdate_def field_Inr check_that_Some)
  show "snd (route_create_policy now body t) = t \<or> (\<exists>d. PolicyCreate d = Inr d \<and> snd (route_create_policy now body t) = policy_step (now, CreatePolicy d) t)"
    by (cases "parse_body PolicyCreate body")
      (auto simp: route_create_policy_def with_body_def created_def parse_body_Inr PolicyCreate_Inr split: sum.split repo_error.split)
  show "snd (route_update_policy now i patch t) = t \<or> (\<exists>d. PolicyUpdate d = Inr d \<and> snd (route_update_policy now i patch t) = policy_step (now, UpdatePolicy i d) t)"
    by (cases "parse_body PolicyUpdate patch")
      (auto simp: route_update_policy_def with_body_def updated_def parse_body_Inr PolicyUpdate_Inr split: sum.split repo_error.split)
  show "snd (route_delete_policy i t) = policy_step (now, DeletePolicy i) t"
    by (simp add: route_delete_policy_def removed_def split: prod.split)
  show "snd (route_set_mode now ip mode_body t) = t \<or> (\<exists>m. ip_address ip \<noteq> None \<and> ClientModeUpdate m = Inr m
     \<and> snd (route_set_mode now ip mode_body t) = policy_step (now, SetClientMode ip m) t)"
    by (cases "parse_body ClientModeUpdate mode_body"; cases "ip_address ip")
      (auto simp: route_set_mode_def validate_ip_def with_body_def parse_body_Inr mode split: sum.split)
qed

lemma policy_rule_fields [simp]: "rule_action (policy_rule r) = pol_action r" "rule_client (policy_rule r) = pol_client r"
  by (simp_all add: policy_rule_def)

lemma discover_typed:
  assumes "VALID_ACTIONS \<subseteq> acts" "action \<in> acts" "\<forall>ip \<in> set ips. ip_address ip \<noteq> None"
    and "\<forall>r \<in> set (vd_policies db). row_typed acts r"
  shows "\<forall>r \<in> set (vd_policies (fold (\<lambda>ip. discover_one api_url action (E ip) ip) ips db)). row_typed acts r"
proof (rule fold_invariant_set [where P = "\<lambda>db. \<forall>r \<in> set (vd_policies db). row_typed acts r", OF assms(4)])
  fix ip and db :: discover_db assume ip: "ip \<in> set ips" and rows: "\<forall>r \<in> set (vd_policies db). row_typed acts r"
  have "typed_op acts (EnsureClientPolicy ip action)" using assms(2,3) ip by simp
  from typed_op_rows [OF assms(1) this rows, of "vy_now (E ip)"]
  show "\<forall>r \<in> set (vd_policies (discover_one api_url action (E ip) ip db)). row_typed acts r"
    using rows by (cases "vy_seed_commits (E ip)") (auto simp: discover_one_def Let_def split: prod.split sum.split sum.splits)
qed

lemma loaded_default_action:
  "default_action (load_runtime_settings t) =
     (case map_of (stored_settings t) ''default_action'' of None \<Rightarrow> ''forward'' | Some v \<Rightarrow> v)"
  by (simp add: load_runtime_settings_def settings_of_def merged_setting_def Let_def coerce_str STR_KEYS_def
      settings_dict_def RuntimeSettings_default_def dict_get_def split: option.split)

lemma SettingsUpdate_same: "SettingsUpdate raw = Inr d \<Longrightarrow> raw = d"
  by (auto simp: SettingsUpdate_def split: option.splits setting_value.splits if_splits)

lemma default_actions_ok: "''forward'' \<in> VALID_ACTIONS" "v \<in> VALID_DEFAULT_ACTIONS \<Longrightarrow> v \<in> VALID_ACTIONS"
  using valid_modes by (auto simp: VALID_ACTIONS_def action_defs)

lemma config_step_typed:
  assumes "VALID_ACTIONS \<subseteq> acts" "event_ok ev" "nulls_default ev \<Longrightarrow> ''None'' \<in> acts" "site_typed acts s"
  shows "site_typed acts (config_step ev s)"
proof -
  have rows: "\<forall>r \<in> set (tb_policies (si_tables s)). row_typed acts r" using assms(4) by (simp add: site_typed_def)
  have put: "site_typed acts (put_policies t s)" if "\<forall>r \<in> set t. row_typed acts r" for t
    using that assms(4) by (simp add: site_typed_def put_policies_def)
  note typed = typed_op_rows [OF assms(1) _ rows]
  show ?thesis
  proof (cases ev)
    case (CreateRequest now body)
    then show ?thesis using policy_routes(1) [of now body "tb_policies (si_tables s)"] typed rows
      by (auto intro!: put simp del: policy_step.simps) (metis typed_op.simps(1))+
  next
    case (UpdateRequest now i body)
    then show ?thesis using policy_routes(2) [of now i body "tb_policies (si_tables s)"] typed rows
      by (auto intro!: put simp del: policy_step.simps) (metis typed_op.simps(2))+
  next
    case (DeleteRequest i)
    then show ?thesis using policy_routes(3) [of i "tb_policies (si_tables s)" 0] typed [of "DeletePolicy i" 0]
      by (auto intro!: put simp del: policy_step.simps)
  next
    case (ModeRequest now ip body)
    then show ?thesis using policy_routes(4) [of now ip body "tb_policies (si_tables s)"] typed rows
      by (auto intro!: put simp del: policy_step.simps) (metis typed_op.simps(4) option.distinct(1))+
  next
    case (SettingsRequest now body)
    show ?thesis
    proof (cases "parse_body SettingsUpdate body")
      case (Inl e)
      then show ?thesis using assms(4) by (simp add: SettingsRequest route_update_settings_def with_body_def site_typed_def)
    next
      case (Inr d)
      then have d: "body = Body d" and ok: "SettingsUpdate d = Inr d"
        using SettingsUpdate_same by (auto simp: parse_body_Inr)
      have wf: "dict_wf d" using assms(2) by (simp add: SettingsRequest d)
      have old: "settings_ok (tb_settings (si_tables s))" using assms(4) by (simp add: site_typed_def)
      have "''default_action'' \<in> set KNOWN_KEYS" by (simp add: KNOWN_KEYS_def STR_KEYS_def)
      note stored = update_settings_stored [OF old wf, of now "''default_action''"] this
      have val: "serialize v \<in> acts" if "map_of d ''default_action'' = Some v" for v
        using that assms(1-3) ok default_actions_ok(2)
        by (cases v) (auto simp: SettingsRequest d SettingsUpdate_def serialize_def split: if_splits)
      have "snd (route_update_settings now body (tb_settings (si_tables s))) = snd (update_settings now d (tb_settings (si_tables s)))"
        using Inr by (simp add: route_update_settings_def with_body_def split: prod.split)
      then show ?thesis using stored val assms(4) by (auto simp: SettingsRequest site_typed_def split: option.splits)
    qed
  next
    case (Reload ready)
    have action: "default_action (load_runtime_settings (tb_settings (si_tables s))) \<in> acts"
      using assms(1,4) default_actions_ok(1) by (auto simp: loaded_default_action site_typed_def split: option.split)
    have "\<forall>r \<in> set (load_rules (tb_policies (si_tables s))). rule_action r \<in> acts \<and> client_ok (rule_client r)"
      using rows by (auto simp: load_rules_def row_typed_def)
    with action show ?thesis using assms(4) by (auto simp: Reload reload_config loaded_config_def site_typed_def)
  next
    case (Discovered listing api_url E ips)
    have "default_action (rt_settings (si_state s)) \<in> acts" using assms(4) by (simp add: site_typed_def)
    from discover_typed [OF assms(1) this, of "listing ips"
        "\<lparr>vd_policies = tb_policies (si_tables s), vd_hosts = tb_hosts (si_tables s), vd_stats = si_stats s\<rparr>" api_url E] assms(2,4) rows
    show ?thesis by (simp add: Discovered on_discover_def Let_def site_typed_def)
  qed
qed

text \<open>C33: Whatever requests, reloads and new clients an installation sees from its empty tables on, every rule that the
  server has loaded names all clients or a parseable address, and its action is one of the three known ones. The
  only exception is one that the code itself makes: after a request that sets the default action to null, clients
  may be seeded with the text \<open>None\<close> as their action.\<close>

theorem loaded_rules_typed:
  assumes "\<forall>ev \<in> set evs. event_ok ev" "r \<in> set (rt_policies (si_state (fold config_step evs new_site)))"
  shows "(rule_client r = WILDCARD \<or> ip_address (rule_client r) \<noteq> None)
    \<and> (rule_action r \<in> VALID_ACTIONS \<or> rule_action r = ''None'' \<and> (\<exists>ev \<in> set evs. nulls_default ev))"
proof -
  let ?acts = "VALID_ACTIONS \<union> (if \<exists>ev \<in> set evs. nulls_default ev then {''None''} else {})"
  have "site_typed ?acts new_site"
    using default_actions_ok(1) by (auto simp: site_typed_def new_site_def settings_ok_def stored_settings_def RuntimeState_empty_def
        RuntimeSettings_default_def)
  moreover have "site_typed ?acts (config_step ev s)" if "ev \<in> set evs" "site_typed ?acts s" for ev s
    by (rule config_step_typed) (use that assms(1) in auto)
  ultimately have "site_typed ?acts (fold config_step evs new_site)" by (rule fold_invariant_set)
  with assms(2) show ?thesis by (auto simp: site_typed_def client_ok_def split: if_splits)
qed

theorem loaded_rules_typed_witness:
  "\<exists>r \<in> set (rt_policies (si_state (fold config_step
      [CreateRequest 5 (Body \<lparr>pd_client = WILDCARD, pd_domain = ''ads.example'', pd_action = ''deny'', pd_override_response = None,
         pd_override_ttl = 300, pd_enabled = True, pd_description = None\<rparr>), Reload True] new_site))).
     rule_action r \<in> VALID_ACTIONS"
proof -
  let ?d = "\<lparr>pd_client = WILDCARD, pd_domain = ''ads.example'', pd_action = ''deny'', pd_override_response = None,
         pd_override_ttl = 300, pd_enabled = True, pd_description = None\<rparr>"
  let ?evs = "[CreateRequest 5 (Body ?d), Reload True]"
  have strip: "py_strip ''ads.example'' = ''ads.example''" by code_simp
  have "PolicyCreate ?d = Inr ?d" by (simp add: PolicyCreate_Inr client_ok_def strip VALID_ACTIONS_def action_defs)
  then have body: "parse_body PolicyCreate (Body ?d) = Inr ?d" by (simp add: parse_body_Inr)
  obtain r where r: "r \<in> set (rt_policies (si_state (fold config_step ?evs new_site)))"
    by (simp add: route_create_policy_def with_body_def body created_def create_policy_def insert_policy_def policy_conflict_def
        Let_def new_site_def put_policies_def reload_config loaded_config_def load_rules_def)
  have "\<forall>ev \<in> set ?evs. event_ok ev" by simp
  from loaded_rules_typed [OF this r] r show ?thesis by auto
qed

text \<open>The exception is real: after a request that nulls the default action and a reload, the next new client gets a rule
  with the action \<open>None\<close>, and the reload after that puts it into force.\<close>

theorem null_default_seeded:
  assumes "listing {ip} = [ip]" "vy_seed_commits (E ip)"
  shows "\<exists>r \<in> set (rt_policies (si_state (fold config_step
      [SettingsRequest now (Body [(''default_action'', SNone)]), Reload True, Discovered listing api_url E {ip}, Reload True] new_site))).
     rule_client r = ip \<and> rule_action r = ''None''"
proof -
  let ?set = "snd (route_update_settings now (Body [(''default_action'', SNone)]) [])"
  have body: "parse_body SettingsUpdate (Body [(''default_action'', SNone)]) = Inr [(''default_action'', SNone)]"
    by (simp add: parse_body_Inr SettingsUpdate_def)
  have "''default_action'' \<in> set KNOWN_KEYS" by (simp add: KNOWN_KEYS_def STR_KEYS_def)
  then have "map_of (stored_settings ?set) ''default_action'' = Some ''None''"
    using update_settings_stored [of "[]" "[(''default_action'', SNone)]" now "''default_action''"]
    by (simp add: route_update_settings_def with_body_def body settings_ok_def dict_wf_def serialize_def split_beta)
  then have none: "default_action (load_runtime_settings ?set) = ''None''" by (simp add: loaded_default_action)
  let ?db = "\<lparr>vd_policies = [], vd_hosts = [], vd_stats = []\<rparr>"
  let ?row = "(wildcard_policy (vy_now (E ip)) ip ''None'')\<lparr>pol_id := 1\<rparr>"
  have "vd_policies (discover_one api_url ''None'' (E ip) ip ?db) = [?row]"
    using assms(2) by (simp add: discover_one_def Let_def ensure_client_policy_def client_row_def insert_policy_def
        policy_conflict_def wildcard_policy_def next_id_def split: prod.split sum.split)
  moreover have "pol_enabled ?row" "pol_client ?row = ip" "pol_action ?row = ''None''" by (simp_all add: wildcard_policy_def)
  ultimately show ?thesis
    by (simp add: new_site_def reload_config loaded_config_def none on_discover_def Let_def assms(1) load_rules_def)
qed

theorem null_default_seeded_witness:
  "\<exists>r \<in> set (rt_policies (si_state (fold config_step
      [SettingsRequest 4 (Body [(''default_action'', SNone)]), Reload True,
       Discovered (\<lambda>ips. [''10.0.0.7'']) [] (\<lambda>ip. \<lparr>vy_now = 5, vy_seed_commits = True, vy_sync_commits = True,
         vy_net = (\<lambda>url. SandoFails OtherException)\<rparr>) {''10.0.0.7''}, Reload True] new_site))).
     rule_client r = ''10.0.0.7'' \<and> rule_action r = ''None''"
  by (rule null_default_seeded) simp_all

end
