(* ===== verification/ReportRoutes.thy ===== *)
theory ReportRoutes
  imports ConfigRoutes QueryLogTable CappedTables StatTables CounterTables CacheMirror EventTables NewDomains
begin

text \<open>
  The routes of the API that report what the server has recorded: \<open>api/routes\<close> \<open>query_log.py\<close>,
  \<open>query_events.py\<close>, \<open>requests.py\<close>, \<open>stats.py\<close>, \<open>cache.py\<close> and \<open>foreign_clients.py\<close>, with the
  conventions of \<open>ConfigRoutes\<close>.
\<close>

section \<open>Query log and events\<close>

definition opt_text :: "string option \<Rightarrow> string option" where
  "opt_text raw = Option.bind raw some_text"

text \<open>The page is annotated in place; a row without a name would raise.\<close>

definition annotated :: "(string set \<Rightarrow> string list) \<Rightarrow> BlocklistRow list \<Rightarrow> BlocklistDomain list
    \<Rightarrow> (json_dict list \<times> nat) reply \<Rightarrow> (json_dict list \<times> nat) reply" where
  "annotated listing t d r =
     (case r of
        Reply status (rows, n) \<Rightarrow>
          (case annotate_blocked listing rows ''domain'' t d of None \<Rightarrow> Crashed | Some rows \<Rightarrow> Reply status (rows, n))
      | r \<Rightarrow> r)"

definition route_list_queries where
  "route_list_queries listing search client limit offset queries t d =
     (let search = some_text (trimmed_query search); client = some_text (trimmed_query client)
      in annotated listing t d
           (paged (read_pagination limit offset) (\<lambda>l off. list_queries l off search client queries) (count_queries search client queries)))"

definition DEFAULT_TOP_BLOCKED :: int where "DEFAULT_TOP_BLOCKED = 20"

definition row_domain :: "json_dict \<Rightarrow> string" where
  "row_domain row = (case map_of row ''domain'' of Some (JStr s) \<Rightarrow> s | _ \<Rightarrow> [])"

text \<open>A row of the answer: the totals of the domain, its clients and its sources.\<close>

definition route_top_blocked :: "string option \<Rightarrow> QueryLog list \<Rightarrow> BlocklistRow list \<Rightarrow> BlocklistDomain list
    \<Rightarrow> (json_dict \<times> (string \<times> int) list \<times> json_dict list) list reply" where
  "route_top_blocked limit queries t d =
     with_int (read_int_query ''limit'' limit) (\<lambda>limit.
       let top = (case limit of Some n \<Rightarrow> if 0 < n then n else DEFAULT_TOP_BLOCKED | None \<Rightarrow> DEFAULT_TOP_BLOCKED);
           totals = aggregate_domain_totals queries;
           sources = find_domain_sources (map row_domain totals) t d;
           blocked = take (nat top) (filter (\<lambda>row. map_of sources (row_domain row) \<noteq> None) totals);
           clients = clients_for_domains (map row_domain blocked) queries
       in Reply 200 (map (\<lambda>row. (row, dict_get clients (row_domain row) [], dict_get sources (row_domain row) [])) blocked))"

definition route_reset_queries :: "QueryLog list \<Rightarrow> nat reply \<times> QueryLog list" where
  "route_reset_queries t = (case reset_queries t of (deleted, t') \<Rightarrow> (Reply 200 deleted, t'))"

definition DEFAULT_SECONDS :: int where "DEFAULT_SECONDS = 60"

definition route_recent_queries :: "string \<Rightarrow> string option \<Rightarrow> string option \<Rightarrow> datetime \<Rightarrow> ClientQueryEvent list
    \<Rightarrow> (int \<times> json_dict list) reply" where
  "route_recent_queries ip seconds limit now t =
     (case ip_address ip of
        None \<Rightarrow> Failed (error ''validation_error'' ''Invalid request'' 422 (Some ''client must be a valid IP address''))
      | Some addr \<Rightarrow>
          with_int (read_int_query ''seconds'' seconds) (\<lambda>seconds.
            let seconds = (case seconds of None \<Rightarrow> DEFAULT_SECONDS | Some s \<Rightarrow> s) in
            if seconds \<le> 0 then Failed (error ''validation_error'' ''Invalid request'' 422 (Some ''seconds must be positive''))
            else with_int (read_int_query ''limit'' limit) (\<lambda>limit.
              if (case limit of None \<Rightarrow> False | Some n \<Rightarrow> n \<le> 0)
              then Failed (error ''validation_error'' ''Invalid request'' 422 (Some ''limit must be positive''))
              else Reply 200 (seconds, list_recent_queries ip seconds limit now t))))"

definition route_list_requests where
  "route_list_requests client limit offset t =
     (let client = opt_text client
      in paged (read_pagination limit offset) (\<lambda>l off. list_client_requests l off client t) (count_client_requests client t))"

section \<open>Statistics\<close>

text \<open>A list route with a window: with \<open>hours\<close> the filled series, which ignores the page.\<close>

definition series_or_page :: "api_error + bool \<times> int option \<times> int \<Rightarrow> api_error + int option
    \<Rightarrow> (int \<Rightarrow> 'r list) \<Rightarrow> (int option \<Rightarrow> int \<Rightarrow> 'r list) \<Rightarrow> nat \<Rightarrow> ('r list \<times> nat) reply" where
  "series_or_page pagination hours series rows n =
     (case pagination of
        Inl err \<Rightarrow> Failed err
      | Inr p \<Rightarrow>
          with_int hours (\<lambda>hours.
            case hours of
              Some h \<Rightarrow> Reply 200 (series h, length (series h))
            | None \<Rightarrow> paged (Inr p) rows n))"

definition route_list_stats where
  "route_list_stats client hours limit offset now t =
     (case read_pagination limit offset of
        Inl err \<Rightarrow> Failed err
      | Inr p \<Rightarrow>
          with_int (read_int_query ''hours'' hours) (\<lambda>hours.
            let client = opt_text client in
            if hours \<noteq> None \<and> client \<noteq> None
            then (let rows = list_client_stats None 0 client hours True now t in Reply 200 (rows, length rows))
            else paged (Inr p) (\<lambda>l off. list_client_stats l off client hours False now t) (count_client_stats client hours now t)))"

definition route_site_stats where
  "route_site_stats hours limit offset now t =
     series_or_page (read_pagination limit offset) (read_int_query ''hours'' hours)
       (\<lambda>h. list_site_hourly_stats None 0 (Some h) True now t)
       (\<lambda>l off. list_site_hourly_stats l off None False now t) (count_site_hourly_stats None now t)"

definition route_cache_outcome_stats where
  "route_cache_outcome_stats hours limit offset now t =
     series_or_page (read_pagination limit offset) (read_int_query ''hours'' hours)
       (\<lambda>h. list_cache_outcomes None 0 (Some h) True now t)
       (\<lambda>l off. list_cache_outcomes l off None False now t) (count_cache_outcomes None now t)"

definition route_new_domain_stats where
  "route_new_domain_stats client t =
     (let rows = list_new_domain_counts (opt_text client) t in Reply 200 (rows, length rows))"

definition route_recent_new_domains where
  "route_recent_new_domains listing limit hosts requests queries t d =
     with_int (read_int_query ''limit'' limit) (\<lambda>limit.
       let rows = list_recent_new_domains (case limit of Some n \<Rightarrow> n | None \<Rightarrow> 100) (load_new_domain_unmonitored hosts) requests queries
       in annotated listing t d (Reply 200 (rows, length rows)))"

definition route_runtime_stats where
  "route_runtime_stats t = Reply 200 (load_runtime_stats t)"

text \<open>With a window and no address, every configured upstream gets a series.\<close>

definition route_upstream_rtt where
  "route_upstream_rtt address hours limit offset now upstreams t =
     (let address = opt_text address in
      series_or_page (read_pagination limit offset) (read_int_query ''hours'' hours)
        (\<lambda>h. list_upstream_rtt None 0 address (Some h) True
          (if address \<noteq> None then None else Some (map up_address (load_upstreams upstreams))) now t)
        (\<lambda>l off. list_upstream_rtt l off address None False None now t) (count_upstream_rtt address None now t))"

section \<open>Cache and foreign clients\<close>

definition route_list_cache where
  "route_list_cache search limit offset now t =
     (let search = some_text (trimmed_query search) in
      case paged (read_pagination limit offset) (\<lambda>l off. list_cache_entries l off search now t) (count_cache_entries search t) of
        Reply status page \<Rightarrow> Reply status (page, cache_updated_at t)
      | Failed err \<Rightarrow> Failed err
      | Crashed \<Rightarrow> Crashed)"

definition route_list_uncacheable where
  "route_list_uncacheable reason client limit offset t =
     (let reason = some_text (trimmed_query reason); client = opt_text client
      in paged (read_pagination limit offset) (\<lambda>l off. list_uncacheable l off reason client t) (count_uncacheable reason client t))"

definition route_clear_uncacheable :: "string option \<Rightarrow> string option \<Rightarrow> UncacheableResponse list \<Rightarrow> nat reply \<times> UncacheableResponse list" where
  "route_clear_uncacheable reason client t =
     (case delete_all_uncacheable (some_text (trimmed_query reason)) (opt_text client) t of (deleted, t') \<Rightarrow> (Reply 200 deleted, t'))"

definition route_delete_uncacheable where
  "route_delete_uncacheable entry_id t = removed entry_id (delete_uncacheable entry_id t)"

definition route_flush_cache :: "(int \<Rightarrow> string) \<Rightarrow> datetime \<Rightarrow> AppSetting list \<Rightarrow> string reply \<times> AppSetting list" where
  "route_flush_cache fmt now t = (case request_cache_flush fmt now t of (requested_at, t') \<Rightarrow> (Reply 200 requested_at, t'))"

definition route_list_foreign_clients where
  "route_list_foreign_clients limit offset t =
     paged (read_pagination limit offset) (\<lambda>l off. list_foreign_clients l off t) (count_foreign_clients t)"

definition route_clear_foreign_clients :: "ForeignClient list \<Rightarrow> nat reply \<times> ForeignClient list" where
  "route_clear_foreign_clients t = (case delete_all_foreign_clients t of (deleted, t') \<Rightarrow> (Reply 200 deleted, t'))"

definition route_delete_foreign_client where
  "route_delete_foreign_client client_id t = removed client_id (delete_foreign_client client_id t)"

section \<open>Lemmas\<close>

text \<open>Consecutive pages of one size.\<close>

lemma concat_pages:
  assumes "0 < n"
  shows "concat (map (\<lambda>i. sql_page (Some n) (int i * n) rows) [0..<k]) = take (k * nat n) rows"
proof (induction k)
  case (Suc k)
  have "nat (int k * n) = k * nat n" using assms by (simp add: nat_mult_distrib)
  then have "sql_page (Some n) (int k * n) rows = take (nat n) (drop (k * nat n) rows)"
    using assms by (simp add: sql_page_def Let_def)
  with Suc show ?case by (simp add: take_add [symmetric] add.commute)
qed simp

definition page_rows :: "('r list \<times> nat) reply \<Rightarrow> 'r list" where
  "page_rows r = (case r of Reply status (rows, n) \<Rightarrow> rows | _ \<Rightarrow> [])"

section \<open>Properties\<close>

text \<open>The pages of the policies join up: with one page size the answers for the consecutive offsets are, one
  after the other, the rows of the unpaged answer, each once, and every answer carries the number of all rows.\<close>

theorem policy_pages:
  assumes "py_int limit = Some n" "0 < n" "\<forall>i < k. py_int (offset i) = Some (int i * n)" "length t \<le> k * nat n"
  shows "concat (map (\<lambda>i. page_rows (route_list_policies (Some limit) (Some (offset i)) t)) [0..<k])
      = page_rows (route_list_policies None None t)
    \<and> list_all (\<lambda>i. route_list_policies (Some limit) (Some (offset i)) t
        = Reply 200 (list_policies (Some n) (int i * n) t, length t)) [0..<k]"
proof -
  have page: "route_list_policies (Some limit) (Some (offset i)) t = Reply 200 (list_policies (Some n) (int i * n) t, length t)"
    if "i < k" for i
    using assms(1,3) that by (simp add: route_list_policies_def paged_def read_pagination_def count_policies_def)
  have "concat (map (\<lambda>i. page_rows (route_list_policies (Some limit) (Some (offset i)) t)) [0..<k])
      = concat (map (\<lambda>i. map policy_dict (sql_page (Some n) (int i * n) (order_by pol_id t))) [0..<k])"
    by (intro arg_cong [of _ _ concat] map_cong) (simp_all add: page page_rows_def list_policies_def)
  also have "\<dots> = map policy_dict (concat (map (\<lambda>i. sql_page (Some n) (int i * n) (order_by pol_id t)) [0..<k]))"
    by (simp add: map_concat comp_def)
  also have "\<dots> = map policy_dict (order_by pol_id t)"
    unfolding concat_pages [OF assms(2)] using assms(4) by (simp add: order_by_def)
  finally show ?thesis
    using page by (simp add: list_all_iff page_rows_def route_list_policies_def paged_def read_pagination_def list_policies_def)
qed

theorem policy_pages_witness:
  "let row = (\<lambda>i. (wildcard_policy 0 (nat_str (nat i)) ''deny'')\<lparr>pol_id := i\<rparr>); t = [row 1, row 2, row 3]
   in page_rows (route_list_policies (Some ''2'') (Some ''0'') t) @ page_rows (route_list_policies (Some ''2'') (Some ''2'') t)
      = page_rows (route_list_policies None None t)"
proof -
  let ?row = "\<lambda>i. (wildcard_policy 0 (nat_str (nat i)) ''deny'')\<lparr>pol_id := i\<rparr>"
  let ?t = "[?row 1, ?row 2, ?row 3]" and ?off = "\<lambda>i :: nat. if i = 0 then ''0'' else ''2''"
  have ints: "py_int ''2'' = Some 2" "py_int ''0'' = Some 0" by code_simp+
  have "\<forall>i < 2. py_int (?off i) = Some (int i * 2)" using ints by (auto simp: less_2_cases_iff)
  from policy_pages [OF ints(1) _ this, of ?t]
  have "concat (map (\<lambda>i. page_rows (route_list_policies (Some ''2'') (Some (?off i)) ?t)) [0..<2])
      = page_rows (route_list_policies None None ?t)" by simp
  moreover have "[0..<2] = [0, 1 :: nat]" by code_simp
  ultimately show ?thesis unfolding Let_def by simp
qed

text \<open>An offset without a limit is accepted and ignored: the answer is the whole table, not its rest.\<close>

theorem offset_ignored:
  assumes "py_int offset = Some n"
  shows "route_list_policies None (Some offset) t = route_list_policies None None t"
  using assms by (simp add: route_list_policies_def paged_def read_pagination_def list_policies_def count_policies_def order_by_def)

theorem offset_ignored_witness:
  "route_list_policies None (Some ''1'') [(wildcard_policy 0 ''10.0.0.7'' ''deny'')\<lparr>pol_id := 1\<rparr>]
    = route_list_policies None None [(wildcard_policy 0 ''10.0.0.7'' ''deny'')\<lparr>pol_id := 1\<rparr>]"
proof -
  have "py_int ''1'' = Some 1" by code_simp
  then show ?thesis by (rule offset_ignored)
qed

text \<open>The domains of the top-blocked answer are the first of the queried domains, by descending number of queries,
  that the resolver blocks on the loaded blocklists; no blocked domain with more queries is left out.\<close>

theorem top_blocked_exact:
  assumes "read_int_query ''limit'' limit = Inr n"
  shows "\<exists>rows. route_top_blocked limit queries t d = Reply 200 rows
    \<and> map fst rows = take (nat (case n of Some k \<Rightarrow> if 0 < k then k else DEFAULT_TOP_BLOCKED | None \<Rightarrow> DEFAULT_TOP_BLOCKED))
        (filter (\<lambda>row. is_blocked (load_blocklist_domains t d) (row_domain row)) (aggregate_domain_totals queries))"
proof -
  let ?totals = "aggregate_domain_totals queries"
  have "filter (\<lambda>row. map_of (find_domain_sources (map row_domain ?totals) t d) (row_domain row) \<noteq> None) ?totals
      = filter (\<lambda>row. is_blocked (load_blocklist_domains t d) (row_domain row)) ?totals"
    by (rule filter_cong) (simp_all only: find_domain_sources_mem, auto)
  then show ?thesis using assms by (simp add: route_top_blocked_def with_int_def Let_def comp_def)
qed

theorem top_blocked_exact_witness:
  "\<exists>rows. route_top_blocked None [\<lparr>ql_id = 1, ql_client = ''c'', ql_domain = ''x.a.b'', ql_qtype = ''A'', ql_count = 3, ql_last_action = None,
         ql_last_response = None, ql_first_seen = 0, ql_last_seen = 0\<rparr>]
       [\<lparr>bl_id = 1, bl_name = ''l'', bl_url = [], bl_update_interval_hours = 24, bl_enabled = True, bl_domain_count = 1,
         bl_last_downloaded_at = None, bl_last_status = None, bl_format = None, bl_created_at = 0, bl_updated_at = 0\<rparr>]
       [\<lparr>bd_id = 1, bd_blocklist_id = 1, bd_domain = ''a.b'', bd_first_seen = 5\<rparr>] = Reply 200 rows
     \<and> map (\<lambda>r. row_domain (fst r)) rows = [''x.a.b'']"
proof -
  let ?queries = "[\<lparr>ql_id = 1, ql_client = ''c'', ql_domain = ''x.a.b'', ql_qtype = ''A'', ql_count = 3, ql_last_action = None,
         ql_last_response = None, ql_first_seen = 0, ql_last_seen = 0\<rparr>]"
  let ?t = "[\<lparr>bl_id = 1, bl_name = ''l'', bl_url = [], bl_update_interval_hours = 24, bl_enabled = True, bl_domain_count = 1,
         bl_last_downloaded_at = None, bl_last_status = None, bl_format = None, bl_created_at = 0, bl_updated_at = 0\<rparr>]"
  let ?d = "[\<lparr>bd_id = 1, bd_blocklist_id = 1, bd_domain = ''a.b'', bd_first_seen = 5\<rparr>]"
  have none: "read_int_query ''limit'' None = Inr None" by (simp add: read_int_query_def)
  obtain rows where rows: "route_top_blocked None ?queries ?t ?d = Reply 200 rows"
    "map fst rows = take (nat DEFAULT_TOP_BLOCKED) (filter (\<lambda>row. is_blocked (load_blocklist_domains ?t ?d) (row_domain row)) (aggregate_domain_totals ?queries))"
    using top_blocked_exact [OF none, of ?queries ?t ?d] by auto
  have suffixes: "domain_suffixes ''x.a.b'' = [''x.a.b'', ''a.b'', ''b'']" by code_simp
  have "map row_domain (map fst rows) = [''x.a.b'']"
    unfolding rows(2) by (simp add: aggregate_domain_totals_def order_by_desc_def row_domain_def Let_def is_blocked_def suffixes
        load_blocklist_domains_def enabled_ids_def DEFAULT_TOP_BLOCKED_def)
  then show ?thesis using rows(1) by (simp add: comp_def)
qed

text \<open>An update of an upstream that sets a required field to null is accepted by the validation, violates the table
  and leaves the route as an unhandled exception; the table stays.\<close>

theorem upstream_null_crashes:
  assumes "get_row us_id i t = Some row" "UpstreamUpdate d = Inr d" "up_new_address d = Null"
  shows "route_update_upstream now i (Body d) t = (Crashed, t)"
  using assms by (simp add: route_update_upstream_def with_body_def parse_body_def update_upstream_def patch_upstream_def patch_req_def)

theorem upstream_null_crashes_witness:
  "let row = \<lparr>us_id = 1, us_name = None, us_address = ''8.8.8.8'', us_port = 53, us_protocol = ''udp'', us_enabled = True,
         us_priority = 100, us_created_at = 0, us_updated_at = 0\<rparr>;
       d = \<lparr>up_name = Keep, up_new_address = Null, up_new_port = Keep, up_new_protocol = Keep, up_enabled = Keep, up_new_priority = Keep\<rparr>
   in route_update_upstream 9 1 (Body d) [row] = (Crashed, [row])"
  unfolding Let_def
  by (rule upstream_null_crashes) (simp_all add: get_row_def UpstreamUpdate_def patch_field_def)

end
