(* ===== verification/Schema.thy ===== *)
theory Schema
  imports Tables
begin

text \<open>
  The tables as the databases declare them: the columns and the keys of every model of
  \<open>repository/models.py\<close>, in the order of the source, and the databases of \<open>db.py\<close> they belong to. A key is the
  primary key or a uniqueness constraint. Indexes and the lengths of texts, which SQLite ignores, are left out.
\<close>

section \<open>Columns and tables\<close>

text \<open>\<open>LocalNow\<close> is the server default \<open>datetime('now', 'localtime')\<close>.\<close>

datatype column_type = CInt | CText | CBool | CTime | CFloat

datatype server_default = LocalNow | Given json

datatype column =
  Column (c_name: string) (c_type: column_type) (c_nullable: bool) (c_default: "json option")
    (c_server_default: "server_default option")

record table_def =
  td_name :: string
  td_columns :: "column list"
  td_keys :: "string list list"

definition column_names :: "table_def \<Rightarrow> string list" where
  "column_names t = map c_name (td_columns t)"

section \<open>The models\<close>

definition POLICIES :: table_def where
  "POLICIES =
     \<lparr>td_name = ''policies'',
      td_columns =
       [Column ''id'' CInt False None None,
        Column ''client'' CText False None None,
        Column ''domain'' CText False None None,
        Column ''action'' CText False None None,
        Column ''override_response'' CText True None None,
        Column ''override_ttl'' CInt False (Some (JInt 300)) None,
        Column ''enabled'' CBool False (Some (JBool True)) None,
        Column ''description'' CText True None None,
        Column ''created_at'' CTime False None (Some LocalNow),
        Column ''updated_at'' CTime False None (Some LocalNow)],
      td_keys = [[''id''], [''client'', ''domain'']]\<rparr>"

definition UPSTREAMS :: table_def where
  "UPSTREAMS =
     \<lparr>td_name = ''upstreams'',
      td_columns =
       [Column ''id'' CInt False None None,
        Column ''name'' CText True None None,
        Column ''address'' CText False None None,
        Column ''port'' CInt False (Some (JInt 53)) None,
        Column ''protocol'' CText False (Some (JStr ''udp'')) None,
        Column ''enabled'' CBool False (Some (JBool True)) None,
        Column ''priority'' CInt False (Some (JInt 100)) None,
        Column ''created_at'' CTime False None (Some LocalNow),
        Column ''updated_at'' CTime False None (Some LocalNow)],
      td_keys = [[''id'']]\<rparr>"

definition TRUSTED_NETWORKS :: table_def where
  "TRUSTED_NETWORKS =
     \<lparr>td_name = ''trusted_networks'',
      td_columns =
       [Column ''id'' CInt False None None,
        Column ''cidr'' CText False None None,
        Column ''description'' CText True None None,
        Column ''created_at'' CTime False None (Some LocalNow),
        Column ''updated_at'' CTime False None (Some LocalNow)],
      td_keys = [[''id''], [''cidr'']]\<rparr>"

definition QUERY_LOG :: table_def where
  "QUERY_LOG =
     \<lparr>td_name = ''query_log'',
      td_columns =
       [Column ''id'' CInt False None None,
        Column ''client'' CText False None None,
        Column ''domain'' CText False None None,
        Column ''qtype'' CText False None None,
        Column ''count'' CInt False (Some (JInt 1)) None,
        Column ''last_action'' CText True None None,
        Column ''last_response'' CText True None None,
        Column ''first_seen'' CTime False None (Some LocalNow),
        Column ''last_seen'' CTime False None (Some LocalNow)],
      td_keys = [[''id''], [''client'', ''domain'', ''qtype'']]\<rparr>"

definition CLIENT_QUERY_EVENTS :: table_def where
  "CLIENT_QUERY_EVENTS =
     \<lparr>td_name = ''client_query_events'',
      td_columns =
       [Column ''id'' CInt False None None,
        Column ''client'' CText False None None,
        Column ''domain'' CText False None None,
        Column ''qtype'' CText False None None,
        Column ''rcode'' CText False None None,
        Column ''response'' CText True None None,
        Column ''created_at'' CTime False None (Some LocalNow)],
      td_keys = [[''id'']]\<rparr>"

definition APP_SETTINGS :: table_def where
  "APP_SETTINGS =
     \<lparr>td_name = ''app_settings'',
      td_columns =
       [Column ''key'' CText False None None,
        Column ''value'' CText False None None,
        Column ''updated_at'' CTime False None (Some LocalNow)],
      td_keys = [[''key'']]\<rparr>"

definition RUNTIME_STATS :: table_def where
  "RUNTIME_STATS =
     \<lparr>td_name = ''runtime_stats'',
      td_columns =
       [Column ''key'' CText False None None,
        Column ''value'' CInt False None None,
        Column ''updated_at'' CTime False None (Some LocalNow)],
      td_keys = [[''key'']]\<rparr>"

definition DNS_CACHE_ENTRIES :: table_def where
  "DNS_CACHE_ENTRIES =
     \<lparr>td_name = ''dns_cache_entries'',
      td_columns =
       [Column ''id'' CInt False None None,
        Column ''domain'' CText False None None,
        Column ''qtype'' CText False None None,
        Column ''qclass'' CText False None None,
        Column ''response'' CText True None None,
        Column ''answers'' CInt False (Some (JInt 0)) None,
        Column ''ttl'' CInt False (Some (JInt 0)) None,
        Column ''expires_at'' CTime False None None,
        Column ''updated_at'' CTime False None (Some LocalNow)],
      td_keys = [[''id'']]\<rparr>"

definition UNCACHEABLE_RESPONSES :: table_def where
  "UNCACHEABLE_RESPONSES =
     \<lparr>td_name = ''uncacheable_responses'',
      td_columns =
       [Column ''id'' CInt False None None,
        Column ''client'' CText False None None,
        Column ''domain'' CText False None None,
        Column ''qtype'' CText False None None,
        Column ''reason'' CText False None None,
        Column ''last_ttl'' CInt True None None,
        Column ''hits'' CInt False (Some (JInt 0)) None,
        Column ''first_seen'' CTime False None (Some LocalNow),
        Column ''last_seen'' CTime False None (Some LocalNow)],
      td_keys = [[''id''], [''client'', ''domain'', ''qtype'', ''reason'']]\<rparr>"

definition CACHE_OUTCOME_HOURLY :: table_def where
  "CACHE_OUTCOME_HOURLY =
     \<lparr>td_name = ''cache_outcome_hourly'',
      td_columns =
       [Column ''id'' CInt False None None,
        Column ''hour_start'' CTime False None None,
        Column ''reason'' CText False None None,
        Column ''hits'' CInt False (Some (JInt 0)) None],
      td_keys = [[''id''], [''hour_start'', ''reason'']]\<rparr>"

definition UPSTREAM_HOURLY_RTT :: table_def where
  "UPSTREAM_HOURLY_RTT =
     \<lparr>td_name = ''upstream_hourly_rtt'',
      td_columns =
       [Column ''id'' CInt False None None,
        Column ''hour_start'' CTime False None None,
        Column ''address'' CText False None None,
        Column ''samples'' CInt False (Some (JInt 0)) None,
        Column ''total_ms'' CFloat False (Some (JNum 0)) None,
        Column ''max_ms'' CFloat False (Some (JNum 0)) None],
      td_keys = [[''id''], [''hour_start'', ''address'']]\<rparr>"

definition CLIENT_HOURLY_STATS :: table_def where
  "CLIENT_HOURLY_STATS =
     \<lparr>td_name = ''client_hourly_stats'',
      td_columns =
       [Column ''id'' CInt False None None,
        Column ''hour_start'' CTime False None None,
        Column ''client'' CText False None None,
        Column ''total'' CInt False (Some (JInt 0)) None,
        Column ''forwarded'' CInt False (Some (JInt 0)) None,
        Column ''cached'' CInt False (Some (JInt 0)) None,
        Column ''overridden'' CInt False (Some (JInt 0)) None,
        Column ''local'' CInt False (Some (JInt 0)) (Some (Given (JInt 0))),
        Column ''denied'' CInt False (Some (JInt 0)) None,
        Column ''blocked'' CInt False (Some (JInt 0)) None,
        Column ''servfail'' CInt False (Some (JInt 0)) None,
        Column ''foreign'' CInt False (Some (JInt 0)) (Some (Given (JInt 0)))],
      td_keys = [[''id''], [''hour_start'', ''client'']]\<rparr>"

definition CLIENT_REQUESTS :: table_def where
  "CLIENT_REQUESTS =
     \<lparr>td_name = ''client_requests'',
      td_columns =
       [Column ''id'' CInt False None None,
        Column ''client'' CText False None None,
        Column ''domain'' CText False None None,
        Column ''qtype'' CText False None None,
        Column ''hits'' CInt False (Some (JInt 0)) None,
        Column ''first_seen'' CTime False None (Some LocalNow),
        Column ''last_seen'' CTime False None (Some LocalNow)],
      td_keys = [[''id''], [''client'', ''domain'', ''qtype'']]\<rparr>"

definition CLIENT_NEW_DOMAIN_STATS :: table_def where
  "CLIENT_NEW_DOMAIN_STATS =
     \<lparr>td_name = ''client_new_domain_stats'',
      td_columns =
       [Column ''id'' CInt False None None,
        Column ''hour_start'' CTime False None None,
        Column ''client'' CText False None None,
        Column ''new_domains'' CInt False (Some (JInt 0)) None],
      td_keys = [[''id''], [''hour_start'', ''client'']]\<rparr>"

definition FOREIGN_CLIENTS :: table_def where
  "FOREIGN_CLIENTS =
     \<lparr>td_name = ''foreign_clients'',
      td_columns =
       [Column ''id'' CInt False None None,
        Column ''ip'' CText False None None,
        Column ''hits'' CInt False (Some (JInt 0)) None,
        Column ''first_seen'' CTime False None (Some LocalNow),
        Column ''last_seen'' CTime False None (Some LocalNow)],
      td_keys = [[''id''], [''ip'']]\<rparr>"

definition BLOCKLIST_SIZE_HOURLY :: table_def where
  "BLOCKLIST_SIZE_HOURLY =
     \<lparr>td_name = ''blocklist_size_hourly'',
      td_columns =
       [Column ''id'' CInt False None None,
        Column ''hour_start'' CTime False None None,
        Column ''domains'' CInt False (Some (JInt 0)) None],
      td_keys = [[''id''], [''hour_start'']]\<rparr>"

definition BLOCKLISTS :: table_def where
  "BLOCKLISTS =
     \<lparr>td_name = ''blocklists'',
      td_columns =
       [Column ''id'' CInt False None None,
        Column ''name'' CText False None None,
        Column ''url'' CText False None None,
        Column ''update_interval_hours'' CInt False (Some (JInt 24)) None,
        Column ''enabled'' CBool False (Some (JBool True)) None,
        Column ''domain_count'' CInt False (Some (JInt 0)) None,
        Column ''last_downloaded_at'' CTime True None None,
        Column ''last_status'' CText True None None,
        Column ''format'' CText True None None,
        Column ''created_at'' CTime False None (Some LocalNow),
        Column ''updated_at'' CTime False None (Some LocalNow)],
      td_keys = [[''id''], [''name'']]\<rparr>"

definition BLOCKLIST_OVERRIDES :: table_def where
  "BLOCKLIST_OVERRIDES =
     \<lparr>td_name = ''blocklist_overrides'',
      td_columns =
       [Column ''id'' CInt False None None,
        Column ''domain'' CText False None None,
        Column ''created_at'' CTime False None (Some LocalNow),
        Column ''updated_at'' CTime False None (Some LocalNow)],
      td_keys = [[''id''], [''domain'']]\<rparr>"

definition LOCAL_ZONES :: table_def where
  "LOCAL_ZONES =
     \<lparr>td_name = ''local_zones'',
      td_columns =
       [Column ''id'' CInt False None None,
        Column ''name'' CText False None None,
        Column ''url'' CText False None None,
        Column ''update_interval_seconds'' CInt False (Some (JInt 86400)) None,
        Column ''enabled'' CBool False (Some (JBool True)) None,
        Column ''record_count'' CInt False (Some (JInt 0)) None,
        Column ''last_downloaded_at'' CTime True None None,
        Column ''last_status'' CText True None None,
        Column ''created_at'' CTime False None (Some LocalNow),
        Column ''updated_at'' CTime False None (Some LocalNow)],
      td_keys = [[''id''], [''name'']]\<rparr>"

definition LOCAL_DNS_RECORDS :: table_def where
  "LOCAL_DNS_RECORDS =
     \<lparr>td_name = ''local_dns_records'',
      td_columns =
       [Column ''id'' CInt False None None,
        Column ''zone_id'' CInt False None None,
        Column ''name'' CText False None None,
        Column ''rtype'' CText False None None,
        Column ''value'' CText False None None,
        Column ''ttl'' CInt False (Some (JInt 300)) None],
      td_keys = [[''id''], [''zone_id'', ''name'', ''rtype'', ''value'']]\<rparr>"

definition BLOCKLIST_DOMAINS :: table_def where
  "BLOCKLIST_DOMAINS =
     \<lparr>td_name = ''blocklist_domains'',
      td_columns =
       [Column ''id'' CInt False None None,
        Column ''blocklist_id'' CInt False None None,
        Column ''domain'' CText False None None,
        Column ''first_seen'' CTime False None (Some LocalNow)],
      td_keys = [[''id''], [''blocklist_id'', ''domain'']]\<rparr>"

definition HOSTS :: table_def where
  "HOSTS =
     \<lparr>td_name = ''hosts'',
      td_columns =
       [Column ''id'' CInt False None None,
        Column ''ip'' CText False None None,
        Column ''device_name'' CText True None None,
        Column ''icon'' CText True None None,
        Column ''mac_address'' CText True None None,
        Column ''excluded_from_blocklist'' CBool False (Some (JBool False)) (Some (Given (JBool False))),
        Column ''flag_new_domains'' CBool False (Some (JBool True)) (Some (Given (JBool True))),
        Column ''query_count'' CInt False (Some (JInt 0)) None,
        Column ''first_seen'' CTime False None (Some LocalNow),
        Column ''last_seen'' CTime False None (Some LocalNow)],
      td_keys = [[''id''], [''ip'']]\<rparr>"

section \<open>The databases\<close>

datatype db_name = ConfigDb | StatsDb | CacheDb | QueryLogDb | BlocklistDb | HostsDb

text \<open>\<open>metadata.sorted_tables\<close>: without foreign keys the tables come in the order of their names.\<close>

definition ConfigBase_tables :: "table_def list" where
  "ConfigBase_tables = [APP_SETTINGS, BLOCKLIST_OVERRIDES, BLOCKLISTS, LOCAL_DNS_RECORDS, LOCAL_ZONES, POLICIES, TRUSTED_NETWORKS, UPSTREAMS]"

definition StatsBase_tables :: "table_def list" where
  "StatsBase_tables = [BLOCKLIST_SIZE_HOURLY, CACHE_OUTCOME_HOURLY, CLIENT_HOURLY_STATS, CLIENT_NEW_DOMAIN_STATS, CLIENT_REQUESTS, FOREIGN_CLIENTS, RUNTIME_STATS, UNCACHEABLE_RESPONSES, UPSTREAM_HOURLY_RTT]"

definition CacheBase_tables :: "table_def list" where
  "CacheBase_tables = [DNS_CACHE_ENTRIES]"

definition QueryLogBase_tables :: "table_def list" where
  "QueryLogBase_tables = [CLIENT_QUERY_EVENTS, QUERY_LOG]"

definition BlocklistBase_tables :: "table_def list" where
  "BlocklistBase_tables = [BLOCKLIST_DOMAINS]"

definition HostsBase_tables :: "table_def list" where
  "HostsBase_tables = [HOSTS]"

definition SPLIT_SCHEMAS :: "(db_name \<times> table_def list) list" where
  "SPLIT_SCHEMAS =
     [(ConfigDb, ConfigBase_tables), (StatsDb, StatsBase_tables), (CacheDb, CacheBase_tables), (QueryLogDb, QueryLogBase_tables)]"

lemmas table_defs = POLICIES_def
  UPSTREAMS_def
  TRUSTED_NETWORKS_def
  QUERY_LOG_def
  CLIENT_QUERY_EVENTS_def
  APP_SETTINGS_def
  RUNTIME_STATS_def
  DNS_CACHE_ENTRIES_def
  UNCACHEABLE_RESPONSES_def
  CACHE_OUTCOME_HOURLY_def
  UPSTREAM_HOURLY_RTT_def
  CLIENT_HOURLY_STATS_def
  CLIENT_REQUESTS_def
  CLIENT_NEW_DOMAIN_STATS_def
  FOREIGN_CLIENTS_def
  BLOCKLIST_SIZE_HOURLY_def
  BLOCKLISTS_def
  BLOCKLIST_OVERRIDES_def
  LOCAL_ZONES_def
  LOCAL_DNS_RECORDS_def
  BLOCKLIST_DOMAINS_def
  HOSTS_def

lemmas schema_defs = ConfigBase_tables_def StatsBase_tables_def CacheBase_tables_def QueryLogBase_tables_def BlocklistBase_tables_def HostsBase_tables_def SPLIT_SCHEMAS_def

end
