(* ===== verification/DatabaseSetup.thy ===== *)
theory DatabaseSetup
  imports Schema
begin

text \<open>
  The databases and their setup: \<open>db.py\<close> with the defaults of \<open>config.py\<close>. An engine is the URL it was made
  for, a database the dictionary of its tables, a stored table its declaration as SQLite has it and its rows in
  the order of the primary key; a row gives every column a value. The values of a column have its type, up to
  the ones \<open>read_cell\<close> rejects. The setup statements that add tables and columns succeed; a copied table may
  fail, at a constraint or at its commit. The split databases lie in different files.
\<close>

section \<open>Deployment settings\<close>

record Settings =
  config_database_url :: string
  stats_database_url :: string
  cache_database_url :: string
  querylog_database_url :: string
  blocklist_database_url :: string
  localhosts_database_url :: string
  legacy_database_url :: string
  api_listen_address :: string
  api_port :: int
  dns_listen_address :: string
  dns_port :: int
  log_level :: string
  sando_api_url :: string

definition Settings_default :: Settings where
  "Settings_default =
     \<lparr>config_database_url = ''sqlite:////data/config.db'',
      stats_database_url = ''sqlite:////data/stats.db'',
      cache_database_url = ''sqlite:////data/cache.db'',
      querylog_database_url = ''sqlite:////data/querylogs.db'',
      blocklist_database_url = ''sqlite:////data/blocklist.db'',
      localhosts_database_url = ''sqlite:////data/localhosts.db'',
      legacy_database_url = ''sqlite:////data/mirenai.db'',
      api_listen_address = ''0.0.0.0'', api_port = 8000,
      dns_listen_address = ''0.0.0.0'', dns_port = 53,
      log_level = ''INFO'', sando_api_url = ''''\<rparr>"

section \<open>Engines and session factories\<close>

text \<open>The globals of the module. A session factory is what it binds its tables to.\<close>

record db_module =
  dm_engine :: "db_name \<Rightarrow> string option"
  dm_session_factory :: "(string, string) dict option"
  dm_blocklist_session_factory :: "string option"
  dm_hosts_session_factory :: "string option"

fun database_url :: "Settings \<Rightarrow> db_name \<Rightarrow> string" where
  "database_url S ConfigDb = config_database_url S"
| "database_url S StatsDb = stats_database_url S"
| "database_url S CacheDb = cache_database_url S"
| "database_url S QueryLogDb = querylog_database_url S"
| "database_url S BlocklistDb = blocklist_database_url S"
| "database_url S HostsDb = localhosts_database_url S"

definition get_engine :: "Settings \<Rightarrow> db_name \<Rightarrow> db_module \<Rightarrow> string \<times> db_module" where
  "get_engine S name m =
     (case dm_engine m name of
        Some engine \<Rightarrow> (engine, m)
      | None \<Rightarrow> (database_url S name, m\<lparr>dm_engine := (dm_engine m)(name := Some (database_url S name))\<rparr>))"

definition get_session_factory :: "Settings \<Rightarrow> db_module \<Rightarrow> (string, string) dict \<times> db_module" where
  "get_session_factory S m =
     (case dm_session_factory m of
        Some binds \<Rightarrow> (binds, m)
      | None \<Rightarrow>
          (case fold (\<lambda>(name, tables) (binds, m).
              case get_engine S name m of (engine, m) \<Rightarrow> (fold (\<lambda>table. dict_set (td_name table) engine) tables binds, m))
             SPLIT_SCHEMAS ([], m) of
             (binds, m) \<Rightarrow> (binds, m\<lparr>dm_session_factory := Some binds\<rparr>)))"

definition get_blocklist_session_factory :: "Settings \<Rightarrow> db_module \<Rightarrow> string \<times> db_module" where
  "get_blocklist_session_factory S m =
     (case dm_blocklist_session_factory m of
        Some engine \<Rightarrow> (engine, m)
      | None \<Rightarrow> (case get_engine S BlocklistDb m of (engine, m) \<Rightarrow> (engine, m\<lparr>dm_blocklist_session_factory := Some engine\<rparr>)))"

definition get_hosts_session_factory :: "Settings \<Rightarrow> db_module \<Rightarrow> string \<times> db_module" where
  "get_hosts_session_factory S m =
     (case dm_hosts_session_factory m of
        Some engine \<Rightarrow> (engine, m)
      | None \<Rightarrow> (case get_engine S HostsDb m of (engine, m) \<Rightarrow> (engine, m\<lparr>dm_hosts_session_factory := Some engine\<rparr>)))"

definition reset_engines :: "db_module \<Rightarrow> db_module" where
  "reset_engines m =
     \<lparr>dm_engine = (\<lambda>name. None), dm_session_factory = None, dm_blocklist_session_factory = None, dm_hosts_session_factory = None\<rparr>"

text \<open>The ping of every database: \<open>connect\<close> gives the name of the exception of an engine that does not answer.\<close>

definition CHECKED_ENGINES :: "(string \<times> db_name) list" where
  "CHECKED_ENGINES =
     [(''config'', ConfigDb), (''stats'', StatsDb), (''cache'', CacheDb), (''querylog'', QueryLogDb),
      (''blocklist'', BlocklistDb), (''hosts'', HostsDb)]"

fun check_engines :: "Settings \<Rightarrow> (string \<Rightarrow> string option) \<Rightarrow> (string \<times> db_name) list \<Rightarrow> db_module \<Rightarrow> (bool \<times> string) \<times> db_module" where
  "check_engines S connect [] m = ((True, ''ok''), m)"
| "check_engines S connect ((label, name) # rest) m =
     (case get_engine S name m of (engine, m) \<Rightarrow>
        (case connect engine of
           Some exc \<Rightarrow> ((False, label @ '' database check failed: '' @ exc), m)
         | None \<Rightarrow> check_engines S connect rest m))"

definition check_database :: "Settings \<Rightarrow> (string \<Rightarrow> string option) \<Rightarrow> db_module \<Rightarrow> (bool \<times> string) \<times> db_module" where
  "check_database S connect m = check_engines S connect CHECKED_ENGINES m"

section \<open>Stored tables\<close>

record stored =
  sto_table :: table_def
  sto_rows :: "json_dict list"

type_synonym database = "(string, stored) dict"

text \<open>A value as the typed column reads it: the text of a date that does not parse raises, as does a number.\<close>

fun read_cell :: "column_type \<Rightarrow> json \<Rightarrow> json option" where
  "read_cell CTime (JTime t) = Some (JTime t)"
| "read_cell CTime JNull = Some JNull"
| "read_cell CTime v = None"
| "read_cell CBool (JInt i) = Some (JBool (i \<noteq> 0))"
| "read_cell CBool (JStr s) = Some (JBool (s \<noteq> []))"
| "read_cell ct v = Some v"

definition server_cell :: "datetime \<Rightarrow> column \<Rightarrow> json" where
  "server_cell now c =
     (case c_server_default c of None \<Rightarrow> JNull | Some LocalNow \<Rightarrow> JTime now | Some (Given v) \<Rightarrow> v)"

text \<open>Two rows violate a key when they agree on it without a null.\<close>

definition clash :: "table_def \<Rightarrow> json_dict \<Rightarrow> json_dict \<Rightarrow> bool" where
  "clash t a b \<longleftrightarrow>
     list_ex (\<lambda>key. list_all (\<lambda>n. dict_get a n JNull = dict_get b n JNull \<and> dict_get a n JNull \<noteq> JNull) key) (td_keys t)"

definition stored_row :: "datetime \<Rightarrow> table_def \<Rightarrow> json_dict \<Rightarrow> json_dict" where
  "stored_row now t values =
     map (\<lambda>c. (c_name c, case map_of values (c_name c) of Some v \<Rightarrow> v | None \<Rightarrow> server_cell now c)) (td_columns t)"

definition insert_row :: "datetime \<Rightarrow> stored \<Rightarrow> json_dict \<Rightarrow> stored option" where
  "insert_row now dst values =
     (let t = sto_table dst; row = stored_row now t values in
      if \<not> list_all (\<lambda>n. n \<in> set (column_names t)) (dict_keys values) then None
      else if list_ex (\<lambda>c. \<not> c_nullable c \<and> dict_get row (c_name c) JNull = JNull) (td_columns t) then None
      else if list_ex (\<lambda>r. clash t r row) (sto_rows dst) then None
      else Some (dst\<lparr>sto_rows := sto_rows dst @ [row]\<rparr>))"

fun insert_rows :: "datetime \<Rightarrow> json_dict list \<Rightarrow> stored \<Rightarrow> stored option" where
  "insert_rows now [] dst = Some dst"
| "insert_rows now (values # rows) dst = Option.bind (insert_row now dst values) (insert_rows now rows)"

text \<open>What \<open>table.insert()\<close> sends for a row: its values, and the defaults of the model for the other columns.\<close>

definition insert_values :: "table_def \<Rightarrow> json_dict \<Rightarrow> json_dict" where
  "insert_values t row =
     concat (map (\<lambda>c. case map_of row (c_name c) of
         Some v \<Rightarrow> [(c_name c, v)]
       | None \<Rightarrow> (case c_default c of Some v \<Rightarrow> [(c_name c, v)] | None \<Rightarrow> [])) (td_columns t))"

definition create_all :: "table_def list \<Rightarrow> database \<Rightarrow> database" where
  "create_all tables db =
     fold (\<lambda>t db. if td_name t \<in> set (dict_keys db) then db else dict_set (td_name t) \<lparr>sto_table = t, sto_rows = []\<rparr> db) tables db"

section \<open>The migration of the old single database\<close>

text \<open>What one attempt meets: the clock of SQLite, which commits succeed, and whether the file can be renamed.\<close>

record migrate_env =
  mi_now :: datetime
  mi_commits :: "string \<Rightarrow> bool"
  mi_renames :: bool

record setup_state =
  su_databases :: "db_name \<Rightarrow> database"
  su_files :: "(string, database) dict"

definition create_all_schemas :: "(db_name \<Rightarrow> database) \<Rightarrow> db_name \<Rightarrow> database" where
  "create_all_schemas dbs = fold (\<lambda>(name, tables) dbs. dbs(name := create_all tables (dbs name))) SPLIT_SCHEMAS dbs"

definition legacy_table_names :: "database \<Rightarrow> string set" where
  "legacy_table_names legacy = set (dict_keys legacy)"

definition legacy_columns :: "database \<Rightarrow> string \<Rightarrow> string set" where
  "legacy_columns db table_name = (case map_of db table_name of None \<Rightarrow> {} | Some s \<Rightarrow> set (column_names (sto_table s)))"

definition usable_columns :: "table_def \<Rightarrow> string set \<Rightarrow> column list" where
  "usable_columns t legacy_cols = filter (\<lambda>c. c_name c \<in> legacy_cols) (td_columns t)"

definition missing_required :: "table_def \<Rightarrow> string set \<Rightarrow> column list" where
  "missing_required t legacy_cols =
     filter (\<lambda>c. c_name c \<notin> legacy_cols \<and> \<not> c_nullable c \<and> c_default c = None \<and> c_server_default c = None) (td_columns t)"

definition read_row :: "column list \<Rightarrow> json_dict \<Rightarrow> json_dict option" where
  "read_row usable row =
     all_some (map (\<lambda>c. map_option (Pair (c_name c)) (read_cell (c_type c) (dict_get row (c_name c) JNull))) usable)"

definition copy_legacy_table :: "migrate_env \<Rightarrow> database \<Rightarrow> database \<Rightarrow> table_def \<Rightarrow> database option" where
  "copy_legacy_table E legacy db t =
     (case map_of db (td_name t) of
        None \<Rightarrow> None
      | Some dst \<Rightarrow>
          if sto_rows dst \<noteq> [] then Some db
          else let legacy_cols = legacy_columns legacy (td_name t);
                   usable = usable_columns t legacy_cols in
            if usable = [] \<or> missing_required t legacy_cols \<noteq> [] then Some db
            else Option.bind (all_some (map (read_row usable) (case map_of legacy (td_name t) of None \<Rightarrow> [] | Some src \<Rightarrow> sto_rows src))) (\<lambda>rows.
                 if rows = [] then Some db
                 else Option.bind (insert_rows (mi_now E) (map (insert_values t) rows) dst) (\<lambda>dst.
                   transaction (mi_commits E (td_name t)) (dict_set (td_name t) dst) db)))"

text \<open>The loop over the tables of the split databases: whether it came to its end, and the databases then.\<close>

definition split_tables :: "(db_name \<times> table_def) list" where
  "split_tables = concat (map (\<lambda>(name, tables). map (Pair name) tables) SPLIT_SCHEMAS)"

fun copy_tables :: "migrate_env \<Rightarrow> database \<Rightarrow> (db_name \<times> table_def) list \<Rightarrow> (db_name \<Rightarrow> database) \<Rightarrow> bool \<times> (db_name \<Rightarrow> database)" where
  "copy_tables E legacy [] dbs = (True, dbs)"
| "copy_tables E legacy ((name, t) # ts) dbs =
     (if td_name t \<notin> legacy_table_names legacy then copy_tables E legacy ts dbs
      else (case copy_legacy_table E legacy (dbs name) t of
              None \<Rightarrow> (False, dbs)
            | Some db \<Rightarrow> copy_tables E legacy ts (dbs(name := db))))"

text \<open>\<open>path\<close> is the database part of the URL of the old file.\<close>

definition migrate_legacy_database :: "string option \<Rightarrow> migrate_env \<Rightarrow> setup_state \<Rightarrow> bool \<times> setup_state" where
  "migrate_legacy_database path E st =
     (case path of
        None \<Rightarrow> (True, st)
      | Some p \<Rightarrow>
          if p = [] \<or> p = '':memory:'' then (True, st)
          else (case map_of (su_files st) p of
                  None \<Rightarrow> (True, st)
                | Some legacy \<Rightarrow>
                    (case copy_tables E legacy split_tables (su_databases st) of
                       (False, dbs) \<Rightarrow> (False, st\<lparr>su_databases := dbs\<rparr>)
                     | (True, dbs) \<Rightarrow>
                         (True, st\<lparr>su_databases := dbs,
                            su_files := (if mi_renames E then dict_set (p @ ''.migrated'') legacy (AList.delete p (su_files st))
                              else su_files st)\<rparr>))))"

section \<open>Columns added later\<close>

text \<open>\<open>ALTER TABLE ... ADD COLUMN\<close> gives the present rows the default of the column.\<close>

definition add_column :: "string \<Rightarrow> column \<Rightarrow> database \<Rightarrow> database" where
  "add_column table c db =
     (case map_of db table of
        None \<Rightarrow> db
      | Some s \<Rightarrow> dict_set table
          \<lparr>sto_table = (sto_table s)\<lparr>td_columns := td_columns (sto_table s) @ [c]\<rparr>,
           sto_rows = map (dict_set (c_name c) (server_cell 0 c)) (sto_rows s)\<rparr> db)"

definition ensure_column :: "string \<Rightarrow> column \<Rightarrow> database \<Rightarrow> database" where
  "ensure_column table c db =
     (let columns = legacy_columns db table in if columns \<noteq> {} \<and> c_name c \<notin> columns then add_column table c db else db)"

definition ensure_hosts_icon_column :: "database \<Rightarrow> database" where
  "ensure_hosts_icon_column = ensure_column ''hosts'' (Column ''icon'' CText True None None)"

definition ensure_hosts_mac_column :: "database \<Rightarrow> database" where
  "ensure_hosts_mac_column = ensure_column ''hosts'' (Column ''mac_address'' CText True None None)"

definition ensure_hosts_excluded_column :: "database \<Rightarrow> database" where
  "ensure_hosts_excluded_column =
     ensure_column ''hosts'' (Column ''excluded_from_blocklist'' CBool False None (Some (Given (JBool False))))"

definition ensure_hosts_flag_new_domains_column :: "database \<Rightarrow> database" where
  "ensure_hosts_flag_new_domains_column =
     ensure_column ''hosts'' (Column ''flag_new_domains'' CBool False None (Some (Given (JBool True))))"

text \<open>SQLite refuses a default that is not constant, so the added column is filled by an update.\<close>

definition ensure_blocklist_domain_first_seen_column :: "datetime \<Rightarrow> database \<Rightarrow> database" where
  "ensure_blocklist_domain_first_seen_column now db =
     (let columns = legacy_columns db ''blocklist_domains'' in
      if columns \<noteq> {} \<and> ''first_seen'' \<notin> columns
      then let db = add_column ''blocklist_domains'' (Column ''first_seen'' CTime True None None) db in
        (case map_of db ''blocklist_domains'' of
           None \<Rightarrow> db
         | Some s \<Rightarrow> dict_set ''blocklist_domains'' (s\<lparr>sto_rows := map (\<lambda>r. if dict_get r ''first_seen'' JNull = JNull
             then dict_set ''first_seen'' (JTime now) r else r) (sto_rows s)\<rparr>) db)
      else db)"

text \<open>\<open>init_db\<close> up to the seeding of the defaults: whether it comes so far, and the databases then.\<close>

definition init_schemas :: "string option \<Rightarrow> migrate_env \<Rightarrow> setup_state \<Rightarrow> bool \<times> setup_state" where
  "init_schemas path E st =
     (let dbs = create_all_schemas (su_databases st);
          dbs = dbs(BlocklistDb := create_all BlocklistBase_tables (dbs BlocklistDb));
          dbs = dbs(HostsDb := create_all HostsBase_tables (dbs HostsDb)) in
      case migrate_legacy_database path E (st\<lparr>su_databases := dbs\<rparr>) of
        (False, st) \<Rightarrow> (False, st)
      | (True, st) \<Rightarrow>
          (True, st\<lparr>su_databases := (su_databases st)
             (HostsDb := ensure_hosts_flag_new_domains_column (ensure_hosts_excluded_column (ensure_hosts_mac_column
                (ensure_hosts_icon_column (su_databases st HostsDb)))),
              BlocklistDb := ensure_blocklist_domain_first_seen_column (mi_now E) (su_databases st BlocklistDb))\<rparr>))"

section \<open>What a migration carries over\<close>

text \<open>A reference: the rows of the old table with the values of its columns, and the default of every column it lacks. The
  rows of an old table can be completed when it shares a column with the new one and every column that it lacks may be
  null or has a default; a table whose rows cannot be completed is not carried over.\<close>

definition completable :: "table_def \<Rightarrow> string set \<Rightarrow> bool" where
  "completable t legacy_cols \<longleftrightarrow>
     (\<exists>c \<in> set (td_columns t). c_name c \<in> legacy_cols)
   \<and> (\<forall>c \<in> set (td_columns t). c_name c \<in> legacy_cols \<or> c_nullable c \<or> c_default c \<noteq> None \<or> c_server_default c \<noteq> None)"

definition default_cell :: "datetime \<Rightarrow> column \<Rightarrow> json" where
  "default_cell now c = (case c_default c of Some v \<Rightarrow> v | None \<Rightarrow> server_cell now c)"

definition carried_row :: "datetime \<Rightarrow> table_def \<Rightarrow> string set \<Rightarrow> json_dict \<Rightarrow> json_dict" where
  "carried_row now t legacy_cols row =
     map (\<lambda>c. (c_name c, if c_name c \<in> legacy_cols then dict_get row (c_name c) JNull else default_cell now c)) (td_columns t)"

definition carried :: "datetime \<Rightarrow> database \<Rightarrow> table_def \<Rightarrow> json_dict list" where
  "carried now legacy t =
     (case map_of legacy (td_name t) of
        None \<Rightarrow> []
      | Some src \<Rightarrow>
          let cols = set (column_names (sto_table src)) in
          if completable t cols then map (carried_row now t cols) (sto_rows src) else [])"

text \<open>The test of the code for skipping a table.\<close>

lemma skipped_table: "usable_columns t cols = [] \<or> missing_required t cols \<noteq> [] \<longleftrightarrow> \<not> completable t cols"
  by (auto simp: completable_def usable_columns_def missing_required_def filter_empty_conv)

text \<open>An old table that fits: typed values, no null in a required column, no key twice.\<close>

definition fits :: "datetime \<Rightarrow> database \<Rightarrow> table_def \<Rightarrow> bool" where
  "fits now legacy t \<longleftrightarrow>
     (\<forall>src. map_of legacy (td_name t) = Some src \<longrightarrow>
        (\<forall>row \<in> set (sto_rows src). \<forall>c \<in> set (td_columns t). c_name c \<in> set (column_names (sto_table src)) \<longrightarrow>
           read_cell (c_type c) (dict_get row (c_name c) JNull) = Some (dict_get row (c_name c) JNull))) \<and>
     (\<forall>row \<in> set (carried now legacy t). \<forall>c \<in> set (td_columns t). c_nullable c \<or> dict_get row (c_name c) JNull \<noteq> JNull) \<and>
     sorted_wrt (\<lambda>a b. \<not> clash t a b) (carried now legacy t)"

lemma map_of_cells: "distinct (map c_name cs) \<Longrightarrow> c \<in> set cs \<Longrightarrow> map_of (map (\<lambda>c. (c_name c, f c)) cs) (c_name c) = Some (f c)"
  by (induction cs) (auto simp: image_iff)

lemma map_of_filtered:
  "map_of (concat (map (\<lambda>c. if P c then [(c_name c, f c)] else []) cs)) n
    = (case List.find (\<lambda>c. P c \<and> c_name c = n) cs of None \<Rightarrow> None | Some c \<Rightarrow> Some (f c))"
  by (induction cs) auto

lemma find_named:
  "distinct (map c_name cs) \<Longrightarrow> c \<in> set cs \<Longrightarrow> List.find (\<lambda>d. P d \<and> c_name d = c_name c) cs = (if P c then Some c else None)"
proof (induction cs)
  case (Cons d cs)
  show ?case
  proof (cases "d = c")
    case True
    with Cons.prems have "List.find (\<lambda>d. P d \<and> c_name d = c_name c) cs = None" by (auto simp: find_None_iff image_iff)
    with True show ?thesis by simp
  next
    case False
    with Cons.prems have "c \<in> set cs" "c_name d \<noteq> c_name c" by auto
    with Cons show ?thesis by auto
  qed
qed simp

lemma insert_values_eq:
  "insert_values t row = concat (map (\<lambda>c. if map_of row (c_name c) \<noteq> None \<or> c_default c \<noteq> None
      then [(c_name c, case map_of row (c_name c) of Some v \<Rightarrow> v | None \<Rightarrow> the (c_default c))] else []) (td_columns t))"
  unfolding insert_values_def by (intro arg_cong [of _ _ concat] map_cong) (auto split: option.split)

lemma stored_insert_values:
  assumes "distinct (map c_name (td_columns t))"
  shows "stored_row now t (insert_values t row)
    = map (\<lambda>c. (c_name c, case map_of row (c_name c) of Some v \<Rightarrow> v | None \<Rightarrow> default_cell now c)) (td_columns t)"
  unfolding stored_row_def insert_values_eq map_of_filtered
  by (intro map_cong refl) (auto simp: find_named [OF assms] default_cell_def split: option.split)

lemma insert_values_keys: "p \<in> set (insert_values t row) \<Longrightarrow> fst p \<in> set (column_names t)"
  unfolding insert_values_eq column_names_def by (auto split: if_splits)

lemma insert_rows_all:
  assumes "sto_table dst = t" "distinct (map c_name (td_columns t))"
    and "\<forall>values \<in> set rows. \<forall>c \<in> set (td_columns t).
       c_nullable c \<or> dict_get (stored_row now t (insert_values t values)) (c_name c) JNull \<noteq> JNull"
    and "sorted_wrt (\<lambda>a b. \<not> clash t a b) (sto_rows dst @ map (\<lambda>values. stored_row now t (insert_values t values)) rows)"
  shows "insert_rows now (map (insert_values t) rows) dst
    = Some (dst\<lparr>sto_rows := sto_rows dst @ map (\<lambda>values. stored_row now t (insert_values t values)) rows\<rparr>)"
  using assms
proof (induction rows arbitrary: dst)
  case (Cons vals rows)
  let ?row = "stored_row now t (insert_values t vals)"
  have "insert_row now dst (insert_values t vals) = Some (dst\<lparr>sto_rows := sto_rows dst @ [?row]\<rparr>)"
    using Cons.prems by (auto simp: insert_row_def Let_def list_all_iff list_ex_iff sorted_wrt_append dest: insert_values_keys)
  moreover have "insert_rows now (map (insert_values t) rows) (dst\<lparr>sto_rows := sto_rows dst @ [?row]\<rparr>)
      = Some (dst\<lparr>sto_rows := (sto_rows dst @ [?row]) @ map (\<lambda>values. stored_row now t (insert_values t values)) rows\<rparr>)"
    using Cons.prems by (subst Cons.IH) simp_all
  ultimately show ?case by simp
qed simp

lemma carried_rows:
  assumes "map_of legacy (td_name t) = Some src" "fits now legacy t" "distinct (map c_name (td_columns t))"
  defines "usable \<equiv> usable_columns t (legacy_columns legacy (td_name t))"
  assumes "usable \<noteq> []" "missing_required t (legacy_columns legacy (td_name t)) = []"
  shows "\<exists>rows. all_some (map (read_row usable) (sto_rows src)) = Some rows
    \<and> map (\<lambda>row. stored_row now t (insert_values t row)) rows = carried now legacy t"
proof (intro exI conjI)
  let ?cols = "set (column_names (sto_table src))"
  have cols: "legacy_columns legacy (td_name t) = ?cols" using assms(1) by (simp add: legacy_columns_def)
  let ?read = "\<lambda>row. map (\<lambda>c. (c_name c, dict_get row (c_name c) JNull)) usable"
  have "read_row usable row = Some (?read row)" if "row \<in> set (sto_rows src)" for row
    using assms(1,2) that unfolding read_row_def all_some_Some
    by (auto simp: fits_def usable_def usable_columns_def cols)
  then have "map (read_row usable) (sto_rows src) = map (\<lambda>row. Some (?read row)) (sto_rows src)" by simp
  then show "all_some (map (read_row usable) (sto_rows src)) = Some (map ?read (sto_rows src))"
    by (simp add: all_some_Some comp_def)
  have d: "distinct (map c_name usable)" using assms(3) by (simp add: usable_def usable_columns_def distinct_map_filter)
  have "map_of (?read row) (c_name c) = (if c_name c \<in> ?cols then Some (dict_get row (c_name c) JNull) else None)"
    if "c \<in> set (td_columns t)" for row c
  proof (cases "c_name c \<in> ?cols")
    case True
    with that have "c \<in> set usable" by (simp add: usable_def usable_columns_def cols)
    with True show ?thesis by (simp add: map_of_cells [OF d])
  next
    case False
    then show ?thesis by (auto simp: map_of_eq_None_iff usable_def usable_columns_def cols image_iff)
  qed
  then have "stored_row now t (insert_values t (?read row)) = carried_row now t ?cols row" for row
    unfolding stored_insert_values [OF assms(3)] carried_row_def by (intro map_cong refl) simp
  then show "map (\<lambda>row. stored_row now t (insert_values t row)) (map ?read (sto_rows src)) = carried now legacy t"
    using assms(1,5,6) skipped_table [of t ?cols] by (simp add: carried_def Let_def cols usable_def comp_def)
qed

text \<open>Copying to a table without rows puts all of them in or raises; a table with rows is left.\<close>

lemma copy_fresh:
  assumes "map_of db (td_name t) = Some \<lparr>sto_table = t, sto_rows = []\<rparr>" "fits (mi_now E) legacy t"
    and "distinct (map c_name (td_columns t))" "td_name t \<in> legacy_table_names legacy"
  shows "case copy_legacy_table E legacy db t of
      None \<Rightarrow> \<not> mi_commits E (td_name t)
    | Some db' \<Rightarrow> map_of db' = (map_of db)(td_name t \<mapsto> \<lparr>sto_table = t, sto_rows = carried (mi_now E) legacy t\<rparr>)"
proof -
  let ?usable = "usable_columns t (legacy_columns legacy (td_name t))"
  from assms(4) obtain src where src: "map_of legacy (td_name t) = Some src"
    by (cases "map_of legacy (td_name t)") (auto simp: legacy_table_names_def map_of_eq_None_iff)
  show ?thesis
  proof (cases "?usable = [] \<or> missing_required t (legacy_columns legacy (td_name t)) \<noteq> []")
    case True
    with assms(1) have "copy_legacy_table E legacy db t = Some db" by (simp add: copy_legacy_table_def Let_def)
    moreover from True src have "carried (mi_now E) legacy t = []"
      unfolding skipped_table by (simp add: carried_def Let_def legacy_columns_def)
    ultimately show ?thesis using assms(1) by (simp add: fun_upd_idem)
  next
    case False
    then obtain rows where rows: "all_some (map (read_row ?usable) (sto_rows src)) = Some rows"
      "map (\<lambda>row. stored_row (mi_now E) t (insert_values t row)) rows = carried (mi_now E) legacy t"
      using carried_rows [OF src assms(2,3)] by auto
    show ?thesis
    proof (cases "rows = []")
      case True
      with rows(2) have "carried (mi_now E) legacy t = []" by simp
      moreover have "copy_legacy_table E legacy db t = Some db"
        using assms(1) False src rows(1) True by (simp add: copy_legacy_table_def Let_def)
      ultimately show ?thesis using assms(1) by (simp add: fun_upd_idem)
    next
      case nonempty: False
      have nonnull: "\<forall>row \<in> set rows. \<forall>c \<in> set (td_columns t).
          c_nullable c \<or> dict_get (stored_row (mi_now E) t (insert_values t row)) (c_name c) JNull \<noteq> JNull"
      proof
        fix row assume "row \<in> set rows"
        then have "stored_row (mi_now E) t (insert_values t row) \<in> set (carried (mi_now E) legacy t)"
          unfolding rows(2) [symmetric] by simp
        with assms(2) show "\<forall>c \<in> set (td_columns t).
          c_nullable c \<or> dict_get (stored_row (mi_now E) t (insert_values t row)) (c_name c) JNull \<noteq> JNull"
          unfolding fits_def by blast
      qed
      have "sorted_wrt (\<lambda>a b. \<not> clash t a b) ([] @ map (\<lambda>row. stored_row (mi_now E) t (insert_values t row)) rows)"
        using assms(2) unfolding rows(2) fits_def by simp
      then have "insert_rows (mi_now E) (map (insert_values t) rows) \<lparr>sto_table = t, sto_rows = []\<rparr>
          = Some \<lparr>sto_table = t, sto_rows = carried (mi_now E) legacy t\<rparr>"
        using insert_rows_all [of "\<lparr>sto_table = t, sto_rows = []\<rparr>" t rows "mi_now E"] assms(3) nonnull by (simp add: rows(2))
      then show ?thesis
        using assms(1) False src rows(1) nonempty by (simp add: copy_legacy_table_def Let_def transaction_def)
    qed
  qed
qed

lemma copy_filled:
  "map_of db (td_name t) = Some s \<Longrightarrow> sto_rows s \<noteq> [] \<Longrightarrow> copy_legacy_table E legacy db t = Some db"
  by (simp add: copy_legacy_table_def)

section \<open>Attempts\<close>

lemma split_tables_names: "distinct (map (\<lambda>(n, t). (n, td_name t)) split_tables)"
  by (simp add: split_tables_def schema_defs table_defs)

lemma split_tables_columns: "(n, t) \<in> set split_tables \<Longrightarrow> distinct (map c_name (td_columns t))"
  by (auto simp: split_tables_def schema_defs table_defs)

lemma split_tables_same:
  "(n, t) \<in> set split_tables \<Longrightarrow> (n, u) \<in> set split_tables \<Longrightarrow> td_name t = td_name u \<Longrightarrow> t = u"
  using split_tables_names inj_onD [of "\<lambda>(n, t). (n, td_name t)" "set split_tables" "(n, t)" "(n, u)"]
  unfolding distinct_map by simp

lemma split_tables_db: "(n, t) \<in> set split_tables \<Longrightarrow> n \<noteq> BlocklistDb \<and> n \<noteq> HostsDb"
  by (auto simp: split_tables_def SPLIT_SCHEMAS_def)

text \<open>The state of a table: not created, without rows, or one complete copy made by an attempt.\<close>

definition has_rows :: "(db_name \<Rightarrow> database) \<Rightarrow> db_name \<times> table_def \<Rightarrow> json_dict list \<Rightarrow> bool" where
  "has_rows dbs x rows \<longleftrightarrow> map_of (dbs (fst x)) (td_name (snd x)) = Some \<lparr>sto_table = snd x, sto_rows = rows\<rparr>"

definition copied :: "migrate_env set \<Rightarrow> database \<Rightarrow> (db_name \<Rightarrow> database) \<Rightarrow> db_name \<times> table_def \<Rightarrow> bool" where
  "copied S legacy dbs x \<longleftrightarrow> (\<exists>F \<in> S. has_rows dbs x (carried (mi_now F) legacy (snd x)))"

lemma has_rows_other:
  assumes "(n, t) \<in> set split_tables" "x \<in> set split_tables" "x \<noteq> (n, t)" "map_of db = (map_of (dbs n))(td_name t \<mapsto> s)"
  shows "has_rows (dbs(n := db)) x rows = has_rows dbs x rows"
proof (cases x)
  case (Pair m u)
  with assms(1-3) have "m = n \<Longrightarrow> td_name u \<noteq> td_name t" using split_tables_same [of n t u] by auto
  with Pair assms(4) show ?thesis by (simp add: has_rows_def)
qed

lemma copy_step:
  assumes x: "(n, t) \<in> set split_tables" "td_name t \<in> legacy_table_names legacy" "fits (mi_now E) legacy t" "E \<in> S"
    and "copied S legacy dbs (n, t) \<or> has_rows dbs (n, t) []"
  shows "case copy_legacy_table E legacy (dbs n) t of
      None \<Rightarrow> \<not> mi_commits E (td_name t)
    | Some db \<Rightarrow> copied S legacy (dbs(n := db)) (n, t) \<and>
        (\<forall>x \<in> set split_tables. x \<noteq> (n, t) \<longrightarrow> has_rows (dbs(n := db)) x = has_rows dbs x)"
proof (cases "has_rows dbs (n, t) []")
  case True
  note fresh = copy_fresh [of "dbs n", OF _ x(3) split_tables_columns [OF x(1)] x(2)]
  show ?thesis
  proof (cases "copy_legacy_table E legacy (dbs n) t")
    case None
    with fresh True show ?thesis by (simp add: has_rows_def)
  next
    case (Some db)
    with fresh True have db: "map_of db = (map_of (dbs n))(td_name t \<mapsto> \<lparr>sto_table = t, sto_rows = carried (mi_now E) legacy t\<rparr>)"
      by (simp add: has_rows_def)
    then have "copied S legacy (dbs(n := db)) (n, t)" using x(4) by (auto simp: copied_def has_rows_def)
    have "has_rows (dbs(n := db)) y = has_rows dbs y" if "y \<in> set split_tables" "y \<noteq> (n, t)" for y
      by (rule ext) (rule has_rows_other [where dbs = dbs and n = n, OF x(1) that db])
    with Some \<open>copied S legacy (dbs(n := db)) (n, t)\<close> show ?thesis by simp
  qed
next
  case False
  with assms(5) obtain F where F: "F \<in> S" "has_rows dbs (n, t) (carried (mi_now F) legacy t)" by (auto simp: copied_def)
  with False have "carried (mi_now F) legacy t \<noteq> []" by auto
  with F(2) have "copy_legacy_table E legacy (dbs n) t = Some (dbs n)" by (simp add: has_rows_def copy_filled)
  with F show ?thesis by (auto simp: copied_def)
qed

lemma copy_tables_inv:
  assumes "set ts \<subseteq> set split_tables" "\<forall>x \<in> set split_tables. fits (mi_now E) legacy (snd x)" "E \<in> S"
    and "\<forall>x \<in> set split_tables. copied S legacy dbs x \<or> has_rows dbs x []"
  shows "(\<forall>x \<in> set split_tables. copied S legacy (snd (copy_tables E legacy ts dbs)) x \<or> has_rows (snd (copy_tables E legacy ts dbs)) x [])
    \<and> (\<forall>x \<in> set split_tables. copied S legacy dbs x \<longrightarrow> copied S legacy (snd (copy_tables E legacy ts dbs)) x)
    \<and> (fst (copy_tables E legacy ts dbs) \<longrightarrow> (\<forall>x \<in> set ts. copied S legacy (snd (copy_tables E legacy ts dbs)) x))
    \<and> ((\<forall>name. mi_commits E name) \<longrightarrow> fst (copy_tables E legacy ts dbs))"
  using assms(1,4)
proof (induction ts arbitrary: dbs)
  case (Cons x ts)
  obtain n t where x: "x = (n, t)" by (cases x)
  with Cons.prems have mem: "(n, t) \<in> set split_tables" by simp
  show ?case
  proof (cases "td_name t \<in> legacy_table_names legacy")
    case False
    then have "carried (mi_now E) legacy t = []" using map_of_None_keys [of legacy "td_name t"] by (simp add: carried_def legacy_table_names_def)
    with Cons.prems mem assms(3) have "copied S legacy dbs (n, t)" by (force simp: copied_def)
    with False x Cons.IH [OF _ Cons.prems(2)] Cons.prems(1) mem show ?thesis by auto
  next
    case True
    note step = copy_step [OF mem True bspec [OF assms(2) mem, simplified] assms(3) bspec [OF Cons.prems(2) mem]]
    show ?thesis
    proof (cases "copy_legacy_table E legacy (dbs n) t")
      case None
      with step True x Cons.prems show ?thesis by auto
    next
      case (Some db)
      define dbs1 where "dbs1 = dbs(n := db)"
      from step Some have head: "copied S legacy dbs1 (n, t)"
        and rest: "\<And>y. y \<in> set split_tables \<Longrightarrow> y \<noteq> (n, t) \<Longrightarrow> has_rows dbs1 y = has_rows dbs y" by (auto simp: dbs1_def)
      have keep: "copied S legacy dbs1 y" if "y \<in> set split_tables" "copied S legacy dbs y" for y
        using head rest [OF that(1)] that(2) by (cases "y = (n, t)") (auto simp: copied_def)
      have "copied S legacy dbs1 y \<or> has_rows dbs1 y []" if "y \<in> set split_tables" for y
        using head rest [OF that] keep [OF that] Cons.prems(2) that by (cases "y = (n, t)") auto
      then have inv: "\<forall>y \<in> set split_tables. copied S legacy dbs1 y \<or> has_rows dbs1 y []" by blast
      have copy: "copy_tables E legacy (x # ts) dbs = copy_tables E legacy ts dbs1" using Some True by (simp add: x dbs1_def)
      have "set ts \<subseteq> set split_tables" using Cons.prems(1) by simp
      from Cons.IH [OF this inv] show ?thesis unfolding copy using head keep mem by (simp add: x)
    qed
  qed
qed simp

lemma create_all_lookup:
  "map_of (create_all ts db) k =
     (case map_of db k of
        Some s \<Rightarrow> Some s
      | None \<Rightarrow> map_option (\<lambda>t. \<lparr>sto_table = t, sto_rows = []\<rparr>) (List.find (\<lambda>t. td_name t = k) ts))"
proof (induction ts arbitrary: db)
  case (Cons t ts)
  have "create_all (t # ts) db = create_all ts (if td_name t \<in> set (dict_keys db) then db
      else dict_set (td_name t) \<lparr>sto_table = t, sto_rows = []\<rparr> db)" by (simp add: create_all_def)
  with Cons map_of_None_keys [of db "td_name t"] show ?case by (auto split: option.split)
qed (simp add: create_all_def split: option.split)

text \<open>The databases when the migration begins.\<close>

definition created :: "(db_name \<Rightarrow> database) \<Rightarrow> db_name \<Rightarrow> database" where
  "created dbs =
     (create_all_schemas dbs)
       (BlocklistDb := create_all BlocklistBase_tables (create_all_schemas dbs BlocklistDb),
        HostsDb := create_all HostsBase_tables (create_all_schemas dbs HostsDb))"

lemma find_table: "distinct (map td_name ts) \<Longrightarrow> t \<in> set ts \<Longrightarrow> List.find (\<lambda>u. td_name u = td_name t) ts = Some t"
  by (induction ts) (auto simp: image_iff)

lemma base_names:
  "distinct (map td_name ConfigBase_tables)" "distinct (map td_name StatsBase_tables)"
  "distinct (map td_name CacheBase_tables)" "distinct (map td_name QueryLogBase_tables)"
  by (simp_all add: schema_defs table_defs)

lemma schemas_of_tables:
  assumes "(n, t) \<in> set split_tables"
  obtains ts where "create_all_schemas dbs n = create_all ts (dbs n)" "t \<in> set ts" "distinct (map td_name ts)"
  using assms base_names by (auto simp: split_tables_def create_all_schemas_def SPLIT_SCHEMAS_def)

lemma created_lookup:
  assumes "(n, t) \<in> set split_tables"
  shows "map_of (created dbs n) (td_name t) =
    (case map_of (dbs n) (td_name t) of Some s \<Rightarrow> Some s | None \<Rightarrow> Some \<lparr>sto_table = t, sto_rows = []\<rparr>)"
proof -
  obtain ts where "create_all_schemas dbs n = create_all ts (dbs n)" "t \<in> set ts" "distinct (map td_name ts)"
    by (rule schemas_of_tables [OF assms])
  then show ?thesis
    using split_tables_db [OF assms] by (simp add: created_def create_all_lookup find_table split: option.split)
qed

lemma init_schemas_eq:
  "init_schemas path E st =
     (case migrate_legacy_database path E (st\<lparr>su_databases := created (su_databases st)\<rparr>) of
        (False, st) \<Rightarrow> (False, st)
      | (True, st) \<Rightarrow>
          (True, st\<lparr>su_databases := (su_databases st)
             (HostsDb := ensure_hosts_flag_new_domains_column (ensure_hosts_excluded_column (ensure_hosts_mac_column
                (ensure_hosts_icon_column (su_databases st HostsDb)))),
              BlocklistDb := ensure_blocklist_domain_first_seen_column (mi_now E) (su_databases st BlocklistDb))\<rparr>))"
  by (simp add: init_schemas_def created_def Let_def)

definition migrating :: "migrate_env set \<Rightarrow> string \<Rightarrow> database \<Rightarrow> setup_state \<Rightarrow> bool" where
  "migrating S p legacy st \<longleftrightarrow>
     (map_of (su_files st) p = Some legacy
        \<and> (\<forall>x \<in> set split_tables. copied S legacy (su_databases st) x \<or> has_rows (su_databases st) x []
             \<or> map_of (su_databases st (fst x)) (td_name (snd x)) = None))
     \<or> (map_of (su_files st) p = None \<and> (\<forall>x \<in> set split_tables. copied S legacy (su_databases st) x))"

lemma copied_created: "x \<in> set split_tables \<Longrightarrow> copied S legacy dbs x \<Longrightarrow> copied S legacy (created dbs) x"
  by (cases x) (auto simp: copied_def has_rows_def created_lookup)

lemma copied_ensured:
  "x \<in> set split_tables \<Longrightarrow> copied S legacy (dbs(HostsDb := a, BlocklistDb := b)) x = copied S legacy dbs x"
  using split_tables_db by (cases x) (auto simp: copied_def has_rows_def)

lemma init_schemas_step:
  assumes "migrating S p legacy st" "E \<in> S" "p \<noteq> []" "p \<noteq> '':memory:''"
    and fits: "\<forall>x \<in> set split_tables. fits (mi_now E) legacy (snd x)"
  shows "migrating S p legacy (snd (init_schemas (Some p) E st))
    \<and> ((\<forall>name. mi_commits E name) \<longrightarrow> fst (init_schemas (Some p) E st))
    \<and> (fst (init_schemas (Some p) E st) \<longrightarrow> (\<forall>x \<in> set split_tables. copied S legacy (su_databases (snd (init_schemas (Some p) E st))) x)
         \<and> (mi_renames E \<longrightarrow> map_of (su_files (snd (init_schemas (Some p) E st))) p = None))"
proof (cases "map_of (su_files st) p")
  case None
  with assms(1) have "\<forall>x \<in> set split_tables. copied S legacy (created (su_databases st)) x"
    by (auto simp: migrating_def copied_created)
  with None assms(3,4) show ?thesis
    by (simp add: init_schemas_eq migrate_legacy_database_def migrating_def copied_ensured)
next
  case (Some l)
  with assms(1) have l: "l = legacy" and old: "\<forall>x \<in> set split_tables. copied S legacy (su_databases st) x \<or> has_rows (su_databases st) x []
      \<or> map_of (su_databases st (fst x)) (td_name (snd x)) = None" by (auto simp: migrating_def)
  let ?dbs = "created (su_databases st)"
  have "copied S legacy ?dbs x \<or> has_rows ?dbs x []" if "x \<in> set split_tables" for x
  proof -
    obtain n t where x: "x = (n, t)" by (cases x)
    have "has_rows ?dbs x []" if "has_rows (su_databases st) x [] \<or> map_of (su_databases st n) (td_name t) = None"
      using that created_lookup [of n t "su_databases st"] \<open>x \<in> set split_tables\<close> by (auto simp: has_rows_def x)
    with old copied_created that x show ?thesis by fastforce
  qed
  then have start: "\<forall>x \<in> set split_tables. copied S legacy ?dbs x \<or> has_rows ?dbs x []" by blast
  note run = copy_tables_inv [OF order_refl fits assms(2) start]
  obtain fin dbs' where copy: "copy_tables E legacy split_tables ?dbs = (fin, dbs')" by fastforce
  show ?thesis
  proof (cases fin)
    case True
    with run copy have "\<forall>x \<in> set split_tables. copied S legacy dbs' x" by simp
    with True Some assms(3,4) copy l show ?thesis
      by (auto simp: init_schemas_eq migrate_legacy_database_def migrating_def copied_ensured delete_conv')
  next
    case False
    with run copy have "\<forall>x \<in> set split_tables. copied S legacy dbs' x \<or> has_rows dbs' x []" "\<not> (\<forall>name. mi_commits E name)" by auto
    with False Some assms(3,4) copy l show ?thesis
      by (auto simp: init_schemas_eq migrate_legacy_database_def migrating_def)
  qed
qed

definition attempts :: "string option \<Rightarrow> migrate_env list \<Rightarrow> setup_state \<Rightarrow> setup_state" where
  "attempts path Es st = fold (\<lambda>E st. snd (init_schemas path E st)) Es st"

lemma attempts_migrating:
  "migrating S p legacy st \<Longrightarrow> set Es \<subseteq> S \<Longrightarrow> p \<noteq> [] \<Longrightarrow> p \<noteq> '':memory:'' \<Longrightarrow>
   \<forall>F \<in> set Es. \<forall>x \<in> set split_tables. fits (mi_now F) legacy (snd x) \<Longrightarrow> migrating S p legacy (attempts (Some p) Es st)"
  by (induction Es arbitrary: st) (auto simp: attempts_def dest: init_schemas_step)

lemma fits_absent: "map_of legacy (td_name t) = None \<Longrightarrow> fits now legacy t"
  by (simp add: fits_def carried_def)

text \<open>What adding a column does to a row.\<close>

lemma ensure_column_hosts:
  assumes "map_of db table = Some s" "column_names (sto_table s) \<noteq> []"
  shows "\<exists>s'. map_of (ensure_column table c db) table = Some s'
    \<and> set (column_names (sto_table s')) = insert (c_name c) (set (column_names (sto_table s)))
    \<and> length (sto_rows s') = length (sto_rows s)
    \<and> (\<forall>i < length (sto_rows s). \<forall>k. dict_get (sto_rows s' ! i) k JNull =
         (if k = c_name c \<and> k \<notin> set (column_names (sto_table s)) then server_cell 0 c else dict_get (sto_rows s ! i) k JNull))"
  using assms by (auto simp: ensure_column_def add_column_def legacy_columns_def column_names_def Let_def dict_get_set)

lemma ensure_column_present:
  "map_of db table = Some s \<Longrightarrow> c_name c \<in> set (column_names (sto_table s)) \<Longrightarrow> ensure_column table c db = db"
  by (simp add: ensure_column_def legacy_columns_def)

lemma ensure_columns:
  assumes "map_of db table = Some s" "column_names (sto_table s) \<noteq> []"
  shows "\<exists>s'. map_of (fold (ensure_column table) cs db) table = Some s'
    \<and> set (column_names (sto_table s')) = set (column_names (sto_table s)) \<union> c_name ` set cs
    \<and> length (sto_rows s') = length (sto_rows s)
    \<and> (\<forall>i < length (sto_rows s). \<forall>k. dict_get (sto_rows s' ! i) k JNull =
         (if k \<in> set (column_names (sto_table s)) then dict_get (sto_rows s ! i) k JNull
          else case map_of (map (\<lambda>c. (c_name c, server_cell 0 c)) cs) k of Some v \<Rightarrow> v | None \<Rightarrow> dict_get (sto_rows s ! i) k JNull))"
  using assms
proof (induction cs arbitrary: db s)
  case (Cons c cs)
  obtain a where a: "map_of (ensure_column table c db) table = Some a"
      "set (column_names (sto_table a)) = insert (c_name c) (set (column_names (sto_table s)))"
      "length (sto_rows a) = length (sto_rows s)"
      "\<forall>i < length (sto_rows s). \<forall>k. dict_get (sto_rows a ! i) k JNull =
         (if k = c_name c \<and> k \<notin> set (column_names (sto_table s)) then server_cell 0 c else dict_get (sto_rows s ! i) k JNull)"
    using ensure_column_hosts [OF Cons.prems, of c] by blast
  then have "column_names (sto_table a) \<noteq> []" by force
  from Cons.IH [OF a(1) this] obtain b where b: "map_of (fold (ensure_column table) cs (ensure_column table c db)) table = Some b"
      "set (column_names (sto_table b)) = set (column_names (sto_table a)) \<union> c_name ` set cs"
      "length (sto_rows b) = length (sto_rows a)"
      "\<forall>i < length (sto_rows a). \<forall>k. dict_get (sto_rows b ! i) k JNull =
         (if k \<in> set (column_names (sto_table a)) then dict_get (sto_rows a ! i) k JNull
          else case map_of (map (\<lambda>c. (c_name c, server_cell 0 c)) cs) k of Some v \<Rightarrow> v | None \<Rightarrow> dict_get (sto_rows a ! i) k JNull)"
    by blast
  have "dict_get (sto_rows b ! i) k JNull =
         (if k \<in> set (column_names (sto_table s)) then dict_get (sto_rows s ! i) k JNull
          else case map_of (map (\<lambda>c. (c_name c, server_cell 0 c)) (c # cs)) k of Some v \<Rightarrow> v | None \<Rightarrow> dict_get (sto_rows s ! i) k JNull)"
    if "i < length (sto_rows s)" for i k
    using a(2) a(3) a(4) [rule_format, OF that, of k] b(4) [rule_format, of i k] that
    by (cases "k = c_name c") (simp_all split: option.split)
  with a(2,3) b(1-3) show ?case by simp
qed simp

lemma ensure_columns_present:
  "map_of db table = Some s \<Longrightarrow> c_name ` set cs \<subseteq> set (column_names (sto_table s)) \<Longrightarrow> fold (ensure_column table) cs db = db"
  by (induction cs) (simp_all add: ensure_column_present)

definition added_host_columns :: "column list" where
  "added_host_columns =
     [Column ''icon'' CText True None None, Column ''mac_address'' CText True None None,
      Column ''excluded_from_blocklist'' CBool False None (Some (Given (JBool False))),
      Column ''flag_new_domains'' CBool False None (Some (Given (JBool True)))]"

definition ensure_hosts_columns :: "database \<Rightarrow> database" where
  "ensure_hosts_columns db =
     ensure_hosts_flag_new_domains_column (ensure_hosts_excluded_column (ensure_hosts_mac_column (ensure_hosts_icon_column db)))"

lemma ensure_hosts_columns_fold: "ensure_hosts_columns db = fold (ensure_column ''hosts'') added_host_columns db"
  by (simp add: ensure_hosts_columns_def ensure_hosts_icon_column_def ensure_hosts_mac_column_def
      ensure_hosts_excluded_column_def ensure_hosts_flag_new_domains_column_def added_host_columns_def)

section \<open>Properties\<close>

text \<open>C24: The migration carries every old table whose rows can be completed over exactly once. Whatever earlier attempts
  were cut short by a failing commit, at whatever table, an attempt whose commits succeed comes to its end, and then
  every table of the new databases holds one complete copy of the old rows, with the defaults for the columns the
  old table lacks: no row is lost, doubled or mixed. Only an old table that lacks a column which may not be null
  and has no default, or shares no column at all, leaves its new table empty. Unless the renaming fails the old
  file is out of the way.\<close>

theorem migration_exactly_once:
  assumes "su_databases st = (\<lambda>n. [])" "map_of (su_files st) p = Some legacy" "p \<noteq> []" "p \<noteq> '':memory:''"
    and "\<forall>F \<in> set (E # Es). \<forall>x \<in> set split_tables. fits (mi_now F) legacy (snd x)" "\<forall>name. mi_commits E name"
    and "(n, t) \<in> set split_tables"
  shows "\<exists>st'. init_schemas (Some p) E (attempts (Some p) Es st) = (True, st')
    \<and> (\<exists>F \<in> set (E # Es). map_of (su_databases st' n) (td_name t)
         = Some \<lparr>sto_table = t, sto_rows = carried (mi_now F) legacy t\<rparr>)
    \<and> (mi_renames E \<longrightarrow> map_of (su_files st') p = None)"
proof -
  let ?S = "set (E # Es)" and ?st = "attempts (Some p) Es st"
  have "migrating ?S p legacy st" using assms(1,2) by (simp add: migrating_def)
  then have mid: "migrating ?S p legacy ?st" using assms(3-5) by (intro attempts_migrating) auto
  have fits: "\<forall>x \<in> set split_tables. fits (mi_now E) legacy (snd x)" using assms(5) by simp
  from init_schemas_step [OF mid _ assms(3,4) fits] assms(6)
  obtain st' where st': "init_schemas (Some p) E ?st = (True, st')"
    "\<forall>x \<in> set split_tables. copied ?S legacy (su_databases st') x" "mi_renames E \<longrightarrow> map_of (su_files st') p = None"
    by (cases "init_schemas (Some p) E ?st") auto
  from bspec [OF st'(2) assms(7)] have "\<exists>F \<in> ?S. map_of (su_databases st' n) (td_name t)
      = Some \<lparr>sto_table = t, sto_rows = carried (mi_now F) legacy t\<rparr>" by (simp add: copied_def has_rows_def)
  with st'(1,3) show ?thesis by blast
qed

definition example_setting :: json_dict where
  "example_setting = [(''key'', JStr ''default_action''), (''value'', JStr ''deny''), (''updated_at'', JTime 7)]"

theorem migration_exactly_once_witness:
  "\<exists>st'. init_schemas (Some ''mirenai.db'') \<lparr>mi_now = 9, mi_commits = (\<lambda>name. True), mi_renames = True\<rparr>
      (attempts (Some ''mirenai.db'') [\<lparr>mi_now = 8, mi_commits = (\<lambda>name. False), mi_renames = True\<rparr>]
        \<lparr>su_databases = (\<lambda>n. []), su_files = [(''mirenai.db'', [(''app_settings'', \<lparr>sto_table = APP_SETTINGS, sto_rows = [example_setting]\<rparr>)])]\<rparr>)
      = (True, st')
    \<and> map_of (su_databases st' ConfigDb) ''app_settings'' = Some \<lparr>sto_table = APP_SETTINGS, sto_rows = [example_setting]\<rparr>
    \<and> map_of (su_files st') ''mirenai.db'' = None"
proof -
  let ?legacy = "[(''app_settings'', \<lparr>sto_table = APP_SETTINGS, sto_rows = [example_setting]\<rparr>)]"
  let ?E = "\<lparr>mi_now = 9, mi_commits = (\<lambda>name. True), mi_renames = True\<rparr>"
  let ?F = "\<lparr>mi_now = 8, mi_commits = (\<lambda>name. False), mi_renames = True\<rparr>"
  have name: "td_name APP_SETTINGS = ''app_settings''" by (simp add: APP_SETTINGS_def)
  have mem: "(ConfigDb, APP_SETTINGS) \<in> set split_tables" by (simp add: split_tables_def SPLIT_SCHEMAS_def ConfigBase_tables_def)
  have carried: "carried now ?legacy APP_SETTINGS = [example_setting]" for now
    by (simp add: carried_def carried_row_def completable_def column_names_def APP_SETTINGS_def
        example_setting_def dict_get_def)
  have app: "fits now ?legacy APP_SETTINGS" for now unfolding fits_def carried
    by (simp add: column_names_def APP_SETTINGS_def example_setting_def dict_get_def)
  have only: "\<forall>x \<in> set split_tables. td_name (snd x) = ''app_settings'' \<longrightarrow> snd x = APP_SETTINGS"
    by (simp add: split_tables_def schema_defs) (simp add: table_defs)
  have "fits now ?legacy (snd x)" if "x \<in> set split_tables" for x now
  proof (cases "td_name (snd x) = ''app_settings''")
    case True
    with only that have "snd x = APP_SETTINGS" by blast
    with app [of now] show ?thesis by (simp only:)
  next
    case False
    then show ?thesis by (intro fits_absent) simp
  qed
  then have "\<forall>G \<in> set [?E, ?F]. \<forall>x \<in> set split_tables. fits (mi_now G) ?legacy (snd x)" by simp
  from migration_exactly_once [of "\<lparr>su_databases = (\<lambda>n. []), su_files = [(''mirenai.db'', ?legacy)]\<rparr>" "''mirenai.db''" ?legacy ?E "[?F]",
      OF _ _ _ _ this _ mem]
  show ?thesis unfolding carried name by auto
qed

text \<open>A hosts table from before the last four columns were added has them after the start. Every host keeps its
  values; the new columns have no name icon and no address, do not exempt the host from the blocklists and report its new
  domains. A second start changes nothing.\<close>

theorem hosts_upgraded:
  assumes "map_of db ''hosts'' = Some old" "column_names (sto_table old) \<noteq> []"
  shows "\<exists>new. map_of (ensure_hosts_columns db) ''hosts'' = Some new
    \<and> set (column_names (sto_table new)) = set (column_names (sto_table old))
        \<union> {''icon'', ''mac_address'', ''excluded_from_blocklist'', ''flag_new_domains''}
    \<and> length (sto_rows new) = length (sto_rows old)
    \<and> (\<forall>i < length (sto_rows old). \<forall>k. dict_get (sto_rows new ! i) k JNull =
         (if k \<in> set (column_names (sto_table old)) then dict_get (sto_rows old ! i) k JNull
          else if k = ''icon'' \<or> k = ''mac_address'' then JNull
          else if k = ''excluded_from_blocklist'' then JBool False
          else if k = ''flag_new_domains'' then JBool True
          else dict_get (sto_rows old ! i) k JNull))
    \<and> ensure_hosts_columns (ensure_hosts_columns db) = ensure_hosts_columns db"
proof -
  obtain new where new: "map_of (ensure_hosts_columns db) ''hosts'' = Some new"
      "set (column_names (sto_table new)) = set (column_names (sto_table old)) \<union> c_name ` set added_host_columns"
      "length (sto_rows new) = length (sto_rows old)"
      "\<forall>i < length (sto_rows old). \<forall>k. dict_get (sto_rows new ! i) k JNull =
         (if k \<in> set (column_names (sto_table old)) then dict_get (sto_rows old ! i) k JNull
          else case map_of (map (\<lambda>c. (c_name c, server_cell 0 c)) added_host_columns) k of
            Some v \<Rightarrow> v | None \<Rightarrow> dict_get (sto_rows old ! i) k JNull)"
    using ensure_columns [OF assms, of added_host_columns] unfolding ensure_hosts_columns_fold by blast
  have "ensure_hosts_columns (ensure_hosts_columns db) = ensure_hosts_columns db"
    using ensure_columns_present [OF new(1), of added_host_columns] new(2) by (simp add: ensure_hosts_columns_fold)
  moreover have "map_of (map (\<lambda>c. (c_name c, server_cell 0 c)) added_host_columns) k =
      (if k = ''icon'' \<or> k = ''mac_address'' then Some JNull
       else if k = ''excluded_from_blocklist'' then Some (JBool False)
       else if k = ''flag_new_domains'' then Some (JBool True) else None)" for k
    by (simp add: added_host_columns_def server_cell_def)
  ultimately show ?thesis
    using new by (intro exI [of _ new]) (simp add: added_host_columns_def)
qed

theorem hosts_upgraded_witness:
  "\<exists>new. map_of (ensure_hosts_columns [(''hosts'', \<lparr>sto_table = \<lparr>td_name = ''hosts'',
        td_columns = [Column ''id'' CInt False None None, Column ''ip'' CText False None None], td_keys = [[''id''], [''ip'']]\<rparr>,
        sto_rows = [[(''id'', JInt 1), (''ip'', JStr ''10.0.0.5'')]]\<rparr>)]) ''hosts'' = Some new
    \<and> dict_get (sto_rows new ! 0) ''ip'' JNull = JStr ''10.0.0.5'' \<and> dict_get (sto_rows new ! 0) ''flag_new_domains'' JNull = JBool True"
  (is "\<exists>new. map_of (ensure_hosts_columns [(''hosts'', ?old)]) ''hosts'' = Some new \<and> ?P new")
proof -
  have names: "column_names (sto_table ?old) = [''id'', ''ip'']" by (simp add: column_names_def)
  obtain new where new: "map_of (ensure_hosts_columns [(''hosts'', ?old)]) ''hosts'' = Some new"
      "\<forall>i < length (sto_rows ?old). \<forall>k. dict_get (sto_rows new ! i) k JNull =
         (if k \<in> set [''id'', ''ip''] then dict_get (sto_rows ?old ! i) k JNull
          else if k = ''icon'' \<or> k = ''mac_address'' then JNull
          else if k = ''excluded_from_blocklist'' then JBool False
          else if k = ''flag_new_domains'' then JBool True
          else dict_get (sto_rows ?old ! i) k JNull)"
    using hosts_upgraded [of "[(''hosts'', ?old)]" ?old] unfolding names by auto
  from new(2) have "?P new" by (simp add: dict_get_def)
  with new(1) show ?thesis by blast
qed

text \<open>The session factory sends every table to the database of its base.\<close>

theorem tables_bound:
  assumes "(n, t) \<in> set split_tables"
  shows "map_of (fst (get_session_factory S (reset_engines m))) (td_name t) = Some (database_url S n)"
proof -
  have "fst (get_session_factory S (reset_engines m))
      = fold (\<lambda>(n, t). dict_set (td_name t) (database_url S n)) split_tables []"
    by (simp add: get_session_factory_def get_engine_def reset_engines_def split_tables_def SPLIT_SCHEMAS_def fold_map comp_def)
  moreover have "map_of (fold (\<lambda>(n, t). dict_set (td_name t) (database_url S n)) ts d) (td_name t) = Some (database_url S n)"
    if "(n, t) \<in> set ts \<or> map_of d (td_name t) = Some (database_url S n)" "distinct (map (td_name \<circ> snd) ts)"
      "(n, t) \<in> set ts \<or> td_name t \<notin> (td_name \<circ> snd) ` set ts" for ts d
    using that by (induction ts arbitrary: d) (auto simp: image_iff)
  moreover have "distinct (map (td_name \<circ> snd) split_tables)"
    by (simp add: split_tables_def schema_defs table_defs)
  ultimately show ?thesis using assms by simp
qed

text \<open>When the old file cannot be renamed, every later start migrates again: rows that were deleted in the meantime
  come back.\<close>

theorem deleted_rows_return:
  assumes "su_databases st = (\<lambda>n. [])" "map_of (su_files st) p = Some legacy" "p \<noteq> []" "p \<noteq> '':memory:''"
    and fits: "\<forall>G \<in> {E, F}. \<forall>x \<in> set split_tables. fits (mi_now G) legacy (snd x)"
    and "\<forall>name. mi_commits E name \<and> mi_commits F name" "\<not> mi_renames E" "(n, t) \<in> set split_tables"
    and "init_schemas (Some p) E st = (True, st')"
    and "st'' = st'\<lparr>su_databases := (su_databases st')(n := dict_set (td_name t) \<lparr>sto_table = t, sto_rows = []\<rparr> (su_databases st' n))\<rparr>"
  shows "\<exists>G \<in> {E, F}. map_of (su_databases (snd (init_schemas (Some p) F st'')) n) (td_name t)
     = Some \<lparr>sto_table = t, sto_rows = carried (mi_now G) legacy t\<rparr>"
proof -
  have "migrating {E, F} p legacy st" using assms(1,2) by (simp add: migrating_def)
  from init_schemas_step [OF this _ assms(3,4) bspec [OF fits], of E] assms(9)
  have st': "\<forall>x \<in> set split_tables. copied {E, F} legacy (su_databases st') x" by auto
  have "su_files st' = su_files st"
    using assms(2-4,7,9) by (auto simp: init_schemas_eq migrate_legacy_database_def split: prod.splits bool.splits)
  moreover have "has_rows (su_databases st'') x [] \<or> copied {E, F} legacy (su_databases st'') x" if x: "x \<in> set split_tables" for x
  proof (cases "x = (n, t)")
    case False
    have "has_rows (su_databases st'') x rows = has_rows (su_databases st') x rows" for rows
      unfolding assms(10) using has_rows_other [where dbs = "su_databases st'" and n = n, OF assms(8) x False] by simp
    with st' x show ?thesis by (simp add: copied_def)
  qed (simp add: has_rows_def assms(10))
  ultimately have "migrating {E, F} p legacy st''" using assms(2) by (auto simp: migrating_def assms(10))
  from init_schemas_step [OF this _ assms(3,4) bspec [OF fits], of F] assms(6,8)
  have "copied {E, F} legacy (su_databases (snd (init_schemas (Some p) F st''))) (n, t)" by blast
  then show ?thesis by (simp add: copied_def has_rows_def)
qed

end
