(* ===== verification/AppRoutes.thy ===== *)
theory AppRoutes
  imports ReportRoutes DatabaseSetup
begin

text \<open>
  What the API application adds to its routes: \<open>api/app.py\<close> and \<open>api/routes/health.py\<close>. The answer to a request is
  its status, its headers and the members of its body; the framework's own answers are the ones to an unknown path, to
  a preflight request and to an exception. The access log and the registration of the routes are left out.
\<close>

section \<open>Answers\<close>

record app_answer =
  aa_status :: int
  aa_headers :: "(string, string) dict"
  aa_body :: json_dict

definition SERVICE_NAME :: string where "SERVICE_NAME = ''mirenai-api''"

text \<open>The hook that runs after every request.\<close>

definition cors_headers :: "(string, string) dict \<Rightarrow> (string, string) dict" where
  "cors_headers headers =
     dict_set ''Access-Control-Allow-Headers'' ''*''
       (dict_set ''Access-Control-Allow-Methods'' ''GET, POST, PUT, PATCH, DELETE, OPTIONS''
         (dict_set ''Access-Control-Allow-Origin'' ''*'' headers))"

definition finalize :: "app_answer \<Rightarrow> app_answer" where
  "finalize a = a\<lparr>aa_headers := cors_headers (aa_headers a)\<rparr>"

definition json_header :: "(string, string) dict" where
  "json_header = [(''Content-Type'', ''application/json'')]"

definition error_payload :: "api_error \<Rightarrow> json_dict" where
  "error_payload e =
     [(''status'', JStr ''error''), (''code'', JStr (ae_code e)), (''error'', JStr (ae_message e))]
       @ (case ae_detail e of None \<Rightarrow> [] | Some detail \<Rightarrow> [(''detail'', JStr detail)])"

definition app_not_found :: app_answer where
  "app_not_found = \<lparr>aa_status = 404, aa_headers = json_header,
     aa_body = [(''status'', JStr ''error''), (''code'', JStr ''not_found''), (''error'', JStr ''not found'')]\<rparr>"

definition app_server_error :: app_answer where
  "app_server_error = \<lparr>aa_status = 500, aa_headers = json_header,
     aa_body = [(''status'', JStr ''error''), (''code'', JStr ''internal_error''), (''error'', JStr ''internal error'')]\<rparr>"

definition cors_preflight :: "string \<Rightarrow> app_answer" where
  "cors_preflight path = \<lparr>aa_status = 200, aa_headers = [], aa_body = []\<rparr>"

text \<open>What a request ends in: \<open>None\<close> is a path without a route. The hook has set its headers on the answers of the
  routes; whether the framework keeps them on its own error answers is not the source's to say, and they are given
  without.\<close>

definition answer :: "('a \<Rightarrow> json_dict) \<Rightarrow> 'a reply option \<Rightarrow> app_answer" where
  "answer envelope r =
     (case r of
        None \<Rightarrow> app_not_found
      | Some (Reply status body) \<Rightarrow> finalize \<lparr>aa_status = status, aa_headers = json_header, aa_body = envelope body\<rparr>
      | Some (Failed e) \<Rightarrow> finalize \<lparr>aa_status = ae_status e, aa_headers = json_header, aa_body = error_payload e\<rparr>
      | Some Crashed \<Rightarrow> app_server_error)"

section \<open>Health\<close>

definition route_health :: "json_dict reply" where
  "route_health = Reply 200 [(''status'', JStr ''ok''), (''service'', JStr SERVICE_NAME)]"

definition route_ready :: "Settings \<Rightarrow> (string \<Rightarrow> string option) \<Rightarrow> db_module \<Rightarrow> json_dict reply \<times> db_module" where
  "route_ready S connect m =
     (case check_database S connect m of
        ((ok, detail), m) \<Rightarrow>
          (if \<not> ok then Failed (error ''not_ready'' detail 503 None) else Reply 200 [(''status'', JStr ''ok'')], m))"

section \<open>Lemmas\<close>

text \<open>Engines stay what their settings say, so the readiness does not depend on which of them were made before.\<close>

definition engines_ok :: "Settings \<Rightarrow> db_module \<Rightarrow> bool" where
  "engines_ok S m \<longleftrightarrow> (\<forall>name engine. dm_engine m name = Some engine \<longrightarrow> engine = database_url S name)"

lemma get_engine_ok:
  assumes "engines_ok S m"
  shows "fst (get_engine S name m) = database_url S name" "engines_ok S (snd (get_engine S name m))"
  using assms by (auto simp: get_engine_def engines_ok_def split: option.split)

lemma check_engines_first:
  "engines_ok S m \<Longrightarrow> fst (check_engines S connect engines m) =
     (case List.find (\<lambda>(label, name). connect (database_url S name) \<noteq> None) engines of
        None \<Rightarrow> (True, ''ok'')
      | Some (label, name) \<Rightarrow> (False, label @ '' database check failed: '' @ the (connect (database_url S name))))"
proof (induction engines arbitrary: m)
  case (Cons e engines)
  obtain label name where e: "e = (label, name)" by (cases e)
  obtain engine m' where g: "get_engine S name m = (engine, m')" by fastforce
  with get_engine_ok [OF Cons.prems, of name] have "engine = database_url S name" "engines_ok S m'" by simp_all
  with Cons.IH [of m'] g show ?case by (simp add: e split: option.split)
qed simp

text \<open>The service is ready exactly when every database answers, and otherwise names the first that does not.\<close>

theorem ready_names_first:
  assumes "engines_ok S m"
  shows "fst (route_ready S connect m) =
     (case List.find (\<lambda>(label, name). connect (database_url S name) \<noteq> None) CHECKED_ENGINES of
        None \<Rightarrow> Reply 200 [(''status'', JStr ''ok'')]
      | Some (label, name) \<Rightarrow>
          Failed (error ''not_ready'' (label @ '' database check failed: '' @ the (connect (database_url S name))) 503 None))"
  using check_engines_first [OF assms, of connect CHECKED_ENGINES]
  by (cases "check_database S connect m") (auto simp: route_ready_def check_database_def split: option.splits prod.splits)

end
