(* ===== verification/Routing.thy ===== *)
theory Routing
  imports AppRoutes
begin

text \<open>
  The routes of the API: what \<open>create_app\<close> of \<open>api/app.py\<close> registers, one list for each file of \<open>api/routes\<close>, in the
  order of registration. A route has its method, its rule and the name of its handler, which \<open>ConfigRoutes\<close>,
  \<open>ReportRoutes\<close> and \<open>AppRoutes\<close> model. How the framework matches a path is a parameter.
\<close>

section \<open>The table\<close>

text \<open>The parts of a rule between its slashes: literal text, or an argument that takes a number, a text without a slash or
  the rest of the path.\<close>

datatype rule_part = Fixed string | IntArg string | TextArg string | PathArg string

datatype route = Route (ro_method: string) (ro_rule: "rule_part list") (ro_handler: string)

definition health_routes :: "route list" where
  "health_routes =
     [Route ''GET'' [Fixed ''health''] ''health'',
      Route ''GET'' [Fixed ''ready''] ''ready'']"

definition policies_routes :: "route list" where
  "policies_routes =
     [Route ''GET'' [Fixed ''policies''] ''list_policies'',
      Route ''GET'' [Fixed ''policies'', IntArg ''policy_id''] ''get_policy'',
      Route ''POST'' [Fixed ''policies''] ''create_policy'',
      Route ''PUT'' [Fixed ''policies'', IntArg ''policy_id''] ''update_policy'',
      Route ''DELETE'' [Fixed ''policies'', IntArg ''policy_id''] ''delete_policy'']"

definition client_modes_routes :: "route list" where
  "client_modes_routes =
     [Route ''GET'' [Fixed ''clients'', TextArg ''ip'', Fixed ''mode''] ''get_mode'',
      Route ''PUT'' [Fixed ''clients'', TextArg ''ip'', Fixed ''mode''] ''set_mode'']"

definition upstreams_routes :: "route list" where
  "upstreams_routes =
     [Route ''GET'' [Fixed ''upstreams''] ''list_upstreams'',
      Route ''GET'' [Fixed ''upstreams'', IntArg ''upstream_id''] ''get_upstream'',
      Route ''POST'' [Fixed ''upstreams''] ''create_upstream'',
      Route ''PUT'' [Fixed ''upstreams'', IntArg ''upstream_id''] ''update_upstream'',
      Route ''DELETE'' [Fixed ''upstreams'', IntArg ''upstream_id''] ''delete_upstream'',
      Route ''POST'' [Fixed ''upstreams'', IntArg ''upstream_id'', Fixed ''check''] ''check_upstream'']"

definition query_log_routes :: "route list" where
  "query_log_routes =
     [Route ''GET'' [Fixed ''queries''] ''list_queries'',
      Route ''GET'' [Fixed ''queries'', Fixed ''top-blocked''] ''top_blocked_domains'',
      Route ''DELETE'' [Fixed ''queries''] ''reset_queries'']"

definition query_events_routes :: "route list" where
  "query_events_routes =
     [Route ''GET'' [Fixed ''clients'', TextArg ''ip'', Fixed ''queries''] ''recent_queries'']"

definition settings_routes :: "route list" where
  "settings_routes =
     [Route ''GET'' [Fixed ''settings''] ''get_settings'',
      Route ''PUT'' [Fixed ''settings''] ''update_settings'']"

definition blocklists_routes :: "route list" where
  "blocklists_routes =
     [Route ''GET'' [Fixed ''blocklists''] ''list_blocklists'',
      Route ''GET'' [Fixed ''blocklists'', Fixed ''search''] ''search_blocklist_domains'',
      Route ''GET'' [Fixed ''blocklists'', Fixed ''size-history''] ''blocklist_size_history'',
      Route ''GET'' [Fixed ''blocklists'', Fixed ''recent''] ''recent_blocklist_domains'',
      Route ''GET'' [Fixed ''blocklists'', Fixed ''overrides''] ''list_blocklist_overrides'',
      Route ''POST'' [Fixed ''blocklists'', Fixed ''overrides''] ''create_blocklist_override'',
      Route ''DELETE'' [Fixed ''blocklists'', Fixed ''overrides'', IntArg ''override_id''] ''delete_blocklist_override'',
      Route ''GET'' [Fixed ''blocklists'', IntArg ''blocklist_id''] ''get_blocklist'',
      Route ''POST'' [Fixed ''blocklists''] ''create_blocklist'',
      Route ''PUT'' [Fixed ''blocklists'', IntArg ''blocklist_id''] ''update_blocklist'',
      Route ''DELETE'' [Fixed ''blocklists'', IntArg ''blocklist_id''] ''delete_blocklist'',
      Route ''GET'' [Fixed ''blocklists'', IntArg ''blocklist_id'', Fixed ''domains''] ''list_blocklist_domains'',
      Route ''POST'' [Fixed ''blocklists'', IntArg ''blocklist_id'', Fixed ''refresh''] ''refresh_blocklist_now'']"

definition hosts_routes :: "route list" where
  "hosts_routes =
     [Route ''GET'' [Fixed ''hosts''] ''list_hosts'',
      Route ''GET'' [Fixed ''hosts'', IntArg ''host_id''] ''get_host'',
      Route ''PUT'' [Fixed ''hosts'', IntArg ''host_id''] ''update_host'',
      Route ''POST'' [Fixed ''hosts'', IntArg ''host_id'', Fixed ''sync''] ''sync_host'',
      Route ''DELETE'' [Fixed ''hosts'', IntArg ''host_id''] ''delete_host'']"

definition local_zones_routes :: "route list" where
  "local_zones_routes =
     [Route ''GET'' [Fixed ''local-zones''] ''list_local_zones'',
      Route ''GET'' [Fixed ''local-records''] ''list_local_records'',
      Route ''GET'' [Fixed ''local-zones'', IntArg ''zone_id''] ''get_local_zone'',
      Route ''POST'' [Fixed ''local-zones''] ''create_local_zone'',
      Route ''PUT'' [Fixed ''local-zones'', IntArg ''zone_id''] ''update_local_zone'',
      Route ''DELETE'' [Fixed ''local-zones'', IntArg ''zone_id''] ''delete_local_zone'',
      Route ''GET'' [Fixed ''local-zones'', IntArg ''zone_id'', Fixed ''records''] ''list_zone_records'',
      Route ''POST'' [Fixed ''local-zones'', IntArg ''zone_id'', Fixed ''refresh''] ''refresh_local_zone_now'']"

definition stats_routes :: "route list" where
  "stats_routes =
     [Route ''GET'' [Fixed ''stats''] ''list_stats'',
      Route ''GET'' [Fixed ''stats'', Fixed ''site''] ''site_stats'',
      Route ''GET'' [Fixed ''stats'', Fixed ''cache-outcomes''] ''cache_outcome_stats'',
      Route ''GET'' [Fixed ''stats'', Fixed ''new-domains''] ''new_domain_stats'',
      Route ''GET'' [Fixed ''stats'', Fixed ''new-domains'', Fixed ''recent''] ''recent_new_domains'',
      Route ''GET'' [Fixed ''stats'', Fixed ''runtime''] ''runtime_stats'',
      Route ''GET'' [Fixed ''stats'', Fixed ''upstreams''] ''upstream_rtt'']"

definition requests_routes :: "route list" where
  "requests_routes =
     [Route ''GET'' [Fixed ''requests''] ''list_requests'']"

definition cache_routes :: "route list" where
  "cache_routes =
     [Route ''GET'' [Fixed ''cache''] ''list_cache'',
      Route ''GET'' [Fixed ''cache'', Fixed ''uncacheable''] ''list_uncacheable'',
      Route ''DELETE'' [Fixed ''cache'', Fixed ''uncacheable''] ''clear_uncacheable'',
      Route ''DELETE'' [Fixed ''cache'', Fixed ''uncacheable'', IntArg ''entry_id''] ''delete_uncacheable'',
      Route ''POST'' [Fixed ''cache'', Fixed ''flush''] ''flush_cache'']"

definition trusted_networks_routes :: "route list" where
  "trusted_networks_routes =
     [Route ''GET'' [Fixed ''trusted-networks''] ''list_trusted_networks'',
      Route ''GET'' [Fixed ''trusted-networks'', IntArg ''network_id''] ''get_trusted_network'',
      Route ''POST'' [Fixed ''trusted-networks''] ''create_trusted_network'',
      Route ''DELETE'' [Fixed ''trusted-networks'', IntArg ''network_id''] ''delete_trusted_network'']"

definition foreign_clients_routes :: "route list" where
  "foreign_clients_routes =
     [Route ''GET'' [Fixed ''foreign-clients''] ''list_foreign_clients'',
      Route ''DELETE'' [Fixed ''foreign-clients''] ''clear_foreign_clients'',
      Route ''DELETE'' [Fixed ''foreign-clients'', IntArg ''client_id''] ''delete_foreign_client'']"

definition preflight_routes :: "route list" where
  "preflight_routes = [Route ''OPTIONS'' [PathArg ''path''] ''cors_preflight'']"

definition app_routes :: "route list" where
  "app_routes = health_routes @ policies_routes @ client_modes_routes @ upstreams_routes @ query_log_routes @ query_events_routes @ settings_routes @ blocklists_routes
     @ hosts_routes @ local_zones_routes @ stats_routes @ requests_routes @ cache_routes @ trusted_networks_routes @ foreign_clients_routes @ preflight_routes"

section \<open>Matching\<close>

text \<open>What the documentation of the framework says of the rules: a literal part matches itself, an integer filter digits with
  an optional sign, a plain argument a text that is not empty.\<close>

fun part_fits :: "rule_part \<Rightarrow> string \<Rightarrow> bool" where
  "part_fits (Fixed s) t = (t = s)"
| "part_fits (IntArg name) t = (t \<noteq> [] \<and> list_all (\<lambda>c. is_digit c \<or> c = CHR ''-'') t)"
| "part_fits (TextArg name) t = (t \<noteq> [])"
| "part_fits (PathArg name) t = True"

definition rules_documented :: "(rule_part list \<Rightarrow> string \<Rightarrow> bool) \<Rightarrow> bool" where
  "rules_documented matches \<longleftrightarrow> (\<forall>rule path. matches rule path \<longrightarrow>
     list_all2 part_fits rule (tl (py_split (CHR ''/'') path)) \<or> (\<exists>name. rule = [PathArg name]))"

fun parts_overlap :: "rule_part \<Rightarrow> rule_part \<Rightarrow> bool" where
  "parts_overlap (Fixed s) (Fixed t) = (s = t)"
| "parts_overlap (Fixed s) (IntArg name) = part_fits (IntArg name) s"
| "parts_overlap (IntArg name) (Fixed s) = part_fits (IntArg name) s"
| "parts_overlap p q = True"

definition routes_overlap :: "route \<Rightarrow> route \<Rightarrow> bool" where
  "routes_overlap a b \<longleftrightarrow> ro_method a = ro_method b \<and> list_all2 parts_overlap (ro_rule a) (ro_rule b)"

lemma part_fits_overlap: "part_fits p t \<Longrightarrow> part_fits q t \<Longrightarrow> parts_overlap p q"
  by (cases "(p, q)" rule: parts_overlap.cases) auto

lemma rules_overlap: "list_all2 part_fits a ts \<Longrightarrow> list_all2 part_fits b ts \<Longrightarrow> list_all2 parts_overlap a b"
  by (induction ts arbitrary: a b) (auto simp: list_all2_Cons2 intro: part_fits_overlap)

lemma app_routes_apart: "sorted_wrt (\<lambda>a b. \<not> routes_overlap a b) app_routes"
  by code_simp

lemma app_routes_path: "r \<in> set app_routes \<Longrightarrow> ro_rule r = [PathArg name] \<Longrightarrow> ro_method r = ''OPTIONS''"
proof -
  have "list_all (\<lambda>r. case ro_rule r of [PathArg name] \<Rightarrow> ro_method r = ''OPTIONS'' | _ \<Rightarrow> ro_method r \<noteq> ''OPTIONS'') app_routes"
    by code_simp
  then show "r \<in> set app_routes \<Longrightarrow> ro_rule r = [PathArg name] \<Longrightarrow> ro_method r = ''OPTIONS''" by (auto simp: list_all_iff)
qed

section \<open>Properties\<close>

text \<open>C40: No route hides another: a request with one of the methods of the API has at most one handler, whatever the order
  in which the framework tries the rules, so \<open>/blocklists/search\<close> never arrives as a blocklist number and
  \<open>/clients/<ip>/mode\<close> never as another report.\<close>

theorem at_most_one_handler:
  assumes "rules_documented matches" "a \<in> set app_routes" "b \<in> set app_routes" "ro_method a = ro_method b" "ro_method a \<noteq> ''OPTIONS''"
    and "matches (ro_rule a) path" "matches (ro_rule b) path"
  shows "a = b"
proof -
  let ?parts = "tl (py_split (CHR ''/'') path)"
  have parts: "list_all2 part_fits (ro_rule r) ?parts"
    if "r \<in> set app_routes" "ro_method r \<noteq> ''OPTIONS''" "matches (ro_rule r) path" for r
    using assms(1) that app_routes_path [OF that(1)] unfolding rules_documented_def by blast
  have fit: "list_all2 part_fits (ro_rule a) ?parts" "list_all2 part_fits (ro_rule b) ?parts"
    using parts [OF assms(2,5,6)] parts [OF assms(3) _ assms(7)] assms(4,5) by simp_all
  have overlap: "routes_overlap a b" "routes_overlap b a"
    unfolding routes_overlap_def using assms(4) rules_overlap [OF fit] rules_overlap [OF fit(2,1)] by simp_all
  obtain i j where ij: "i < length app_routes" "a = app_routes ! i" "j < length app_routes" "b = app_routes ! j"
    using assms(2,3) by (auto simp: in_set_conv_nth)
  with overlap sorted_wrt_nth_less [OF app_routes_apart, of i j] sorted_wrt_nth_less [OF app_routes_apart, of j i]
  show ?thesis by (cases i j rule: linorder_cases) auto
qed

theorem at_most_one_handler_witness:
  "let matches = (\<lambda>rule path. list_all2 part_fits rule (tl (py_split (CHR ''/'') path))) in
   \<forall>r \<in> set app_routes. ro_method r = ''GET'' \<and> matches (ro_rule r) ''/blocklists/search'' \<longrightarrow> ro_handler r = ''search_blocklist_domains''"
proof -
  let ?matches = "\<lambda>rule path. list_all2 part_fits rule (tl (py_split (CHR ''/'') path))"
  let ?search = "Route ''GET'' [Fixed ''blocklists'', Fixed ''search''] ''search_blocklist_domains''"
  have documented: "rules_documented ?matches" by (simp add: rules_documented_def)
  have search: "?search \<in> set app_routes" by (simp add: app_routes_def blocklists_routes_def)
  have path: "tl (py_split (CHR ''/'') ''/blocklists/search'') = [''blocklists'', ''search'']" by code_simp
  have "r = ?search" if "r \<in> set app_routes" "ro_method r = ''GET''" "?matches (ro_rule r) ''/blocklists/search''" for r
    by (rule at_most_one_handler [OF documented that(1) search _ _ that(3)]) (simp_all add: that(2) path)
  then have "ro_handler r = ''search_blocklist_domains''"
    if "r \<in> set app_routes" "ro_method r = ''GET'' \<and> ?matches (ro_rule r) ''/blocklists/search''" for r
    using that by fastforce
  then show ?thesis unfolding Let_def by blast
qed

end
