(* ===== verification/Spec2Isabelle.thy ===== *)
theory Spec2Isabelle
  imports ServerMain Interleaving Startup Pipelines ConfigRoutes ReportRoutes AppRoutes Routing DatabaseSetup Schemas Screening
begin

text \<open>
  The verification library of mirenai, a filtering DNS forwarder for a private network. The code lies under
  \<open>src/src/mirenai\<close>; file names below are relative to it.

  \<^bold>\<open>The program.\<close> The DNS process (\<open>workers/dns_server.py\<close>) drops the packets of untrusted networks and hands
  the others to the resolver (\<open>domain/resolver.py\<close>), which screens the name against the policies, the blocklists
  and the local zones of its configuration snapshot (\<open>domain/state.py\<close>) and answers from the local records, from
  the answer cache (\<open>domain/cache.py\<close>) or by an upstream. Each answered query is counted in in-memory buffers
  (\<open>domain/clientstats.py\<close> and its siblings, \<open>domain/hosts.py\<close>), which timers flush to SQLite tables
  (\<open>repository\<close>). A second and a third process download the blocklists and the zones
  (\<open>workers/blocklist_downloader.py\<close>, \<open>workers/local_zones.py\<close>). The API process (\<open>api\<close>) edits the configuration
  tables, which the DNS process reads again at every refresh, and reports the others.

  \<^bold>\<open>Foundations.\<close> \<open>Prelude\<close> has dictionaries as insertion-ordered association lists, the sums over rows that
  buffers and tables share, and Python's chunking; \<open>PyText\<close> and \<open>PyFloat\<close> have Python's string and number texts,
  \<open>IpAddr\<close> the part of \<open>ipaddress\<close> the code calls, \<open>UrlText\<close> that of \<open>urllib.parse\<close>, \<open>SearchText\<close> the \<open>LIKE\<close>
  filters.

  \<^bold>\<open>Deciding and answering.\<close> \<open>Policy\<close> (\<open>domain/policy.py\<close>), \<open>Blocklist\<close> (\<open>domain/blocklist.py\<close>), \<open>LocalZones\<close>
  (\<open>domain/localzones.py\<close>), \<open>Network\<close> (\<open>domain/network.py\<close>), \<open>TtlCache\<close> (\<open>domain/cache.py\<close>), \<open>RuntimeState\<close>
  (\<open>domain/state.py\<close>), \<open>DnsMessage\<close> (the messages, with the library \<open>dnslib\<close> as a record of functions),
  \<open>Resolver\<close> (\<open>domain/resolver.py\<close>) with its facts in \<open>ResolverFacts\<close> and its properties in \<open>Screening\<close>. The
  lemmas give reference definitions of the decisions, the frame of every step of the resolver, and what is
  answered, cached, forwarded and counted for each outcome of the screening. \<open>TtlCache\<close> refines a reference cache
  that numbers the uses of its entries, \<open>Network\<close> one that compares the leading bits of
  addresses.

  \<^bold>\<open>Counting.\<close> \<open>BufferSpec\<close> has the locales that the buffers share: \<open>flush_buffer\<close> (what a flush hands over and
  what a failing write keeps), \<open>keyed_buffer\<close> and \<open>counting_buffer\<close> (the rows are the exact counts), \<open>sink\<close> and
  \<open>pipeline\<close> (a buffer over a table, exact when the table loses nothing within its retention). \<open>Buffers\<close>,
  \<open>StatBuffers\<close> and \<open>Hosts\<close> model and interpret the buffers; \<open>Tables\<close> has the statements of the repositories on lists
  of rows and the locale \<open>counter_table\<close> of the upserted tables, a sublocale of \<open>sink\<close>; \<open>CounterTables\<close>,
  \<open>StatTables\<close>, \<open>CappedTables\<close>, \<open>QueryLogTable\<close> and \<open>HostTable\<close> interpret both on the model of each repository.
  \<open>NewDomains\<close>, \<open>EventTables\<close> and \<open>CacheMirror\<close> are the tables that are not counters. \<open>Pipelines\<close> states what the
  statistics promise from the query to the stored row.

  \<^bold>\<open>Configuring.\<close> \<open>PolicyTable\<close>, \<open>ConfigTables\<close>, \<open>SettingsTable\<close>, \<open>BlocklistStore\<close> and \<open>ZoneStore\<close> model the
  configuration repositories, \<open>Downloaders\<close> the two download workers, whose two transactions (the names, then the
  outcome) may fail separately, \<open>Sando\<close> the inventory client, \<open>Schemas\<close> the
  validation of requests (\<open>api/schemas.py\<close>, \<open>api/errors.py\<close>), \<open>ConfigRoutes\<close> and \<open>ReportRoutes\<close> every route,
  the former also an installation as a sequence of requests, reloads and new clients,
  \<open>AppRoutes\<close> the answers of the application itself and the health routes, and \<open>Routing\<close> the table of all routes that
  \<open>create_app\<close> registers, of which no two take the same request.

  \<^bold>\<open>Running.\<close> \<open>DnsServer\<close> models the request path and the background loops of the DNS process, \<open>Startup\<close> joins it
  with the tables through the loaders of \<open>_build_state\<close>, shows that the configuration in use is that of the tables at
  the last reload that found them ready, and follows a list and a zone from the downloaded text to the reply, and
  \<open>ServerMain\<close> is the process from start to end: what \<open>main\<close> builds, the bodies of its threads as events in any order, and the final flushes. The lemmas there read a
  run as a run of the buffers, so that the exactness of a pipeline becomes the exactness of the process. The packets
  there are handled in one go; \<open>Interleaving\<close> takes each apart into a thread, a program counter over its accesses to
  the snapshot, the cache and the buffers, and lets the threads, the reloads and the flushes take steps in any
  order. A lemma checks that a thread alone is the handler of \<open>DnsServer\<close>; the properties are those that survive every
  interleaving: the exact counts, the refusal of names that all configurations refuse for the same reason, and the
  origin of what the cache holds. A query that meets a reload is the exception: it may mix two configurations.

  \<^bold>\<open>Setting up.\<close> \<open>Schema\<close> declares the columns and keys of every table of \<open>repository/models.py\<close>, \<open>DatabaseSetup\<close>
  models \<open>db.py\<close> over databases of untyped rows: creation, the migration of the old single database, which may fail
  at every table and is tried again, and the columns that later versions add. The rows of the other theories are the
  records that the object-relational mapping makes of these.

  \<^bold>\<open>Correspondence.\<close> A class is a record and a method a function of the record, named as in the source with the
  class as prefix where names clash; a table is the list of its rows in the order of the identifiers, and a new
  identifier is one more than the largest. A session commits as a whole or not at all: a write takes an argument
  that says whether it commits, and a constraint that fails is an error value. An exception is \<open>None\<close>, an \<open>Inl\<close>
  value or the reply \<open>Crashed\<close>. What the code reads from outside is an argument: the clocks, the network, the
  shuffle of equal upstreams, the order in which a set is listed, whether a commit succeeds, and \<open>dnslib\<close>. The
  methods that hold a lock are atomic: each holds the lock of its own object for one access and takes no other
  meanwhile. Where one releases it in between (the host tracker) the pieces are steps of an inductive relation, in
  which flushes may overlap, and where a packet makes several accesses (\<open>Interleaving\<close>) each is a step of its own, so
  that the properties hold in every interleaving.

  \<^bold>\<open>Idealisations.\<close> A string is a list of code points below 256; a date is an \<open>int\<close> of microseconds, a monotonic
  clock an \<open>int\<close> of nanoseconds, other floating-point numbers are rationals; the ISO text of a date is kept as the
  date (\<open>JTime\<close>). Integers of a column fit its 64 bits. The messages of failed validations are reduced to the
  name of the field. The log is left out.

  \<^bold>\<open>Loops.\<close> All loops of the code over data are structural recursions. A chain of local aliases is followed to
  the depth 8 of the source. A loop that waits for its stop event runs on the list of what it meets at its turns.
  The waits for the database, which may retry for ever, are the \<open>partial_function\<close> \<open>retry\<close> of \<open>Prelude\<close>: it returns
  exactly when an attempt succeeds, with the first that does. The start of the DNS process (\<open>Startup\<close>) and both
  downloaders (\<open>Downloaders\<close>) are instances.

  \<^bold>\<open>Not modelled.\<close> Sockets, signals and the request loops of \<open>dnslib\<close> and \<open>waitress\<close>; the packing and sending of a
  reply by \<open>dnslib\<close> once the resolver has returned it; the waiting for locks; a change of the tables between two
  loaders of one reload; what a timer reads while packets
  arrive is read at one moment, at its turn, and each request of the API runs alone; the reading of the environment
  in \<open>config.py\<close>; \<open>logging.py\<close> and all log output, the access log of \<open>api/app.py\<close> included; \<open>api_main.py\<close>, which hands
  the application to the server; the matching of paths by the framework, of which \<open>Routing\<close> assumes what is documented;
  pydantic's conversions from JSON, which the type of a request body stands for; indexes and the lengths of text
  columns; the quoting of identifiers.
\<close>

end
